(* ===== verification/C_Prelude.thy ===== *)
theory C_Prelude
  imports Complex_Main "HOL-Library.Word"
begin

text \<open>
  Shared vocabulary of the development: the machine integers and the C library calls the
  sources use. A C string is a \<open>string\<close> without its terminating NUL, and "the character
  at \<open>p\<close>" is \<open>hd_nul\<close>, which reads the terminator at the end. A raw buffer is a list
  of 8-bit words. The lemmas on prefixes, searches and digits are collected in
  \<open>c_string_simps\<close>, which the component theories hand to the simplifier.
\<close>

unbundle bit_operations_syntax

named_theorems c_string_simps \<open>rewrite rules for the C string calls\<close>
named_theorems c_int_simps \<open>rewrite rules for C integer conversions\<close>

type_synonym byte = "8 word"
type_synonym bytes = "byte list"

subsection \<open>Integer conversions\<close>

text \<open>Conversion of a mathematical integer to a two's complement type of \<open>w\<close> bits.\<close>

definition to_signed :: "nat \<Rightarrow> int \<Rightarrow> int" where
  "to_signed w x = (x + 2 ^ (w - 1)) mod 2 ^ w - 2 ^ (w - 1)"

abbreviation to_int32 :: "int \<Rightarrow> int" where
  "to_int32 \<equiv> to_signed 32"

abbreviation INT_MAX :: int where
  "INT_MAX \<equiv> 2147483647"

abbreviation LONG_MAX :: int where
  "LONG_MAX \<equiv> 9223372036854775807"

abbreviation LONG_MIN :: int where
  "LONG_MIN \<equiv> - 9223372036854775808"

abbreviation ULONG_MAX :: int where
  "ULONG_MAX \<equiv> 18446744073709551615"

text \<open>C's division and remainder truncate towards zero.\<close>

definition cdiv :: "int \<Rightarrow> int \<Rightarrow> int" where
  "cdiv a b = sgn a * sgn b * (\<bar>a\<bar> div \<bar>b\<bar>)"

definition cmod :: "int \<Rightarrow> int \<Rightarrow> int" where
  "cmod a b = a - cdiv a b * b"

lemma to_signed_id [c_int_simps]:
  assumes "0 < w" and "- (2 ^ (w - 1)) \<le> x" and "x < 2 ^ (w - 1)"
  shows "to_signed w x = x"
proof -
  have "(2::int) ^ w = 2 * 2 ^ (w - 1)"
    using assms(1) by (cases w) auto
  then have "(x + 2 ^ (w - 1)) mod 2 ^ w = x + 2 ^ (w - 1)"
    using assms by (intro mod_pos_pos_trivial) auto
  then show ?thesis by (simp add: to_signed_def)
qed

lemma cdiv_nonneg [c_int_simps]: "0 \<le> a \<Longrightarrow> 0 < b \<Longrightarrow> cdiv a b = a div b"
  by (cases "a = 0") (auto simp: cdiv_def)

lemma cmod_nonneg [c_int_simps]: "0 \<le> a \<Longrightarrow> 0 < b \<Longrightarrow> cmod a b = a mod b"
  by (simp add: cmod_def cdiv_nonneg minus_div_mult_eq_mod)

text \<open>
  A C \<open>double\<close> as far as the sources compare it: a comparison with NaN is false.
\<close>

datatype cdouble = NaN | MInf | Fin real | PInf

fun dbl_gt :: "cdouble \<Rightarrow> real \<Rightarrow> bool" where
  "dbl_gt NaN y = False"
| "dbl_gt MInf y = False"
| "dbl_gt (Fin x) y = (x > y)"
| "dbl_gt PInf y = True"

fun dbl_ge :: "cdouble \<Rightarrow> real \<Rightarrow> bool" where
  "dbl_ge NaN y = False"
| "dbl_ge MInf y = False"
| "dbl_ge (Fin x) y = (x \<ge> y)"
| "dbl_ge PInf y = True"

subsection \<open>Words as bytes\<close>

lemma ucast_and_ff [simp]: "ucast (x AND 0xff :: 'a::len word) = (ucast x :: byte)"
proof -
  have "x AND 0xff = take_bit 8 x"
    by (simp add: take_bit_eq_mask mask_eq_exp_minus_1)
  then show ?thesis
    by (auto intro!: bit_word_eqI simp: bit_simps dest: bit_imp_le_length)
qed

lemma unat_byte_less [simp]: "unat (b :: byte) < 256"
  using unsigned_less [of b] by simp

lemma word_eq_byteI:
  fixes v w :: "'a::len word"
  assumes bytes: "\<And>k. 8 * k < LENGTH('a) \<Longrightarrow>
    (ucast (drop_bit (8 * k) v) :: byte) = ucast (drop_bit (8 * k) w)"
  shows "v = w"
proof (rule bit_word_eqI)
  fix n assume n: "n < LENGTH('a)"
  have "8 * (n div 8) < LENGTH('a)" using n by (rule le_less_trans [rotated]) simp
  then have "bit (ucast (drop_bit (8 * (n div 8)) v) :: byte) (n mod 8)
           = bit (ucast (drop_bit (8 * (n div 8)) w) :: byte) (n mod 8)"
    by (simp add: bytes)
  then show "bit v n = bit w n"
    by (simp add: bit_simps)
qed

lemma take_drop_4:
  "take a xs @ take b (drop a xs) @ take c (drop (a + b) xs) @ drop (a + b + c) xs = xs"
proof -
  have "take c (drop (a + b) xs) @ drop (a + b + c) xs = drop (a + b) xs"
    using append_take_drop_id [of c "drop (a + b) xs"] by (simp add: ac_simps)
  moreover have "take b (drop a xs) @ drop (a + b) xs = drop a xs"
    using append_take_drop_id [of b "drop a xs"] by (simp add: ac_simps)
  ultimately show ?thesis by simp
qed

subsection \<open>C strings\<close>

abbreviation NUL :: char where
  "NUL \<equiv> CHR 0x00"

text \<open>The character a pointer to the string reads: the terminator at the end.\<close>

definition hd_nul :: "string \<Rightarrow> char" where
  "hd_nul s = (case s of [] \<Rightarrow> NUL | c # _ \<Rightarrow> c)"

text \<open>\<open>strncmp (p, s, strlen p) == 0\<close>\<close>

definition has_prefix :: "string \<Rightarrow> string \<Rightarrow> bool" where
  "has_prefix p s \<longleftrightarrow> take (length p) s = p"

text \<open>\<open>strstr\<close>: the rest of the haystack from the first occurrence on.\<close>

fun strstr :: "string \<Rightarrow> string \<Rightarrow> string option" where
  "strstr [] needle = (if needle = [] then Some [] else None)"
| "strstr (c # cs) needle =
     (if has_prefix needle (c # cs) then Some (c # cs) else strstr cs needle)"

text \<open>\<open>strchr\<close> for a character other than NUL.\<close>

fun strchr :: "string \<Rightarrow> char \<Rightarrow> string option" where
  "strchr [] x = None"
| "strchr (c # cs) x = (if c = x then Some (c # cs) else strchr cs x)"

text \<open>
  \<open>snprintf\<close> into a buffer of \<open>cap\<close> bytes: what the buffer then holds as a C string.
  Its return value is the length of the untruncated text.
\<close>

definition snprintf_buf :: "nat \<Rightarrow> string \<Rightarrow> string" where
  "snprintf_buf cap s = take (cap - 1) s"

definition byte_of_char :: "char \<Rightarrow> byte" where
  "byte_of_char c = of_nat (of_char c)"

definition char_of_byte :: "byte \<Rightarrow> char" where
  "char_of_byte b = char_of (unat b)"

definition bytes_of_string :: "string \<Rightarrow> bytes" where
  "bytes_of_string s = map byte_of_char s"

lemma char_of_byte_of_char [simp]: "char_of_byte (byte_of_char c) = c"
proof -
  have "(of_char c :: nat) < 256" by simp
  then have "unat (of_nat (of_char c) :: byte) = of_char c"
    by (simp add: unat_of_nat)
  then show ?thesis by (simp add: char_of_byte_def byte_of_char_def)
qed

lemma byte_of_char_inj [simp]: "byte_of_char a = byte_of_char b \<longleftrightarrow> a = b"
  by (metis char_of_byte_of_char)

lemma bytes_of_string_inj [simp]: "bytes_of_string s = bytes_of_string t \<longleftrightarrow> s = t"
  by (simp add: bytes_of_string_def inj_map_eq_map inj_def)

lemma length_bytes_of_string [simp]: "length (bytes_of_string s) = length s"
  by (simp add: bytes_of_string_def)

lemma has_prefix_append [c_string_simps, simp]: "has_prefix p (p @ s)"
  by (simp add: has_prefix_def)

lemma has_prefix_iff: "has_prefix p s \<longleftrightarrow> (\<exists>r. s = p @ r)"
  by (metis append_take_drop_id append_eq_conv_conj has_prefix_def)

lemma has_prefix_Nil [simp]: "has_prefix [] s"
  by (simp add: has_prefix_def)

lemma has_prefix_Cons [simp]: "has_prefix (c # p) (d # s) \<longleftrightarrow> c = d \<and> has_prefix p s"
  by (auto simp: has_prefix_def)

lemma has_prefix_Nil2 [simp]: "has_prefix p [] \<longleftrightarrow> p = []"
  by (auto simp: has_prefix_def)

lemma strstr_Some: "strstr s n = Some t \<Longrightarrow> \<exists>p. s = p @ t \<and> has_prefix n t"
proof (induction s)
  case Nil
  then show ?case by (auto split: if_splits)
next
  case (Cons c cs)
  show ?case
  proof (cases "has_prefix n (c # cs)")
    case True
    with Cons.prems show ?thesis by auto
  next
    case False
    with Cons obtain p where "cs = p @ t" "has_prefix n t" by auto
    then have "c # cs = (c # p) @ t \<and> has_prefix n t" by simp
    then show ?thesis by blast
  qed
qed

lemma strstr_prefix [c_string_simps]: "strstr (n @ t) n = Some (n @ t)"
  by (metis has_prefix_append append_is_Nil_conv list.exhaust strstr.simps)

lemma strchr_Some: "strchr s x = Some t \<Longrightarrow> \<exists>p r. s = p @ x # r \<and> t = x # r \<and> x \<notin> set p"
proof (induction s)
  case Nil
  then show ?case by simp
next
  case (Cons c cs)
  show ?case
  proof (cases "c = x")
    case True
    with Cons.prems show ?thesis by fastforce
  next
    case False
    with Cons obtain p r where "cs = p @ x # r" "t = x # r" "x \<notin> set p" by auto
    with False have "c # cs = (c # p) @ x # r \<and> t = x # r \<and> x \<notin> set (c # p)" by simp
    then show ?thesis by blast
  qed
qed

lemma strchr_None [c_string_simps]: "strchr s x = None \<longleftrightarrow> x \<notin> set s"
  by (induction s) auto

lemma length_snprintf_buf [simp]: "length (snprintf_buf cap s) = min (length s) (cap - 1)"
  by (simp add: snprintf_buf_def)

lemma snprintf_buf_fits [c_string_simps]: "length s < cap \<Longrightarrow> snprintf_buf cap s = s"
  by (simp add: snprintf_buf_def)

subsection \<open>Decimal printing and the strtol family\<close>

text \<open>\<open>isspace\<close> in the C locale.\<close>

definition isspace :: "char \<Rightarrow> bool" where
  "isspace c \<longleftrightarrow> c = CHR '' '' \<or> (let n = of_char c :: nat in 9 \<le> n \<and> n \<le> 13)"

definition digit_val :: "char \<Rightarrow> nat option" where
  "digit_val c =
     (let n = of_char c :: nat
      in if 48 \<le> n \<and> n \<le> 57 then Some (n - 48)
         else if 97 \<le> n \<and> n \<le> 122 then Some (n - 87)
         else if 65 \<le> n \<and> n \<le> 90 then Some (n - 55)
         else None)"

definition digit_in :: "nat \<Rightarrow> char \<Rightarrow> nat option" where
  "digit_in base c =
     (case digit_val c of None \<Rightarrow> None | Some d \<Rightarrow> if d < base then Some d else None)"

fun scan_digits :: "nat \<Rightarrow> nat \<Rightarrow> string \<Rightarrow> nat \<times> string" where
  "scan_digits base acc [] = (acc, [])"
| "scan_digits base acc (c # cs) =
     (case digit_in base c of
        None \<Rightarrow> (acc, c # cs)
      | Some d \<Rightarrow> scan_digits base (acc * base + d) cs)"

definition starts_with_digit :: "nat \<Rightarrow> string \<Rightarrow> bool" where
  "starts_with_digit base s = (case s of [] \<Rightarrow> False | c # _ \<Rightarrow> digit_in base c \<noteq> None)"

definition skip_sign :: "string \<Rightarrow> bool \<times> string" where
  "skip_sign s =
     (case s of
        [] \<Rightarrow> (False, [])
      | c # cs \<Rightarrow> if c = CHR ''-'' then (True, cs) else if c = CHR ''+'' then (False, cs)
                  else (False, c # cs))"

text \<open>In base 16 an optional \<open>0x\<close> is skipped where a hexadecimal digit follows it.\<close>

definition skip_0x :: "nat \<Rightarrow> string \<Rightarrow> string" where
  "skip_0x base s =
     (if base = 16 \<and> (has_prefix ''0x'' s \<or> has_prefix ''0X'' s)
         \<and> starts_with_digit 16 (drop 2 s)
      then drop 2 s else s)"

text \<open>
  The subject sequence of the \<open>strtol\<close> family: sign, magnitude and the rest
  (\<open>endptr\<close>); \<open>None\<close> where no conversion is possible and \<open>endptr\<close> is the start.
\<close>

definition strto_subject :: "nat \<Rightarrow> string \<Rightarrow> (bool \<times> nat \<times> string) option" where
  "strto_subject base s =
     (let (neg, s1) = skip_sign (dropWhile isspace s); s2 = skip_0x base s1
      in if starts_with_digit base s2
         then let (n, rest) = scan_digits base 0 s2 in Some (neg, n, rest)
         else None)"

text \<open>Value, rest, and whether \<open>errno\<close> is set to ERANGE; \<open>long\<close> has 64 bits.\<close>

definition strtol :: "nat \<Rightarrow> string \<Rightarrow> int \<times> string \<times> bool" where
  "strtol base s =
     (case strto_subject base s of
        None \<Rightarrow> (0, s, False)
      | Some (neg, n, rest) \<Rightarrow>
          let v = (if neg then - int n else int n)
          in if v < LONG_MIN then (LONG_MIN, rest, True)
             else if v > LONG_MAX then (LONG_MAX, rest, True)
             else (v, rest, False))"

definition strtoul :: "nat \<Rightarrow> string \<Rightarrow> int \<times> string \<times> bool" where
  "strtoul base s =
     (case strto_subject base s of
        None \<Rightarrow> (0, s, False)
      | Some (neg, n, rest) \<Rightarrow>
          if int n > ULONG_MAX then (ULONG_MAX, rest, True)
          else ((if neg then (- int n) mod (ULONG_MAX + 1) else int n), rest, False))"

definition digit_char :: "nat \<Rightarrow> char" where
  "digit_char d = char_of (48 + d)"

fun nat_dec :: "nat \<Rightarrow> string" where
  "nat_dec n = (if n < 10 then [digit_char n] else nat_dec (n div 10) @ [digit_char (n mod 10)])"

declare nat_dec.simps [simp del]

text \<open>The \<open>%d\<close> and \<open>%ld\<close> conversions.\<close>

definition int_dec :: "int \<Rightarrow> string" where
  "int_dec i = (if i < 0 then CHR ''-'' # nat_dec (nat (- i)) else nat_dec (nat i))"

text \<open>The \<open>%x\<close> conversion, and zero padding on the left.\<close>

definition hex_digit :: "nat \<Rightarrow> char" where
  "hex_digit d = (if d < 10 then digit_char d else char_of (87 + d))"

fun hex_text :: "nat \<Rightarrow> string" where
  "hex_text n = (if n < 16 then [hex_digit n] else hex_text (n div 16) @ [hex_digit (n mod 16)])"

declare hex_text.simps [simp del]

definition pad_zero :: "nat \<Rightarrow> string \<Rightarrow> string" where
  "pad_zero n s = replicate (n - length s) (CHR ''0'') @ s"

lemma of_char_digit_char: "d < 10 \<Longrightarrow> (of_char (digit_char d) :: nat) = 48 + d"
  by (simp add: digit_char_def)

lemma digit_in_digit_char: "d < 10 \<Longrightarrow> digit_in 10 (digit_char d) = Some d"
  by (simp add: digit_in_def digit_val_def of_char_digit_char)

lemma digit_char_plain:
  assumes "d < 10"
  shows "digit_char d \<noteq> CHR ''-''" "digit_char d \<noteq> CHR ''+''" "\<not> isspace (digit_char d)"
proof -
  have n: "(of_char (digit_char d) :: nat) = 48 + d" by (rule of_char_digit_char [OF assms])
  show "digit_char d \<noteq> CHR ''-''" "digit_char d \<noteq> CHR ''+''" using n by auto
  have "digit_char d \<noteq> CHR '' ''" using n by auto
  then show "\<not> isspace (digit_char d)" by (simp add: isspace_def n)
qed

lemma isspace_minus [simp]: "\<not> isspace (CHR ''-'')"
  by code_simp

lemma nat_dec_head: "\<exists>d cs. d < 10 \<and> nat_dec n = digit_char d # cs"
proof (induction n rule: nat_dec.induct)
  case (1 n)
  show ?case
  proof (cases "n < 10")
    case True
    then show ?thesis by (subst nat_dec.simps) auto
  next
    case False
    with 1 show ?thesis by (subst nat_dec.simps) auto
  qed
qed

lemma scan_digits_append:
  "scan_digits base acc (xs @ ys) =
     (case scan_digits base acc xs of
        (a, []) \<Rightarrow> scan_digits base a ys
      | (a, r # rs) \<Rightarrow> (a, r # rs @ ys))"
  by (induction xs arbitrary: acc) (auto split: option.splits)

lemma scan_digits_nat_dec:
  "scan_digits 10 0 (nat_dec n @ rest) =
     (if starts_with_digit 10 rest then scan_digits 10 n rest else (n, rest))"
proof -
  have whole: "scan_digits 10 0 (nat_dec n) = (n, [])"
  proof (induction n rule: nat_dec.induct)
    case (1 n)
    show ?case
    proof (cases "n < 10")
      case True
      then show ?thesis by (subst nat_dec.simps) (simp add: digit_in_digit_char)
    next
      case False
      with 1 show ?thesis
        by (subst nat_dec.simps) (simp add: scan_digits_append digit_in_digit_char)
    qed
  qed
  show ?thesis
    by (cases rest) (auto simp: scan_digits_append whole starts_with_digit_def)
qed

lemma strto_subject_dec:
  assumes "\<not> starts_with_digit 10 rest"
  shows "strto_subject 10 (nat_dec n @ rest) = Some (False, n, rest)"
    "strto_subject 10 (CHR ''-'' # nat_dec n @ rest) = Some (True, n, rest)"
proof -
  obtain d cs where d: "d < 10" and n: "nat_dec n = digit_char d # cs"
    using nat_dec_head by blast
  have start: "starts_with_digit 10 (nat_dec n @ rest)"
    using d n by (simp add: starts_with_digit_def digit_in_digit_char)
  have ws: "dropWhile isspace (nat_dec n @ rest) = nat_dec n @ rest"
    using digit_char_plain [OF d] by (simp add: n)
  have sg: "skip_sign (nat_dec n @ rest) = (False, nat_dec n @ rest)"
    using digit_char_plain [OF d] by (simp add: n skip_sign_def)
  have ws': "dropWhile isspace (CHR ''-'' # nat_dec n @ rest) = CHR ''-'' # nat_dec n @ rest"
    by simp
  have sg': "skip_sign (CHR ''-'' # nat_dec n @ rest) = (True, nat_dec n @ rest)"
    by (simp add: skip_sign_def)
  show "strto_subject 10 (nat_dec n @ rest) = Some (False, n, rest)"
    "strto_subject 10 (CHR ''-'' # nat_dec n @ rest) = Some (True, n, rest)"
    by (simp_all add: strto_subject_def ws sg ws' sg' skip_0x_def start scan_digits_nat_dec assms)
qed

lemma strtol_int_dec:
  assumes "LONG_MIN \<le> i" "i \<le> LONG_MAX" "\<not> starts_with_digit 10 rest"
  shows "strtol 10 (int_dec i @ rest) = (i, rest, False)" "strto_subject 10 (int_dec i @ rest) \<noteq> None"
  using assms(1,2) strto_subject_dec [OF assms(3)] by (auto simp: strtol_def int_dec_def)

lemma nat_dec_digits: "set (nat_dec n) \<subseteq> digit_char ` {..<10}"
proof (induction n rule: nat_dec.induct)
  case (1 n)
  then show ?case by (subst nat_dec.simps) auto
qed

lemma int_dec_digits: "set (int_dec i) \<subseteq> insert (CHR ''-'') (digit_char ` {..<10})"
  using nat_dec_digits by (auto simp: int_dec_def)

lemma int_dec_not_Nil [simp]: "int_dec i \<noteq> []"
  using nat_dec_head by (auto simp: int_dec_def) (metis list.distinct(1))

text \<open>\<open>atoi\<close>, and \<open>sscanf\<close> with the format \<open>%d\<close>, as the C library derives them from \<open>strtol\<close>.\<close>

definition atoi :: "string \<Rightarrow> int" where
  "atoi s = to_int32 (fst (strtol 10 s))"

definition scan_d :: "string \<Rightarrow> int option" where
  "scan_d s = (case strto_subject 10 s of None \<Rightarrow> None | Some _ \<Rightarrow> Some (atoi s))"

text \<open>
  \<open>fgets\<close> with room for \<open>n\<close> characters before the terminator, on the characters still to come:
  the line, its newline included, and the rest. At the end of the input it returns nothing.
\<close>

fun fgets :: "nat \<Rightarrow> string \<Rightarrow> string \<times> string" where
  "fgets 0 s = ([], s)"
| "fgets (Suc n) [] = ([], [])"
| "fgets (Suc n) (c # s) =
     (if c = CHR 0x0A then ([c], s) else let (l, r) = fgets n s in (c # l, r))"

definition chop_nl :: "string \<Rightarrow> string" where
  "chop_nl buf = takeWhile (\<lambda>c. c \<noteq> CHR 0x0A) buf"

lemma fgets_split: "fst (fgets n s) @ snd (fgets n s) = s"
  by (induction n s rule: fgets.induct) (auto simp: case_prod_beta Let_def)

lemma fgets_length: "length (fst (fgets n s)) \<le> n"
  by (induction n s rule: fgets.induct) (auto simp: case_prod_beta Let_def)

lemma fgets_progress: "s \<noteq> [] \<Longrightarrow> 0 < n \<Longrightarrow> length (snd (fgets n s)) < length s"
proof -
  assume "s \<noteq> []" "0 < n"
  then have "fst (fgets n s) \<noteq> []" by (cases n; cases s) (auto simp: case_prod_beta Let_def)
  then have "0 < length (fst (fgets n s))" by simp
  moreover have "length (fst (fgets n s)) + length (snd (fgets n s)) = length s"
    using arg_cong [OF fgets_split [of n s], of length] by simp
  ultimately show ?thesis by linarith
qed

subsection \<open>State and errors\<close>

text \<open>
  A fallible operation on a state: it returns an error or a value, and the new state in
  both cases, since C code that returns early keeps the effects it had.
\<close>

type_synonym ('s, 'e, 'a) serr = "'s \<Rightarrow> ('e + 'a) \<times> 's"

definition sret :: "'a \<Rightarrow> ('s, 'e, 'a) serr" where
  "sret a s = (Inr a, s)"

definition sthrow :: "'e \<Rightarrow> ('s, 'e, 'a) serr" where
  "sthrow e s = (Inl e, s)"

definition sbind :: "('s, 'e, 'a) serr \<Rightarrow> ('a \<Rightarrow> ('s, 'e, 'b) serr) \<Rightarrow> ('s, 'e, 'b) serr" where
  "sbind m f s = (case m s of (Inl e, s') \<Rightarrow> (Inl e, s') | (Inr a, s') \<Rightarrow> f a s')"

definition sguard :: "bool \<Rightarrow> 'e \<Rightarrow> ('s, 'e, unit) serr" where
  "sguard b e = (if b then sret () else sthrow e)"

definition sget :: "('s \<Rightarrow> 'a) \<Rightarrow> ('s, 'e, 'a) serr" where
  "sget f s = (Inr (f s), s)"

definition smod :: "('s \<Rightarrow> 's) \<Rightarrow> ('s, 'e, unit) serr" where
  "smod f s = (Inr (), f s)"

text \<open>An operation without an error case, run inside the monad.\<close>

definition slift :: "('s \<Rightarrow> 'a \<times> 's) \<Rightarrow> ('s, 'e, 'a) serr" where
  "slift m s = (case m s of (a, s') \<Rightarrow> (Inr a, s'))"

text \<open>A fallible library call, and a call whose own error is replaced by the caller's.\<close>

definition sopt :: "'e \<Rightarrow> 'a option \<Rightarrow> ('s, 'e, 'a) serr" where
  "sopt e x = (case x of None \<Rightarrow> sthrow e | Some a \<Rightarrow> sret a)"

definition son_err :: "'f \<Rightarrow> ('s, 'e, 'a) serr \<Rightarrow> ('s, 'f, 'a) serr" where
  "son_err f m s = (case m s of (Inl _, s') \<Rightarrow> (Inl f, s') | (Inr a, s') \<Rightarrow> (Inr a, s'))"

lemmas serr_defs = sret_def sthrow_def sguard_def sget_def smod_def slift_def

lemma sbind_Inr_iff:
  "sbind m f s = (Inr b, s'') \<longleftrightarrow> (\<exists>a s'. m s = (Inr a, s') \<and> f a s' = (Inr b, s''))"
  by (auto simp: sbind_def split: prod.splits sum.splits)

lemma sguard_Inr_iff: "sguard b e s = (Inr u, s') \<longleftrightarrow> b \<and> s' = s"
  by (auto simp: serr_defs)

lemma sbind_Inl_iff:
  "sbind m f s = (Inl e, s'') \<longleftrightarrow>
     m s = (Inl e, s'') \<or> (\<exists>a s'. m s = (Inr a, s') \<and> f a s' = (Inl e, s''))"
  by (auto simp: sbind_def split: prod.splits sum.splits)

lemma sopt_Inr_iff: "sopt e x s = (Inr a, s') \<longleftrightarrow> x = Some a \<and> s' = s"
  by (auto simp: sopt_def serr_defs split: option.splits)

lemma son_err_Inr_iff: "son_err f m s = (Inr a, s') \<longleftrightarrow> m s = (Inr a, s')"
  by (auto simp: son_err_def split: prod.splits sum.splits)

lemma slift_Inr_iff: "slift m s = (Inr a, s') \<longleftrightarrow> m s = (a, s')"
  by (auto simp: slift_def split: prod.splits)

lemma sret_Inr_iff: "sret a s = (Inr b, s') \<longleftrightarrow> b = a \<and> s' = s"
  by (auto simp: serr_defs)

lemma sget_Inr_iff: "sget f s = (Inr b, s') \<longleftrightarrow> b = f s \<and> s' = s"
  by (auto simp: serr_defs)

lemma smod_Inr_iff: "smod f s = (Inr b, s') \<longleftrightarrow> s' = f s"
  by (auto simp: serr_defs)

lemma sthrow_Inr_iff: "sthrow e s = (Inr b, s') \<longleftrightarrow> False"
  by (auto simp: serr_defs)

lemmas serr_Inr = sbind_Inr_iff sguard_Inr_iff sopt_Inr_iff son_err_Inr_iff slift_Inr_iff
  sret_Inr_iff sget_Inr_iff smod_Inr_iff sthrow_Inr_iff

text \<open>Running a sequence forward.\<close>

lemma sbind_run: "m s = (Inr a, s') \<Longrightarrow> sbind m f s = f a s'"
  by (simp add: sbind_def)

lemma sopt_run: "sopt e (Some a) s = (Inr a, s)"
  by (simp add: sopt_def serr_defs)

text \<open>A relation between the states before and after that every run of an operation keeps.\<close>

definition keeps :: "('s \<Rightarrow> 's \<Rightarrow> bool) \<Rightarrow> ('s, 'e, 'a) serr \<Rightarrow> bool" where
  "keeps R m \<longleftrightarrow> (\<forall>s. R s (snd (m s)))"

lemma keeps_bind:
  assumes "transp R" and "keeps R m" and "\<And>a. keeps R (f a)"
  shows "keeps R (sbind m f)"
  unfolding keeps_def
proof
  fix s
  obtain r s' where ms: "m s = (r, s')" by (cases "m s")
  from assms(2) ms have "R s s'" by (metis keeps_def snd_conv)
  moreover have "\<And>a. R s' (snd (f a s'))" using assms(3) by (simp add: keeps_def)
  ultimately show "R s (snd (sbind m f s))"
    using assms(1) by (auto simp: sbind_def ms split: sum.splits dest: transpD)
qed

lemma keeps_pure:
  assumes "reflp R"
  shows "keeps R (sret a)" "keeps R (sthrow e)" "keeps R (sguard b e)" "keeps R (sget f)"
  using assms by (auto simp: keeps_def serr_defs reflp_def)

lemma keeps_sopt: "reflp R \<Longrightarrow> keeps R (sopt e x)"
  by (auto simp: sopt_def keeps_pure split: option.splits)

lemma snd_son_err [simp]: "snd (son_err e m s) = snd (m s)"
  by (auto simp: son_err_def split: prod.splits sum.splits)

lemma keeps_son_err: "keeps R m \<Longrightarrow> keeps R (son_err e m)"
  by (simp add: keeps_def snd_son_err)

lemma keeps_smod: "(\<And>s. R s (f s)) \<Longrightarrow> keeps R (smod f)"
  by (simp add: keeps_def serr_defs)

lemma keeps_slift: "(\<And>s. R s (snd (m s))) \<Longrightarrow> keeps R (slift m)"
  by (simp add: keeps_def slift_def case_prod_beta)

text \<open>The same for the runs that end in an error.\<close>

definition err_keeps :: "('s \<Rightarrow> 's \<Rightarrow> bool) \<Rightarrow> ('s, 'e, 'a) serr \<Rightarrow> bool" where
  "err_keeps R m \<longleftrightarrow> (\<forall>s e s'. m s = (Inl e, s') \<longrightarrow> R s s')"

lemma err_keeps_keeps: "keeps R m \<Longrightarrow> err_keeps R m"
  unfolding keeps_def err_keeps_def by (metis snd_conv)

lemma err_keeps_bind:
  assumes "transp R" "keeps R m" "\<And>a. err_keeps R (f a)"
  shows "err_keeps R (sbind m f)"
  using assms unfolding err_keeps_def keeps_def sbind_Inl_iff
  by (metis snd_conv transpD)

end
