(* ===== verification/Md5.thy ===== *)
theory Md5
  imports C_Prelude
begin

text \<open>
  \<open>md5.c\<close> on a little-endian machine: the context with its 64-bit bit count in two words, the
  buffering update, the final padding and the compression function with its sixty-four steps. The
  reference is the padded message cut into blocks; streaming a message in pieces of any size gives
  the digest of the whole.
\<close>

subsection \<open>The compression function\<close>

definition F1 :: "32 word \<Rightarrow> 32 word \<Rightarrow> 32 word \<Rightarrow> 32 word" where
  "F1 x y z = z XOR (x AND (y XOR z))"

definition F2 :: "32 word \<Rightarrow> 32 word \<Rightarrow> 32 word \<Rightarrow> 32 word" where
  "F2 x y z = F1 z x y"

definition F3 :: "32 word \<Rightarrow> 32 word \<Rightarrow> 32 word \<Rightarrow> 32 word" where
  "F3 x y z = x XOR y XOR z"

definition F4 :: "32 word \<Rightarrow> 32 word \<Rightarrow> 32 word \<Rightarrow> 32 word" where
  "F4 x y z = y XOR (x OR NOT z)"

definition rotl32 :: "nat \<Rightarrow> 32 word \<Rightarrow> 32 word" where
  "rotl32 s w = push_bit s w OR drop_bit (32 - s) w"

type_synonym md5_regs = "32 word \<times> 32 word \<times> 32 word \<times> 32 word"

text \<open>
  One step changes its first register and the next step is called with the registers turned by
  one, so that after four steps they are back in place.
\<close>

definition MD5STEP ::
  "(32 word \<Rightarrow> 32 word \<Rightarrow> 32 word \<Rightarrow> 32 word) \<Rightarrow> 32 word list \<Rightarrow> nat \<times> 32 word \<times> nat \<Rightarrow> md5_regs \<Rightarrow> md5_regs" where
  "MD5STEP f inw e r =
     (case (e, r) of ((i, k, s), (w, x, y, z)) \<Rightarrow>
        (z, rotl32 s (w + (f x y z + (inw ! i + k))) + x, x, y))"

text \<open>Input word, constant and rotation of the steps of the four rounds.\<close>

definition md5_round1 :: "(nat \<times> 32 word \<times> nat) list" where
  "md5_round1 =
     [(0, 0xd76aa478, 7), (1, 0xe8c7b756, 12), (2, 0x242070db, 17), (3, 0xc1bdceee, 22),
      (4, 0xf57c0faf, 7), (5, 0x4787c62a, 12), (6, 0xa8304613, 17), (7, 0xfd469501, 22),
      (8, 0x698098d8, 7), (9, 0x8b44f7af, 12), (10, 0xffff5bb1, 17), (11, 0x895cd7be, 22),
      (12, 0x6b901122, 7), (13, 0xfd987193, 12), (14, 0xa679438e, 17), (15, 0x49b40821, 22)]"

definition md5_round2 :: "(nat \<times> 32 word \<times> nat) list" where
  "md5_round2 =
     [(1, 0xf61e2562, 5), (6, 0xc040b340, 9), (11, 0x265e5a51, 14), (0, 0xe9b6c7aa, 20),
      (5, 0xd62f105d, 5), (10, 0x02441453, 9), (15, 0xd8a1e681, 14), (4, 0xe7d3fbc8, 20),
      (9, 0x21e1cde6, 5), (14, 0xc33707d6, 9), (3, 0xf4d50d87, 14), (8, 0x455a14ed, 20),
      (13, 0xa9e3e905, 5), (2, 0xfcefa3f8, 9), (7, 0x676f02d9, 14), (12, 0x8d2a4c8a, 20)]"

definition md5_round3 :: "(nat \<times> 32 word \<times> nat) list" where
  "md5_round3 =
     [(5, 0xfffa3942, 4), (8, 0x8771f681, 11), (11, 0x6d9d6122, 16), (14, 0xfde5380c, 23),
      (1, 0xa4beea44, 4), (4, 0x4bdecfa9, 11), (7, 0xf6bb4b60, 16), (10, 0xbebfbc70, 23),
      (13, 0x289b7ec6, 4), (0, 0xeaa127fa, 11), (3, 0xd4ef3085, 16), (6, 0x04881d05, 23),
      (9, 0xd9d4d039, 4), (12, 0xe6db99e5, 11), (15, 0x1fa27cf8, 16), (2, 0xc4ac5665, 23)]"

definition md5_round4 :: "(nat \<times> 32 word \<times> nat) list" where
  "md5_round4 =
     [(0, 0xf4292244, 6), (7, 0x432aff97, 10), (14, 0xab9423a7, 15), (5, 0xfc93a039, 21),
      (12, 0x655b59c3, 6), (3, 0x8f0ccc92, 10), (10, 0xffeff47d, 15), (1, 0x85845dd1, 21),
      (8, 0x6fa87e4f, 6), (15, 0xfe2ce6e0, 10), (6, 0xa3014314, 15), (13, 0x4e0811a1, 21),
      (4, 0xf7537e82, 6), (11, 0xbd3af235, 10), (2, 0x2ad7d2bb, 15), (9, 0xeb86d391, 21)]"

definition iputils_MD5Transform :: "md5_regs \<Rightarrow> 32 word list \<Rightarrow> md5_regs" where
  "iputils_MD5Transform buf inw =
     (case fold (MD5STEP F4 inw) md5_round4 (fold (MD5STEP F3 inw) md5_round3
             (fold (MD5STEP F2 inw) md5_round2 (fold (MD5STEP F1 inw) md5_round1 buf))) of
        (a, b, c, d) \<Rightarrow> (case buf of (a0, b0, c0, d0) \<Rightarrow> (a0 + a, b0 + b, c0 + c, d0 + d)))"

subsection \<open>The context\<close>

record md5_ctx =
  md_buf :: md5_regs
  md_bits0 :: "32 word"
  md_bits1 :: "32 word"
  md_in :: bytes

text \<open>The bytes of a word, and the sixteen words of a block, in the order of the machine.\<close>

definition le_bytes :: "32 word \<Rightarrow> bytes" where
  "le_bytes v = [ucast v, ucast (drop_bit 8 v), ucast (drop_bit 16 v), ucast (drop_bit 24 v)]"

fun le_words :: "bytes \<Rightarrow> 32 word list" where
  "le_words (a # b # c # d # bs) =
     (ucast a + 0x100 * ucast b + 0x10000 * ucast c + 0x1000000 * ucast d) # le_words bs"
| "le_words _ = []"

definition iputils_MD5Init :: "md5_ctx \<Rightarrow> md5_ctx" where
  "iputils_MD5Init ctx =
     ctx\<lparr>md_buf := (0x67452301, 0xefcdab89, 0x98badcfe, 0x10325476), md_bits0 := 0, md_bits1 := 0\<rparr>"

definition md5_block :: "bytes \<Rightarrow> md5_ctx \<Rightarrow> md5_ctx" where
  "md5_block blk ctx = ctx\<lparr>md_in := blk, md_buf := iputils_MD5Transform (md_buf ctx) (le_words blk)\<rparr>"

function md5_chunks :: "md5_ctx \<Rightarrow> bytes \<Rightarrow> md5_ctx" where
  "md5_chunks ctx data =
     (if 64 \<le> length data then md5_chunks (md5_block (take 64 data) ctx) (drop 64 data)
      else ctx\<lparr>md_in := data @ drop (length data) (md_in ctx)\<rparr>)"
  by pat_completeness auto
termination by (relation "measure (\<lambda>(_, d). length d)") auto

declare md5_chunks.simps [simp del]

definition md5_add_bits :: "nat \<Rightarrow> md5_ctx \<Rightarrow> md5_ctx" where
  "md5_add_bits len ctx =
     (let t = md_bits0 ctx; b0 = t + push_bit 3 (of_nat len);
          b1 = (if b0 < t then md_bits1 ctx + 1 else md_bits1 ctx)
      in ctx\<lparr>md_bits0 := b0, md_bits1 := b1 + drop_bit 29 (of_nat len)\<rparr>)"

definition iputils_MD5Update :: "md5_ctx \<Rightarrow> bytes \<Rightarrow> md5_ctx" where
  "iputils_MD5Update ctx data =
     (let len = length data;
          t = unat (drop_bit 3 (md_bits0 ctx) AND 0x3f);
          ctx1 = md5_add_bits len ctx
      in if t \<noteq> 0
         then (let room = 64 - t
               in if len < room
                  then ctx1\<lparr>md_in := take t (md_in ctx1) @ data @ drop (t + len) (md_in ctx1)\<rparr>
                  else md5_chunks (md5_block (take t (md_in ctx1) @ take room data) ctx1) (drop room data))
         else md5_chunks ctx1 data)"

definition iputils_MD5Final :: "md5_ctx \<Rightarrow> bytes" where
  "iputils_MD5Final ctx =
     (let count = unat (drop_bit 3 (md_bits0 ctx) AND 0x3f);
          head = take count (md_in ctx) @ [0x80];
          free = 64 - 1 - count;
          ctx1 = (if free < 8
                  then let c = md5_block (head @ replicate free 0) ctx
                       in c\<lparr>md_in := replicate 56 0 @ drop 56 (md_in c)\<rparr>
                  else ctx\<lparr>md_in := head @ replicate (free - 8) 0 @ drop 56 (md_in ctx)\<rparr>);
          ctx2 = md5_block (take 56 (md_in ctx1) @ le_bytes (md_bits0 ctx1) @ le_bytes (md_bits1 ctx1)) ctx1
      in case md_buf ctx2 of (a, b, c, d) \<Rightarrow> le_bytes a @ le_bytes b @ le_bytes c @ le_bytes d)"

subsection \<open>The reference\<close>

text \<open>The digest of a message: blocks of the message padded with a one bit, zeros and the
  64-bit count of its bits.\<close>

function md5_blocks :: "md5_regs \<Rightarrow> bytes \<Rightarrow> md5_regs" where
  "md5_blocks r msg =
     (if 64 \<le> length msg then md5_blocks (iputils_MD5Transform r (le_words (take 64 msg))) (drop 64 msg)
      else r)"
  by pat_completeness auto
termination by (relation "measure (\<lambda>(_, d). length d)") auto

declare md5_blocks.simps [simp del]

definition md5_pad :: "nat \<Rightarrow> bytes" where
  "md5_pad n =
     0x80 # replicate ((119 - n mod 64) mod 64) 0
     @ le_bytes (of_nat (8 * n)) @ le_bytes (of_nat (8 * n div 2 ^ 32))"

definition md5_iv :: md5_regs where
  "md5_iv = (0x67452301, 0xefcdab89, 0x98badcfe, 0x10325476)"

definition md5_digest :: "bytes \<Rightarrow> bytes" where
  "md5_digest msg =
     (case md5_blocks md5_iv (msg @ md5_pad (length msg)) of
        (a, b, c, d) \<Rightarrow> le_bytes a @ le_bytes b @ le_bytes c @ le_bytes d)"

subsection \<open>Blocks and remainders\<close>

definition rem64 :: "bytes \<Rightarrow> bytes" where
  "rem64 xs = drop (64 * (length xs div 64)) xs"

lemma length_rem64 [simp]: "length (rem64 xs) = length xs mod 64"
  by (simp add: rem64_def minus_mult_div_eq_mod)

lemma rem64_append: "length a mod 64 = 0 \<Longrightarrow> rem64 (a @ b) = rem64 b"
proof -
  assume "length a mod 64 = 0"
  then obtain k where k: "length a = 64 * k" by (auto simp: mod_eq_0_iff_dvd)
  then show ?thesis by (simp add: rem64_def)
qed

lemma rem64_short: "length xs < 64 \<Longrightarrow> rem64 xs = xs"
  by (simp add: rem64_def)

lemma md5_blocks_append:
  "length a mod 64 = 0 \<Longrightarrow> md5_blocks r (a @ b) = md5_blocks (md5_blocks r a) b"
proof (induction r a rule: md5_blocks.induct)
  case (1 r a)
  show ?case
  proof (cases "64 \<le> length a")
    case True
    then have "length (drop 64 a) mod 64 = 0" using 1(2) by (simp add: mod_eq_0_iff_dvd)
    with 1(1) [OF True] True show ?thesis
      by (simp add: md5_blocks.simps [of r "a @ b"] md5_blocks.simps [of r a])
  next
    case False
    with 1(2) have "a = []" by (cases a) auto
    then show ?thesis by (simp add: md5_blocks.simps [of r "[]"])
  qed
qed

lemma md5_split: obtains full where "msg = full @ rem64 msg" "length full mod 64 = 0"
proof
  show "msg = take (64 * (length msg div 64)) msg @ rem64 msg" by (simp add: rem64_def)
  show "length (take (64 * (length msg div 64)) msg) mod 64 = 0"
    using times_div_less_eq_dividend [of 64 "length msg"] by (simp add: min_absorb2)
qed

lemma md5_blocks_rem: "md5_blocks r (msg @ b) = md5_blocks (md5_blocks r msg) (rem64 msg @ b)"
proof -
  obtain full where f: "msg = full @ rem64 msg" "length full mod 64 = 0" by (rule md5_split)
  have "md5_blocks r msg = md5_blocks (md5_blocks r full) (rem64 msg)"
    by (subst f(1)) (rule md5_blocks_append [OF f(2)])
  also have "\<dots> = md5_blocks r full"
  proof -
    have "\<not> 64 \<le> length (rem64 msg)" by (simp add: not_le)
    then show ?thesis by (simp only: md5_blocks.simps [of "md5_blocks r full" "rem64 msg"] if_False)
  qed
  finally have "md5_blocks r msg = md5_blocks r full" .
  moreover have "md5_blocks r (full @ rem64 msg @ b) = md5_blocks (md5_blocks r full) (rem64 msg @ b)"
    by (rule md5_blocks_append [OF f(2)])
  ultimately show ?thesis using f(1) by (metis append.assoc)
qed

lemma rem64_rem: "rem64 (msg @ b) = rem64 (rem64 msg @ b)"
  by (metis append.assoc md5_split rem64_append)

lemma md5_chunks_props:
  assumes "length (md_in ctx) = 64"
  shows "md_buf (md5_chunks ctx data) = md5_blocks (md_buf ctx) data"
    "md_bits0 (md5_chunks ctx data) = md_bits0 ctx" "md_bits1 (md5_chunks ctx data) = md_bits1 ctx"
    "length (md_in (md5_chunks ctx data)) = 64"
    "take (length data mod 64) (md_in (md5_chunks ctx data)) = rem64 data"
  using assms
proof (induction ctx data rule: md5_chunks.induct)
  case (1 ctx data)
  {
    case 1
    then show ?case
      using "1.IH"(1)
      by (subst md5_chunks.simps, subst md5_blocks.simps) (simp add: md5_block_def)
  next
    case 2
    then show ?case
      using "1.IH"(2) by (subst md5_chunks.simps) (simp add: md5_block_def)
  next
    case 3
    then show ?case
      using "1.IH"(3) by (subst md5_chunks.simps) (simp add: md5_block_def)
  next
    case 4
    then show ?case
      using "1.IH"(4) by (subst md5_chunks.simps) (simp add: md5_block_def)
  next
    case 5
    show ?case
    proof (cases "64 \<le> length data")
      case True
      have "rem64 data = rem64 (drop 64 data)"
        using True rem64_append [of "take 64 data" "drop 64 data"] by simp
      moreover have "length (drop 64 data) mod 64 = length data mod 64"
        using True by (simp add: le_mod_geq)
      ultimately show ?thesis
        using "1.IH"(5) [OF True] True
        by (subst md5_chunks.simps) (simp add: md5_block_def)
    next
      case False
      with 5 show ?thesis by (subst md5_chunks.simps) (simp add: rem64_short)
    qed
  }
qed

subsection \<open>The bit count\<close>

lemma md5_count_bits: "unat (drop_bit 3 (of_nat (8 * n) :: 32 word) AND 0x3f) = n mod 64"
proof -
  define w :: "32 word" where "w = of_nat (8 * n)"
  have w: "unat w = 8 * n mod 2 ^ 32"
    unfolding w_def unsigned_of_nat take_bit_eq_mod by simp
  have "drop_bit 3 w AND 0x3f = take_bit 6 (drop_bit 3 w)"
    by (simp add: take_bit_eq_mask mask_eq_exp_minus_1)
  then have "unat (drop_bit 3 w AND 0x3f) = take_bit 6 (drop_bit 3 (take_bit LENGTH(32) (unat w)))"
    by (simp only: unsigned_take_bit_eq unsigned_drop_bit_eq)
  also have "\<dots> = 8 * n mod 2 ^ 32 div 2 ^ 3 mod 2 ^ 6"
    by (simp add: w take_bit_eq_mod drop_bit_eq_div)
  also have "8 * n mod 2 ^ 32 = 8 * (n mod 2 ^ 29)"
    using mult_mod_right [of 8 n "2 ^ 29"] by simp
  also have "8 * (n mod 2 ^ 29) div 2 ^ 3 mod 2 ^ 6 = n mod 64"
    by (simp add: mod_mod_cancel)
  finally show ?thesis by (simp only: w_def)
qed

lemma div_add_carry:
  fixes m a b :: nat
  assumes "0 < m"
  shows "(a + b) div m = a div m + b div m + (if (a + b) mod m < a mod m then 1 else 0)"
proof -
  have s: "(a + b) div m = a div m + b div m + (a mod m + b mod m) div m"
    by (rule div_add1_eq)
  have lt: "a mod m < m" "b mod m < m" using assms by simp_all
  show ?thesis
  proof (cases "a mod m + b mod m < m")
    case True
    then have "(a + b) mod m = a mod m + b mod m" by (metis mod_add_eq mod_less)
    with s True show ?thesis by simp
  next
    case False
    then have "m * 1 \<le> a mod m + b mod m" by simp
    moreover have "a mod m + b mod m < m * Suc 1"
      using add_strict_mono [OF lt] by (simp only: mult_Suc_right mult_1_right One_nat_def mult_0_right add_0_right)
    ultimately have "(a mod m + b mod m) div m = 1" by (rule div_nat_eqI)
    moreover have "(a + b) mod m = a mod m + b mod m - m"
    proof -
      have "(a mod m + b mod m) mod m = (a mod m + b mod m - m) mod m"
        using False by (intro le_mod_geq) (simp only: not_less)
      also have "\<dots> = a mod m + b mod m - m"
        using add_strict_mono [OF lt] False by (intro mod_less) linarith
      finally show ?thesis by (simp add: mod_add_eq)
    qed
    ultimately show ?thesis using s False lt by simp
  qed
qed

lemma md5_add_bits_count:
  assumes "md_bits0 ctx = of_nat (8 * n)" "md_bits1 ctx = of_nat (8 * n div 2 ^ 32)" "len < 2 ^ 32"
  shows "md_bits0 (md5_add_bits len ctx) = of_nat (8 * (n + len))"
    "md_bits1 (md5_add_bits len ctx) = of_nat (8 * (n + len) div 2 ^ 32)"
proof -
  define t :: "32 word" where "t = of_nat (8 * n)"
  define b0 :: "32 word" where "b0 = t + push_bit 3 (of_nat len)"
  have ut: "unat t = 8 * n mod 2 ^ 32"
    unfolding t_def unsigned_of_nat take_bit_eq_mod by simp
  have b0: "b0 = of_nat (8 * (n + len))"
    by (simp add: b0_def t_def push_bit_eq_mult algebra_simps)
  then have ub: "unat b0 = 8 * (n + len) mod 2 ^ 32"
    unfolding b0 unsigned_of_nat take_bit_eq_mod by simp
  have hi: "drop_bit 29 (of_nat len :: 32 word) = of_nat (8 * len div 2 ^ 32)"
  proof (rule word_unat_eq_iff [THEN iffD2])
    have "unat (of_nat len :: 32 word) = len"
      using assms(3) by (simp add: unsigned_of_nat take_bit_eq_mod)
    moreover have "8 * len div 2 ^ 32 = len div 2 ^ 29"
      using div_mult_mult1 [of 8 len "2 ^ 29"] by simp
    ultimately show "unat (drop_bit 29 (of_nat len :: 32 word)) = unat (of_nat (8 * len div 2 ^ 32) :: 32 word)"
      using assms(3)
      by (simp only: unsigned_drop_bit_eq) (simp add: drop_bit_eq_div unsigned_of_nat take_bit_eq_mod)
  qed
  have carry: "8 * (n + len) div 2 ^ 32 = 8 * n div 2 ^ 32 + 8 * len div 2 ^ 32
      + (if b0 < t then 1 else 0)"
    using div_add_carry [of "2 ^ 32" "8 * n" "8 * len"] by (simp add: word_less_nat_alt ut ub algebra_simps)
  show "md_bits0 (md5_add_bits len ctx) = of_nat (8 * (n + len))"
    using b0 assms(1) by (simp add: md5_add_bits_def Let_def b0_def t_def)
  show "md_bits1 (md5_add_bits len ctx) = of_nat (8 * (n + len) div 2 ^ 32)"
    unfolding carry using assms(1,2) hi
    by (simp add: md5_add_bits_def Let_def b0_def t_def)
qed

subsection \<open>Streaming\<close>

text \<open>The context after a message: blocks hashed, remainder buffered, bits counted.\<close>

definition md5_holds :: "md5_ctx \<Rightarrow> bytes \<Rightarrow> bool" where
  "md5_holds ctx msg \<longleftrightarrow>
     length (md_in ctx) = 64 \<and> md_bits0 ctx = of_nat (8 * length msg)
     \<and> md_bits1 ctx = of_nat (8 * length msg div 2 ^ 32)
     \<and> md_buf ctx = md5_blocks md5_iv msg
     \<and> take (length msg mod 64) (md_in ctx) = rem64 msg"

lemma md5_init_holds: "length (md_in ctx) = 64 \<Longrightarrow> md5_holds (iputils_MD5Init ctx) []"
  by (simp add: md5_holds_def iputils_MD5Init_def md5_iv_def md5_blocks.simps rem64_def)

lemma md5_add_bits_keeps [simp]:
  "md_in (md5_add_bits len ctx) = md_in ctx" "md_buf (md5_add_bits len ctx) = md_buf ctx"
  by (simp_all add: md5_add_bits_def Let_def)

lemma md5_update_holds:
  assumes "md5_holds ctx msg" "length data < 2 ^ 32"
  shows "md5_holds (iputils_MD5Update ctx data) (msg @ data)"
proof -
  define t where "t = length msg mod 64"
  define ctx1 where "ctx1 = md5_add_bits (length data) ctx"
  have h: "length (md_in ctx) = 64" "md_bits0 ctx = of_nat (8 * length msg)"
    "md_bits1 ctx = of_nat (8 * length msg div 2 ^ 32)"
    "md_buf ctx = md5_blocks md5_iv msg" "take t (md_in ctx) = rem64 msg"
    using assms(1) by (simp_all only: md5_holds_def t_def)
  have cnt: "unat (drop_bit 3 (md_bits0 ctx) AND 0x3f) = t"
    unfolding h(2) t_def by (rule md5_count_bits)
  have t: "t < 64" by (simp add: t_def)
  note bits = md5_add_bits_count [OF h(2,3) assms(2), folded ctx1_def]
  have in1: "md_in ctx1 = md_in ctx" "md_buf ctx1 = md_buf ctx" by (simp_all add: ctx1_def)
  have rem: "rem64 (msg @ data) = rem64 (rem64 msg @ data)" by (rule rem64_rem)
  have blk: "md5_blocks md5_iv (msg @ data) = md5_blocks (md_buf ctx) (rem64 msg @ data)"
    unfolding h(4) by (rule md5_blocks_rem)
  have len: "length (msg @ data) mod 64 = (t + length data) mod 64"
    by (simp add: t_def mod_add_left_eq)
  consider "t = 0" | "t \<noteq> 0" "length data < 64 - t" | "t \<noteq> 0" "64 - t \<le> length data" by linarith
  then show ?thesis
  proof cases
    case 1
    then have upd: "iputils_MD5Update ctx data = md5_chunks ctx1 data"
      unfolding iputils_MD5Update_def cnt by (simp add: ctx1_def Let_def)
    have "length (rem64 msg) = 0" using 1 by (simp add: t_def)
    then have "rem64 msg = []" by blast
    then show ?thesis
      unfolding md5_holds_def upd
      using md5_chunks_props [of ctx1 data] h(1) in1 bits rem blk len 1 by simp
  next
    case 2
    then have upd: "iputils_MD5Update ctx data
        = ctx1\<lparr>md_in := take t (md_in ctx1) @ data @ drop (t + length data) (md_in ctx1)\<rparr>"
      unfolding iputils_MD5Update_def cnt by (simp add: ctx1_def Let_def)
    have short: "length (rem64 msg @ data) < 64" using 2 by (simp add: t_def)
    then have "md5_blocks (md_buf ctx) (rem64 msg @ data) = md_buf ctx"
      by (simp only: md5_blocks.simps [of "md_buf ctx" "rem64 msg @ data"] not_le [symmetric] if_False)
    with short 2 show ?thesis
      unfolding md5_holds_def upd
      using h(1,5) in1 bits rem blk len t by (simp add: rem64_short t_def [symmetric])
  next
    case 3
    define first where "first = rem64 msg @ take (64 - t) data"
    have upd: "iputils_MD5Update ctx data = md5_chunks (md5_block first ctx1) (drop (64 - t) data)"
      unfolding iputils_MD5Update_def cnt using 3 h(5) in1 by (simp add: ctx1_def first_def Let_def)
    have lf: "length first = 64" using 3 t by (simp add: first_def t_def)
    have split: "rem64 msg @ data = first @ drop (64 - t) data" by (simp add: first_def)
    have "md5_blocks (md_buf ctx) (rem64 msg @ data)
        = md5_blocks (iputils_MD5Transform (md_buf ctx) (le_words first)) (drop (64 - t) data)"
      unfolding split by (subst md5_blocks.simps) (simp add: lf)
    moreover have "rem64 (rem64 msg @ data) = rem64 (drop (64 - t) data)"
      unfolding split by (rule rem64_append) (simp add: lf)
    moreover have "length (drop (64 - t) data) mod 64 = (t + length data) mod 64"
    proof -
      have "t + length data = length (drop (64 - t) data) + 64" using 3 t by simp
      then show ?thesis by (simp only: mod_add_self2)
    qed
    ultimately show ?thesis
      unfolding md5_holds_def upd
      using md5_chunks_props [of "md5_block first ctx1" "drop (64 - t) data"] lf in1 bits rem blk len
      by (simp add: md5_block_def)
  qed
qed

lemma md5_blocks_one:
  "length b = 64 \<Longrightarrow> md5_blocks r (b @ rest) = md5_blocks (iputils_MD5Transform r (le_words b)) rest"
  by (simp add: md5_blocks.simps [of r "b @ rest"])

lemma md5_blocks_nil [simp]: "md5_blocks r [] = r"
  by (simp add: md5_blocks.simps)

lemma length_le_bytes [simp]: "length (le_bytes v) = 4"
  by (simp add: le_bytes_def)

lemma md5_final_holds:
  assumes "md5_holds ctx msg"
  shows "iputils_MD5Final ctx = md5_digest msg"
proof -
  define c where "c = length msg mod 64"
  define lenb where "lenb = le_bytes (md_bits0 ctx) @ le_bytes (md_bits1 ctx)"
  have h: "length (md_in ctx) = 64" "md_bits0 ctx = of_nat (8 * length msg)"
    "md_bits1 ctx = of_nat (8 * length msg div 2 ^ 32)"
    "md_buf ctx = md5_blocks md5_iv msg" "take c (md_in ctx) = rem64 msg"
    using assms by (simp_all only: md5_holds_def c_def)
  have cnt: "unat (drop_bit 3 (md_bits0 ctx) AND 0x3f) = c"
    unfolding h(2) c_def by (rule md5_count_bits)
  have c: "c < 64" and lr: "length (rem64 msg) = c" and ll: "length lenb = 8"
    by (simp_all add: c_def lenb_def)
  have dig: "md5_blocks md5_iv (msg @ md5_pad (length msg))
      = md5_blocks (md_buf ctx) (rem64 msg @ 0x80 # replicate ((119 - c) mod 64) 0 @ lenb)"
    unfolding h(4) md5_blocks_rem [symmetric] lenb_def h(2,3) by (simp add: md5_pad_def c_def)
  let ?out = "\<lambda>r. case r of (a, b, cc, d) \<Rightarrow> le_bytes a @ le_bytes b @ le_bytes cc @ le_bytes d"
  show ?thesis
  proof (cases "63 - c < 8")
    case True
    define b1 where "b1 = rem64 msg @ 0x80 # replicate (63 - c) 0"
    have l1: "length b1 = 64" using c lr by (simp add: b1_def)
    have "(119 - c) mod 64 = (63 - c) + 56" using True c by simp
    then have "rem64 msg @ 0x80 # replicate ((119 - c) mod 64) 0 @ lenb
        = b1 @ (replicate 56 0 @ lenb) @ []"
      by (simp only: replicate_add b1_def) simp
    then have "md5_blocks md5_iv (msg @ md5_pad (length msg))
        = iputils_MD5Transform (iputils_MD5Transform (md_buf ctx) (le_words b1)) (le_words (replicate 56 0 @ lenb))"
      unfolding dig using l1 ll by (simp only: md5_blocks_one length_append length_replicate md5_blocks_nil)
    moreover have "iputils_MD5Final ctx = ?out (iputils_MD5Transform
        (iputils_MD5Transform (md_buf ctx) (le_words b1)) (le_words (replicate 56 0 @ lenb)))"
      unfolding iputils_MD5Final_def cnt using True h(5)
      by (simp add: Let_def md5_block_def b1_def lenb_def)
    ultimately show ?thesis by (simp add: md5_digest_def)
  next
    case False
    then have c56: "\<not> 56 \<le> c" by linarith
    define b1 where "b1 = rem64 msg @ 0x80 # replicate (55 - c) 0 @ lenb"
    have l1: "length b1 = 64" using False c lr ll by (simp add: b1_def)
    have "(119 - c) mod 64 = 55 - c" using False c by (simp add: le_mod_geq)
    then have "md5_blocks md5_iv (msg @ md5_pad (length msg)) = iputils_MD5Transform (md_buf ctx) (le_words b1)"
      unfolding dig using md5_blocks_one [OF l1, of "md_buf ctx" "[]"] by (simp add: b1_def)
    moreover have "iputils_MD5Final ctx = ?out (iputils_MD5Transform (md_buf ctx) (le_words b1))"
    proof -
      have "63 - c - 8 = 55 - c" by simp
      moreover have "length (rem64 msg @ 0x80 # replicate (55 - c) 0) = 56" using False c lr by simp
      ultimately show ?thesis
        unfolding iputils_MD5Final_def cnt using False h(5) lr c56
        by (simp add: Let_def md5_block_def b1_def lenb_def c_def [symmetric] take_Cons')
    qed
    ultimately show ?thesis by (simp add: md5_digest_def)
  qed
qed

lemma md5_stream_holds:
  assumes "list_all (\<lambda>d. length d < 2 ^ 32) ds" "md5_holds ctx msg"
  shows "md5_holds (fold (\<lambda>d c. iputils_MD5Update c d) ds ctx) (msg @ concat ds)"
  using assms
proof (induction ds arbitrary: ctx msg)
  case Nil
  then show ?case by simp
next
  case (Cons d ds)
  then have "md5_holds (iputils_MD5Update ctx d) (msg @ d)" by (simp add: md5_update_holds)
  with Cons show ?case by fastforce
qed

text \<open>
C14: Hashing a message in pieces of any sizes below 4 GiB, from a context that is freshly initialised
whatever it held before, gives the digest of the whole message: the MD5 of the padded message.
\<close>
theorem md5_streaming:
  assumes "length (md_in ctx) = 64" "list_all (\<lambda>d. length d < 2 ^ 32) ds"
  shows "iputils_MD5Final (fold (\<lambda>d c. iputils_MD5Update c d) ds (iputils_MD5Init ctx)) = md5_digest (concat ds)"
  using md5_final_holds [OF md5_stream_holds [OF assms(2) md5_init_holds [OF assms(1)]]] by simp

theorem md5_streaming_witness:
  "iputils_MD5Final (fold (\<lambda>d c. iputils_MD5Update c d) [[97], [98, 99]]
     (iputils_MD5Init \<lparr>md_buf = (0, 0, 0, 0), md_bits0 = 5, md_bits1 = 6, md_in = replicate 64 1\<rparr>))
   = md5_digest (concat [[97], [98, 99]])"
  by (rule md5_streaming) simp_all

definition md5_any :: md5_ctx where
  "md5_any = \<lparr>md_buf = (0, 0, 0, 0), md_bits0 = 0, md_bits1 = 0, md_in = replicate 64 0\<rparr>"

text \<open>
The test vectors of RFC 1321 for the empty message and for abc.
\<close>
lemma md5_rfc1321_vectors:
  "iputils_MD5Final (iputils_MD5Init md5_any)
     = [0xd4, 0x1d, 0x8c, 0xd9, 0x8f, 0x00, 0xb2, 0x04, 0xe9, 0x80, 0x09, 0x98, 0xec, 0xf8, 0x42, 0x7e]
   \<and> iputils_MD5Final (iputils_MD5Update (iputils_MD5Init md5_any) [0x61, 0x62, 0x63])
     = [0x90, 0x01, 0x50, 0x98, 0x3c, 0xd2, 0x4f, 0xb0, 0xd6, 0x96, 0x3f, 0x7d, 0x28, 0xe1, 0x7f, 0x72]"
  by code_simp

end
