(* ===== verification/Bl_Codec.thy ===== *)
theory Bl_Codec
  imports C_Prelude
begin

text \<open>
  Byte-level codecs of libbrightlink: the endian helpers of \<open>brightlink_crypto.c\<close> and the
  signed handshake transcript of \<open>brightlink.c\<close>. The transcript's fields have fixed widths,
  each behind a little-endian length prefix; the lemmas show that its length is the 238 bytes
  the protocol fixes and that it determines every field, which is what the bridge's signature
  over it relies on.
\<close>

subsection \<open>Endian helpers\<close>

definition blc_le32 :: "32 word \<Rightarrow> bytes" where
  "blc_le32 v =
     [ucast (v AND 0xff), ucast (drop_bit 8 v AND 0xff),
      ucast (drop_bit 16 v AND 0xff), ucast (drop_bit 24 v AND 0xff)]"

text \<open>The loop runs \<open>i\<close> from 7 down to 0 and writes \<open>out[7 - i]\<close>.\<close>

definition blc_be64 :: "64 word \<Rightarrow> bytes" where
  "blc_be64 v = map (\<lambda>i. ucast (drop_bit (i * 8) v AND 0xff)) (rev [0..<8])"

definition be32_ttl :: "32 word \<Rightarrow> bytes" where
  "be32_ttl v =
     [ucast (drop_bit 24 v AND 0xff), ucast (drop_bit 16 v AND 0xff),
      ucast (drop_bit 8 v AND 0xff), ucast (v AND 0xff)]"

lemma length_blc [simp]:
  "length (blc_le32 v) = 4" "length (blc_be64 w) = 8" "length (be32_ttl v) = 4"
  by (simp_all add: blc_le32_def blc_be64_def be32_ttl_def)

lemma blc_le32_inj [simp]: "blc_le32 v = blc_le32 w \<longleftrightarrow> v = w"
proof
  assume eq: "blc_le32 v = blc_le32 w"
  show "v = w"
  proof (rule word_eq_byteI)
    fix k assume "8 * k < LENGTH(32)"
    then have "k = 0 \<or> k = 1 \<or> k = 2 \<or> k = 3" by auto
    with eq show "(ucast (drop_bit (8 * k) v) :: byte) = ucast (drop_bit (8 * k) w)"
      by (auto simp: blc_le32_def)
  qed
qed simp

lemma be32_ttl_rev: "be32_ttl v = rev (blc_le32 v)"
  by (simp add: be32_ttl_def blc_le32_def)

lemma be32_ttl_inj [simp]: "be32_ttl v = be32_ttl w \<longleftrightarrow> v = w"
  by (simp add: be32_ttl_rev)

lemma blc_be64_inj [simp]: "blc_be64 v = blc_be64 w \<longleftrightarrow> v = w"
proof
  assume "blc_be64 v = blc_be64 w"
  then have eq: "\<And>k. k < 8 \<Longrightarrow> (ucast (drop_bit (k * 8) v) :: byte) = ucast (drop_bit (k * 8) w)"
    by (simp add: blc_be64_def)
  show "v = w"
    by (rule word_eq_byteI) (simp add: eq mult.commute)
qed simp

subsection \<open>The handshake transcript\<close>

abbreviation BL_CLIENT_NONCE_LEN :: nat where "BL_CLIENT_NONCE_LEN \<equiv> 16"
abbreviation BLC_PUB_UNCOMPRESSED :: nat where "BLC_PUB_UNCOMPRESSED \<equiv> 65"
abbreviation BL_SHARE_LEN :: nat where "BL_SHARE_LEN \<equiv> 32"
abbreviation BL_SESSION_ID_LEN :: nat where "BL_SESSION_ID_LEN \<equiv> 16"
abbreviation BL_SESSION_KEY_LEN :: nat where "BL_SESSION_KEY_LEN \<equiv> 32"
abbreviation BL_TRANSCRIPT_TOTAL_LEN :: nat where "BL_TRANSCRIPT_TOTAL_LEN \<equiv> 238"

definition BL_TRANSCRIPT_HEADER :: bytes where
  "BL_TRANSCRIPT_HEADER = bytes_of_string ''BrightLink v1 transcript'' @ [0]"

text \<open>
  \<open>bd_to_unix\<close> stands for the floating-point expression
  \<open>(int64_t)(issued_at_bd * 86400.0 + 0.5)\<close> of the source: the model is parametric in the
  arithmetic of \<open>double\<close>. The arrays are lists of at least the copied length.
\<close>

definition build_transcript ::
  "('d \<Rightarrow> 64 word) \<Rightarrow> bytes \<Rightarrow> bytes \<Rightarrow> bytes \<Rightarrow> bytes \<Rightarrow> bytes \<Rightarrow> 'd \<Rightarrow> 64 word \<Rightarrow> 32 word
   \<Rightarrow> bytes option" where
  "build_transcript bd_to_unix client_nonce client_pub65 client_share session_id bridge_share
     issued_at_bd bridge_issued_at_unix ttl_seconds =
     (let p = BL_TRANSCRIPT_HEADER
            @ blc_le32 16 @ take BL_CLIENT_NONCE_LEN client_nonce
            @ blc_le32 65 @ take 65 client_pub65
            @ blc_le32 32 @ take BL_SHARE_LEN client_share
            @ blc_le32 16 @ take BL_SESSION_ID_LEN session_id
            @ blc_le32 32 @ take BL_SHARE_LEN bridge_share
            @ blc_le32 8 @ blc_be64 (bd_to_unix issued_at_bd)
            @ blc_le32 8 @ blc_be64 bridge_issued_at_unix
            @ blc_le32 4 @ be32_ttl ttl_seconds
      in if length p = BL_TRANSCRIPT_TOTAL_LEN then Some p else None)"

lemma length_BL_TRANSCRIPT_HEADER [simp]: "length BL_TRANSCRIPT_HEADER = 25"
  by (simp add: BL_TRANSCRIPT_HEADER_def)

text \<open>The sizes of the arrays \<open>bl_register\<close> passes.\<close>

definition transcript_args_ok :: "bytes \<Rightarrow> bytes \<Rightarrow> bytes \<Rightarrow> bytes \<Rightarrow> bytes \<Rightarrow> bool" where
  "transcript_args_ok nonce pub share sid bshare \<longleftrightarrow>
     length nonce = 16 \<and> length pub = 65 \<and> length share = 32 \<and> length sid = 16
     \<and> length bshare = 32"

lemma build_transcript_Some:
  assumes "transcript_args_ok nonce pub share sid bshare"
  shows "\<exists>t. build_transcript f nonce pub share sid bshare bd ts ttl = Some t \<and> length t = 238"
  using assms by (simp add: build_transcript_def transcript_args_ok_def)

text \<open>
C7: The signed transcript has the 238 bytes the protocol fixes and determines every field: two
handshakes with the same transcript agree in nonce, client key, both shares, session identifier,
both issue times and lifetime.
\<close>
theorem build_transcript_injective:
  assumes "transcript_args_ok n1 p1 s1 i1 b1" and "transcript_args_ok n2 p2 s2 i2 b2"
  shows "\<exists>t. build_transcript f n1 p1 s1 i1 b1 d1 t1 l1 = Some t \<and> length t = BL_TRANSCRIPT_TOTAL_LEN
    \<and> (build_transcript f n2 p2 s2 i2 b2 d2 t2 l2 = Some t \<longleftrightarrow>
        n1 = n2 \<and> p1 = p2 \<and> s1 = s2 \<and> i1 = i2 \<and> b1 = b2 \<and> f d1 = f d2 \<and> t1 = t2 \<and> l1 = l2)"
  using assms by (auto simp: build_transcript_def transcript_args_ok_def)

theorem build_transcript_injective_witness:
  "\<exists>t. build_transcript (\<lambda>d. d) (replicate 16 1) (replicate 65 2) (replicate 32 3) (replicate 16 4)
      (replicate 32 5) 6 7 8 = Some t \<and> length t = BL_TRANSCRIPT_TOTAL_LEN
    \<and> (build_transcript (\<lambda>d. d) (replicate 16 1) (replicate 65 2) (replicate 32 3) (replicate 16 4)
      (replicate 32 5) 6 7 9 = Some t \<longleftrightarrow>
        replicate 16 (1::byte) = replicate 16 1 \<and> replicate 65 (2::byte) = replicate 65 2
        \<and> replicate 32 (3::byte) = replicate 32 3 \<and> replicate 16 (4::byte) = replicate 16 4
        \<and> replicate 32 (5::byte) = replicate 32 5 \<and> (6::64 word) = 6 \<and> (7::64 word) = 7
        \<and> (8::32 word) = 9)"
  by (rule build_transcript_injective) (simp_all add: transcript_args_ok_def)

end
