(* ===== verification/Base64.thy ===== *)
theory Base64
  imports C_Prelude
begin

text \<open>
  The contract of OpenSSL's \<open>EVP_EncodeBlock\<close> and \<open>EVP_DecodeBlock\<close>, which
  \<open>blc_b64encode\<close> and \<open>blc_b64decode\<close> call, as a locale: the encoder writes four characters per
  started group of three bytes and pads with \<open>=\<close>; the decoder does not trim, so it returns the
  bytes with one zero per padding character. The codec of RFC 4648 is an interpretation.
\<close>

definition b64_fill :: "bytes \<Rightarrow> nat" where
  "b64_fill bs = (3 - length bs mod 3) mod 3"

lemma group_arith: "4 * ((n + 2) div 3) * 3 div 4 = n + (3 - n mod 3) mod (3::nat)"
proof -
  obtain q r where n: "n = 3 * q + r" "r < 3"
    by (metis mod_less_divisor mult_div_mod_eq zero_less_numeral)
  have m: "n mod 3 = r" using n by simp
  have "r = 0 \<or> r = 1 \<or> r = 2" using n(2) by arith
  then have "3 * ((n + 2) div 3) = n + (3 - n mod 3) mod 3"
    unfolding m by (elim disjE) (simp_all add: n(1))
  then show ?thesis by simp
qed

definition b64_alphabet :: string where
  "b64_alphabet = ''ABCDEFGHIJKLMNOPQRSTUVWXYZabcdefghijklmnopqrstuvwxyz0123456789+/''"

locale evp_base64 =
  fixes enc :: "bytes \<Rightarrow> string" and dec :: "string \<Rightarrow> bytes option"
  assumes enc_length: "length (enc bs) = 4 * ((length bs + 2) div 3)"
    and enc_padding: "\<exists>body. enc bs = body @ replicate (b64_fill bs) (CHR ''='') \<and> CHR ''='' \<notin> set body"
    and enc_alphabet: "set (enc bs) \<subseteq> set (CHR ''='' # b64_alphabet)"
    and dec_enc: "dec (enc bs) = Some (bs @ replicate (b64_fill bs) 0)"
begin

lemma untrimmed_length: "length (enc bs) * 3 div 4 = length bs + b64_fill bs"
  by (simp only: enc_length b64_fill_def group_arith)

lemma fill_le: "b64_fill bs \<le> length (enc bs) * 3 div 4"
  by (simp only: untrimmed_length le_add2)

end

subsection \<open>The codec of RFC 4648\<close>

definition b64_char :: "nat \<Rightarrow> char" where
  "b64_char n = b64_alphabet ! n"

fun index_of :: "char \<Rightarrow> string \<Rightarrow> nat option" where
  "index_of x [] = None"
| "index_of x (c # cs) = (if c = x then Some 0 else map_option Suc (index_of x cs))"

definition b64_val :: "char \<Rightarrow> nat option" where
  "b64_val c = (if c = CHR ''='' then Some 0 else index_of c b64_alphabet)"

text \<open>The four sextets of three bytes, and the three bytes of four sextets.\<close>

definition sextet0 :: "byte \<Rightarrow> nat" where "sextet0 a = unat a div 4"
definition sextet1 :: "byte \<Rightarrow> byte \<Rightarrow> nat" where "sextet1 a b = unat a mod 4 * 16 + unat b div 16"
definition sextet2 :: "byte \<Rightarrow> byte \<Rightarrow> nat" where "sextet2 b c = unat b mod 16 * 4 + unat c div 64"
definition sextet3 :: "byte \<Rightarrow> nat" where "sextet3 c = unat c mod 64"

definition octet0 :: "nat \<Rightarrow> nat \<Rightarrow> byte" where "octet0 w x = of_nat (w * 4 + x div 16)"
definition octet1 :: "nat \<Rightarrow> nat \<Rightarrow> byte" where "octet1 x y = of_nat (x mod 16 * 16 + y div 4)"
definition octet2 :: "nat \<Rightarrow> nat \<Rightarrow> byte" where "octet2 y z = of_nat (y mod 4 * 64 + z)"

fun b64_enc :: "bytes \<Rightarrow> string" where
  "b64_enc [] = []"
| "b64_enc [a] = [b64_char (sextet0 a), b64_char (sextet1 a 0), CHR ''='', CHR ''='']"
| "b64_enc [a, b] =
     [b64_char (sextet0 a), b64_char (sextet1 a b), b64_char (sextet2 b 0), CHR ''='']"
| "b64_enc (a # b # c # bs) =
     [b64_char (sextet0 a), b64_char (sextet1 a b), b64_char (sextet2 b c),
      b64_char (sextet3 c)] @ b64_enc bs"

fun b64_dec :: "string \<Rightarrow> bytes option" where
  "b64_dec [] = Some []"
| "b64_dec (p # q # r # s # cs) =
     (case (b64_val p, b64_val q, b64_val r, b64_val s, b64_dec cs) of
        (Some w, Some x, Some y, Some z, Some bs) \<Rightarrow>
          Some (octet0 w x # octet1 x y # octet2 y z # bs)
      | _ \<Rightarrow> None)"
| "b64_dec _ = None"

lemma b64_char_val: "n < 64 \<Longrightarrow> b64_val (b64_char n) = Some n \<and> b64_char n \<noteq> CHR ''=''"
proof -
  have "list_all (\<lambda>n. b64_val (b64_char n) = Some n \<and> b64_char n \<noteq> CHR ''='') [0..<64]"
    by code_simp
  then show "n < 64 \<Longrightarrow> ?thesis" by (simp add: list_all_iff)
qed

lemma b64_val_pad [simp]: "b64_val (CHR ''='') = Some 0"
  by (simp add: b64_val_def)

lemma sextet_less [simp]: "sextet0 a < 64" "sextet1 a b < 64" "sextet2 b c < 64" "sextet3 c < 64"
proof -
  have "unat b div 16 < 16" by (simp add: less_mult_imp_div_less)
  moreover have "unat a mod 4 \<le> 3" using mod_less_divisor [of 4 "unat a"] by linarith
  ultimately show "sextet1 a b < 64" by (simp add: sextet1_def)
  have "unat c div 64 < 4" by (simp add: less_mult_imp_div_less)
  moreover have "unat b mod 16 \<le> 15" using mod_less_divisor [of 16 "unat b"] by linarith
  ultimately show "sextet2 b c < 64" by (simp add: sextet2_def)
qed (simp_all add: sextet0_def sextet3_def less_mult_imp_div_less)

lemma octet_sextet [simp]:
  "octet0 (sextet0 a) (sextet1 a b) = a" "octet1 (sextet1 a b) (sextet2 b c) = b"
  "octet2 (sextet2 b c) (sextet3 c) = c"
proof -
  have b: "unat b div 16 < 16" by (simp add: less_mult_imp_div_less)
  have c: "unat c div 64 < 4" by (simp add: less_mult_imp_div_less)
  have "unat a div 4 * 4 + (unat a mod 4 * 16 + unat b div 16) div 16 = unat a"
    using b by simp
  then show "octet0 (sextet0 a) (sextet1 a b) = a"
    by (simp only: octet0_def sextet0_def sextet1_def of_nat_unat ucast_id)
  have "(unat a mod 4 * 16 + unat b div 16) mod 16 * 16
      + (unat b mod 16 * 4 + unat c div 64) div 4 = unat b"
    using b c by simp
  then show "octet1 (sextet1 a b) (sextet2 b c) = b"
    by (simp only: octet1_def sextet1_def sextet2_def of_nat_unat ucast_id)
  have "(unat b mod 16 * 4 + unat c div 64) mod 4 * 64 + unat c mod 64 = unat c"
    using c by simp
  then show "octet2 (sextet2 b c) (sextet3 c) = c"
    by (simp only: octet2_def sextet2_def sextet3_def of_nat_unat ucast_id)
qed

lemma octet_pad [simp]: "octet1 (sextet1 a 0) 0 = 0" "octet2 (sextet2 b 0) 0 = 0" "octet2 0 0 = 0"
  by (simp_all add: octet1_def octet2_def sextet1_def sextet2_def)

lemma b64_enc_length: "length (b64_enc bs) = 4 * ((length bs + 2) div 3)"
proof (induction bs rule: b64_enc.induct)
  case (4 a b c bs)
  have "(length (a # b # c # bs) + 2) div 3 = Suc ((length bs + 2) div 3)" by simp
  with 4 show ?case by simp
qed simp_all

lemma b64_enc_padding:
  "\<exists>body. b64_enc bs = body @ replicate (b64_fill bs) (CHR ''='') \<and> CHR ''='' \<notin> set body"
proof (induction bs rule: b64_enc.induct)
  case (4 a b c bs)
  then obtain body where "b64_enc bs = body @ replicate (b64_fill bs) (CHR ''='')"
    "CHR ''='' \<notin> set body" by blast
  moreover have "b64_fill (a # b # c # bs) = b64_fill bs" by (simp add: b64_fill_def)
  ultimately show ?case
    using b64_char_val [of "sextet0 a"] b64_char_val [of "sextet1 a b"]
      b64_char_val [of "sextet2 b c"] b64_char_val [of "sextet3 c"]
    by (intro exI [of _ "[b64_char (sextet0 a), b64_char (sextet1 a b),
      b64_char (sextet2 b c), b64_char (sextet3 c)] @ body"]) auto
next
  case (2 a)
  then show ?case
    using b64_char_val [of "sextet0 a"] b64_char_val [of "sextet1 a 0"]
    by (intro exI [of _ "[b64_char (sextet0 a), b64_char (sextet1 a 0)]"])
       (auto simp: b64_fill_def numeral_2_eq_2)
next
  case (3 a b)
  then show ?case
    using b64_char_val [of "sextet0 a"] b64_char_val [of "sextet1 a b"] b64_char_val [of "sextet2 b 0"]
    by (intro exI [of _ "[b64_char (sextet0 a), b64_char (sextet1 a b), b64_char (sextet2 b 0)]"])
       (auto simp: b64_fill_def)
qed (simp add: b64_fill_def)

lemma b64_char_alphabet: "n < 64 \<Longrightarrow> b64_char n \<in> set b64_alphabet"
  unfolding b64_char_def by (rule nth_mem) (simp add: b64_alphabet_def)

lemma b64_enc_alphabet: "set (b64_enc bs) \<subseteq> set (CHR ''='' # b64_alphabet)"
  by (induction bs rule: b64_enc.induct) (auto simp: b64_char_alphabet)

lemma b64_dec_enc: "b64_dec (b64_enc bs) = Some (bs @ replicate (b64_fill bs) 0)"
proof (induction bs rule: b64_enc.induct)
  case 1
  show ?case by (simp add: b64_fill_def)
next
  case (2 a)
  show ?case by (simp add: b64_char_val b64_fill_def numeral_2_eq_2)
next
  case (3 a b)
  show ?case by (simp add: b64_char_val b64_fill_def)
next
  case (4 a b c bs)
  have "b64_fill (a # b # c # bs) = b64_fill bs" by (simp add: b64_fill_def)
  with 4 show ?case by (simp add: b64_char_val)
qed

interpretation rfc4648: evp_base64 b64_enc b64_dec
  by unfold_locales (rule b64_enc_length b64_enc_padding b64_enc_alphabet b64_dec_enc)+

end
