(* ===== verification/Bl_Crypto.thy ===== *)
theory Bl_Crypto
  imports Bl_Codec Base64
begin

text \<open>
  \<open>brightlink_crypto.c\<close>: the wrappers over OpenSSL and libsecp256k1. The two libraries are the
  fields of a record \<open>blc_env\<close> that every operation takes; a field returns \<open>None\<close> where the
  library call reports failure, and the EVP and EC call chains of one wrapper are one field that
  fails when any call of the chain does. \<open>malloc\<close> and \<open>RAND_bytes\<close> are asked by call number, so
  the environment can fail any of them. The operations run in the error monad over a state that
  holds these counters and the lazily created context; the client extends it. Erasure of stack
  buffers (\<open>OPENSSL_cleanse\<close>) has no observable result and is left out.
\<close>

subsection \<open>The libraries and the state\<close>

record blc_env =
  RAND_bytes :: "nat \<Rightarrow> nat \<Rightarrow> bytes option"
  malloc_ok :: "nat \<Rightarrow> bool"
  seckey_verify :: "bytes \<Rightarrow> bool"
  pubkey_create :: "bytes \<Rightarrow> bytes option"
  serialize_uncompressed :: "bytes \<Rightarrow> bytes option"
  serialize_compressed :: "bytes \<Rightarrow> bytes option"
  pubkey_parse :: "bytes \<Rightarrow> bytes option"
  ecdh_xy :: "bytes \<Rightarrow> bytes \<Rightarrow> (bytes \<times> bytes) option"
  hkdf_derive :: "bytes \<Rightarrow> bytes \<Rightarrow> bytes \<Rightarrow> nat \<Rightarrow> bytes option"
  gcm_seal :: "bytes \<Rightarrow> bytes \<Rightarrow> bytes \<Rightarrow> bytes \<Rightarrow> (bytes \<times> bytes) option"
  gcm_open :: "bytes \<Rightarrow> bytes \<Rightarrow> bytes \<Rightarrow> bytes \<Rightarrow> bytes \<Rightarrow> bytes option"
  oct2point :: "bytes \<Rightarrow> bytes option"
  ecdsa_verify :: "bytes \<Rightarrow> bytes \<Rightarrow> bytes \<Rightarrow> bool"
  ecdsa_sign :: "bytes \<Rightarrow> bytes \<Rightarrow> nat \<Rightarrow> bytes option"
  p256_generate :: "nat \<Rightarrow> (bytes \<times> bytes) option"
  EVP_EncodeBlock :: "bytes \<Rightarrow> string"
  EVP_DecodeBlock :: "string \<Rightarrow> bytes option"

record blc_state =
  secp_ready :: bool
  rand_n :: nat
  alloc_n :: nat

type_synonym ('z, 'a) blc = "('z blc_state_scheme, unit, 'a) serr"

definition rand_bytes :: "blc_env \<Rightarrow> nat \<Rightarrow> ('z, bytes) blc" where
  "rand_bytes env n s =
     (case RAND_bytes env (rand_n s) n of
        None \<Rightarrow> (Inl (), s\<lparr>rand_n := Suc (rand_n s)\<rparr>)
      | Some b \<Rightarrow> (Inr b, s\<lparr>rand_n := Suc (rand_n s)\<rparr>))"

definition malloc :: "blc_env \<Rightarrow> ('z, unit) blc" where
  "malloc env s =
     ((if malloc_ok env (alloc_n s) then Inr () else Inl ()), s\<lparr>alloc_n := Suc (alloc_n s)\<rparr>)"

subsection \<open>secp256k1\<close>

text \<open>The context is created once; blinding it draws from the generator and cannot fail.\<close>

definition blc_secp :: "blc_env \<Rightarrow> ('z, bool) blc" where
  "blc_secp env s =
     (if secp_ready s then (Inr True, s)
      else case malloc env s of
             (Inl _, s') \<Rightarrow> (Inr False, s')
           | (Inr _, s') \<Rightarrow> (Inr True, s'\<lparr>secp_ready := True, rand_n := Suc (rand_n s')\<rparr>))"

definition blc_ecdh_xonly_cb :: "bytes \<Rightarrow> bytes \<Rightarrow> bytes" where
  "blc_ecdh_xonly_cb x32 y32 = take 32 x32"

definition secp256k1_ecdh :: "blc_env \<Rightarrow> bytes \<Rightarrow> bytes \<Rightarrow> bytes option" where
  "secp256k1_ecdh env pk priv32 =
     (case ecdh_xy env pk priv32 of None \<Rightarrow> None | Some (x, y) \<Rightarrow> Some (blc_ecdh_xonly_cb x y))"

fun random_priv_loop :: "blc_env \<Rightarrow> nat \<Rightarrow> ('z, bytes) blc" where
  "random_priv_loop env 0 = sthrow ()"
| "random_priv_loop env (Suc attempts) =
     sbind (rand_bytes env 32) (\<lambda>priv32.
       if seckey_verify env priv32 then sret priv32 else random_priv_loop env attempts)"

definition blc_secp_random_priv :: "blc_env \<Rightarrow> ('z, bytes) blc" where
  "blc_secp_random_priv env =
     sbind (blc_secp env) (\<lambda>ctx. sbind (sguard ctx ()) (\<lambda>_. random_priv_loop env 16))"

definition blc_secp_pub_uncompressed :: "blc_env \<Rightarrow> bytes \<Rightarrow> ('z, bytes) blc" where
  "blc_secp_pub_uncompressed env priv32 =
     sbind (blc_secp env) (\<lambda>ctx.
     sbind (sguard ctx ()) (\<lambda>_.
     sbind (sopt () (pubkey_create env priv32)) (\<lambda>pk.
     sbind (sopt () (serialize_uncompressed env pk)) (\<lambda>pub65.
     sbind (sguard (length pub65 = 65) ()) (\<lambda>_. sret pub65)))))"

definition blc_secp_pub_compressed :: "blc_env \<Rightarrow> bytes \<Rightarrow> ('z, bytes) blc" where
  "blc_secp_pub_compressed env priv32 =
     sbind (blc_secp env) (\<lambda>ctx.
     sbind (sguard ctx ()) (\<lambda>_.
     sbind (sopt () (pubkey_create env priv32)) (\<lambda>pk.
     sbind (sopt () (serialize_compressed env pk)) (\<lambda>pub33.
     sbind (sguard (length pub33 = 33) ()) (\<lambda>_. sret pub33)))))"

subsection \<open>HKDF and AES-GCM\<close>

definition blc_hkdf_sha256 :: "blc_env \<Rightarrow> bytes \<Rightarrow> bytes \<Rightarrow> bytes \<Rightarrow> nat \<Rightarrow> bytes option" where
  "blc_hkdf_sha256 env ikm salt info out_len =
     (case hkdf_derive env ikm salt info out_len of
        None \<Rightarrow> None
      | Some out \<Rightarrow> if length out \<noteq> out_len then None else Some out)"

text \<open>Ciphertext and tag; the tag is the 16 bytes that \<open>EVP_CTRL_GCM_GET_TAG\<close> is asked for.\<close>

definition blc_aes_gcm_encrypt ::
  "blc_env \<Rightarrow> bytes \<Rightarrow> bytes \<Rightarrow> bytes \<Rightarrow> bytes \<Rightarrow> (bytes \<times> bytes) option" where
  "blc_aes_gcm_encrypt env key iv aad pt =
     (if length key \<noteq> 32 \<or> length iv \<noteq> 12 then None
      else case gcm_seal env key iv aad pt of
             None \<Rightarrow> None
           | Some (ct, tag) \<Rightarrow>
               if length ct \<noteq> length pt then None else Some (ct, take 16 tag))"

definition blc_aes_gcm_decrypt ::
  "blc_env \<Rightarrow> bytes \<Rightarrow> bytes \<Rightarrow> bytes \<Rightarrow> bytes \<Rightarrow> bytes \<Rightarrow> bytes option" where
  "blc_aes_gcm_decrypt env key iv aad ct tag =
     (if length key \<noteq> 32 \<or> length iv \<noteq> 12 then None
      else case gcm_open env key iv aad ct (take 16 tag) of
             None \<Rightarrow> None
           | Some pt \<Rightarrow> if length pt \<noteq> length ct then None else Some pt)"

subsection \<open>The DD-ECIES envelope\<close>

abbreviation DD_ECIES_VERSION_BYTE :: byte where "DD_ECIES_VERSION_BYTE \<equiv> 0x01"
abbreviation DD_ECIES_CIPHER_SUITE :: byte where "DD_ECIES_CIPHER_SUITE \<equiv> 0x01"
abbreviation DD_ECIES_TYPE_BASIC :: byte where "DD_ECIES_TYPE_BASIC \<equiv> 0x21"

definition DD_ECIES_HKDF_INFO :: bytes where
  "DD_ECIES_HKDF_INFO = bytes_of_string ''ecies-v2-key-derivation''"

definition ecies_aad :: "bytes \<Rightarrow> bytes" where
  "ecies_aad eph_pub =
     [DD_ECIES_VERSION_BYTE, DD_ECIES_CIPHER_SUITE, DD_ECIES_TYPE_BASIC] @ take 33 eph_pub"

definition blc_ecies_encrypt :: "blc_env \<Rightarrow> bytes \<Rightarrow> bytes \<Rightarrow> ('z, bytes) blc" where
  "blc_ecies_encrypt env recipient_pub65 plaintext =
     sbind (blc_secp_random_priv env) (\<lambda>eph_priv.
     sbind (blc_secp_pub_compressed env eph_priv) (\<lambda>eph_pub.
     sbind (blc_secp env) (\<lambda>_.
     sbind (sopt () (pubkey_parse env (take 65 recipient_pub65))) (\<lambda>peer_pk.
     sbind (sopt () (secp256k1_ecdh env peer_pk eph_priv)) (\<lambda>shared_x.
     sbind (sopt () (blc_hkdf_sha256 env shared_x [] DD_ECIES_HKDF_INFO 32)) (\<lambda>aes_key.
     sbind (rand_bytes env 12) (\<lambda>iv.
     sbind (malloc env) (\<lambda>_.
     sbind (sopt () (blc_aes_gcm_encrypt env aes_key iv (ecies_aad eph_pub) plaintext))
       (\<lambda>(ct, tag).
     sbind (malloc env) (\<lambda>_.
     sret ([DD_ECIES_VERSION_BYTE, DD_ECIES_CIPHER_SUITE, DD_ECIES_TYPE_BASIC]
           @ eph_pub @ iv @ tag @ ct)))))))))))"

definition blc_ecies_decrypt :: "blc_env \<Rightarrow> bytes \<Rightarrow> bytes \<Rightarrow> ('z, bytes) blc" where
  "blc_ecies_decrypt env recipient_priv32 envelope =
     sbind (sguard (64 \<le> length envelope) ()) (\<lambda>_.
     sbind (sguard (envelope ! 0 = DD_ECIES_VERSION_BYTE) ()) (\<lambda>_.
     sbind (sguard (envelope ! 1 = DD_ECIES_CIPHER_SUITE) ()) (\<lambda>_.
     sbind (sguard (envelope ! 2 = DD_ECIES_TYPE_BASIC) ()) (\<lambda>_.
     sbind (sguard (envelope ! 3 = 0x02 \<or> envelope ! 3 = 0x03) ()) (\<lambda>_.
     let eph_pub = take 33 (drop 3 envelope); iv = take 12 (drop 36 envelope);
         tag = take 16 (drop 48 envelope); ct = drop 64 envelope
     in
     sbind (blc_secp env) (\<lambda>_.
     sbind (sopt () (pubkey_parse env eph_pub)) (\<lambda>peer_pk.
     sbind (sopt () (secp256k1_ecdh env peer_pk recipient_priv32)) (\<lambda>shared_x.
     sbind (sopt () (blc_hkdf_sha256 env shared_x [] DD_ECIES_HKDF_INFO 32)) (\<lambda>aes_key.
     sbind (malloc env) (\<lambda>_.
     sopt () (blc_aes_gcm_decrypt env aes_key iv (ecies_aad eph_pub) ct tag)))))))))))"

subsection \<open>P-256\<close>

definition blc_verify_p256 :: "blc_env \<Rightarrow> bytes \<Rightarrow> bytes \<Rightarrow> bytes \<Rightarrow> bool" where
  "blc_verify_p256 env pub65 msg sig_der =
     (if pub65 ! 0 \<noteq> 0x04 then False
      else case oct2point env (take 65 pub65) of
             None \<Rightarrow> False
           | Some point \<Rightarrow> ecdsa_verify env point msg sig_der)"

definition blc_sign_p256 :: "blc_env \<Rightarrow> bytes \<Rightarrow> bytes \<Rightarrow> nat \<Rightarrow> bytes option" where
  "blc_sign_p256 env priv32 msg sig_cap = ecdsa_sign env (take 32 priv32) msg sig_cap"

text \<open>
  \<open>p256_generate\<close> gives the private scalar as \<open>BN_bn2bin\<close> writes it, without leading zeros,
  and the public point as \<open>EC_POINT_point2oct\<close> does.
\<close>

definition blc_p256_keygen :: "blc_env \<Rightarrow> ('z, bytes \<times> bytes) blc" where
  "blc_p256_keygen env =
     sbind (slift (\<lambda>s. (p256_generate env (rand_n s), s\<lparr>rand_n := Suc (rand_n s)\<rparr>))) (\<lambda>r.
     sbind (sopt () r) (\<lambda>(priv_bn, pub).
     sbind (sguard (\<not> (length priv_bn > 32 \<or> length priv_bn = 0)) ()) (\<lambda>_.
     sbind (sguard (length pub = 65) ()) (\<lambda>_.
     sret (replicate (32 - length priv_bn) 0 @ priv_bn, pub)))))"

subsection \<open>Base64\<close>

text \<open>
  The sizes are those of the callers, far below the range of \<open>int\<close>. The decoder keeps a scratch
  buffer of 8192 bytes and goes to the heap for more.
\<close>

definition blc_b64encode :: "blc_env \<Rightarrow> bytes \<Rightarrow> nat \<Rightarrow> string option" where
  "blc_b64encode env src dst_cap =
     (if 4 * ((length src + 2) div 3) + 1 > dst_cap then None else Some (EVP_EncodeBlock env src))"

definition b64_pad :: "string \<Rightarrow> nat" where
  "b64_pad src =
     (if 1 \<le> length src \<and> src ! (length src - 1) = CHR ''='' then 1 else 0)
     + (if 2 \<le> length src \<and> src ! (length src - 2) = CHR ''='' then 1 else 0)"

definition blc_b64decode :: "blc_env \<Rightarrow> string \<Rightarrow> nat \<Rightarrow> ('z, bytes) blc" where
  "blc_b64decode env src dst_cap =
     (let pad = b64_pad src; pre_trim = (length src * 3) div 4; real = pre_trim - pad
      in
      sbind (sguard (\<not> pre_trim < pad) ()) (\<lambda>_.
      sbind (sguard (\<not> real > dst_cap) ()) (\<lambda>_.
      sbind (if pre_trim > 8192 then malloc env else sret ()) (\<lambda>_.
      sbind (sopt () (EVP_DecodeBlock env src)) (\<lambda>out.
      sbind (sguard (length out = pre_trim) ()) (\<lambda>_. sret (take real out)))))))"

subsection \<open>What the code relies on\<close>

text \<open>
  Documented behaviour of libsecp256k1 and OpenSSL: a verified secret key has a public key, both
  serialisations of it have their fixed length and leading byte and parse back, both sides of a
  Diffie-Hellman exchange get the same 32-byte X coordinate, HKDF fills the requested length, and
  opening what AES-256-GCM sealed under the same key, IV and associated data gives the plaintext.
\<close>

definition secp_laws :: "blc_env \<Rightarrow> bool" where
  "secp_laws env \<longleftrightarrow>
     (\<forall>k. seckey_verify env k \<longrightarrow>
        (\<exists>pk c u. pubkey_create env k = Some pk
           \<and> serialize_compressed env pk = Some c \<and> length c = 33 \<and> c ! 0 \<in> {0x02, 0x03}
           \<and> pubkey_parse env c = Some pk
           \<and> serialize_uncompressed env pk = Some u \<and> length u = 65 \<and> u ! 0 = 0x04
           \<and> pubkey_parse env u = Some pk))
     \<and> (\<forall>a b pa pb. seckey_verify env a \<and> seckey_verify env b
          \<and> pubkey_create env a = Some pa \<and> pubkey_create env b = Some pb \<longrightarrow>
        (\<exists>x y y'. ecdh_xy env pa b = Some (x, y) \<and> ecdh_xy env pb a = Some (x, y')
           \<and> length x = 32))"

definition evp_laws :: "blc_env \<Rightarrow> bool" where
  "evp_laws env \<longleftrightarrow>
     (\<forall>ikm salt info. \<exists>out. hkdf_derive env ikm salt info 32 = Some out \<and> length out = 32)
     \<and> (\<forall>key iv aad pt. length key = 32 \<and> length iv = 12 \<longrightarrow>
        (\<exists>ct tag. gcm_seal env key iv aad pt = Some (ct, tag) \<and> length ct = length pt
           \<and> length tag = 16 \<and> gcm_open env key iv aad ct tag = Some pt))"

text \<open>
  A generator that answers, and whose answers from call \<open>r\<close> on hold a valid secret key within
  sixteen draws; \<open>malloc\<close> that answers.
\<close>

definition rng_answers :: "blc_env \<Rightarrow> nat \<Rightarrow> bool" where
  "rng_answers env r \<longleftrightarrow>
     (\<forall>i n. \<exists>b. RAND_bytes env i n = Some b \<and> length b = n)
     \<and> (\<exists>k<16. \<exists>b. RAND_bytes env (r + k) 32 = Some b \<and> seckey_verify env b)"

definition first_draw :: "'z blc_state_scheme \<Rightarrow> nat" where
  "first_draw s = (if secp_ready s then rand_n s else Suc (rand_n s))"

subsection \<open>Key generation\<close>

lemma malloc_answers: "\<forall>i. malloc_ok env i \<Longrightarrow> malloc env s = (Inr (), s\<lparr>alloc_n := Suc (alloc_n s)\<rparr>)"
  by (simp add: malloc_def)

lemma blc_secp_answers:
  assumes "\<forall>i. malloc_ok env i"
  shows "\<exists>s'. blc_secp env s = (Inr True, s') \<and> secp_ready s' \<and> rand_n s' = first_draw s"
  using assms by (auto simp: blc_secp_def malloc_answers first_draw_def)

lemma random_priv_valid:
  "random_priv_loop env m s = (Inr p, s') \<Longrightarrow> seckey_verify env p"
  by (induction m arbitrary: s) (auto simp: serr_Inr split: if_splits)

lemma random_priv_live:
  assumes "\<forall>i n. \<exists>b. RAND_bytes env i n = Some b"
    and "k < m" "RAND_bytes env (rand_n s + k) 32 = Some b" "seckey_verify env b"
  shows "\<exists>p s'. random_priv_loop env m s = (Inr p, s') \<and> (secp_ready s' \<longleftrightarrow> secp_ready s)"
  using assms(2-4)
proof (induction m arbitrary: k s)
  case 0
  then show ?case by simp
next
  case (Suc m)
  obtain p where p: "RAND_bytes env (rand_n s) 32 = Some p" using assms(1) by blast
  then have draw: "rand_bytes env 32 s = (Inr p, s\<lparr>rand_n := Suc (rand_n s)\<rparr>)"
    by (simp add: rand_bytes_def)
  show ?case
  proof (cases "seckey_verify env p")
    case True
    then show ?thesis by (simp add: sbind_def draw serr_defs)
  next
    case False
    with Suc.prems p have "k \<noteq> 0" by (cases k) auto
    with Suc.prems have "k - 1 < m" "RAND_bytes env (rand_n (s\<lparr>rand_n := Suc (rand_n s)\<rparr>) + (k - 1)) 32 = Some b"
      by auto
    from Suc.IH [OF this Suc.prems(3)] False show ?thesis by (simp add: sbind_def draw)
  qed
qed

lemma blc_secp_random_priv_live:
  assumes "rng_answers env (first_draw s)" "\<forall>i. malloc_ok env i"
  shows "\<exists>p s'. blc_secp_random_priv env s = (Inr p, s') \<and> seckey_verify env p \<and> secp_ready s'"
proof -
  obtain s1 where s1: "blc_secp env s = (Inr True, s1)" "secp_ready s1" "rand_n s1 = first_draw s"
    using blc_secp_answers [OF assms(2)] by blast
  from assms(1) obtain k b where "k < 16" "RAND_bytes env (rand_n s1 + k) 32 = Some b"
    "seckey_verify env b" by (auto simp: rng_answers_def s1(3))
  moreover have "\<forall>i n. \<exists>b. RAND_bytes env i n = Some b"
    using assms(1) unfolding rng_answers_def by metis
  ultimately obtain p s' where "random_priv_loop env 16 s1 = (Inr p, s')" "secp_ready s'"
    using random_priv_live s1(2) by blast
  with s1(1) show ?thesis
    using random_priv_valid by (auto simp: blc_secp_random_priv_def sbind_def sguard_def sret_def)
qed

subsection \<open>Envelopes\<close>

definition ecies_key :: "blc_env \<Rightarrow> bytes \<Rightarrow> bytes \<Rightarrow> bytes option" where
  "ecies_key env pk priv =
     (case secp256k1_ecdh env pk priv of
        None \<Rightarrow> None
      | Some x \<Rightarrow> blc_hkdf_sha256 env x [] DD_ECIES_HKDF_INFO 32)"

definition ecies_envelope :: "bytes \<Rightarrow> bytes \<Rightarrow> bytes \<Rightarrow> bytes \<Rightarrow> bytes" where
  "ecies_envelope eph_pub iv tag ct =
     [DD_ECIES_VERSION_BYTE, DD_ECIES_CIPHER_SUITE, DD_ECIES_TYPE_BASIC] @ eph_pub @ iv @ tag @ ct"

lemma blc_ecies_encrypt_Inr:
  assumes "blc_ecies_encrypt env pub pt s = (Inr e, s')"
  obtains eph pk c peer key iv tag ct
  where "seckey_verify env eph" "pubkey_create env eph = Some pk"
    "serialize_compressed env pk = Some c" "length c = 33"
    "pubkey_parse env (take 65 pub) = Some peer" "ecies_key env peer eph = Some key"
    "blc_aes_gcm_encrypt env key iv (ecies_aad c) pt = Some (ct, tag)"
    "e = ecies_envelope c iv tag ct"
proof -
  from assms show thesis
    unfolding blc_ecies_encrypt_def blc_secp_random_priv_def blc_secp_pub_compressed_def
    by (clarsimp simp: serr_Inr split: prod.splits)
       (rule that, auto simp: ecies_key_def ecies_envelope_def intro: random_priv_valid)
qed

lemma gcm_roundtrip:
  assumes "evp_laws env" "blc_aes_gcm_encrypt env key iv aad pt = Some (ct, tag)"
  shows "length iv = 12" "length tag = 16" "length ct = length pt"
    "blc_aes_gcm_decrypt env key iv aad ct tag = Some pt"
proof -
  from assms(2) have kl: "length key = 32" "length iv = 12"
    by (auto simp: blc_aes_gcm_encrypt_def split: if_splits)
  with assms(1) obtain ct' tag' where "gcm_seal env key iv aad pt = Some (ct', tag')"
    "length ct' = length pt" "length tag' = 16" "gcm_open env key iv aad ct' tag' = Some pt"
    unfolding evp_laws_def by metis
  with assms(2) kl show "length iv = 12" "length tag = 16" "length ct = length pt"
    "blc_aes_gcm_decrypt env key iv aad ct tag = Some pt"
    by (auto simp: blc_aes_gcm_encrypt_def blc_aes_gcm_decrypt_def)
qed

lemma ecies_envelope_parts:
  assumes "length c = 33" "length iv = 12" "length tag = 16"
  shows "length (ecies_envelope c iv tag ct) = 64 + length ct"
    "ecies_envelope c iv tag ct ! 0 = 0x01" "ecies_envelope c iv tag ct ! Suc 0 = 0x01"
    "ecies_envelope c iv tag ct ! 2 = 0x21" "ecies_envelope c iv tag ct ! 3 = c ! 0"
    "take 33 (drop 3 (ecies_envelope c iv tag ct)) = c"
    "take 12 (drop 36 (ecies_envelope c iv tag ct)) = iv"
    "take 16 (drop 48 (ecies_envelope c iv tag ct)) = tag"
    "drop 64 (ecies_envelope c iv tag ct) = ct"
  using assms by (auto simp: ecies_envelope_def nth_append)

lemma ecies_envelope_of_parts:
  assumes "64 \<le> length e" "e ! 0 = 0x01" "e ! 1 = 0x01" "e ! 2 = 0x21"
  shows "e = ecies_envelope (take 33 (drop 3 e)) (take 12 (drop 36 e)) (take 16 (drop 48 e)) (drop 64 e)"
proof -
  obtain a b c e' where e: "e = a # b # c # e'"
    using assms(1) by (cases e; cases "tl e"; cases "tl (tl e)") auto
  have "e' = take 33 e' @ take 12 (drop 33 e') @ take 16 (drop 45 e') @ drop 61 e'"
    using take_drop_4 [of 33 e' 12 16] by simp
  with e assms show ?thesis by (simp add: ecies_envelope_def)
qed

lemma blc_ecies_decrypt_run:
  assumes "length c = 33" "length iv = 12" "length tag = 16" "c ! 0 \<in> {0x02, 0x03}"
    and "pubkey_parse env c = Some pk" "ecies_key env pk priv = Some key"
    and "blc_aes_gcm_decrypt env key iv (ecies_aad c) ct tag = Some pt"
    and "\<forall>i. malloc_ok env i"
  shows "fst (blc_ecies_decrypt env priv (ecies_envelope c iv tag ct) t) = Inr pt"
proof -
  obtain t' where t': "blc_secp env t = (Inr True, t')" using blc_secp_answers [OF assms(8)] by blast
  obtain x where x: "secp256k1_ecdh env pk priv = Some x"
    "blc_hkdf_sha256 env x [] DD_ECIES_HKDF_INFO 32 = Some key"
    using assms(6) by (auto simp: ecies_key_def split: option.splits)
  show ?thesis
    using assms x
    by (auto simp: blc_ecies_decrypt_def ecies_envelope_parts sbind_def sopt_def t' malloc_answers
        serr_defs)
qed

lemma blc_ecies_decrypt_Inr:
  assumes "blc_ecies_decrypt env priv e t = (Inr pt, t')"
  obtains c iv tag ct pk key
  where "e = ecies_envelope c iv tag ct" "length c = 33" "length iv = 12" "length tag = 16"
    "c ! 0 \<in> {0x02, 0x03}" "pubkey_parse env c = Some pk" "ecies_key env pk priv = Some key"
    "blc_aes_gcm_decrypt env key iv (ecies_aad c) ct tag = Some pt"
proof -
  from assms have g: "64 \<le> length e" "e ! 0 = 0x01" "e ! 1 = 0x01" "e ! 2 = 0x21"
    and b3: "e ! 3 \<in> {0x02, 0x03}"
    by (auto simp: blc_ecies_decrypt_def Let_def serr_Inr)
  from assms obtain pk x key where "pubkey_parse env (take 33 (drop 3 e)) = Some pk"
    "secp256k1_ecdh env pk priv = Some x" "blc_hkdf_sha256 env x [] DD_ECIES_HKDF_INFO 32 = Some key"
    "blc_aes_gcm_decrypt env key (take 12 (drop 36 e)) (ecies_aad (take 33 (drop 3 e)))
       (drop 64 e) (take 16 (drop 48 e)) = Some pt"
    by (auto simp: blc_ecies_decrypt_def Let_def serr_Inr)
  with g b3 show thesis
    by (intro that [OF ecies_envelope_of_parts [OF g]]) (auto simp: ecies_key_def)
qed

lemma secp_pub:
  assumes "secp_laws env" "seckey_verify env k"
  obtains pk c u where "pubkey_create env k = Some pk" "serialize_compressed env pk = Some c"
    "length c = 33" "c ! 0 \<in> {0x02, 0x03}" "pubkey_parse env c = Some pk"
    "serialize_uncompressed env pk = Some u" "length u = 65" "u ! 0 = 0x04"
    "pubkey_parse env u = Some pk"
  using assms unfolding secp_laws_def by blast

lemma ecies_key_agree:
  assumes "secp_laws env" "evp_laws env" "seckey_verify env a" "seckey_verify env b"
    and "pubkey_create env a = Some pa" "pubkey_create env b = Some pb"
  shows "\<exists>key. ecies_key env pa b = Some key \<and> ecies_key env pb a = Some key \<and> length key = 32"
proof -
  obtain x y y' where x: "ecdh_xy env pa b = Some (x, y)" "ecdh_xy env pb a = Some (x, y')"
    using assms unfolding secp_laws_def by blast
  obtain key where "hkdf_derive env (take 32 x) [] DD_ECIES_HKDF_INFO 32 = Some key" "length key = 32"
    using assms(2) unfolding evp_laws_def by blast
  with x show ?thesis
    by (simp add: ecies_key_def secp256k1_ecdh_def blc_ecdh_xonly_cb_def blc_hkdf_sha256_def)
qed

lemma blc_ecies_encrypt_live:
  assumes "secp_laws env" "evp_laws env" "rng_answers env (first_draw s)" "\<forall>i. malloc_ok env i"
    and "seckey_verify env priv" "pubkey_create env priv = Some pk"
    and "pubkey_parse env (take 65 pub) = Some pk"
  shows "\<exists>e s'. blc_ecies_encrypt env pub pt s = (Inr e, s')"
proof -
  obtain eph s1 where eph: "blc_secp_random_priv env s = (Inr eph, s1)" "seckey_verify env eph"
    "secp_ready s1" using blc_secp_random_priv_live [OF assms(3,4)] by blast
  obtain pe c where c: "pubkey_create env eph = Some pe" "serialize_compressed env pe = Some c"
    "length c = 33" using secp_pub [OF assms(1) eph(2)] by metis
  have secp: "blc_secp env s1 = (Inr True, s1)" using eph(3) by (simp add: blc_secp_def)
  have pubc: "blc_secp_pub_compressed env eph s1 = (Inr c, s1)"
    using c by (simp add: blc_secp_pub_compressed_def sbind_def secp sopt_def serr_defs)
  obtain key where key: "ecies_key env pk eph = Some key" "length key = 32"
    using ecies_key_agree [OF assms(1,2,5) eph(2) assms(6) c(1)] by blast
  then obtain x where x: "secp256k1_ecdh env pk eph = Some x"
    "blc_hkdf_sha256 env x [] DD_ECIES_HKDF_INFO 32 = Some key"
    by (auto simp: ecies_key_def split: option.splits)
  obtain iv where iv: "RAND_bytes env (rand_n s1) 12 = Some iv" "length iv = 12"
    using assms(3) unfolding rng_answers_def by blast
  obtain ct tag where "gcm_seal env key iv (ecies_aad c) pt = Some (ct, tag)"
    "length ct = length pt" "length tag = 16"
    using assms(2) key(2) iv(2) unfolding evp_laws_def by metis
  then have "blc_aes_gcm_encrypt env key iv (ecies_aad c) pt = Some (ct, tag)"
    by (simp add: blc_aes_gcm_encrypt_def key(2) iv(2))
  then show ?thesis
    using assms(4,7) x iv(1)
    by (simp add: blc_ecies_encrypt_def sbind_def eph(1) pubc secp sopt_def rand_bytes_def
        malloc_answers serr_defs)
qed

lemma blc_ecies_decrypt_encrypt:
  assumes "secp_laws env" "evp_laws env" "\<forall>i. malloc_ok env i"
    and "seckey_verify env priv" "pubkey_create env priv = Some pk"
    and "serialize_uncompressed env pk = Some pub"
    and "blc_ecies_encrypt env pub pt s = (Inr e, s')"
  shows "length e = 64 + length pt" "fst (blc_ecies_decrypt env priv e t) = Inr pt"
proof -
  have parse: "pubkey_parse env (take 65 pub) = Some pk"
    using secp_pub [OF assms(1,4)] assms(5,6) by (metis option.inject order_refl take_all)
  from assms(7) obtain eph pe c peer key iv tag ct where
    eph: "seckey_verify env eph" "pubkey_create env eph = Some pe" and
    c: "serialize_compressed env pe = Some c" "length c = 33" and
    peer: "pubkey_parse env (take 65 pub) = Some peer" "ecies_key env peer eph = Some key" and
    gcm: "blc_aes_gcm_encrypt env key iv (ecies_aad c) pt = Some (ct, tag)" and
    form: "e = ecies_envelope c iv tag ct"
    by (rule blc_ecies_encrypt_Inr)
  have c': "c ! 0 \<in> {0x02, 0x03}" "pubkey_parse env c = Some pe"
    using secp_pub [OF assms(1) eph(1)] eph(2) c(1) by (metis option.inject)+
  have key: "ecies_key env pe priv = Some key"
    using ecies_key_agree [OF assms(1,2,4) eph(1) assms(5) eph(2)] peer parse by auto
  note rt = gcm_roundtrip [OF assms(2) gcm]
  show "length e = 64 + length pt"
    using ecies_envelope_parts(1) [OF c(2) rt(1,2)] rt(3) by (simp add: form)
  show "fst (blc_ecies_decrypt env priv e t) = Inr pt"
    unfolding form using blc_ecies_decrypt_run [OF c(2) rt(1,2) c' key rt(4) assms(3)] by blast
qed

text \<open>
C10: Encrypting to a public key always succeeds when the generator produces a valid key within
sixteen draws and memory is available; the envelope is 64 bytes longer than the plaintext, and
the owner of the private key decrypts it to exactly the plaintext, from any later state.
\<close>
theorem blc_ecies_roundtrip:
  assumes "secp_laws env" "evp_laws env"
    and "rng_answers env (first_draw s)" "\<forall>i. malloc_ok env i"
    and "seckey_verify env priv" "pubkey_create env priv = Some pk"
    and "serialize_uncompressed env pk = Some pub"
  shows "\<exists>e s'. blc_ecies_encrypt env pub pt s = (Inr e, s') \<and> length e = 64 + length pt
    \<and> (\<forall>t. fst (blc_ecies_decrypt env priv e t) = Inr pt)"
proof -
  have parse: "pubkey_parse env (take 65 pub) = Some pk"
    using secp_pub [OF assms(1,5)] assms(6,7) by (metis option.inject order_refl take_all)
  obtain e s' where e: "blc_ecies_encrypt env pub pt s = (Inr e, s')"
    using blc_ecies_encrypt_live [OF assms(1-6) parse] by blast
  with blc_ecies_decrypt_encrypt [OF assms(1,2,4-7) e] show ?thesis by blast
qed

text \<open>
C11: An envelope that decrypts is the canonical encoding of its parts, and those parts are exactly
what AES-GCM sealing the returned plaintext under the agreed key gives, with the three header
bytes and the sender's ephemeral key as associated data: no byte of it can have been changed.
\<close>
theorem blc_ecies_decrypt_authentic:
  assumes auth: "\<forall>key iv aad ct tag pt. gcm_open env key iv aad ct tag = Some pt \<longrightarrow>
      gcm_seal env key iv aad pt = Some (ct, tag)"
    and dec: "blc_ecies_decrypt env priv e t = (Inr pt, t')"
  shows "\<exists>eph iv tag ct pk key.
      e = [0x01, 0x01, 0x21] @ eph @ iv @ tag @ ct
      \<and> length eph = 33 \<and> length iv = 12 \<and> length tag = 16 \<and> length ct = length pt
      \<and> eph ! 0 \<in> {0x02, 0x03} \<and> pubkey_parse env eph = Some pk
      \<and> ecies_key env pk priv = Some key
      \<and> gcm_seal env key iv ([0x01, 0x01, 0x21] @ eph) pt = Some (ct, tag)"
proof -
  from dec obtain c iv tag ct pk key where
    c: "e = ecies_envelope c iv tag ct" "length c = 33" "length iv = 12" "length tag = 16"
      "c ! 0 \<in> {0x02, 0x03}" "pubkey_parse env c = Some pk" "ecies_key env pk priv = Some key"
    and op: "blc_aes_gcm_decrypt env key iv (ecies_aad c) ct tag = Some pt"
    by (rule blc_ecies_decrypt_Inr)
  from op c(4) have "gcm_open env key iv (ecies_aad c) ct tag = Some pt" "length ct = length pt"
    by (auto simp: blc_aes_gcm_decrypt_def split: if_splits option.splits)
  with auth have "gcm_seal env key iv (ecies_aad c) pt = Some (ct, tag)" by blast
  with c \<open>length ct = length pt\<close> show ?thesis
    by (intro exI [of _ c] exI [of _ iv] exI [of _ tag] exI [of _ ct] exI [of _ pk] exI [of _ key])
       (simp add: ecies_envelope_def ecies_aad_def)
qed

subsection \<open>Base64 in the code's buffers\<close>

context evp_base64
begin

lemma pad_of_enc: "b64_pad (enc bs) = b64_fill bs"
proof -
  obtain body where body: "enc bs = body @ replicate (b64_fill bs) (CHR ''='')" "CHR ''='' \<notin> set body"
    using enc_padding by blast
  have "b64_fill bs = 0 \<or> b64_fill bs = 1 \<or> b64_fill bs = 2"
    by (auto simp: b64_fill_def)
  moreover have "4 * ((length bs + 2) div 3) = length body + b64_fill bs"
    using enc_length [of bs] by (simp add: body(1))
  moreover have "\<And>i. i < length body \<Longrightarrow> body ! i \<noteq> CHR ''=''"
    using body(2) nth_mem by force
  ultimately show ?thesis
    by (elim disjE) (auto simp: b64_pad_def body(1) nth_append numeral_2_eq_2)
qed

end

lemma blc_b64decode_bound: "blc_b64decode env src cap s = (Inr out, s') \<Longrightarrow> length out \<le> cap"
  by (auto simp: blc_b64decode_def Let_def serr_Inr)

lemma blc_b64decode_enc:
  assumes "evp_base64 (EVP_EncodeBlock env) (EVP_DecodeBlock env)" "\<forall>i. malloc_ok env i"
    and "length bs \<le> cap"
  shows "fst (blc_b64decode env (EVP_EncodeBlock env bs) cap s) = Inr bs"
proof -
  note law = evp_base64.untrimmed_length [OF assms(1)] evp_base64.pad_of_enc [OF assms(1)]
    evp_base64.dec_enc [OF assms(1)]
  show ?thesis
    using assms(2,3)
    by (auto simp: blc_b64decode_def Let_def sbind_def law malloc_answers sopt_def serr_defs)
qed

text \<open>
Base64 text written by the encoder fits its buffer with its NUL, and the decoder gives back
the bytes for every destination that can hold them: the trimming of the padding is exact.
\<close>
lemma blc_b64_roundtrip:
  assumes "evp_base64 (EVP_EncodeBlock env) (EVP_DecodeBlock env)" "\<forall>i. malloc_ok env i"
    and "4 * ((length bs + 2) div 3) + 1 \<le> ecap" "length bs \<le> dcap"
  shows "\<exists>txt. blc_b64encode env bs ecap = Some txt \<and> length txt < ecap
    \<and> fst (blc_b64decode env txt dcap s) = Inr bs"
  using assms(3) blc_b64decode_enc [OF assms(1,2,4)] evp_base64.enc_length [OF assms(1)]
  by (simp add: blc_b64encode_def)

subsection \<open>A concrete library\<close>

text \<open>
  A stand-in for the two libraries on which the laws hold, with the codec of RFC 4648 for Base64
  and exclusive-or for the group and the cipher.
\<close>

definition xor_env :: blc_env where
  "xor_env = \<lparr>
     RAND_bytes = (\<lambda>i n. Some (replicate n (of_nat i))), malloc_ok = (\<lambda>i. True),
     seckey_verify = (\<lambda>k. length k = 32), pubkey_create = (\<lambda>k. Some k),
     serialize_uncompressed = (\<lambda>pk. Some (0x04 # pk @ replicate 32 0)),
     serialize_compressed = (\<lambda>pk. Some (0x02 # pk)),
     pubkey_parse = (\<lambda>b. if length b = 33 \<and> b ! 0 = 0x02 then Some (tl b)
       else if length b = 65 \<and> b ! 0 = 0x04 then Some (take 32 (tl b)) else None),
     ecdh_xy = (\<lambda>pk k. Some (map2 (XOR) pk k, [])),
     hkdf_derive = (\<lambda>ikm salt info n. Some (take n (ikm @ replicate n 0))),
     gcm_seal = (\<lambda>key iv aad pt. Some (map (\<lambda>b. b XOR hd key) pt, take 16 key)),
     gcm_open = (\<lambda>key iv aad ct tag.
       if tag = take 16 key then Some (map (\<lambda>b. b XOR hd key) ct) else None),
     oct2point = (\<lambda>p. Some p), ecdsa_verify = (\<lambda>p m sg. sg = [of_nat (length m)]),
     ecdsa_sign = (\<lambda>k m cap. if 1 \<le> cap then Some [of_nat (length m)] else None),
     p256_generate = (\<lambda>i. Some ([7], 0x04 # replicate 64 0)),
     EVP_EncodeBlock = b64_enc, EVP_DecodeBlock = b64_dec\<rparr>"

definition blc_start :: blc_state where
  "blc_start = \<lparr>secp_ready = False, rand_n = 0, alloc_n = 0\<rparr>"

lemma map2_xor_commute: "map2 (XOR) xs ys = map2 (XOR) ys (xs :: bytes)"
  by (induction xs arbitrary: ys) (auto simp: zip_Cons1 xor.commute split: list.splits)

lemma xor_twice [simp]: "map ((\<lambda>b. b XOR (k :: byte)) \<circ> (\<lambda>b. b XOR k)) bs = bs"
  by (simp add: o_def xor.assoc)

lemma xor_env_laws:
  "secp_laws xor_env" "evp_laws xor_env" "rng_answers xor_env r"
  by (auto simp: secp_laws_def evp_laws_def rng_answers_def xor_env_def
      intro: map2_xor_commute exI [of _ 0])

theorem blc_ecies_roundtrip_witness:
  "\<exists>e s'. blc_ecies_encrypt xor_env (0x04 # replicate 32 7 @ replicate 32 0) [1, 2, 3] blc_start
       = (Inr e, s') \<and> length e = 64 + length [1 :: byte, 2, 3]
     \<and> (\<forall>t :: blc_state. fst (blc_ecies_decrypt xor_env (replicate 32 7) e t) = Inr [1, 2, 3])"
  by (rule blc_ecies_roundtrip [OF xor_env_laws]) (simp_all add: xor_env_def)

lemma xor_env_decrypts:
  "blc_ecies_decrypt xor_env (replicate 32 7)
     ([0x01, 0x01, 0x21] @ (0x02 # replicate 32 5) @ replicate 12 9 @ replicate 16 2 @ [3])
     (blc_start\<lparr>secp_ready := True\<rparr>)
   = (Inr [1], blc_start\<lparr>secp_ready := True, alloc_n := 1\<rparr>)"
  by code_simp

theorem blc_ecies_decrypt_authentic_witness:
  "\<exists>eph iv tag ct pk key.
      [0x01, 0x01, 0x21] @ (0x02 # replicate 32 5) @ replicate 12 9 @ replicate 16 2 @ [3]
        = [0x01, 0x01, 0x21] @ eph @ iv @ tag @ ct
      \<and> length eph = 33 \<and> length iv = 12 \<and> length tag = 16 \<and> length ct = length [1 :: byte]
      \<and> eph ! 0 \<in> {0x02, 0x03} \<and> pubkey_parse xor_env eph = Some pk
      \<and> ecies_key xor_env pk (replicate 32 7) = Some key
      \<and> gcm_seal xor_env key iv ([0x01, 0x01, 0x21] @ eph) [1] = Some (ct, tag)"
  by (rule blc_ecies_decrypt_authentic [OF _ xor_env_decrypts]) (simp add: xor_env_def)


end
