(* ===== verification/Bl_Json.thy ===== *)
theory Bl_Json
  imports C_Prelude
begin

text \<open>
  The wire layer of \<open>brightlink.c\<close>: \<open>write_all\<close>, the brace-counting framing
  \<open>read_until_brace\<close> and the small JSON field readers. System calls are answered by a list
  of events the environment chooses; when the list ends the socket's 30 second timeout fires
  and the call returns -1. The framing is proved against a grammar of JSON texts: exactly one
  object is consumed, and what follows it is left in the socket.
\<close>

abbreviation DQUOTE :: char where "DQUOTE \<equiv> CHR 0x22"
abbreviation BSLASH :: char where "BSLASH \<equiv> CHR 0x5C"

subsection \<open>Socket input and output\<close>

datatype wr_ev = WrN nat | WrEintr | WrErr

datatype rd_ev = RdByte char | RdEintr | RdErr | RdEof

text \<open>
  \<open>write_all\<close>: whether it returned the full length, the bytes the kernel took, and the
  remaining events. A \<open>write\<close> takes at most what it is given.
\<close>

fun write_all :: "wr_ev list \<Rightarrow> string \<Rightarrow> string \<Rightarrow> bool \<times> string \<times> wr_ev list" where
  "write_all evs sent buf =
     (if buf = [] then (True, sent, evs)
      else case evs of
             [] \<Rightarrow> (False, sent, [])
           | WrErr # evs' \<Rightarrow> (False, sent, evs')
           | WrEintr # evs' \<Rightarrow> write_all evs' sent buf
           | WrN n # evs' \<Rightarrow>
               if n = 0 then (False, sent, evs')
               else write_all evs' (sent @ take n buf) (drop n buf))"

declare write_all.simps [simp del]

datatype framed = Framed string | FrEof | FrErr

text \<open>
  \<open>buf\<close> holds the characters read so far, so \<open>pos\<close> is its length.
\<close>

fun read_loop ::
  "nat \<Rightarrow> string \<Rightarrow> int \<Rightarrow> bool \<Rightarrow> bool \<Rightarrow> bool \<Rightarrow> rd_ev list \<Rightarrow> framed \<times> rd_ev list" where
  "read_loop cap buf depth in_string escaped seen_open evs =
     (if \<not> length buf < cap - 1 then (FrErr, evs)
      else case evs of
        [] \<Rightarrow> (FrErr, [])
      | RdEintr # evs' \<Rightarrow> read_loop cap buf depth in_string escaped seen_open evs'
      | RdErr # evs' \<Rightarrow> (FrErr, evs')
      | RdEof # evs' \<Rightarrow> (FrEof, evs')
      | RdByte ch # evs' \<Rightarrow>
          (let buf' = buf @ [ch]
           in if escaped then read_loop cap buf' depth in_string False seen_open evs'
              else if in_string then
                if ch = BSLASH then read_loop cap buf' depth True True seen_open evs'
                else if ch = DQUOTE then read_loop cap buf' depth False False seen_open evs'
                else read_loop cap buf' depth True False seen_open evs'
              else if ch = DQUOTE then read_loop cap buf' depth True False seen_open evs'
              else if ch = CHR ''{'' then
                read_loop cap buf' (depth + 1) False False True evs'
              else if ch = CHR ''}'' then
                if depth - 1 = 0 \<and> seen_open then (Framed buf', evs')
                else read_loop cap buf' (depth - 1) False False seen_open evs'
              else read_loop cap buf' depth False False seen_open evs'))"

declare read_loop.simps [simp del]

definition read_until_brace :: "nat \<Rightarrow> rd_ev list \<Rightarrow> framed \<times> rd_ev list" where
  "read_until_brace cap evs = read_loop cap [] 0 False False False evs"

subsection \<open>Field readers\<close>

definition json_ws :: "char \<Rightarrow> bool" where
  "json_ws c \<longleftrightarrow> c = CHR '' '' \<or> c = CHR 0x09 \<or> c = CHR 0x0A \<or> c = CHR 0x0D"

definition quoted :: "string \<Rightarrow> string" where
  "quoted s = DQUOTE # s @ [DQUOTE]"

definition json_locate :: "string \<Rightarrow> string \<Rightarrow> string option" where
  "json_locate json key =
     (let needle = quoted key
      in if length needle \<ge> 128 then None
         else case strstr json needle of
                None \<Rightarrow> None
              | Some p \<Rightarrow>
                  (case dropWhile json_ws (drop (length needle) p) of
                     [] \<Rightarrow> None
                   | c # p' \<Rightarrow> if c \<noteq> CHR '':'' then None else Some (dropWhile json_ws p')))"

definition unescape_char :: "char \<Rightarrow> char" where
  "unescape_char ch =
     (if ch = CHR ''n'' then CHR 0x0A else if ch = CHR ''r'' then CHR 0x0D
      else if ch = CHR ''t'' then CHR 0x09 else ch)"

text \<open>The copy loop: success, and what \<open>out\<close> holds when it ends.\<close>

fun json_str_loop :: "nat \<Rightarrow> string \<Rightarrow> string \<Rightarrow> bool \<times> string" where
  "json_str_loop out_cap out [] = (False, out)"
| "json_str_loop out_cap out [c] =
     (if c = DQUOTE then (True, out)
      else if length out + 1 \<ge> out_cap then (False, out)
      else (False, out @ [c]))"
| "json_str_loop out_cap out (c # d # p) =
     (if c = DQUOTE then (True, out)
      else if length out + 1 \<ge> out_cap then (False, out)
      else if c = BSLASH then json_str_loop out_cap (out @ [unescape_char d]) p
      else json_str_loop out_cap (out @ [c]) (d # p))"

definition json_field_str :: "string \<Rightarrow> string \<Rightarrow> nat \<Rightarrow> bool \<times> string" where
  "json_field_str json key out_cap =
     (case json_locate json key of
        None \<Rightarrow> (False, [])
      | Some [] \<Rightarrow> (False, [])
      | Some (c # p) \<Rightarrow> if c \<noteq> DQUOTE then (False, []) else json_str_loop out_cap [] p)"

definition json_field_int :: "string \<Rightarrow> string \<Rightarrow> int option" where
  "json_field_int json key =
     (case json_locate json key of
        None \<Rightarrow> None
      | Some p \<Rightarrow> (case strto_subject 10 p of
                     None \<Rightarrow> None
                   | Some _ \<Rightarrow> Some (fst (strtol 10 p))))"

text \<open>\<open>strtod\<close> is a parameter: the value it converts, or \<open>None\<close> where \<open>endp == p\<close>.\<close>

definition json_field_double ::
  "(string \<Rightarrow> 'd option) \<Rightarrow> string \<Rightarrow> string \<Rightarrow> 'd option" where
  "json_field_double strtod json key =
     (case json_locate json key of None \<Rightarrow> None | Some p \<Rightarrow> strtod p)"

subsection \<open>Lemmas on write\_all\<close>

lemma write_all_prefix:
  "write_all evs sent buf = (ok, out, evs') \<Longrightarrow>
   \<exists>k. out = sent @ take k buf \<and> (ok \<longrightarrow> out = sent @ buf)"
proof (induction evs sent buf arbitrary: ok out evs' rule: write_all.induct)
  case (1 evs sent buf)
  show ?case
  proof (cases "buf = []")
    case True
    with "1.prems" show ?thesis by (simp add: write_all.simps)
  next
    case False
    show ?thesis
    proof (cases evs)
      case Nil
      with "1.prems" False show ?thesis by (auto simp: write_all.simps intro: exI [of _ 0])
    next
      case (Cons e es)
      show ?thesis
      proof (cases e)
        case (WrN n)
        show ?thesis
        proof (cases "n = 0")
          case True
          with "1.prems" False Cons WrN show ?thesis
            by (auto simp: write_all.simps intro: exI [of _ 0])
        next
          case nz: False
          from "1.prems" False Cons WrN nz
          have step: "write_all es (sent @ take n buf) (drop n buf) = (ok, out, evs')"
            by (simp add: write_all.simps)
          from "1.IH"(1) [OF False Cons WrN nz step]
          obtain k where "out = sent @ take n buf @ take k (drop n buf)"
            and "ok \<longrightarrow> out = sent @ buf" by auto
          then have "out = sent @ take (n + k) buf \<and> (ok \<longrightarrow> out = sent @ buf)"
            by (simp add: take_add)
          then show ?thesis by blast
        qed
      next
        case WrEintr
        with "1.prems" False Cons have "write_all es sent buf = (ok, out, evs')"
          by (simp add: write_all.simps)
        with "1.IH"(2) [OF False Cons WrEintr] show ?thesis by blast
      next
        case WrErr
        with "1.prems" False Cons show ?thesis
          by (auto simp: write_all.simps intro: exI [of _ 0])
      qed
    qed
  qed
qed

text \<open>
  Liveness: a kernel that interrupts at will but otherwise makes progress, and takes as many
  bytes as there are, lets the whole buffer through.
\<close>

fun wr_progress :: "wr_ev list \<Rightarrow> nat" where
  "wr_progress [] = 0"
| "wr_progress (WrN n # evs) = n + wr_progress evs"
| "wr_progress (_ # evs) = wr_progress evs"

lemma write_all_live:
  assumes "WrErr \<notin> set evs" "WrN 0 \<notin> set evs" "length buf \<le> wr_progress evs"
  shows "\<exists>evs'. write_all evs sent buf = (True, sent @ buf, evs')"
  using assms
proof (induction evs arbitrary: sent buf)
  case Nil
  then show ?case by (simp add: write_all.simps)
next
  case (Cons e es)
  show ?case
  proof (cases "buf = []")
    case True
    then show ?thesis by (simp add: write_all.simps)
  next
    case False
    show ?thesis
    proof (cases e)
      case (WrN n)
      with Cons.prems have "length (drop n buf) \<le> wr_progress es" "n \<noteq> 0" by auto
      with Cons.prems Cons.IH [of "drop n buf" "sent @ take n buf"] obtain evs' where
        "write_all es (sent @ take n buf) (drop n buf) = (True, sent @ buf, evs')"
        by auto
      with False WrN \<open>n \<noteq> 0\<close> show ?thesis by (simp add: write_all.simps)
    next
      case WrEintr
      with Cons.prems Cons.IH [of buf sent] False show ?thesis
        by (simp add: write_all.simps [of "WrEintr # es"])
    next
      case WrErr
      with Cons.prems show ?thesis by simp
    qed
  qed
qed

subsection \<open>Lemmas on the framing\<close>

lemma read_loop_byte:
  assumes "length buf < cap - 1"
  shows "read_loop cap buf depth ins escaped seen (RdByte ch # evs) =
     (let buf' = buf @ [ch]
      in if escaped then read_loop cap buf' depth ins False seen evs
         else if ins then
           if ch = BSLASH then read_loop cap buf' depth True True seen evs
           else if ch = DQUOTE then read_loop cap buf' depth False False seen evs
           else read_loop cap buf' depth True False seen evs
         else if ch = DQUOTE then read_loop cap buf' depth True False seen evs
         else if ch = CHR ''{'' then read_loop cap buf' (depth + 1) False False True evs
         else if ch = CHR ''}'' then
           if depth - 1 = 0 \<and> seen then (Framed buf', evs)
           else read_loop cap buf' (depth - 1) False False seen evs
         else read_loop cap buf' depth False False seen evs)"
  using assms by (simp add: read_loop.simps [of cap buf depth ins escaped seen "RdByte ch # evs"] Let_def)

text \<open>Interrupted reads are invisible.\<close>

lemma read_loop_eintr:
  "read_loop cap buf depth ins escaped seen (filter (\<lambda>e. e \<noteq> RdEintr) evs)
   = map_prod id (filter (\<lambda>e. e \<noteq> RdEintr)) (read_loop cap buf depth ins escaped seen evs)"
proof (induction evs arbitrary: buf depth ins escaped seen)
  case Nil
  show ?case by (simp add: read_loop.simps)
next
  case (Cons e es)
  show ?case
  proof (cases "length buf < cap - 1")
    case False
    then show ?thesis by (simp add: read_loop.simps)
  next
    case True
    show ?thesis
    proof (cases e)
      case (RdByte ch)
      then show ?thesis using True by (simp add: read_loop_byte Let_def Cons.IH)
    next
      case RdEintr
      then show ?thesis
        using True Cons.IH by (simp add: read_loop.simps [of _ _ _ _ _ _ "RdEintr # es"])
    qed (use True in \<open>simp_all add: read_loop.simps\<close>)
  qed
qed

text \<open>What the loop consumed is what it returns, and it fits the buffer with its NUL.\<close>

fun rd_chars :: "rd_ev list \<Rightarrow> string" where
  "rd_chars [] = []"
| "rd_chars (RdByte c # evs) = c # rd_chars evs"
| "rd_chars (_ # evs) = rd_chars evs"

lemma read_loop_Framed:
  "read_loop cap buf depth ins escaped seen evs = (Framed s, evs') \<Longrightarrow>
   \<exists>used. evs = used @ evs' \<and> s = buf @ rd_chars used \<and> length s < cap
     \<and> s \<noteq> [] \<and> last s = CHR ''}''"
proof (induction evs arbitrary: buf depth ins escaped seen)
  case Nil
  then show ?case by (simp add: read_loop.simps split: if_splits)
next
  case (Cons e es)
  have room: "length buf < cap - 1"
    using Cons.prems by (simp add: read_loop.simps split: if_splits)
  show ?case
  proof (cases e)
    case (RdByte ch)
    have "(Framed (buf @ [ch]), es) = (Framed s, evs') \<and> ch = CHR ''}'' \<or>
      (\<exists>d i x sn. read_loop cap (buf @ [ch]) d i x sn es = (Framed s, evs'))"
      using Cons.prems room
      by (simp add: RdByte read_loop_byte Let_def split: if_splits) blast+
    then show ?thesis
    proof
      assume "(Framed (buf @ [ch]), es) = (Framed s, evs') \<and> ch = CHR ''}''"
      then show ?thesis
        using room by (intro exI [of _ "[e]"]) (auto simp: RdByte)
    next
      assume "\<exists>d i x sn. read_loop cap (buf @ [ch]) d i x sn es = (Framed s, evs')"
      then obtain used where "es = used @ evs'" "s = (buf @ [ch]) @ rd_chars used" "length s < cap"
        "s \<noteq> []" "last s = CHR ''}''"
        using Cons.IH by blast
      then show ?thesis by (intro exI [of _ "e # used"]) (auto simp: RdByte)
    qed
  next
    case RdEintr
    with Cons.prems room have "read_loop cap buf depth ins escaped seen es = (Framed s, evs')"
      by (simp add: read_loop.simps [of _ _ _ _ _ _ "RdEintr # es"])
    then obtain used where "es = used @ evs'" "s = buf @ rd_chars used" "length s < cap"
        "s \<noteq> []" "last s = CHR ''}''"
      using Cons.IH by blast
    then show ?thesis by (intro exI [of _ "e # used"]) (auto simp: RdEintr)
  qed (use Cons.prems room in \<open>auto simp: read_loop.simps\<close>)
qed

text \<open>
  JSON texts as far as the framing looks at them: string literals with escapes, objects, and
  any other characters outside strings.
\<close>

inductive str_body :: "string \<Rightarrow> bool" where
  str_nil: "str_body []"
| str_char: "c \<noteq> DQUOTE \<Longrightarrow> c \<noteq> BSLASH \<Longrightarrow> str_body s \<Longrightarrow> str_body (c # s)"
| str_esc: "str_body s \<Longrightarrow> str_body (BSLASH # c # s)"

inductive json_text :: "string \<Rightarrow> bool" where
  text_nil: "json_text []"
| text_char: "c \<notin> {DQUOTE, CHR ''{'', CHR ''}''} \<Longrightarrow> json_text s \<Longrightarrow> json_text (c # s)"
| text_str: "str_body b \<Longrightarrow> json_text s \<Longrightarrow> json_text (DQUOTE # b @ DQUOTE # s)"
| text_obj: "json_text t \<Longrightarrow> json_text s \<Longrightarrow> json_text (CHR ''{'' # t @ CHR ''}'' # s)"

lemma read_str_body:
  assumes "str_body b" "length buf + length b < cap"
  shows "read_loop cap buf depth True False seen (map RdByte b @ evs)
       = read_loop cap (buf @ b) depth True False seen evs"
  using assms
  by (induction b arbitrary: buf rule: str_body.induct) (auto simp: read_loop_byte)

lemma read_json_text:
  assumes "json_text t" "length buf + length t < cap" "1 \<le> depth"
  shows "read_loop cap buf depth False False True (map RdByte t @ evs)
       = read_loop cap (buf @ t) depth False False True evs"
  using assms
proof (induction t arbitrary: buf depth evs rule: json_text.induct)
  case text_nil
  then show ?case by simp
next
  case (text_char c s)
  then show ?case by (auto simp: read_loop_byte)
next
  case (text_str b s)
  have "read_loop cap (buf @ [DQUOTE]) depth True False True
          (map RdByte b @ RdByte DQUOTE # map RdByte s @ evs)
      = read_loop cap (buf @ [DQUOTE] @ b) depth True False True
          (RdByte DQUOTE # map RdByte s @ evs)"
    using text_str by (simp add: read_str_body)
  with text_str show ?case by (simp add: read_loop_byte)
next
  case (text_obj t s)
  have "read_loop cap (buf @ [CHR ''{'']) (depth + 1) False False True
          (map RdByte t @ RdByte (CHR ''}'') # map RdByte s @ evs)
      = read_loop cap (buf @ CHR ''{'' # t) (depth + 1) False False True
          (RdByte (CHR ''}'') # map RdByte s @ evs)"
    using text_obj.prems text_obj.IH(1) [of "buf @ [CHR ''{'']" "depth + 1"] by simp
  with text_obj.prems text_obj.IH(2) [of "buf @ CHR ''{'' # t @ [CHR ''}'']" depth]
  show ?case by (simp add: read_loop_byte)
qed

lemma read_until_brace_object:
  assumes "json_text t" "length t + 3 \<le> cap"
  shows "read_until_brace cap (map RdByte (CHR ''{'' # t @ [CHR ''}'']) @ evs)
       = (Framed (CHR ''{'' # t @ [CHR ''}'']), evs)"
proof -
  have "read_loop cap [CHR ''{''] 1 False False True (map RdByte t @ RdByte (CHR ''}'') # evs)
      = read_loop cap (CHR ''{'' # t) 1 False False True (RdByte (CHR ''}'') # evs)"
    using assms read_json_text [of t "[CHR ''{'']" cap 1] by simp
  with assms show ?thesis by (simp add: read_until_brace_def read_loop_byte)
qed

subsection \<open>Lemmas on the field readers\<close>

definition json_escape :: "string \<Rightarrow> string" where
  "json_escape s = concat (map (\<lambda>c. if c = DQUOTE \<or> c = BSLASH then [BSLASH, c] else [c]) s)"

lemma json_str_loop_escape:
  "length out + length v < cap \<Longrightarrow>
   json_str_loop cap out (json_escape v @ DQUOTE # rest) = (True, out @ v)"
proof (induction v arbitrary: out)
  case Nil
  then show ?case by (cases rest) (simp_all add: json_escape_def)
next
  case (Cons c v)
  obtain d p where dp: "json_escape v @ DQUOTE # rest = d # p"
    by (cases "json_escape v @ DQUOTE # rest") auto
  show ?case
  proof (cases "c = DQUOTE \<or> c = BSLASH")
    case True
    then have "unescape_char c = c" by (auto simp: unescape_char_def)
    with True Cons show ?thesis by (simp add: json_escape_def)
  next
    case False
    then have "json_escape (c # v) @ DQUOTE # rest = c # d # p"
      using dp by (simp add: json_escape_def)
    moreover have "json_str_loop cap (out @ [c]) (d # p) = (True, (out @ [c]) @ v)"
      using Cons.IH [of "out @ [c]"] Cons.prems by (simp add: dp)
    ultimately show ?thesis
      using False Cons.prems by simp
  qed
qed

lemma json_str_loop_bound:
  "length out < cap \<Longrightarrow> length (snd (json_str_loop cap out p)) < cap"
  by (induction cap out p rule: json_str_loop.induct) auto

lemma json_field_str_bound: "0 < cap \<Longrightarrow> length (snd (json_field_str json key cap)) < cap"
  by (auto simp: json_field_str_def json_str_loop_bound split: option.splits list.splits)

lemma json_locate_first:
  assumes "strstr (pre @ quoted key @ t) (quoted key) = Some (quoted key @ t)"
    and "length key < 126" and "dropWhile json_ws t = CHR '':'' # u"
  shows "json_locate (pre @ quoted key @ t) key = Some (dropWhile json_ws u)"
  using assms by (simp add: json_locate_def quoted_def)

lemma json_field_str_first:
  assumes "strstr (pre @ quoted key @ t) (quoted key) = Some (quoted key @ t)"
    and "length key < 126" and "dropWhile json_ws t = CHR '':'' # u"
    and "dropWhile json_ws u = DQUOTE # json_escape v @ DQUOTE # rest" and "length v < cap"
  shows "json_field_str (pre @ quoted key @ t) key cap = (True, v)"
  using assms by (simp add: json_field_str_def json_locate_first json_str_loop_escape)

subsection \<open>Properties\<close>

text \<open>
C8: The framing takes exactly one JSON object off the socket: whatever strings, escapes and nested
objects it holds, the text returned is the object and what follows it is left unread; reads that
are interrupted make no difference.
\<close>
theorem read_until_brace_exact:
  assumes "json_text t" "length t + 3 \<le> cap"
  shows "read_until_brace cap (map RdByte (CHR ''{'' # t @ [CHR ''}'']) @ evs)
       = (Framed (CHR ''{'' # t @ [CHR ''}'']), evs)
    \<and> (\<forall>es. fst (read_until_brace cap (filter (\<lambda>e. e \<noteq> RdEintr) es)) = fst (read_until_brace cap es))"
proof (intro conjI allI)
  show "read_until_brace cap (map RdByte (CHR ''{'' # t @ [CHR ''}'']) @ evs)
       = (Framed (CHR ''{'' # t @ [CHR ''}'']), evs)"
    by (rule read_until_brace_object [OF assms])
  fix es
  show "fst (read_until_brace cap (filter (\<lambda>e. e \<noteq> RdEintr) es)) = fst (read_until_brace cap es)"
    by (simp add: read_until_brace_def read_loop_eintr)
qed

theorem read_until_brace_exact_witness:
  "read_until_brace 8 (map RdByte (CHR ''{'' # [DQUOTE, CHR ''}'', DQUOTE] @ [CHR ''}'']) @ [RdEof])
       = (Framed (CHR ''{'' # [DQUOTE, CHR ''}'', DQUOTE] @ [CHR ''}'']), [RdEof])
    \<and> (\<forall>es. fst (read_until_brace 8 (filter (\<lambda>e. e \<noteq> RdEintr) es)) = fst (read_until_brace 8 es))"
proof (rule read_until_brace_exact)
  have "str_body [CHR ''}'']" by (simp add: str_body.intros)
  from text_str [OF this text_nil] show "json_text [DQUOTE, CHR ''}'', DQUOTE]" by simp
qed simp

text \<open>
A frame that is returned is exactly the characters consumed, in order, ends at a closing brace
and fits the buffer together with its terminating NUL.
\<close>
lemma read_until_brace_sound:
  assumes "read_until_brace cap evs = (Framed s, evs')"
  shows "\<exists>used. evs = used @ evs' \<and> s = rd_chars used \<and> length s < cap \<and> s \<noteq> []
    \<and> last s = CHR ''}''"
  using read_loop_Framed [of cap "[]"] assms by (simp add: read_until_brace_def)


text \<open>
A write loop never sends anything but a prefix of the buffer and reports success only when all
of it was sent; and it does succeed whenever the kernel, interrupting at will and taking any number
of bytes at a time, takes as many as there are.
\<close>
lemma write_all_delivers:
  assumes "WrErr \<notin> set evs" "WrN 0 \<notin> set evs" "length buf \<le> wr_progress evs"
  shows "(\<exists>evs'. write_all evs [] buf = (True, buf, evs'))
    \<and> (\<forall>es ok out es'. write_all es [] buf = (ok, out, es') \<longrightarrow>
         (\<exists>k. out = take k buf) \<and> (ok \<longrightarrow> out = buf))"
  using write_all_live [OF assms, of "[]"] write_all_prefix [of _ "[]" buf] by fastforce


text \<open>
C9: Reading a string field returns the value that was escaped into the text, for any spacing around
the colon, as long as it and its terminator fit; and whatever the text is, no more than the
capacity is ever written.
\<close>
theorem json_field_str_roundtrip:
  assumes "strstr (pre @ quoted key @ t) (quoted key) = Some (quoted key @ t)"
    and "length key < 126" and "dropWhile json_ws t = CHR '':'' # u"
    and "dropWhile json_ws u = DQUOTE # json_escape v @ DQUOTE # rest" and "length v < cap"
  shows "json_field_str (pre @ quoted key @ t) key cap = (True, v)
    \<and> (\<forall>json k. length (snd (json_field_str json k cap)) < cap)"
proof (intro conjI allI)
  show "json_field_str (pre @ quoted key @ t) key cap = (True, v)"
    by (rule json_field_str_first [OF assms])
  show "length (snd (json_field_str json k cap)) < cap" for json k
    using json_field_str_bound assms(5) by (metis bot_nat_0.not_eq_extremum not_less_zero)
qed

theorem json_field_str_roundtrip_witness:
  "json_field_str (''{'' @ quoted ''a'' @ '' : '' @ quoted (json_escape [DQUOTE, CHR ''x'']) @ ''}'') ''a'' 9
     = (True, [DQUOTE, CHR ''x''])
   \<and> (\<forall>json k. length (snd (json_field_str json k 9)) < 9)"
  using json_field_str_roundtrip [of "''{''" "''a''" "'' : '' @ quoted (json_escape [DQUOTE, CHR ''x'']) @ ''}''"
      "'' '' @ quoted (json_escape [DQUOTE, CHR ''x'']) @ ''}''" "[DQUOTE, CHR ''x'']" "''}''" 9]
  by (simp add: quoted_def json_escape_def json_ws_def)

end
