(* ===== verification/Bl_Pin_Store.thy ===== *)
theory Bl_Pin_Store
  imports C_Prelude
begin

text \<open>
  The pin stores of libbrightlink (\<open>pin_store.c\<close>, \<open>pin_store_memory.c\<close>,
  \<open>pin_store_file.c\<close>): the vtable, the in-process store and the file store with the BLP1 format.
  A file system is a map from paths to nodes. Each system call of the file store can fail: its
  outcomes are a record the environment chooses, and a save returns the sequence of file systems
  it goes through, so that a crash between two calls is a prefix of it. The contract of a store,
  the locale \<open>pin_store\<close>, is what the client relies on; both stores satisfy it. Permission bits
  are not modelled.
\<close>

subsection \<open>The vtable\<close>

record 'c bl_pin_store =
  ps_load :: "'c \<Rightarrow> bytes option"
  ps_save :: "bytes \<Rightarrow> 'c \<Rightarrow> bool \<times> 'c"
  ps_free :: "('c \<Rightarrow> 'c) option"
  own_ctx :: bool

record 'c bl_pin_store_vtable =
  vt_load :: "('c \<Rightarrow> bytes option) option"
  vt_save :: "(bytes \<Rightarrow> 'c \<Rightarrow> bool \<times> 'c) option"
  vt_free :: "('c \<Rightarrow> 'c) option"

text \<open>\<open>calloc_ok\<close> is the outcome of the allocation of the handle.\<close>

definition bl_pin_store_custom ::
  "bool \<Rightarrow> 'c bl_pin_store_vtable option \<Rightarrow> 'c bl_pin_store option" where
  "bl_pin_store_custom calloc_ok vt =
     (case vt of
        None \<Rightarrow> None
      | Some v \<Rightarrow>
          (case (vt_load v, vt_save v) of
             (Some ld, Some sv) \<Rightarrow>
               if calloc_ok
               then Some \<lparr>ps_load = ld, ps_save = sv, ps_free = vt_free v, own_ctx = False\<rparr>
               else None
           | _ \<Rightarrow> None))"

definition bl_pin_store_free :: "'c bl_pin_store option \<Rightarrow> 'c \<Rightarrow> 'c" where
  "bl_pin_store_free s ctx =
     (case s of
        None \<Rightarrow> ctx
      | Some st \<Rightarrow> (case ps_free st of None \<Rightarrow> ctx | Some f \<Rightarrow> f ctx))"

subsection \<open>The in-process store\<close>

record mem_ctx =
  pinned :: bool
  mem_pub65 :: bytes

definition mem_load :: "mem_ctx \<Rightarrow> bytes option" where
  "mem_load ctx = (if \<not> pinned ctx then None else Some (take 65 (mem_pub65 ctx)))"

definition mem_save :: "bytes \<Rightarrow> mem_ctx \<Rightarrow> bool \<times> mem_ctx" where
  "mem_save pub65 ctx = (True, ctx\<lparr>mem_pub65 := take 65 pub65, pinned := True\<rparr>)"

definition bl_pin_store_memory ::
  "bool \<Rightarrow> bool \<Rightarrow> (mem_ctx bl_pin_store \<times> mem_ctx) option" where
  "bl_pin_store_memory calloc_ctx calloc_store =
     (if \<not> calloc_ctx then None else if \<not> calloc_store then None
      else Some (\<lparr>ps_load = mem_load, ps_save = mem_save, ps_free = Some id, own_ctx = True\<rparr>,
                 \<lparr>pinned = False, mem_pub65 = replicate 65 0\<rparr>))"

subsection \<open>The file system\<close>

datatype node = Dir | File bytes

type_synonym fs = "string \<rightharpoonup> node"

abbreviation BL_PIN_FILE_VERSION :: byte where "BL_PIN_FILE_VERSION \<equiv> 1"
abbreviation BL_PIN_FILE_HEADER_LEN :: nat where "BL_PIN_FILE_HEADER_LEN \<equiv> 5"
abbreviation BL_PIN_FILE_MIN_LEN :: nat where "BL_PIN_FILE_MIN_LEN \<equiv> 70"

definition BL_PIN_FILE_MAGIC :: bytes where
  "BL_PIN_FILE_MAGIC = bytes_of_string ''BLP1''"

subsection \<open>The file store\<close>

definition id_char :: "char \<Rightarrow> bool" where
  "id_char ch =
     (let c = of_char ch :: nat
      in 65 \<le> c \<and> c \<le> 90 \<or> 97 \<le> c \<and> c \<le> 122 \<or> 48 \<le> c \<and> c \<le> 57
         \<or> ch = CHR ''.'' \<or> ch = CHR ''-'' \<or> ch = CHR ''_'')"

definition valid_binary_id :: "string option \<Rightarrow> bool" where
  "valid_binary_id ident =
     (case ident of
        None \<Rightarrow> False
      | Some s \<Rightarrow> if s = [] \<or> hd_nul s = CHR ''.'' then False else list_all id_char s)"

text \<open>\<open>mkdir_ok\<close> says whether a \<open>mkdir\<close> of a missing path succeeds.\<close>

definition ensure_dir_0700 :: "bool \<Rightarrow> string \<Rightarrow> fs \<Rightarrow> bool \<times> fs" where
  "ensure_dir_0700 mkdir_ok dir_path fs =
     (case fs dir_path of
        None \<Rightarrow> if mkdir_ok then (True, fs(dir_path \<mapsto> Dir)) else (False, fs)
      | Some Dir \<Rightarrow> (True, fs)
      | Some (File _) \<Rightarrow> (False, fs))"

text \<open>
  A read of a regular file returns as many bytes as it has, up to the 70 asked for; \<open>None\<close> when
  \<open>open\<close> or \<open>read\<close> fails.
\<close>

definition read_file :: "string \<Rightarrow> nat \<Rightarrow> fs \<Rightarrow> bytes option" where
  "read_file path n fs = (case fs path of Some (File b) \<Rightarrow> Some (take n b) | _ \<Rightarrow> None)"

definition file_load :: "string \<Rightarrow> fs \<Rightarrow> bytes option" where
  "file_load file_path fs =
     (case read_file file_path BL_PIN_FILE_MIN_LEN fs of
        None \<Rightarrow> None
      | Some buf \<Rightarrow>
          if length buf \<noteq> BL_PIN_FILE_MIN_LEN then None
          else if take 4 buf \<noteq> BL_PIN_FILE_MAGIC then None
          else if buf ! 4 \<noteq> BL_PIN_FILE_VERSION then None
          else if buf ! BL_PIN_FILE_HEADER_LEN \<noteq> 0x04 then None
          else Some (take 65 (drop BL_PIN_FILE_HEADER_LEN buf)))"

text \<open>
  Outcomes of the system calls of one save: a write takes at most the given number of bytes
  (\<open>None\<close>: it fails).
\<close>

record save_faults =
  open_ok :: bool
  write_hdr :: "nat option"
  write_pub :: "nat option"
  fsync_ok :: bool
  close_ok :: bool
  rename_ok :: bool
  unlink_ok :: bool

definition append_file :: "string \<Rightarrow> bytes \<Rightarrow> fs \<Rightarrow> fs" where
  "append_file path bs fs =
     (case fs path of Some (File b) \<Rightarrow> fs(path \<mapsto> File (b @ bs)) | _ \<Rightarrow> fs)"

definition do_write :: "nat option \<Rightarrow> string \<Rightarrow> bytes \<Rightarrow> fs \<Rightarrow> bool \<times> fs" where
  "do_write outcome path bs fs =
     (case outcome of
        None \<Rightarrow> (False, fs)
      | Some n \<Rightarrow> (length bs \<le> n, append_file path (take n bs) fs))"

definition do_unlink :: "save_faults \<Rightarrow> string \<Rightarrow> fs \<Rightarrow> fs" where
  "do_unlink flt path fs = (if unlink_ok flt then fs(path := None) else fs)"

text \<open>The result, and the file system after each system call.\<close>

definition file_save_trace ::
  "save_faults \<Rightarrow> string \<Rightarrow> bytes \<Rightarrow> fs \<Rightarrow> bool \<times> fs list" where
  "file_save_trace flt file_path pub65 fs0 =
     (if pub65 ! 0 \<noteq> 0x04 then (False, [])
      else let tmp_path = file_path @ ''.new''
      in if length tmp_path \<ge> 1024 + 8 then (False, [])
      else if \<not> open_ok flt \<or> fs0 tmp_path = Some Dir then (False, [])
      else let fs1 = fs0(tmp_path \<mapsto> File []);
               hdr = BL_PIN_FILE_MAGIC @ [BL_PIN_FILE_VERSION];
               (ok_hdr, fs2) = do_write (write_hdr flt) tmp_path hdr fs1
      in if \<not> ok_hdr then (False, [fs1, fs2, do_unlink flt tmp_path fs2])
      else let (ok_pub, fs3) = do_write (write_pub flt) tmp_path (take 65 pub65) fs2
      in if \<not> ok_pub then (False, [fs1, fs2, fs3, do_unlink flt tmp_path fs3])
      else if \<not> fsync_ok flt then (False, [fs1, fs2, fs3, do_unlink flt tmp_path fs3])
      else if \<not> close_ok flt then (False, [fs1, fs2, fs3, do_unlink flt tmp_path fs3])
      else if \<not> rename_ok flt \<or> fs3 file_path = Some Dir
           then (False, [fs1, fs2, fs3, do_unlink flt tmp_path fs3])
      else (True, [fs1, fs2, fs3, fs3(file_path := fs3 tmp_path, tmp_path := None)]))"

definition file_save :: "save_faults \<Rightarrow> string \<Rightarrow> bytes \<Rightarrow> fs \<Rightarrow> bool \<times> fs" where
  "file_save flt file_path pub65 fs =
     (case file_save_trace flt file_path pub65 fs of
        (ok, trace) \<Rightarrow> (ok, if trace = [] then fs else last trace))"

definition bl_pin_store_file ::
  "bool \<Rightarrow> bool \<Rightarrow> bool \<Rightarrow> save_faults \<Rightarrow> string option \<Rightarrow> string option \<Rightarrow> fs
   \<Rightarrow> (fs bl_pin_store \<times> string) option \<times> fs" where
  "bl_pin_store_file mkdir_ok calloc_ctx calloc_store flt dir_path binary_id fs =
     (case dir_path of
        None \<Rightarrow> (None, fs)
      | Some dir \<Rightarrow>
          if dir = [] then (None, fs)
          else if \<not> valid_binary_id binary_id then (None, fs)
          else case ensure_dir_0700 mkdir_ok dir fs of
            (False, fs') \<Rightarrow> (None, fs')
          | (True, fs') \<Rightarrow>
              if \<not> calloc_ctx then (None, fs')
              else let path = dir @ ''/'' @ the binary_id @ ''.sep-pub''
              in if length path \<ge> 1024 then (None, fs')
              else if \<not> calloc_store then (None, fs')
              else (Some (\<lparr>ps_load = file_load path, ps_save = file_save flt path,
                          ps_free = Some id, own_ctx = True\<rparr>, path), fs'))"

subsection \<open>The contract\<close>

text \<open>
  What the client relies on: a pin that was saved is what the next load gives, and a save that
  reports failure leaves the loaded pin as it was. \<open>pin_ok\<close> is the form of a pin.
\<close>

locale pin_store =
  fixes load :: "'c \<Rightarrow> bytes option"
    and save :: "bytes \<Rightarrow> 'c \<Rightarrow> bool \<times> 'c"
    and pin_ok :: "bytes \<Rightarrow> bool"
  assumes load_saved: "pin_ok p \<Longrightarrow> save p c = (True, c') \<Longrightarrow> load c' = Some p"
    and load_failed: "save p c = (False, c') \<Longrightarrow> load c' = load c"
begin

text \<open>Whatever sequence of pins is saved, a load gives the last one that was accepted.\<close>

fun save_all :: "bytes list \<Rightarrow> 'c \<Rightarrow> 'c" where
  "save_all [] c = c"
| "save_all (p # ps) c = save_all ps (snd (save p c))"

fun accepted :: "bytes list \<Rightarrow> 'c \<Rightarrow> bytes list" where
  "accepted [] c = []"
| "accepted (p # ps) c =
     (if fst (save p c) then p # accepted ps (snd (save p c)) else accepted ps (snd (save p c)))"

lemma load_save:
  "pin_ok p \<Longrightarrow> load (snd (save p c)) = (if fst (save p c) then Some p else load c)"
  by (cases "save p c") (auto simp: load_saved load_failed)

lemma load_save_all:
  "list_all pin_ok ps \<Longrightarrow>
   load (save_all ps c) = (if accepted ps c = [] then load c else Some (last (accepted ps c)))"
  by (induction ps arbitrary: c) (auto simp: load_save)

end

definition pin65 :: "bytes \<Rightarrow> bool" where
  "pin65 p \<longleftrightarrow> length p = 65 \<and> p ! 0 = 0x04"

interpretation memst: pin_store mem_load mem_save "\<lambda>p. length p = 65"
  by unfold_locales (auto simp: mem_load_def mem_save_def)

subsection \<open>Lemmas on the file store\<close>

lemma file_load_cong: "fs path = fs' path \<Longrightarrow> file_load path fs = file_load path fs'"
  by (simp add: file_load_def read_file_def)

lemma append_file_simps:
  "append_file p bs (fs(p \<mapsto> File b)) = fs(p \<mapsto> File (b @ bs))"
  by (simp add: append_file_def)

lemma tmp_path_neq [simp]: "path \<noteq> path @ ''.new''" "path @ ''.new'' \<noteq> path"
  by auto

lemma take_all_iff_append: "length bs = n \<Longrightarrow> take n (bs @ r) = bs"
  by simp

lemma file_load_written:
  assumes "pin65 p" "fs path = Some (File (BL_PIN_FILE_MAGIC @ [BL_PIN_FILE_VERSION] @ p @ rest))"
  shows "file_load path fs = Some p"
proof -
  have m: "length BL_PIN_FILE_MAGIC = 4" by (simp add: BL_PIN_FILE_MAGIC_def)
  then show ?thesis
    using assms by (auto simp: file_load_def read_file_def pin65_def nth_append)
qed

lemma file_load_Some:
  assumes "file_load path fs = Some p"
  shows "pin65 p \<and> (\<exists>rest. fs path = Some (File (BL_PIN_FILE_MAGIC @ [BL_PIN_FILE_VERSION] @ p @ rest)))"
proof -
  from assms obtain b where b: "fs path = Some (File b)" "70 \<le> length b"
    "take 4 b = BL_PIN_FILE_MAGIC" "b ! 4 = BL_PIN_FILE_VERSION" "b ! 5 = 0x04"
    "p = take 65 (drop 5 b)"
    by (auto simp: file_load_def read_file_def drop_take split: option.splits node.splits if_splits)
  have "b = take 4 b @ take 1 (drop 4 b) @ take 65 (drop (4 + 1) b) @ drop (4 + 1 + 65) b"
    by (rule take_drop_4 [symmetric])
  moreover have "take 1 (drop 4 b) = [BL_PIN_FILE_VERSION]"
    using b(2,4) by (simp add: take_Suc hd_drop_conv_nth)
  ultimately have "b = BL_PIN_FILE_MAGIC @ [BL_PIN_FILE_VERSION] @ p @ drop 70 b"
    using b(3,6) by simp
  moreover have "pin65 p" using b(2,5,6) by (simp add: pin65_def)
  ultimately show ?thesis using b(1) by metis
qed

text \<open>Every file system of a save agrees with the first one off the sidecar, but the last of a
  successful save, in which the target holds the whole new file.\<close>

lemma file_save_trace_frame:
  assumes "file_save_trace flt path p fs = (ok, trace)" "fs' \<in> set trace"
    and "q \<noteq> path" "q \<noteq> path @ ''.new''"
  shows "fs' q = fs q"
  using assms
  by (auto simp: file_save_trace_def do_write_def do_unlink_def append_file_def Let_def
      split: if_splits option.splits node.splits prod.splits)

lemma file_save_trace_target:
  assumes "file_save_trace flt path p fs = (ok, trace)" "fs' \<in> set trace" "length p = 65"
  shows "fs' path = fs path \<or> ok \<and> fs' = last trace
    \<and> fs' path = Some (File (BL_PIN_FILE_MAGIC @ [BL_PIN_FILE_VERSION] @ p))"
  using assms
  by (auto simp: file_save_trace_def do_write_def do_unlink_def append_file_def Let_def
      split: if_splits option.splits node.splits prod.splits)

lemma file_save_trace_ok:
  assumes "file_save_trace flt path p fs = (True, trace)" "length p = 65"
  shows "p ! 0 = 0x04 \<and> trace \<noteq> []
    \<and> last trace path = Some (File (BL_PIN_FILE_MAGIC @ [BL_PIN_FILE_VERSION] @ p))
    \<and> last trace (path @ ''.new'') = None"
  using assms
  by (auto simp: file_save_trace_def do_write_def append_file_def Let_def
      split: if_splits option.splits node.splits prod.splits)

lemma file_save_failed:
  "file_save_trace flt path p fs = (False, trace) \<Longrightarrow> fs' \<in> set trace \<Longrightarrow> fs' path = fs path"
  by (auto simp: file_save_trace_def do_write_def do_unlink_def append_file_def Let_def
      split: if_splits option.splits node.splits prod.splits)

interpretation filest: pin_store "file_load path" "file_save flt path" pin65 for path flt
proof
  fix p c c'
  assume p: "pin65 p" and s: "file_save flt path p c = (True, c')"
  then obtain trace where "file_save_trace flt path p c = (True, trace)"
    "c' = (if trace = [] then c else last trace)"
    by (auto simp: file_save_def split: prod.splits)
  with p show "file_load path c' = Some p"
    using file_save_trace_ok [of flt path p c trace] file_load_written [OF p, of c' path "[]"]
    by (auto simp: pin65_def)
next
  fix p c c'
  assume "file_save flt path p c = (False, c')"
  then obtain trace where "file_save_trace flt path p c = (False, trace)"
    "c' = (if trace = [] then c else last trace)"
    by (auto simp: file_save_def split: prod.splits)
  then have "c' path = c path"
    using file_save_failed [of flt path p c trace c'] by (auto split: if_splits)
  then show "file_load path c' = file_load path c" by (rule file_load_cong)
qed

text \<open>
C12: Saving a pin is atomic. Whichever system call fails or the process is killed after, a load
sees the old pin or the whole new one; the files other than the target and its sidecar are never
touched; a save that reports success has stored the new pin, and one that reports failure has
kept the old.
\<close>
theorem file_save_atomic:
  assumes "pin65 p" and "file_save_trace flt path p fs = (ok, trace)"
  shows "list_all (\<lambda>fs'. file_load path fs' \<in> {file_load path fs, Some p}
            \<and> fs' |` (- {path, path @ ''.new''}) = fs |` (- {path, path @ ''.new''})) trace
    \<and> file_load path (snd (file_save flt path p fs)) = (if ok then Some p else file_load path fs)"
proof (intro conjI, unfold list_all_iff, intro ballI conjI)
  fix fs' assume t: "fs' \<in> set trace"
  have "fs' path = fs path \<or> fs' path = Some (File (BL_PIN_FILE_MAGIC @ [BL_PIN_FILE_VERSION] @ p))"
    using file_save_trace_target [OF assms(2) t] assms(1) by (auto simp: pin65_def)
  then show "file_load path fs' \<in> {file_load path fs, Some p}"
    using file_load_cong [of fs' path fs] file_load_written [OF assms(1), of fs' path "[]"] by auto
  show "fs' |` (- {path, path @ ''.new''}) = fs |` (- {path, path @ ''.new''})"
    using file_save_trace_frame [OF assms(2) t] by (auto simp: restrict_map_def fun_eq_iff)
next
  have "fst (file_save flt path p fs) = ok" by (simp add: file_save_def assms(2))
  then show "file_load path (snd (file_save flt path p fs)) = (if ok then Some p else file_load path fs)"
    using filest.load_save [OF assms(1)] by simp
qed

definition no_faults :: save_faults where
  "no_faults = \<lparr>open_ok = True, write_hdr = Some 5, write_pub = Some 65, fsync_ok = True,
     close_ok = True, rename_ok = True, unlink_ok = True\<rparr>"

theorem file_save_atomic_witness:
  "list_all (\<lambda>fs'. file_load ''d/a.sep-pub'' fs'
        \<in> {file_load ''d/a.sep-pub'' Map.empty, Some (0x04 # replicate 64 7)}
      \<and> fs' |` (- {''d/a.sep-pub'', ''d/a.sep-pub'' @ ''.new''})
        = Map.empty |` (- {''d/a.sep-pub'', ''d/a.sep-pub'' @ ''.new''}))
     (snd (file_save_trace no_faults ''d/a.sep-pub'' (0x04 # replicate 64 7) Map.empty))
   \<and> file_load ''d/a.sep-pub'' (snd (file_save no_faults ''d/a.sep-pub'' (0x04 # replicate 64 7) Map.empty))
     = (if fst (file_save_trace no_faults ''d/a.sep-pub'' (0x04 # replicate 64 7) Map.empty)
        then Some (0x04 # replicate 64 7) else file_load ''d/a.sep-pub'' Map.empty)"
  by (rule file_save_atomic [OF _ surjective_pairing]) (simp add: pin65_def)

text \<open>
A file loads as a pin exactly when it starts with the magic, version 1 and an uncompressed key
of 65 bytes; what follows is ignored, and every other file is no pin.
\<close>
lemma file_load_format:
  "file_load path fs = Some p \<longleftrightarrow>
     length p = 65 \<and> p ! 0 = 0x04
     \<and> (\<exists>rest. fs path = Some (File (bytes_of_string ''BLP1'' @ [1] @ p @ rest)))"
proof
  assume "file_load path fs = Some p"
  from file_load_Some [OF this]
  show "length p = 65 \<and> p ! 0 = 0x04
     \<and> (\<exists>rest. fs path = Some (File (bytes_of_string ''BLP1'' @ [1] @ p @ rest)))"
    by (simp add: pin65_def BL_PIN_FILE_MAGIC_def)
next
  assume "length p = 65 \<and> p ! 0 = 0x04
     \<and> (\<exists>rest. fs path = Some (File (bytes_of_string ''BLP1'' @ [1] @ p @ rest)))"
  then show "file_load path fs = Some p"
    using file_load_written by (auto simp: pin65_def BL_PIN_FILE_MAGIC_def)
qed

text \<open>
A file store is only ever created for a file directly inside the given directory: the name
is the identifier with its suffix, it has no slash or backslash and does not start with a dot, the
directory exists afterwards, and no other node of the file system is changed.
\<close>
lemma bl_pin_store_file_confined:
  assumes "bl_pin_store_file mk c1 c2 flt dir ident fs = (Some (st, path), fs')"
  shows "\<exists>d n. dir = Some d \<and> ident = Some n \<and> path = d @ ''/'' @ n @ ''.sep-pub''
    \<and> CHR ''/'' \<notin> set n \<and> CHR 0x5C \<notin> set n \<and> n \<noteq> [] \<and> hd n \<noteq> CHR ''.''
    \<and> length path < 1024 \<and> fs' = fs(d \<mapsto> Dir)"
  using assms
  by (auto simp: bl_pin_store_file_def valid_binary_id_def ensure_dir_0700_def Let_def hd_nul_def
      list_all_iff id_char_def split: option.splits if_splits prod.splits bool.splits node.splits
      list.splits)


end
