(* ===== verification/Bl_Client.thy ===== *)
theory Bl_Client
  imports Bl_Crypto Bl_Json Bl_Pin_Store
begin

text \<open>
  The BrightLink client of \<open>brightlink.c\<close>. An operation runs in the error monad over a state
  that extends the counters of \<open>Bl_Crypto\<close> with the client handle, the socket as the lists of
  events the environment will answer with, the bytes written so far, the clock and the context of
  the pin store. The error of the monad is the status code the function returns. Arithmetic of
  \<open>double\<close> is a record of parameters (\<open>dbl_ops\<close>). Diagnostics on \<open>debug_stream\<close> are not
  modelled.
\<close>

subsection \<open>Status codes and data\<close>

datatype bl_status_t =
  BL_OK | BL_ERR_INVALID_ARG | BL_ERR_OOM | BL_ERR_TRANSPORT | BL_ERR_PROTOCOL | BL_ERR_CRYPTO
  | BL_ERR_PIN_MISMATCH | BL_ERR_BRIDGE_REFUSED | BL_ERR_NOT_REGISTERED | BL_ERR_DENIED
  | BL_ERR_TIMEOUT

definition bl_version :: string where
  "bl_version = ''0.1.0''"

fun bl_strerror :: "bl_status_t \<Rightarrow> string" where
  "bl_strerror BL_OK = ''ok''"
| "bl_strerror BL_ERR_INVALID_ARG = ''invalid argument''"
| "bl_strerror BL_ERR_OOM = ''out of memory''"
| "bl_strerror BL_ERR_TRANSPORT = ''transport failed''"
| "bl_strerror BL_ERR_PROTOCOL = ''malformed bridge response''"
| "bl_strerror BL_ERR_CRYPTO = ''crypto operation failed''"
| "bl_strerror BL_ERR_PIN_MISMATCH = ''bridge SEP key changed since pin''"
| "bl_strerror BL_ERR_BRIDGE_REFUSED = ''bridge refused the request''"
| "bl_strerror BL_ERR_NOT_REGISTERED = ''session not registered''"
| "bl_strerror BL_ERR_DENIED = ''policy denied scope''"
| "bl_strerror BL_ERR_TIMEOUT = ''operation timed out''"

record 'd dbl_ops =
  bd_of_time :: "int \<Rightarrow> 'd"
  fmt_f6 :: "'d \<Rightarrow> string"
  bd_to_unix :: "'d \<Rightarrow> 64 word"
  strtod :: "string \<Rightarrow> 'd option"
  d_nan :: 'd
  d_zero :: 'd

record 'd bl_geo_position =
  have_wgs84 :: bool
  wgs84_lat :: 'd
  wgs84_lon :: 'd
  wgs84_alt_m :: 'd
  have_brightspace :: bool
  brightspace_x_bm :: 'd
  brightspace_y_bm :: 'd
  brightspace_z_bm :: 'd
  brightspace_epoch_bd :: 'd
  accuracy_m :: 'd
  brightdate :: 'd

datatype bl_geo_format_t = BL_GEO_FORMAT_WGS84 | BL_GEO_FORMAT_BRIGHTSPACE | BL_GEO_FORMAT_BOTH

record 'c bl_client_config =
  cfg_socket_path :: "string option"
  cfg_agent_name :: "string option"
  cfg_agent_version :: "string option"
  cfg_pin_store :: "'c bl_pin_store option"
  cfg_ttl_seconds :: int

record 'c bl_client =
  socket_path :: string
  agent_name :: string
  agent_version :: string
  ttl_seconds :: int
  the_pin_store :: "'c bl_pin_store"
  pin_store_borrowed :: bool
  fd_open :: bool
  session_active :: bool
  session_id :: bytes
  session_key :: bytes
  pin_loaded :: bool
  pin_pub65 :: bytes
  last_bridge_error :: "string option"

datatype conn_ev = SockFail | ConnFail | ConnOk

record ('c, 'd) bl_st = blc_state +
  cl :: "'c bl_client"
  conn_evs :: "conn_ev list"
  wr_evs :: "wr_ev list"
  rd_evs :: "rd_ev list"
  wire :: string
  clock :: int
  pin_ctx :: 'c
  geo_out :: "'d bl_geo_position option"

type_synonym ('c, 'd, 'a) bl = "(('c, 'd) bl_st, bl_status_t, 'a) serr"

abbreviation upd_cl :: "('c bl_client \<Rightarrow> 'c bl_client) \<Rightarrow> ('c, 'd) bl_st \<Rightarrow> ('c, 'd) bl_st" where
  "upd_cl f s \<equiv> s\<lparr>cl := f (cl s)\<rparr>"

definition bl_clear_bridge_error :: "('c, 'd, unit) bl" where
  "bl_clear_bridge_error = smod (upd_cl (\<lambda>c. c\<lparr>last_bridge_error := None\<rparr>))"

subsection \<open>Lifecycle\<close>

text \<open>The environment: \<open>getenv\<close>, and the home directory \<open>getpwuid\<close> reports.\<close>

definition resolve_default_socket ::
  "(string \<Rightarrow> string option) \<Rightarrow> string option \<Rightarrow> nat \<Rightarrow> string option" where
  "resolve_default_socket getenv pw_dir cap =
     (case getenv ''BRIGHTNEXUS_SOCKET'' of
        Some (c # e) \<Rightarrow> if length (c # e) \<ge> cap then None else Some (c # e)
      | _ \<Rightarrow>
          (let home = (case getenv ''HOME'' of Some (c # h) \<Rightarrow> Some (c # h) | _ \<Rightarrow> pw_dir)
           in case home of
                None \<Rightarrow> None
              | Some h \<Rightarrow>
                  (let path = h @ ''/.brightchain/brightnexus/brightnexus.sock''
                   in if length path < cap then Some path else None)))"

abbreviation BL_MAX_TTL_SECONDS :: int where "BL_MAX_TTL_SECONDS \<equiv> 28800"
abbreviation BL_DEFAULT_TTL_SECONDS :: int where "BL_DEFAULT_TTL_SECONDS \<equiv> 3600"

definition bl_client_new ::
  "(string \<Rightarrow> string option) \<Rightarrow> string option \<Rightarrow> bool \<Rightarrow> 'c bl_client_config option
   \<Rightarrow> 'c bl_client option" where
  "bl_client_new getenv pw_dir calloc_ok cfg =
     (case cfg of
        None \<Rightarrow> None
      | Some cf \<Rightarrow>
      (case cfg_pin_store cf of
        None \<Rightarrow> None
      | Some st \<Rightarrow>
        if \<not> calloc_ok then None
        else case (case cfg_socket_path cf of
                     Some (c # p) \<Rightarrow> if length (c # p) \<ge> 1024 then None else Some (c # p)
                   | _ \<Rightarrow> resolve_default_socket getenv pw_dir 1024) of
          None \<Rightarrow> None
        | Some path \<Rightarrow>
            (let name = (case cfg_agent_name cf of Some (c # a) \<Rightarrow> c # a | _ \<Rightarrow> ''libbrightlink'');
                 version = (case cfg_agent_version cf of Some (c # v) \<Rightarrow> c # v | _ \<Rightarrow> '''');
                 ttl = (if cfg_ttl_seconds cf > 0 then cfg_ttl_seconds cf else BL_DEFAULT_TTL_SECONDS);
                 ttl = (if ttl > BL_MAX_TTL_SECONDS then BL_MAX_TTL_SECONDS else ttl)
             in Some \<lparr>socket_path = path, agent_name = snprintf_buf 64 name,
                  agent_version = snprintf_buf 64 version, ttl_seconds = ttl,
                  the_pin_store = st, pin_store_borrowed = False, fd_open = False,
                  session_active = False, session_id = replicate 16 0, session_key = replicate 32 0,
                  pin_loaded = False, pin_pub65 = replicate 65 0, last_bridge_error = None\<rparr>)))"

definition bl_disconnect :: "('c, 'd, unit) bl" where
  "bl_disconnect = smod (upd_cl (\<lambda>c. if fd_open c then c\<lparr>fd_open := False\<rparr> else c))"

text \<open>Freeing: what is left is the context of the pin store, freed when the store is owned.\<close>

definition bl_client_free :: "'c bl_client option \<Rightarrow> 'c \<Rightarrow> 'c" where
  "bl_client_free c ctx =
     (case c of
        None \<Rightarrow> ctx
      | Some c' \<Rightarrow>
          if \<not> pin_store_borrowed c' then bl_pin_store_free (Some (the_pin_store c')) ctx else ctx)"

definition bl_last_bridge_error :: "'c bl_client option \<Rightarrow> string option" where
  "bl_last_bridge_error c = (case c of None \<Rightarrow> None | Some c' \<Rightarrow> last_bridge_error c')"

subsection \<open>Requests\<close>

text \<open>\<open>sun_path\<close> has 108 bytes on Linux.\<close>

definition bl_connect :: "('c, 'd, unit) bl" where
  "bl_connect s =
     (if fd_open (cl s) then (Inr (), s)
      else case conn_evs s of
             [] \<Rightarrow> (Inl BL_ERR_TRANSPORT, s)
           | ev # evs \<Rightarrow>
               (let s1 = s\<lparr>conn_evs := evs\<rparr>
                in if ev = SockFail then (Inl BL_ERR_TRANSPORT, s1)
                   else if length (socket_path (cl s)) \<ge> 108 then (Inl BL_ERR_INVALID_ARG, s1)
                   else if ev = ConnFail then (Inl BL_ERR_TRANSPORT, s1)
                   else (Inr (), upd_cl (\<lambda>c. c\<lparr>fd_open := True\<rparr>) s1)))"

definition sock_write :: "string \<Rightarrow> ('c, 'd, bool) bl" where
  "sock_write json s =
     (case write_all (wr_evs s) [] json of
        (ok, out, evs) \<Rightarrow> (Inr ok, s\<lparr>wr_evs := evs, wire := wire s @ out\<rparr>))"

definition sock_read :: "nat \<Rightarrow> ('c, 'd, framed) bl" where
  "sock_read cap s =
     (case read_until_brace cap (rd_evs s) of (r, evs) \<Rightarrow> (Inr r, s\<lparr>rd_evs := evs\<rparr>))"

definition bl_fail :: "bl_status_t \<Rightarrow> ('c, 'd, 'a) bl" where
  "bl_fail st = sbind bl_disconnect (\<lambda>_. sthrow st)"

text \<open>\<open>strdup\<close> copies up to the first NUL of what was read.\<close>

definition bl_send_request :: "blc_env \<Rightarrow> string \<Rightarrow> ('c, 'd, string) bl" where
  "bl_send_request env json =
     sbind bl_connect (\<lambda>_.
     sbind (sock_write json) (\<lambda>ok.
     if \<not> ok then bl_fail BL_ERR_TRANSPORT
     else sbind (sock_read (16 * 1024)) (\<lambda>r.
       case r of
         Framed buf \<Rightarrow> sbind (son_err BL_ERR_OOM (malloc env)) (\<lambda>_. sret (takeWhile (\<lambda>c. c \<noteq> NUL) buf))
       | _ \<Rightarrow> bl_fail BL_ERR_TRANSPORT)))"

definition json_field_b64 :: "blc_env \<Rightarrow> string \<Rightarrow> string \<Rightarrow> nat \<Rightarrow> ('z, bytes) blc" where
  "json_field_b64 env json key out_cap =
     (case json_field_str json key 4096 of
        (False, _) \<Rightarrow> sthrow ()
      | (True, tmp) \<Rightarrow> blc_b64decode env tmp out_cap)"

definition error_key :: string where
  "error_key = quoted ''error''"

definition capture_bridge_error :: "blc_env \<Rightarrow> string \<Rightarrow> ('c, 'd, bool) bl" where
  "capture_bridge_error env resp s =
     (case strstr resp error_key of
        None \<Rightarrow> (Inr False, s)
      | Some _ \<Rightarrow>
          (let err = snd (json_field_str resp ''error'' 512);
               txt = (if err \<noteq> [] then err else ''(no detail)'')
           in case malloc env s of
                (Inr _, s') \<Rightarrow> (Inr True, upd_cl (\<lambda>c. c\<lparr>last_bridge_error := Some txt\<rparr>) s')
              | (Inl _, s') \<Rightarrow> (Inr True, upd_cl (\<lambda>c. c\<lparr>last_bridge_error := None\<rparr>) s')))"

text \<open>A request whose answer may be refused with an \<open>error\<close> field.\<close>

definition checked_request :: "blc_env \<Rightarrow> string \<Rightarrow> ('c, 'd, string) bl" where
  "checked_request env json =
     sbind (bl_send_request env json) (\<lambda>resp.
     sbind (capture_bridge_error env resp) (\<lambda>refused.
     if refused then sthrow BL_ERR_BRIDGE_REFUSED else sret resp))"

definition fetch_pubkey :: "blc_env \<Rightarrow> string \<Rightarrow> ('c, 'd, bytes) bl" where
  "fetch_pubkey env cmd_json =
     sbind (checked_request env cmd_json) (\<lambda>resp.
     sbind (son_err BL_ERR_PROTOCOL (json_field_b64 env resp ''publicKey'' 65)) (\<lambda>out65.
     sbind (sguard (\<not> (length out65 \<noteq> 65 \<or> out65 ! 0 \<noteq> 0x04)) BL_ERR_PROTOCOL) (\<lambda>_.
     sret out65)))"

subsection \<open>Registration\<close>

definition json_cmd :: "string \<Rightarrow> string" where
  "json_cmd cmd = ''{'' @ quoted ''cmd'' @ '':'' @ quoted cmd @ ''}''"

text \<open>The pin of an earlier process, and the two identity keys of the bridge.\<close>

definition register_begin :: "('c, 'd, unit) bl" where
  "register_begin =
     sbind bl_clear_bridge_error (\<lambda>_.
     smod (\<lambda>s. if \<not> pin_loaded (cl s)
               then case ps_load (the_pin_store (cl s)) (pin_ctx s) of
                      None \<Rightarrow> s
                    | Some p \<Rightarrow> upd_cl (\<lambda>c. c\<lparr>pin_pub65 := p, pin_loaded := True\<rparr>) s
               else s))"

definition register_identity :: "blc_env \<Rightarrow> ('c, 'd, bytes \<times> bytes) bl" where
  "register_identity env =
     sbind (fetch_pubkey env (json_cmd ''GET_PUBLIC_KEY'')) (\<lambda>bridge_pub.
     sbind (fetch_pubkey env (json_cmd ''GET_ENCLAVE_PUBLIC_KEY'')) (\<lambda>sep_pub.
     sbind (sget cl) (\<lambda>c.
     if pin_loaded c \<and> sep_pub \<noteq> pin_pub65 c then sthrow BL_ERR_PIN_MISMATCH
     else sret (bridge_pub, sep_pub))))"

record 'd client_material =
  cm_nonce :: bytes
  cm_share :: bytes
  cm_priv :: bytes
  cm_pub :: bytes
  cm_issued :: 'd

definition register_material :: "blc_env \<Rightarrow> 'd dbl_ops \<Rightarrow> ('c, 'd, 'd client_material) bl" where
  "register_material env dbl =
     sbind (son_err BL_ERR_CRYPTO (rand_bytes env 16)) (\<lambda>nonce.
     sbind (son_err BL_ERR_CRYPTO (rand_bytes env 32)) (\<lambda>share.
     sbind (son_err BL_ERR_CRYPTO (blc_secp_random_priv env)) (\<lambda>eph_priv.
     sbind (son_err BL_ERR_CRYPTO (blc_secp_pub_uncompressed env eph_priv)) (\<lambda>eph_pub.
     sbind (sget clock) (\<lambda>now.
     sret \<lparr>cm_nonce = nonce, cm_share = share, cm_priv = eph_priv, cm_pub = eph_pub,
           cm_issued = bd_of_time dbl now\<rparr>)))))"

text \<open>The two encodings whose result the code does not check have room for their inputs.\<close>

definition b64_text :: "blc_env \<Rightarrow> bytes \<Rightarrow> nat \<Rightarrow> string" where
  "b64_text env bs cap = (case blc_b64encode env bs cap of None \<Rightarrow> [] | Some t \<Rightarrow> t)"

definition json_str_member :: "string \<Rightarrow> string \<Rightarrow> string" where
  "json_str_member k v = quoted k @ '':'' @ quoted v"

definition register_plaintext ::
  "blc_env \<Rightarrow> 'd dbl_ops \<Rightarrow> 'c bl_client \<Rightarrow> 'd client_material \<Rightarrow> string" where
  "register_plaintext env dbl c m =
     ''{'' @ quoted ''v'' @ '':1,''
     @ json_str_member ''clientPub'' (b64_text env (cm_pub m) 128) @ '',''
     @ json_str_member ''clientShare'' (b64_text env (cm_share m) 64) @ '',''
     @ quoted ''issuedAtBd'' @ '':'' @ fmt_f6 dbl (cm_issued m) @ '',''
     @ quoted ''ttlSeconds'' @ '':'' @ int_dec (ttl_seconds c) @ '',''
     @ quoted ''agent'' @ '':{'' @ json_str_member ''name'' (agent_name c) @ '',''
     @ json_str_member ''version'' (agent_version c) @ '',''
     @ json_str_member ''platform'' ''libbrightlink-c'' @ ''}}''"

definition link_register_json :: "string \<Rightarrow> string \<Rightarrow> string" where
  "link_register_json nonce_b64 env_b64 =
     ''{'' @ json_str_member ''cmd'' ''LINK_REGISTER'' @ '','' @ quoted ''protocolVersion'' @ '':1,''
     @ json_str_member ''clientNonce'' nonce_b64 @ '','' @ json_str_member ''envelope'' env_b64 @ ''}''"

definition register_request ::
  "blc_env \<Rightarrow> 'd dbl_ops \<Rightarrow> bytes \<Rightarrow> 'd client_material \<Rightarrow> ('c, 'd, string) bl" where
  "register_request env dbl bridge_pub m =
     sbind (sget cl) (\<lambda>c.
     let plaintext_json = register_plaintext env dbl c m in
     sbind (sguard (length plaintext_json < 1024) BL_ERR_PROTOCOL) (\<lambda>_.
     sbind (son_err BL_ERR_CRYPTO (blc_ecies_encrypt env bridge_pub (bytes_of_string plaintext_json)))
       (\<lambda>envelope.
     sbind (son_err BL_ERR_CRYPTO (malloc env)) (\<lambda>_.
     sbind (sopt BL_ERR_CRYPTO (blc_b64encode env envelope (4 * ((length envelope + 2) div 3) + 1)))
       (\<lambda>env_b64.
     sbind (sopt BL_ERR_CRYPTO (blc_b64encode env (cm_nonce m) 32)) (\<lambda>nonce_b64.
     sbind (son_err BL_ERR_OOM (malloc env)) (\<lambda>_.
     let request = link_register_json nonce_b64 env_b64 in
     sbind (sguard (length request < length env_b64 + 256) BL_ERR_PROTOCOL) (\<lambda>_.
     sret request))))))))"

record register_answer =
  ra_issued_at :: int
  ra_ttl :: int
  ra_session_id :: bytes
  ra_bridge_share :: bytes

definition register_response ::
  "blc_env \<Rightarrow> 'd client_material \<Rightarrow> string \<Rightarrow> ('c, 'd, register_answer) bl" where
  "register_response env m resp =
     sbind (sopt BL_ERR_PROTOCOL (json_field_int resp ''bridgeIssuedAtUnix'')) (\<lambda>bridge_issued_at.
     sbind (sopt BL_ERR_PROTOCOL (json_field_int resp ''ttlSeconds'')) (\<lambda>granted_ttl.
     sbind (son_err BL_ERR_PROTOCOL (json_field_b64 env resp ''sessionId'' 16)) (\<lambda>session_id.
     sbind (sguard (length session_id = 16) BL_ERR_PROTOCOL) (\<lambda>_.
     sbind (son_err BL_ERR_OOM (malloc env)) (\<lambda>_.
     let (ok, resp_env_b64) = json_field_str resp ''responseEnvelope'' (length resp + 1) in
     sbind (sguard ok BL_ERR_PROTOCOL) (\<lambda>_.
     sbind (son_err BL_ERR_OOM (malloc env)) (\<lambda>_.
     sbind (son_err BL_ERR_PROTOCOL (blc_b64decode env resp_env_b64 (length resp + 1)))
       (\<lambda>resp_envelope.
     sbind (son_err BL_ERR_CRYPTO (blc_ecies_decrypt env (cm_priv m) resp_envelope)) (\<lambda>bridge_share.
     sbind (sguard (length bridge_share = 32) BL_ERR_CRYPTO) (\<lambda>_.
     sret \<lparr>ra_issued_at = bridge_issued_at, ra_ttl = granted_ttl, ra_session_id = session_id,
           ra_bridge_share = bridge_share\<rparr>))))))))))"

definition BL_HKDF_INFO :: bytes where
  "BL_HKDF_INFO = bytes_of_string ''brightlink-session-key-v1''"

definition session_key_of :: "blc_env \<Rightarrow> 'd client_material \<Rightarrow> register_answer \<Rightarrow> bytes option" where
  "session_key_of env m a =
     blc_hkdf_sha256 env (take 32 (cm_share m) @ take 32 (ra_bridge_share a))
       (take 16 (cm_nonce m) @ take 16 (ra_session_id a)) BL_HKDF_INFO 32"

definition transcript_of :: "'d dbl_ops \<Rightarrow> 'd client_material \<Rightarrow> register_answer \<Rightarrow> bytes option" where
  "transcript_of dbl m a =
     build_transcript (bd_to_unix dbl) (cm_nonce m) (cm_pub m) (cm_share m) (ra_session_id a)
       (ra_bridge_share a) (cm_issued m) (word_of_int (ra_issued_at a)) (word_of_int (ra_ttl a))"

definition register_verify ::
  "blc_env \<Rightarrow> 'd dbl_ops \<Rightarrow> bytes \<Rightarrow> 'd client_material \<Rightarrow> string \<Rightarrow> register_answer
   \<Rightarrow> ('c, 'd, bytes) bl" where
  "register_verify env dbl sep_pub m resp a =
     sbind (sopt BL_ERR_CRYPTO (session_key_of env m a)) (\<lambda>k_session.
     sbind (sopt BL_ERR_PROTOCOL (transcript_of dbl m a)) (\<lambda>transcript.
     let (ok, sig_b64) = json_field_str resp ''transcriptSig'' 1024 in
     sbind (sguard ok BL_ERR_PROTOCOL) (\<lambda>_.
     sbind (son_err BL_ERR_PROTOCOL (blc_b64decode env sig_b64 256)) (\<lambda>sig_der.
     sbind (sguard (blc_verify_p256 env sep_pub transcript sig_der) BL_ERR_CRYPTO) (\<lambda>_.
     sret k_session)))))"

definition register_commit :: "bytes \<Rightarrow> bytes \<Rightarrow> bytes \<Rightarrow> ('c, 'd, unit) bl" where
  "register_commit sep_pub sid k_session =
     sbind (smod (\<lambda>s. if \<not> pin_loaded (cl s)
       then (upd_cl (\<lambda>c. c\<lparr>pin_pub65 := sep_pub, pin_loaded := True\<rparr>) s)
              \<lparr>pin_ctx := snd (ps_save (the_pin_store (cl s)) sep_pub (pin_ctx s))\<rparr>
       else s)) (\<lambda>_.
     smod (upd_cl (\<lambda>c. c\<lparr>session_id := sid, session_key := k_session, session_active := True\<rparr>)))"

definition bl_register :: "blc_env \<Rightarrow> 'd dbl_ops \<Rightarrow> ('c, 'd, unit) bl" where
  "bl_register env dbl =
     sbind (sget cl) (\<lambda>c.
     if session_active c then sret ()
     else
       sbind register_begin (\<lambda>_.
       sbind (register_identity env) (\<lambda>(bridge_pub, sep_pub).
       sbind (register_material env dbl) (\<lambda>m.
       sbind (register_request env dbl bridge_pub m) (\<lambda>request.
       sbind (checked_request env request) (\<lambda>resp.
       sbind (register_response env m resp) (\<lambda>a.
       sbind (register_verify env dbl sep_pub m resp a) (\<lambda>k_session.
       register_commit sep_pub (ra_session_id a) k_session))))))))"

subsection \<open>Position\<close>

fun format_string :: "bl_geo_format_t \<Rightarrow> string" where
  "format_string BL_GEO_FORMAT_WGS84 = ''wgs84''"
| "format_string BL_GEO_FORMAT_BRIGHTSPACE = ''brightspace''"
| "format_string BL_GEO_FORMAT_BOTH = ''both''"

text \<open>\<open>json_field_double\<close> stores into its target only on success.\<close>

definition store_double ::
  "'d dbl_ops \<Rightarrow> string \<Rightarrow> string \<Rightarrow> ('d \<Rightarrow> 'p \<Rightarrow> 'p) \<Rightarrow> 'p \<Rightarrow> bool \<times> 'p" where
  "store_double dbl resp key assign p =
     (case json_field_double (strtod dbl) resp key of
        None \<Rightarrow> (False, p)
      | Some v \<Rightarrow> (True, assign v p))"

definition geo_wgs84 :: "'d dbl_ops \<Rightarrow> string \<Rightarrow> 'd bl_geo_position \<Rightarrow> 'd bl_geo_position" where
  "geo_wgs84 dbl resp p0 =
     (case store_double dbl resp ''lat'' (\<lambda>v p. p\<lparr>wgs84_lat := v\<rparr>) p0 of
        (False, p1) \<Rightarrow> p1
      | (True, p1) \<Rightarrow>
     (case store_double dbl resp ''lon'' (\<lambda>v p. p\<lparr>wgs84_lon := v\<rparr>) p1 of
        (False, p2) \<Rightarrow> p2
      | (True, p2) \<Rightarrow>
          snd (store_double dbl resp ''alt_m'' (\<lambda>v p. p\<lparr>wgs84_alt_m := v\<rparr>)
                 (p2\<lparr>have_wgs84 := True\<rparr>))))"

definition geo_brightspace :: "'d dbl_ops \<Rightarrow> string \<Rightarrow> 'd bl_geo_position \<Rightarrow> 'd bl_geo_position" where
  "geo_brightspace dbl resp p0 =
     (case store_double dbl resp ''x_bm'' (\<lambda>v p. p\<lparr>brightspace_x_bm := v\<rparr>) p0 of
        (False, p1) \<Rightarrow> p1
      | (True, p1) \<Rightarrow>
     (case store_double dbl resp ''y_bm'' (\<lambda>v p. p\<lparr>brightspace_y_bm := v\<rparr>) p1 of
        (False, p2) \<Rightarrow> p2
      | (True, p2) \<Rightarrow>
     (case store_double dbl resp ''z_bm'' (\<lambda>v p. p\<lparr>brightspace_z_bm := v\<rparr>) p2 of
        (False, p3) \<Rightarrow> p3
      | (True, p3) \<Rightarrow>
          snd (store_double dbl resp ''epoch_bd'' (\<lambda>v p. p\<lparr>brightspace_epoch_bd := v\<rparr>)
                 (p3\<lparr>have_brightspace := True\<rparr>)))))"

definition geo_parse :: "'d dbl_ops \<Rightarrow> string \<Rightarrow> 'd bl_geo_position" where
  "geo_parse dbl resp =
     (let z = d_zero dbl;
          p0 = \<lparr>have_wgs84 = False, wgs84_lat = z, wgs84_lon = z, wgs84_alt_m = d_nan dbl,
                have_brightspace = False, brightspace_x_bm = z, brightspace_y_bm = z,
                brightspace_z_bm = z, brightspace_epoch_bd = z, accuracy_m = z, brightdate = z\<rparr>;
          p1 = geo_brightspace dbl resp (geo_wgs84 dbl resp p0);
          p2 = snd (store_double dbl resp ''accuracy_m'' (\<lambda>v p. p\<lparr>accuracy_m := v\<rparr>) p1)
      in snd (store_double dbl resp ''brightdate'' (\<lambda>v p. p\<lparr>brightdate := v\<rparr>) p2))"

definition geo_refused :: "('c, 'd, 'a) bl" where
  "geo_refused =
     sbind (sget cl) (\<lambda>c.
     let msg = (case last_bridge_error c of None \<Rightarrow> [] | Some m \<Rightarrow> m)
     in if strstr msg ''denied'' \<noteq> None \<or> strstr msg ''denied by policy'' \<noteq> None
           \<or> strstr msg ''user denied'' \<noteq> None
        then sthrow BL_ERR_DENIED else sthrow BL_ERR_BRIDGE_REFUSED)"

definition geo_request_json :: "bl_geo_format_t \<Rightarrow> string" where
  "geo_request_json fmt =
     ''{'' @ json_str_member ''cmd'' ''LINK_GEO_GET'' @ '','' @ json_str_member ''format'' (format_string fmt) @ ''}''"

definition ok_true :: string where
  "ok_true = quoted ''ok'' @ '':true''"

definition bl_geo_get :: "blc_env \<Rightarrow> 'd dbl_ops \<Rightarrow> bl_geo_format_t \<Rightarrow> ('c, 'd, unit) bl" where
  "bl_geo_get env dbl fmt =
     sbind bl_clear_bridge_error (\<lambda>_.
     sbind (sget cl) (\<lambda>c.
     sbind (if \<not> session_active c then bl_register env dbl else sret ()) (\<lambda>_.
     let request = geo_request_json fmt in
     sbind (sguard (length request < 128) BL_ERR_PROTOCOL) (\<lambda>_.
     sbind (bl_send_request env request) (\<lambda>resp.
     sbind (capture_bridge_error env resp) (\<lambda>refused.
     if refused then geo_refused
     else
       sbind (sguard (strstr resp ok_true \<noteq> None) BL_ERR_PROTOCOL) (\<lambda>_.
       let out = geo_parse dbl resp in
       sbind (smod (\<lambda>s. s\<lparr>geo_out := Some out\<rparr>)) (\<lambda>_.
       sguard (have_wgs84 out \<or> have_brightspace out) BL_ERR_PROTOCOL))))))))"

subsection \<open>What an operation leaves alone\<close>

text \<open>
  Everything before the commit of a registration leaves the session, the pin, the store and the
  configuration as they were, and only appends to the wire.
\<close>

definition frame :: "('c, 'd) bl_st \<Rightarrow> ('c, 'd) bl_st \<Rightarrow> bool" where
  "frame s s' \<longleftrightarrow>
     pin_ctx s' = pin_ctx s \<and> geo_out s' = geo_out s \<and> clock s' = clock s
     \<and> session_active (cl s') = session_active (cl s) \<and> session_id (cl s') = session_id (cl s)
     \<and> session_key (cl s') = session_key (cl s) \<and> pin_loaded (cl s') = pin_loaded (cl s)
     \<and> pin_pub65 (cl s') = pin_pub65 (cl s) \<and> the_pin_store (cl s') = the_pin_store (cl s)
     \<and> socket_path (cl s') = socket_path (cl s) \<and> agent_name (cl s') = agent_name (cl s)
     \<and> agent_version (cl s') = agent_version (cl s) \<and> ttl_seconds (cl s') = ttl_seconds (cl s)
     \<and> (\<exists>w. wire s' = wire s @ w)"

named_theorems frame_intro \<open>operations that keep the frame\<close>

lemma reflp_frame: "reflp frame"
  by (auto simp: reflp_def frame_def)

lemma transp_frame: "transp frame"
  by (auto simp: transp_def frame_def)

lemmas frame_bind [frame_intro] = keeps_bind [OF transp_frame]
lemmas frame_pure [frame_intro] = keeps_pure [OF reflp_frame] keeps_sopt [OF reflp_frame]
lemmas frame_son_err [frame_intro] = keeps_son_err [where R = frame]

lemma frame_rand_bytes [frame_intro]: "keeps frame (rand_bytes env n)"
  by (auto simp: keeps_def rand_bytes_def frame_def split: option.splits)

lemma frame_malloc [frame_intro]: "keeps frame (malloc env)"
  by (auto simp: keeps_def malloc_def frame_def)

lemma frame_blc_secp [frame_intro]: "keeps frame (blc_secp env)"
  by (auto simp: keeps_def blc_secp_def malloc_def frame_def)

lemma frame_random_priv_loop [frame_intro]: "keeps frame (random_priv_loop env n)"
  by (induction n) (auto intro!: frame_intro)

lemma frame_blc [frame_intro]:
  "keeps frame (blc_secp_random_priv env)" "keeps frame (blc_secp_pub_uncompressed env k)"
  "keeps frame (blc_secp_pub_compressed env k)"
  by (auto simp: blc_secp_random_priv_def blc_secp_pub_uncompressed_def
      blc_secp_pub_compressed_def intro!: frame_intro)

lemma frame_ecies [frame_intro]:
  "keeps frame (blc_ecies_encrypt env pub pt)" "keeps frame (blc_ecies_decrypt env priv e)"
  by (auto simp: blc_ecies_encrypt_def blc_ecies_decrypt_def Let_def intro!: frame_intro
      split: prod.split)

lemma frame_b64 [frame_intro]:
  "keeps frame (blc_b64decode env src cap)" "keeps frame (json_field_b64 env json key cap)"
proof -
  show d: "keeps frame (blc_b64decode env src cap)" for src
    by (auto simp: blc_b64decode_def Let_def intro!: frame_intro)
  show "keeps frame (json_field_b64 env json key cap)"
    by (auto simp: json_field_b64_def intro!: frame_intro d split: prod.split bool.split)
qed

lemma frame_io [frame_intro]:
  "keeps frame bl_connect" "keeps frame (sock_write json)" "keeps frame (sock_read cap)"
  "keeps frame bl_disconnect" "keeps frame bl_clear_bridge_error"
  "keeps frame (capture_bridge_error env resp)"
  by (auto simp: keeps_def bl_connect_def sock_write_def sock_read_def bl_disconnect_def
      bl_clear_bridge_error_def capture_bridge_error_def frame_def malloc_def Let_def serr_defs
      split: list.splits prod.splits option.splits)

lemma frame_requests [frame_intro]:
  "keeps frame (bl_fail st :: ('c, 'd, 'a) bl)"
  "keeps frame (bl_send_request env json)" "keeps frame (checked_request env json)"
  "keeps frame (fetch_pubkey env json)" "keeps frame (register_identity env)"
proof -
  show f: "keeps frame (bl_fail st :: ('x, 'y, 'z) bl)" for st
    by (auto simp: bl_fail_def intro!: frame_intro)
  show r: "keeps frame (bl_send_request env json)" for json
    by (auto simp: bl_send_request_def intro!: frame_intro f split: framed.split)
  show c: "keeps frame (checked_request env json)" for json
    by (auto simp: checked_request_def intro!: frame_intro r)
  show p: "keeps frame (fetch_pubkey env json)" for json
    by (auto simp: fetch_pubkey_def intro!: frame_intro c)
  show "keeps frame (register_identity env)"
    by (auto simp: register_identity_def intro!: frame_intro p)
qed

lemma frame_register [frame_intro]:
  "keeps frame (register_material env dbl)" "keeps frame (register_request env dbl pub m)"
  "keeps frame (register_response env m resp)" "keeps frame (register_verify env dbl pub m resp a)"
  by (auto simp: register_material_def register_request_def register_response_def
      register_verify_def Let_def intro!: frame_intro split: prod.split)

lemma frame_run: "keeps frame m \<Longrightarrow> m s = (r, s') \<Longrightarrow> frame s s'"
  by (metis keeps_def snd_conv)

subsection \<open>The pin\<close>

text \<open>The key the client is bound to: its own pin or, before the first call, the stored one.\<close>

definition known_pin :: "('c, 'd) bl_st \<Rightarrow> bytes option" where
  "known_pin s =
     (if pin_loaded (cl s) then Some (pin_pub65 (cl s))
      else ps_load (the_pin_store (cl s)) (pin_ctx s))"

lemma known_pin_frame: "frame s s' \<Longrightarrow> known_pin s' = known_pin s"
  by (simp add: known_pin_def frame_def)

lemma register_begin_run:
  obtains s1 where "register_begin s = (Inr (), s1)" "known_pin s1 = known_pin s"
    "pin_loaded (cl s1) \<longleftrightarrow> known_pin s \<noteq> None"
    "frame (upd_cl (\<lambda>c. c\<lparr>pin_loaded := pin_loaded (cl s1), pin_pub65 := pin_pub65 (cl s1)\<rparr>) s) s1"
proof -
  have "register_begin s = (Inr (), snd (register_begin s))"
    by (simp add: register_begin_def bl_clear_bridge_error_def sbind_def serr_defs)
  moreover have "known_pin (snd (register_begin s)) = known_pin s"
    "pin_loaded (cl (snd (register_begin s))) \<longleftrightarrow> known_pin s \<noteq> None"
    "frame (upd_cl (\<lambda>c. c\<lparr>pin_loaded := pin_loaded (cl (snd (register_begin s))),
       pin_pub65 := pin_pub65 (cl (snd (register_begin s)))\<rparr>) s) (snd (register_begin s))"
    by (auto simp: register_begin_def bl_clear_bridge_error_def sbind_def serr_defs known_pin_def
        frame_def split: option.splits)
  ultimately show thesis using that by blast
qed

lemma fetch_pubkey_form: "fetch_pubkey env json s = (Inr p, s') \<Longrightarrow> pin65 p"
  by (auto simp: fetch_pubkey_def serr_Inr pin65_def)

lemma register_identity_Inr:
  assumes "register_identity env s = (Inr (bp, sp), s')"
  shows "pin65 bp" "pin65 sp" "frame s s'" "pin_loaded (cl s) \<Longrightarrow> sp = pin_pub65 (cl s)"
proof -
  from assms show "pin65 bp" "pin65 sp"
    by (auto simp: register_identity_def serr_Inr dest: fetch_pubkey_form split: if_splits)
  show fr: "frame s s'" using assms frame_intro frame_run by metis
  from assms have "pin_loaded (cl s') \<Longrightarrow> sp = pin_pub65 (cl s')"
    by (auto simp: register_identity_def serr_Inr split: if_splits)
  with fr show "pin_loaded (cl s) \<Longrightarrow> sp = pin_pub65 (cl s)" by (simp add: frame_def)
qed

lemma register_verify_Inr:
  assumes "register_verify env dbl sp m resp a s = (Inr k, s')"
  obtains t sg where "session_key_of env m a = Some k" "transcript_of dbl m a = Some t"
    "blc_verify_p256 env sp t sg"
  using assms by (auto simp: register_verify_def serr_Inr Let_def case_prod_beta)

lemma register_material_Inr:
  assumes "register_material env dbl s = (Inr m, s')"
  obtains i j where "RAND_bytes env i 16 = Some (cm_nonce m)" "RAND_bytes env j 32 = Some (cm_share m)"
    "seckey_verify env (cm_priv m)" "cm_issued m = bd_of_time dbl (clock s)" "length (cm_pub m) = 65"
proof -
  from assms obtain n sh pr pb s1 s2 s3 s4 where
    r: "rand_bytes env 16 s = (Inr n, s1)" "rand_bytes env 32 s1 = (Inr sh, s2)"
      "blc_secp_random_priv env s2 = (Inr pr, s3)" "blc_secp_pub_uncompressed env pr s3 = (Inr pb, s4)"
    and m: "m = \<lparr>cm_nonce = n, cm_share = sh, cm_priv = pr, cm_pub = pb, cm_issued = bd_of_time dbl (clock s4)\<rparr>"
    by (auto simp: register_material_def serr_Inr)
  have "frame s s4"
    using r frame_intro frame_run transp_frame by (metis (no_types, lifting) transpD)
  then have "clock s4 = clock s" by (simp add: frame_def)
  moreover have "RAND_bytes env (rand_n s) 16 = Some n" "RAND_bytes env (rand_n s1) 32 = Some sh"
    using r(1,2) by (auto simp: rand_bytes_def split: option.splits)
  moreover have "seckey_verify env pr"
    using r(3) by (auto simp: blc_secp_random_priv_def serr_Inr dest: random_priv_valid)
  moreover have "length pb = 65"
    using r(4) by (auto simp: blc_secp_pub_uncompressed_def serr_Inr)
  ultimately show thesis using that m by simp
qed

lemma register_response_Inr:
  "register_response env m resp s = (Inr a, s') \<Longrightarrow>
   length (ra_session_id a) = 16 \<and> length (ra_bridge_share a) = 32"
  by (auto simp: register_response_def serr_Inr Let_def case_prod_beta)

text \<open>The stages of a registration that starts without a session.\<close>

lemma bl_register_stages:
  assumes "\<not> session_active (cl s)" "register_begin s = (Inr (), s1)"
  shows "bl_register env dbl s =
    sbind (register_identity env) (\<lambda>(bridge_pub, sep_pub).
       sbind (register_material env dbl) (\<lambda>m.
       sbind (register_request env dbl bridge_pub m) (\<lambda>request.
       sbind (checked_request env request) (\<lambda>resp.
       sbind (register_response env m resp) (\<lambda>a.
       sbind (register_verify env dbl sep_pub m resp a) (\<lambda>k_session.
       register_commit sep_pub (ra_session_id a) k_session)))))) s1"
  using assms by (simp add: bl_register_def sbind_def sget_def)

lemma register_commit_total: "err_keeps R (register_commit sp sid k)"
  by (simp add: err_keeps_def register_commit_def sbind_def serr_defs)

lemma bl_register_failed_frame:
  assumes "\<not> session_active (cl s)" "register_begin s = (Inr (), s1)"
    and "bl_register env dbl s = (Inl e, s')"
  shows "frame s1 s'"
proof -
  have "err_keeps frame (sbind (register_identity env) (\<lambda>(bridge_pub, sep_pub).
       sbind (register_material env dbl) (\<lambda>m.
       sbind (register_request env dbl bridge_pub m) (\<lambda>request.
       sbind (checked_request env request) (\<lambda>resp.
       sbind (register_response env m resp) (\<lambda>a.
       sbind (register_verify env dbl sep_pub m resp a) (\<lambda>k_session.
       register_commit sep_pub (ra_session_id a) k_session)))))))"
    by (auto intro!: err_keeps_bind [OF transp_frame] frame_intro register_commit_total
        split: prod.split)
  with assms(3) show ?thesis
    unfolding bl_register_stages [OF assms(1,2)] err_keeps_def by blast
qed

lemma bl_register_Inl:
  assumes "bl_register env dbl s = (Inl e, s')"
  shows "\<not> session_active (cl s') \<and> session_id (cl s') = session_id (cl s)
    \<and> session_key (cl s') = session_key (cl s) \<and> pin_ctx s' = pin_ctx s
    \<and> known_pin s' = known_pin s"
proof -
  have inactive: "\<not> session_active (cl s)"
    using assms by (auto simp: bl_register_def sbind_def serr_defs)
  obtain s1 where s1: "register_begin s = (Inr (), s1)" "known_pin s1 = known_pin s"
    and fr: "frame (upd_cl (\<lambda>c. c\<lparr>pin_loaded := pin_loaded (cl s1), pin_pub65 := pin_pub65 (cl s1)\<rparr>) s) s1"
    by (rule register_begin_run)
  have "frame s1 s'" by (rule bl_register_failed_frame [OF inactive s1(1) assms])
  moreover from this have "known_pin s' = known_pin s" using s1(2) known_pin_frame by metis
  ultimately show ?thesis using inactive fr by (simp add: frame_def)
qed

lemma bl_register_Inr:
  assumes "\<not> session_active (cl s)" "bl_register env dbl s = (Inr (), s')"
  shows "\<exists>sep m a t sg i j.
      known_pin s \<in> {None, Some sep} \<and> pin65 sep
      \<and> RAND_bytes env i 16 = Some (cm_nonce m) \<and> RAND_bytes env j 32 = Some (cm_share m)
      \<and> transcript_of dbl m a = Some t \<and> blc_verify_p256 env sep t sg
      \<and> session_active (cl s') \<and> session_id (cl s') = ra_session_id a
      \<and> length (session_id (cl s')) = 16
      \<and> session_key_of env m a = Some (session_key (cl s'))
      \<and> pin_loaded (cl s') \<and> pin_pub65 (cl s') = sep
      \<and> pin_ctx s' = (if known_pin s = None
                      then snd (ps_save (the_pin_store (cl s)) sep (pin_ctx s)) else pin_ctx s)"
proof -
  obtain s1 where s1: "register_begin s = (Inr (), s1)" "known_pin s1 = known_pin s"
      "pin_loaded (cl s1) \<longleftrightarrow> known_pin s \<noteq> None"
    and fr: "frame (upd_cl (\<lambda>c. c\<lparr>pin_loaded := pin_loaded (cl s1), pin_pub65 := pin_pub65 (cl s1)\<rparr>) s) s1"
    by (rule register_begin_run)
  obtain bp sep m req resp a k s2 s3 s4 s5 s6 s7 where
    id: "register_identity env s1 = (Inr (bp, sep), s2)"
    and mat: "register_material env dbl s2 = (Inr m, s3)"
    and req: "register_request env dbl bp m s3 = (Inr req, s4)"
    and resp: "checked_request env req s4 = (Inr resp, s5)"
    and ans: "register_response env m resp s5 = (Inr a, s6)"
    and ver: "register_verify env dbl sep m resp a s6 = (Inr k, s7)"
    and com: "register_commit sep (ra_session_id a) k s7 = (Inr (), s')"
    using assms(2) unfolding bl_register_stages [OF assms(1) s1(1)]
    by (auto simp: sbind_Inr_iff)
  note frs = frame_run [OF frame_requests(5) id] frame_run [OF frame_register(1) mat]
    frame_run [OF frame_register(2) req] frame_run [OF frame_requests(3) resp]
    frame_run [OF frame_register(3) ans] frame_run [OF frame_register(4) ver]
  have f17: "frame s1 s7" using frs transp_frame by (meson transpD)
  have kp: "known_pin s \<in> {None, Some sep}"
  proof (cases "pin_loaded (cl s1)")
    case True
    with register_identity_Inr(4) [OF id] have "known_pin s1 = Some sep" by (simp add: known_pin_def)
    with s1(2) show ?thesis by simp
  next
    case False
    with s1(3) show ?thesis by simp
  qed
  have pl: "pin_loaded (cl s7) \<longleftrightarrow> known_pin s \<noteq> None" using f17 s1(3) by (simp add: frame_def)
  have pp: "known_pin s \<noteq> None \<Longrightarrow> pin_pub65 (cl s7) = sep"
    using f17 s1(3) register_identity_Inr(4) [OF id] by (simp add: frame_def)
  have ctx: "pin_ctx s7 = pin_ctx s" "the_pin_store (cl s7) = the_pin_store (cl s)"
    using f17 fr by (simp_all add: frame_def)
  have res: "session_active (cl s')" "session_id (cl s') = ra_session_id a" "session_key (cl s') = k"
    "pin_loaded (cl s')" "pin_pub65 (cl s') = sep"
    "pin_ctx s' = (if known_pin s = None
       then snd (ps_save (the_pin_store (cl s)) sep (pin_ctx s)) else pin_ctx s)"
    using com pl pp ctx by (auto simp: register_commit_def serr_Inr)
  obtain i j where ij: "RAND_bytes env i 16 = Some (cm_nonce m)" "RAND_bytes env j 32 = Some (cm_share m)"
    using register_material_Inr [OF mat] by metis
  obtain t sg where ts: "session_key_of env m a = Some k" "transcript_of dbl m a = Some t"
    "blc_verify_p256 env sep t sg" using register_verify_Inr [OF ver] by metis
  have "pin65 sep" "length (ra_session_id a) = 16"
    using register_identity_Inr(2) [OF id] register_response_Inr [OF ans] by auto
  with kp res ij ts show ?thesis by metis
qed

text \<open>
C4: A registration that fails, at whatever point and for whatever reason, leaves no session: the
session fields, the pin store and the key the client is bound to are what they were.
\<close>
theorem bl_register_failure_safe:
  assumes "bl_register env dbl s = (Inl e, s')"
  shows "\<not> session_active (cl s') \<and> session_id (cl s') = session_id (cl s)
    \<and> session_key (cl s') = session_key (cl s) \<and> pin_ctx s' = pin_ctx s
    \<and> known_pin s' = known_pin s"
  using bl_register_Inl [OF assms] .

text \<open>
C2: A registration that succeeds from a client without a session has verified, under the key the
client was already bound to if there was one, a signature over the transcript of this very
exchange: the client's own fresh nonce and share, the session identifier and the bridge's share
from which the session key it now holds is derived. The verified key is the pin from then on, and
it is offered to the store exactly when there was no pin before.
\<close>
theorem bl_register_authenticated:
  assumes "\<not> session_active (cl s)" "bl_register env dbl s = (Inr (), s')"
  shows "\<exists>sep m a t sg i j.
      known_pin s \<in> {None, Some sep} \<and> pin65 sep
      \<and> RAND_bytes env i 16 = Some (cm_nonce m) \<and> RAND_bytes env j 32 = Some (cm_share m)
      \<and> transcript_of dbl m a = Some t \<and> blc_verify_p256 env sep t sg
      \<and> session_active (cl s') \<and> session_id (cl s') = ra_session_id a
      \<and> length (session_id (cl s')) = 16
      \<and> session_key_of env m a = Some (session_key (cl s'))
      \<and> pin_loaded (cl s') \<and> pin_pub65 (cl s') = sep
      \<and> pin_ctx s' = (if known_pin s = None
                      then snd (ps_save (the_pin_store (cl s)) sep (pin_ctx s)) else pin_ctx s)"
  using bl_register_Inr [OF assms] .

text \<open>
A bridge whose enclave key differs from the key the client is bound to is refused right after
the two identity requests: nothing further is sent, no session exists and the pin stays.
\<close>
lemma bl_register_pin_mismatch:
  assumes "\<not> session_active (cl s)" "known_pin s = Some p"
    and "fetch_pubkey env (json_cmd ''GET_PUBLIC_KEY'') (snd (register_begin s)) = (Inr bp, s2)"
    and "fetch_pubkey env (json_cmd ''GET_ENCLAVE_PUBLIC_KEY'') s2 = (Inr sep, s3)" "sep \<noteq> p"
  shows "bl_register env dbl s = (Inl BL_ERR_PIN_MISMATCH, s3)"
proof -
  obtain s1 where s1: "register_begin s = (Inr (), s1)" "known_pin s1 = known_pin s"
    "pin_loaded (cl s1) \<longleftrightarrow> known_pin s \<noteq> None"
    by (rule register_begin_run)
  have "frame s1 s3"
    using frame_run [OF frame_requests(4) assms(3)] frame_run [OF frame_requests(4) assms(4)]
    by (simp add: s1(1) transpD [OF transp_frame])
  then have "pin_loaded (cl s3)" "pin_pub65 (cl s3) = p"
    using s1 assms(2) by (auto simp: frame_def known_pin_def)
  then have "register_identity env s1 = (Inl BL_ERR_PIN_MISMATCH, s3)"
    using assms(3-5) s1(1) by (simp add: register_identity_def sbind_def serr_defs)
  then show ?thesis
    by (simp add: bl_register_stages [OF assms(1) s1(1)] sbind_def)
qed

text \<open>A session that was verified under a key, over the transcript of its own exchange.\<close>

definition session_verified :: "blc_env \<Rightarrow> 'd dbl_ops \<Rightarrow> bytes \<Rightarrow> ('c, 'd) bl_st \<Rightarrow> bool" where
  "session_verified env dbl key s' \<longleftrightarrow> (\<exists>m a t sg i j.
      RAND_bytes env i 16 = Some (cm_nonce m) \<and> RAND_bytes env j 32 = Some (cm_share m)
      \<and> transcript_of dbl m a = Some t \<and> blc_verify_p256 env key t sg
      \<and> session_active (cl s') \<and> session_id (cl s') = ra_session_id a
      \<and> session_key_of env m a = Some (session_key (cl s')))"

subsection \<open>Clients one after the other\<close>

text \<open>
  A process that creates a client on the same store, registers and exits; the environment, the
  other contents of the state and the libraries' answers are arbitrary.
\<close>

definition client_run ::
  "'d dbl_ops \<Rightarrow> 'c bl_pin_store \<Rightarrow> blc_env \<times> ('c, 'd) bl_st \<Rightarrow> 'c
   \<Rightarrow> (bl_status_t + unit) \<times> ('c, 'd) bl_st" where
  "client_run dbl st r ctx =
     (case r of (env, t) \<Rightarrow>
        bl_register env dbl (upd_cl (\<lambda>c. c\<lparr>session_active := False, pin_loaded := False,
          the_pin_store := st\<rparr>) t\<lparr>pin_ctx := ctx\<rparr>))"

fun client_runs ::
  "'d dbl_ops \<Rightarrow> 'c bl_pin_store \<Rightarrow> (blc_env \<times> ('c, 'd) bl_st) list \<Rightarrow> 'c
   \<Rightarrow> ((bl_status_t + unit) \<times> ('c, 'd) bl_st) list" where
  "client_runs dbl st [] ctx = []"
| "client_runs dbl st (r # rs) ctx =
     (let out = client_run dbl st r ctx in out # client_runs dbl st rs (pin_ctx (snd out)))"

lemma client_run_stored:
  assumes "ps_load st ctx = Some p" "client_run dbl st (env, t) ctx = (res, t')"
  shows "pin_ctx t' = ctx" "res = Inr () \<Longrightarrow> pin_pub65 (cl t') = p \<and> session_verified env dbl p t'"
proof -
  define s where "s = (upd_cl (\<lambda>c. c\<lparr>session_active := False, pin_loaded := False,
          the_pin_store := st\<rparr>) t)\<lparr>pin_ctx := ctx\<rparr>"
  have run: "bl_register env dbl s = (res, t')"
    using assms(2) by (simp add: client_run_def s_def)
  have s: "\<not> session_active (cl s)" "known_pin s = Some p" "pin_ctx s = ctx"
    using assms(1) by (auto simp: s_def known_pin_def)
  have "pin_ctx t' = ctx \<and> (res = Inr () \<longrightarrow> pin_pub65 (cl t') = p \<and> session_verified env dbl p t')"
  proof (cases res)
    case (Inl e)
    with run s(3) bl_register_Inl [of env dbl s e t'] show ?thesis by simp
  next
    case (Inr u)
    with run s bl_register_Inr [of s env dbl t'] show ?thesis by (auto simp: session_verified_def)
  qed
  then show "pin_ctx t' = ctx" "res = Inr () \<Longrightarrow> pin_pub65 (cl t') = p \<and> session_verified env dbl p t'" by auto
qed

lemma client_runs_stored:
  assumes "ps_load st ctx = Some p"
  shows "list_all2 (\<lambda>(env, _) (res, t'). pin_ctx t' = ctx
      \<and> (case res of Inl _ \<Rightarrow> True | Inr _ \<Rightarrow> pin_pub65 (cl t') = p \<and> session_verified env dbl p t'))
    rs (client_runs dbl st rs ctx)"
proof (induction rs)
  case (Cons r rs)
  obtain env t where r: "r = (env, t)" by (cases r)
  obtain res1 t1 where r1: "client_run dbl st (env, t) ctx = (res1, t1)" by fastforce
  note one = client_run_stored [OF assms r1]
  show ?case using Cons one by (cases res1) (simp_all add: r r1 Let_def)
qed simp

subsection \<open>Requests and positions\<close>

lemma bl_fail_Inr_iff: "bl_fail st s = (Inr a, s') \<longleftrightarrow> False"
  by (simp add: bl_fail_def serr_Inr)

lemma bl_send_request_Inr:
  assumes "bl_send_request env json s = (Inr resp, s')"
  shows "wire s' = wire s @ json \<and> fd_open (cl s') \<and> length resp < 16384 \<and> NUL \<notin> set resp
    \<and> (\<exists>buf. read_until_brace 16384 (rd_evs s) = (Framed buf, rd_evs s') \<and> resp = takeWhile (\<lambda>c. c \<noteq> NUL) buf)"
proof -
  from assms obtain s1 s2 s3 fr where
    c: "bl_connect s = (Inr (), s1)" and w: "sock_write json s1 = (Inr True, s2)"
    and r': "sock_read 16384 s2 = (Inr fr, s3)"
    and m': "(case fr of
         Framed buf \<Rightarrow> sbind (son_err BL_ERR_OOM (malloc env)) (\<lambda>_. sret (takeWhile (\<lambda>c. c \<noteq> NUL) buf))
       | _ \<Rightarrow> bl_fail BL_ERR_TRANSPORT) s3 = (Inr resp, s')"
    by (auto simp: bl_send_request_def bl_fail_Inr_iff serr_Inr split: if_splits)
  from m' obtain buf where fr: "fr = Framed buf" and m: "malloc env s3 = (Inr (), s')"
    and resp: "resp = takeWhile (\<lambda>c. c \<noteq> NUL) buf"
    by (cases fr) (auto simp: bl_fail_def serr_Inr)
  note r = r' [unfolded fr]
  have "wire s1 = wire s" "fd_open (cl s1)" "rd_evs s1 = rd_evs s"
    using c by (auto simp: bl_connect_def Let_def split: if_splits list.splits)
  moreover obtain out evs where "write_all (wr_evs s1) [] json = (True, out, evs)"
      "s2 = s1\<lparr>wr_evs := evs, wire := wire s1 @ out\<rparr>"
    using w by (auto simp: sock_write_def split: prod.splits)
  moreover from this(1) have "out = json" using write_all_prefix by fastforce
  moreover obtain evs' where "read_until_brace 16384 (rd_evs s2) = (Framed buf, evs')"
      "s3 = s2\<lparr>rd_evs := evs'\<rparr>"
    using r by (auto simp: sock_read_def split: prod.splits)
  moreover from this(1) have "length buf < 16384"
    unfolding read_until_brace_def using read_loop_Framed by blast
  moreover have "length resp \<le> length buf" "NUL \<notin> set resp"
    unfolding resp by (auto simp: length_takeWhile_le dest: set_takeWhileD)
  ultimately show ?thesis using m resp by (auto simp: malloc_def split: if_splits)
qed

text \<open>
A request that succeeds has written the whole text on the wire after what was there, and the
answer it returns fits the 16 KiB buffer with its terminator and holds no NUL.
\<close>
lemma bl_send_request_ok:
  assumes "bl_send_request env json s = (Inr resp, s')"
  shows "wire s' = wire s @ json \<and> fd_open (cl s') \<and> length resp < 16384 \<and> NUL \<notin> set resp"
  using bl_send_request_Inr [OF assms] by blast

abbreviation geo_field :: "'d dbl_ops \<Rightarrow> string \<Rightarrow> string \<Rightarrow> 'd option" where
  "geo_field dbl \<equiv> json_field_double (strtod dbl)"

text \<open>
What the position holds, for every answer: each block is present exactly when all its
coordinates are, the coordinates are then the ones of the answer, a missing altitude is NaN, and
an absent block leaves the flag off.
\<close>
lemma geo_parse_blocks:
  "(case (geo_field dbl resp ''lat'', geo_field dbl resp ''lon'') of
      (Some la, Some lo) \<Rightarrow>
        have_wgs84 (geo_parse dbl resp) \<and> wgs84_lat (geo_parse dbl resp) = la
        \<and> wgs84_lon (geo_parse dbl resp) = lo
        \<and> wgs84_alt_m (geo_parse dbl resp)
          = (case geo_field dbl resp ''alt_m'' of None \<Rightarrow> d_nan dbl | Some a \<Rightarrow> a)
    | _ \<Rightarrow> \<not> have_wgs84 (geo_parse dbl resp))
   \<and> (case (geo_field dbl resp ''x_bm'', geo_field dbl resp ''y_bm'', geo_field dbl resp ''z_bm'') of
      (Some x, Some y, Some z) \<Rightarrow>
        have_brightspace (geo_parse dbl resp) \<and> brightspace_x_bm (geo_parse dbl resp) = x
        \<and> brightspace_y_bm (geo_parse dbl resp) = y \<and> brightspace_z_bm (geo_parse dbl resp) = z
    | _ \<Rightarrow> \<not> have_brightspace (geo_parse dbl resp))"
  by (cases "geo_field dbl resp ''lat''"; cases "geo_field dbl resp ''lon''";
      cases "geo_field dbl resp ''x_bm''"; cases "geo_field dbl resp ''y_bm''";
      cases "geo_field dbl resp ''z_bm''")
     (simp_all add: geo_parse_def geo_wgs84_def geo_brightspace_def store_double_def Let_def
       split: option.split)

lemma bl_clear_run: "bl_clear_bridge_error s = (Inr (), upd_cl (\<lambda>c. c\<lparr>last_bridge_error := None\<rparr>) s)"
  by (simp add: bl_clear_bridge_error_def serr_defs)

text \<open>
C5: A position is reported only over an authenticated session, the one there was or one registered by this
call (state \<open>s1\<close>). It is then read from the next JSON object on the socket after the request went out,
that very text carries the success marker and no error, and holds at least one block; the session, when
there was one already, is the same.
\<close>
theorem bl_geo_get_ok:
  assumes "bl_geo_get env dbl fmt s = (Inr (), s')"
  shows "\<exists>s1 buf resp.
      (if session_active (cl s) then s1 = upd_cl (\<lambda>c. c\<lparr>last_bridge_error := None\<rparr>) s
       else bl_register env dbl (upd_cl (\<lambda>c. c\<lparr>last_bridge_error := None\<rparr>) s) = (Inr (), s1))
      \<and> session_active (cl s1) \<and> session_active (cl s')
      \<and> wire s' = wire s1 @ geo_request_json fmt
      \<and> read_until_brace 16384 (rd_evs s1) = (Framed buf, rd_evs s') \<and> resp = takeWhile (\<lambda>c. c \<noteq> NUL) buf
      \<and> strstr resp ok_true \<noteq> None \<and> strstr resp error_key = None
      \<and> geo_out s' = Some (geo_parse dbl resp)
      \<and> (have_wgs84 (geo_parse dbl resp) \<or> have_brightspace (geo_parse dbl resp))
      \<and> (session_active (cl s) \<longrightarrow> session_key (cl s') = session_key (cl s)
          \<and> known_pin s' = known_pin s \<and> pin_ctx s' = pin_ctx s)"
proof -
  define s0 where "s0 = upd_cl (\<lambda>c. c\<lparr>last_bridge_error := None\<rparr>) s"
  from assms obtain s1 resp s2 where
    reg: "(if \<not> session_active (cl s0) then bl_register env dbl else sret ()) s0 = (Inr (), s1)"
    and send: "bl_send_request env (geo_request_json fmt) s1 = (Inr resp, s2)"
    and cap: "capture_bridge_error env resp s2 = (Inr False, s2)" "strstr resp error_key = None"
    and okt: "strstr resp ok_true \<noteq> None"
    and blk: "have_wgs84 (geo_parse dbl resp) \<or> have_brightspace (geo_parse dbl resp)"
    and s': "s' = s2\<lparr>geo_out := Some (geo_parse dbl resp)\<rparr>"
    unfolding bl_geo_get_def sbind_run [OF bl_clear_run] s0_def [symmetric]
    by (auto simp: serr_Inr geo_refused_def capture_bridge_error_def Let_def
        split: if_splits option.splits prod.splits sum.splits)
  have act: "session_active (cl s1)"
    using reg bl_register_Inr by (fastforce simp: serr_Inr split: if_splits)
  have fr: "frame s1 s2" by (rule frame_run [OF frame_requests(2) send])
  have s1: "if session_active (cl s) then s1 = s0 else bl_register env dbl s0 = (Inr (), s1)"
    using reg by (auto simp: s0_def serr_Inr split: if_splits)
  have "known_pin s' = known_pin s2" by (simp add: s' known_pin_def)
  then have pin: "known_pin s0 = known_pin s" "known_pin s' = known_pin s1"
    using known_pin_frame [OF fr] by (simp_all add: s0_def known_pin_def)
  obtain buf where buf: "read_until_brace 16384 (rd_evs s1) = (Framed buf, rd_evs s2)" "resp = takeWhile (\<lambda>c. c \<noteq> NUL) buf"
    and wire: "wire s2 = wire s1 @ geo_request_json fmt"
    using bl_send_request_Inr [OF send] by blast
  have "session_active (cl s) \<Longrightarrow> session_key (cl s') = session_key (cl s) \<and> known_pin s' = known_pin s \<and> pin_ctx s' = pin_ctx s"
    using s1 fr pin by (simp add: frame_def s' s0_def)
  with s1 act buf wire okt cap(2) blk fr show ?thesis
    unfolding s0_def by (intro exI [of _ s1] exI [of _ buf] exI [of _ resp]) (simp add: s' frame_def)
qed

subsection \<open>A concrete client\<close>

text \<open>Integers for \<open>double\<close>, and a client before its first call with a given socket.\<close>

definition int_dbl :: "int dbl_ops" where
  "int_dbl = \<lparr>bd_of_time = (\<lambda>t. t), fmt_f6 = int_dec, bd_to_unix = word_of_int,
     strtod = (\<lambda>p. case strto_subject 10 p of None \<Rightarrow> None | Some _ \<Rightarrow> Some (fst (strtol 10 p))),
     d_nan = - 1, d_zero = 0\<rparr>"

definition demo_client :: "'c bl_pin_store \<Rightarrow> 'c bl_client" where
  "demo_client st = \<lparr>socket_path = ''s'', agent_name = ''bping'', agent_version = [],
     ttl_seconds = 3600, the_pin_store = st, pin_store_borrowed = False, fd_open = False,
     session_active = False, session_id = replicate 16 0, session_key = replicate 32 0,
     pin_loaded = False, pin_pub65 = replicate 65 0, last_bridge_error = None\<rparr>"

definition demo_st :: "'c bl_pin_store \<Rightarrow> 'c \<Rightarrow> string \<Rightarrow> ('c, int) bl_st" where
  "demo_st st ctx input = \<lparr>secp_ready = False, rand_n = 0, alloc_n = 0, cl = demo_client st,
     conn_evs = [ConnOk], wr_evs = [WrN 2000, WrN 2000, WrN 2000], rd_evs = map RdByte input,
     wire = [], clock = 7, pin_ctx = ctx, geo_out = None\<rparr>"

lemma resolve_default_socket_bound:
  "resolve_default_socket getenv pw cap = Some p \<Longrightarrow> length p < cap \<and> p \<noteq> []"
  by (auto simp: resolve_default_socket_def Let_def split: option.splits list.splits if_splits)

text \<open>
C6: A client handle that is created has a lifetime request between one second and the eight hours
of the protocol, texts that fit their buffers, a socket path, a name for the agent, and neither
connection, session nor pin.
\<close>
theorem bl_client_new_ok:
  assumes "bl_client_new getenv pw calloc_ok cfg = Some c"
  shows "1 \<le> ttl_seconds c \<and> ttl_seconds c \<le> 28800
    \<and> socket_path c \<noteq> [] \<and> length (socket_path c) < 1024
    \<and> agent_name c \<noteq> [] \<and> length (agent_name c) < 64 \<and> length (agent_version c) < 64
    \<and> \<not> fd_open c \<and> \<not> session_active c \<and> \<not> pin_loaded c \<and> last_bridge_error c = None
    \<and> (\<exists>cf. cfg = Some cf \<and> cfg_pin_store cf = Some (the_pin_store c))"
proof -
  obtain cf st path where cf: "cfg = Some cf" "cfg_pin_store cf = Some st" "calloc_ok" and
    path: "(case cfg_socket_path cf of
              Some (c # p) \<Rightarrow> if length (c # p) \<ge> 1024 then None else Some (c # p)
            | _ \<Rightarrow> resolve_default_socket getenv pw 1024) = Some path"
    using assms by (auto simp: bl_client_new_def split: option.splits if_splits)
  have "path \<noteq> [] \<and> length path < 1024"
    using path resolve_default_socket_bound by (auto split: option.splits list.splits if_splits)
  moreover have "(case cfg_agent_name cf of Some (c # a) \<Rightarrow> c # a | _ \<Rightarrow> ''libbrightlink'') \<noteq> []"
    by (simp split: option.split list.split)
  moreover have "snprintf_buf 64 x \<noteq> [] \<longleftrightarrow> x \<noteq> []" for x by (simp add: snprintf_buf_def)
  moreover have "c = \<lparr>socket_path = path,
      agent_name = snprintf_buf 64 (case cfg_agent_name cf of Some (c # a) \<Rightarrow> c # a | _ \<Rightarrow> ''libbrightlink''),
      agent_version = snprintf_buf 64 (case cfg_agent_version cf of Some (c # v) \<Rightarrow> c # v | _ \<Rightarrow> ''''),
      ttl_seconds = (if (if cfg_ttl_seconds cf > 0 then cfg_ttl_seconds cf else 3600) > 28800 then 28800
        else if cfg_ttl_seconds cf > 0 then cfg_ttl_seconds cf else 3600),
      the_pin_store = st, pin_store_borrowed = False, fd_open = False, session_active = False,
      session_id = replicate 16 0, session_key = replicate 32 0, pin_loaded = False,
      pin_pub65 = replicate 65 0, last_bridge_error = None\<rparr>"
    using assms cf(3)
    by (simp only: bl_client_new_def cf(1,2) option.case path Let_def not_True_eq_False if_False
        option.inject)
  ultimately show ?thesis using cf by (simp add: min_less_iff_disj)
qed

definition demo_config :: "nat bl_client_config" where
  "demo_config = \<lparr>cfg_socket_path = None, cfg_agent_name = None, cfg_agent_version = Some ''1'',
     cfg_pin_store = Some \<lparr>ps_load = (\<lambda>_. None), ps_save = (\<lambda>_ n. (True, n)), ps_free = None, own_ctx = False\<rparr>,
     cfg_ttl_seconds = 90000\<rparr>"

theorem bl_client_new_ok_witness:
  "\<exists>c. bl_client_new (\<lambda>v. if v = ''HOME'' then Some ''/h'' else None) None True (Some demo_config) = Some c
     \<and> 1 \<le> ttl_seconds c \<and> ttl_seconds c \<le> 28800
     \<and> socket_path c \<noteq> [] \<and> length (socket_path c) < 1024
     \<and> agent_name c \<noteq> [] \<and> length (agent_name c) < 64 \<and> length (agent_version c) < 64"
proof -
  obtain c where c: "bl_client_new (\<lambda>v. if v = ''HOME'' then Some ''/h'' else None) None True (Some demo_config) = Some c"
    by (simp add: bl_client_new_def demo_config_def resolve_default_socket_def Let_def)
  then show ?thesis using bl_client_new_ok [OF c] by blast
qed

end
