(* ===== verification/Bl_Handshake.thy ===== *)
theory Bl_Handshake
  imports Bl_Client
begin

text \<open>
  The registration of \<open>Bl_Client\<close> against an honest bridge: what the bridge writes on the socket,
  and that the client accepts it. A JSON text is given by the pieces between its quotes, which
  makes the substring search of the field readers exact; the run of the client is then assembled
  from one lemma per operation.
\<close>

subsection \<open>Texts by their pieces between quotes\<close>

fun qjoin :: "string list \<Rightarrow> string" where
  "qjoin [] = []"
| "qjoin [x] = x"
| "qjoin (x # y # r) = x @ DQUOTE # qjoin (y # r)"

fun qfind :: "string \<Rightarrow> string list \<Rightarrow> string option" where
  "qfind k (x # y # z # r) =
     (if y = k then Some (quoted k @ qjoin (z # r)) else qfind k (y # z # r))"
| "qfind k _ = None"

definition no_quote :: "string \<Rightarrow> bool" where
  "no_quote s \<longleftrightarrow> DQUOTE \<notin> set s"

lemma strstr_skip: "no_quote x \<Longrightarrow> strstr (x @ s) (quoted k) = strstr s (quoted k)"
  by (induction x) (auto simp: no_quote_def quoted_def)

lemma quoted_prefix:
  assumes "no_quote y" "no_quote k"
  shows "has_prefix (quoted k) (DQUOTE # y @ DQUOTE # s) \<longleftrightarrow> y = k"
proof
  assume "has_prefix (quoted k) (DQUOTE # y @ DQUOTE # s)"
  then obtain r where "y @ DQUOTE # s = k @ DQUOTE # r"
    by (auto simp: has_prefix_iff quoted_def)
  then have "takeWhile (\<lambda>c. c \<noteq> DQUOTE) (y @ DQUOTE # s) = takeWhile (\<lambda>c. c \<noteq> DQUOTE) (k @ DQUOTE # r)"
    by simp
  moreover have "takeWhile (\<lambda>c. c \<noteq> DQUOTE) x = x" if "no_quote x" for x
    using that by (auto simp: no_quote_def takeWhile_eq_all_conv)
  ultimately show "y = k" using assms by (simp add: takeWhile_tail)
next
  assume "y = k"
  then show "has_prefix (quoted k) (DQUOTE # y @ DQUOTE # s)"
    by (auto simp: has_prefix_iff quoted_def)
qed

lemma no_quote_Nil [simp]: "no_quote []"
  by (simp add: no_quote_def)

lemma strstr_no_first: "no_quote x \<Longrightarrow> strstr x (quoted k) = None"
  using strstr_skip [of x "[]" k] by (simp add: quoted_def)

lemma no_second_quote: "no_quote y \<Longrightarrow> \<not> has_prefix (quoted k) (DQUOTE # y)"
  by (auto simp: has_prefix_iff quoted_def no_quote_def)

lemma quoted_not_Nil [simp]: "quoted k \<noteq> []"
  by (simp add: quoted_def)

lemma strstr_qjoin:
  assumes "list_all no_quote segs" "no_quote k"
  shows "strstr (qjoin segs) (quoted k) = qfind k segs"
  using assms
proof (induction k segs rule: qfind.induct)
  case (1 k x y z r)
  have q: "qjoin (x # y # z # r) = x @ DQUOTE # y @ DQUOTE # qjoin (z # r)" by simp
  have nq: "no_quote x" "no_quote y" "no_quote k" using "1.prems" by simp_all
  show ?case
  proof (cases "y = k")
    case True
    have "strstr (quoted k @ qjoin (z # r)) (quoted k) = Some (quoted k @ qjoin (z # r))"
      by (rule strstr_prefix)
    moreover have "strstr (x @ DQUOTE # y @ DQUOTE # qjoin (z # r)) (quoted k)
        = strstr (quoted k @ qjoin (z # r)) (quoted k)"
      using strstr_skip [OF nq(1)] True by (simp only: quoted_def append_Cons append_assoc append_Nil)
    ultimately show ?thesis unfolding q using True by simp
  next
    case False
    then have "strstr (DQUOTE # y @ DQUOTE # qjoin (z # r)) (quoted k)
        = strstr (y @ DQUOTE # qjoin (z # r)) (quoted k)"
      using quoted_prefix [OF nq(2,3)] by simp
    with 1 False nq show ?thesis unfolding q by (simp add: strstr_skip)
  qed
qed (simp_all add: strstr_no_first strstr_skip no_second_quote)

text \<open>Pieces alternate between text outside and inside string literals.\<close>

definition outside_ok :: "string \<Rightarrow> bool" where
  "outside_ok s \<longleftrightarrow> set s \<inter> {DQUOTE, CHR ''{'', CHR ''}''} = {}"

definition inside_ok :: "string \<Rightarrow> bool" where
  "inside_ok s \<longleftrightarrow> set s \<inter> {DQUOTE, BSLASH} = {}"

fun pieces_ok :: "string list \<Rightarrow> bool" where
  "pieces_ok [] = False"
| "pieces_ok [x] = outside_ok x"
| "pieces_ok (x # y # r) = (outside_ok x \<and> inside_ok y \<and> pieces_ok r)"

lemma json_text_outside: "outside_ok x \<Longrightarrow> json_text s \<Longrightarrow> json_text (x @ s)"
  by (induction x) (auto simp: outside_ok_def intro: text_char)

lemma str_body_inside: "inside_ok y \<Longrightarrow> str_body y"
  by (induction y) (auto simp: inside_ok_def intro: str_body.intros)

lemma json_text_qjoin: "pieces_ok ps \<Longrightarrow> json_text (qjoin ps)"
proof (induction ps rule: pieces_ok.induct)
  case (2 x)
  then show ?case using json_text_outside [OF _ text_nil, of x] by simp
next
  case (3 x y r)
  then obtain z r' where r: "r = z # r'" by (cases r) auto
  have "json_text (DQUOTE # y @ DQUOTE # qjoin r)"
    using 3 by (intro text_str str_body_inside) auto
  then show ?case using 3 r by (simp add: json_text_outside)
qed simp

lemma pieces_no_quote: "pieces_ok ps \<Longrightarrow> list_all no_quote ps"
  by (induction ps rule: pieces_ok.induct) (auto simp: no_quote_def outside_ok_def inside_ok_def)

lemma json_escape_plain: "inside_ok v \<Longrightarrow> json_escape v = v"
  by (induction v) (auto simp: json_escape_def inside_ok_def)

lemma dquote_not_ws [simp]: "\<not> json_ws DQUOTE"
  by (simp add: json_ws_def)

lemma json_locate_pieces:
  assumes "list_all no_quote segs" "no_quote key" "length key < 126"
    and "qfind key segs = Some (quoted key @ CHR '':'' # u)"
  shows "json_locate (qjoin segs) key = Some (dropWhile json_ws u)"
  using assms(3,4) strstr_qjoin [OF assms(1,2)] by (simp add: json_locate_def quoted_def json_ws_def)

lemma json_field_str_pieces:
  assumes "list_all no_quote segs" "no_quote key" "length key < 126"
    and "qfind key segs = Some (quoted key @ CHR '':'' # DQUOTE # v @ DQUOTE # rest)"
    and "inside_ok v" "length v < cap"
  shows "json_field_str (qjoin segs) key cap = (True, v)"
  using json_locate_pieces [OF assms(1-4)] json_str_loop_escape [of "[]" v cap rest] assms(5,6)
  by (simp add: json_field_str_def json_escape_plain)

lemma int_dec_head_not_ws: "dropWhile json_ws (int_dec i @ r) = int_dec i @ r"
proof -
  obtain c cs where c: "int_dec i = c # cs" by (cases "int_dec i") auto
  have "c \<in> insert (CHR ''-'') (digit_char ` {..<10})" using int_dec_digits [of i] c by auto
  then have "\<not> json_ws c"
  proof
    assume "c \<in> digit_char ` {..<10}"
    then obtain d where "c = digit_char d" "d < 10" by auto
    then show ?thesis using of_char_digit_char [of d] by (auto simp: json_ws_def)
  qed (simp add: json_ws_def)
  then show ?thesis by (simp add: c)
qed

lemma json_field_int_pieces:
  assumes "list_all no_quote segs" "no_quote key" "length key < 126"
    and "qfind key segs = Some (quoted key @ CHR '':'' # int_dec i @ CHR '','' # rest)"
    and "LONG_MIN \<le> i" "i \<le> LONG_MAX"
  shows "json_field_int (qjoin segs) key = Some i"
proof -
  have "\<not> starts_with_digit 10 (CHR '','' # rest)"
    by (simp add: starts_with_digit_def digit_in_def digit_val_def)
  from strtol_int_dec [OF assms(5,6) this] show ?thesis
    using json_locate_pieces [OF assms(1-4)]
    by (auto simp: json_field_int_def int_dec_head_not_ws)
qed

subsection \<open>What an honest bridge writes\<close>

definition resp_key :: "string \<Rightarrow> string" where
  "resp_key b = CHR ''{'' # qjoin [[], ''ok'', '':true,'', ''publicKey'', '':'', b, []] @ ''}''"

definition resp_reg :: "int \<Rightarrow> int \<Rightarrow> string \<Rightarrow> string \<Rightarrow> string \<Rightarrow> string" where
  "resp_reg issued ttl sid envel sg =
     CHR ''{'' # qjoin [[], ''ok'', '':true,'', ''sessionId'', '':'', sid, '','',
        ''bridgeIssuedAtUnix'', '':'' @ int_dec issued @ '','', ''ttlSeconds'', '':'' @ int_dec ttl @ '','',
        ''responseEnvelope'', '':'', envel, '','', ''transcriptSig'', '':'', sg, []] @ ''}''"

text \<open>A value that is read back and is none of the keys the client looks for.\<close>

definition value_ok :: "string \<Rightarrow> bool" where
  "value_ok v \<longleftrightarrow> inside_ok v \<and> NUL \<notin> set v \<and> 4 dvd length v"

lemma value_ok_enc:
  assumes "evp_base64 enc dec"
  shows "value_ok (enc bs)"
proof -
  have "set (CHR ''='' # b64_alphabet) \<inter> {DQUOTE, BSLASH, NUL} = {}" by code_simp
  then show ?thesis
    using evp_base64.enc_alphabet [OF assms, of bs] evp_base64.enc_length [OF assms, of bs]
    by (auto simp: value_ok_def inside_ok_def)
qed

lemma int_dec_plain: "outside_ok (int_dec i)" "NUL \<notin> set (int_dec i)"
proof -
  have "insert (CHR ''-'') (set (map digit_char [0..<10])) \<inter> {DQUOTE, CHR ''{'', CHR ''}'', NUL} = {}"
    by code_simp
  then have "insert (CHR ''-'') (digit_char ` {..<10}) \<inter> {DQUOTE, CHR ''{'', CHR ''}'', NUL} = {}"
    by (simp add: atLeast0LessThan)
  with int_dec_digits [of i] show "outside_ok (int_dec i)" "NUL \<notin> set (int_dec i)"
    by (auto simp: outside_ok_def)
qed

lemma outside_ok_simps [simp]:
  "outside_ok []" "outside_ok (c # s) \<longleftrightarrow> c \<notin> {DQUOTE, CHR ''{'', CHR ''}''} \<and> outside_ok s"
  "outside_ok (s @ t) \<longleftrightarrow> outside_ok s \<and> outside_ok t"
  by (auto simp: outside_ok_def)

lemma inside_ok_simps [simp]:
  "inside_ok []" "inside_ok (c # s) \<longleftrightarrow> c \<notin> {DQUOTE, BSLASH} \<and> inside_ok s"
  by (auto simp: inside_ok_def)

lemma no_quote_simps [simp]:
  "no_quote (c # s) \<longleftrightarrow> c \<noteq> DQUOTE \<and> no_quote s"
  by (auto simp: no_quote_def)

lemma no_quote_append [simp]: "no_quote (s @ t) \<longleftrightarrow> no_quote s \<and> no_quote t"
  by (auto simp: no_quote_def)

lemma value_no_quote: "value_ok v \<Longrightarrow> no_quote v"
  by (auto simp: value_ok_def inside_ok_def no_quote_def)

lemma int_dec_no_quote [simp]: "no_quote (int_dec i)"
  using int_dec_plain(1) by (auto simp: outside_ok_def no_quote_def)

lemma resp_key_pieces: "resp_key b = qjoin [''{'', ''ok'', '':true,'', ''publicKey'', '':'', b, ''}'']"
  by (simp add: resp_key_def)

lemma resp_reg_pieces:
  "resp_reg issued ttl sid envel sg =
     qjoin [''{'', ''ok'', '':true,'', ''sessionId'', '':'', sid, '','',
        ''bridgeIssuedAtUnix'', '':'' @ int_dec issued @ '','', ''ttlSeconds'', '':'' @ int_dec ttl @ '','',
        ''responseEnvelope'', '':'', envel, '','', ''transcriptSig'', '':'', sg, ''}'']"
  by (simp add: resp_reg_def)

text \<open>What the transport needs of an answer, and what the client checks first.\<close>

definition honest_text :: "string \<Rightarrow> bool" where
  "honest_text r \<longleftrightarrow> (\<exists>t. json_text t \<and> r = CHR ''{'' # t @ [CHR ''}'']) \<and> length r < 16384
     \<and> NUL \<notin> set r \<and> strstr r error_key = None"

lemma NUL_qjoin [simp]: "NUL \<in> set (qjoin ps) \<longleftrightarrow> (\<exists>x\<in>set ps. NUL \<in> set x)"
  by (induction ps rule: qjoin.induct) auto

lemma value_not_key:
  "value_ok v \<Longrightarrow> v \<noteq> ''error'' \<and> v \<noteq> ''transcriptSig''"
  by (auto simp: value_ok_def) presburger+

lemma resp_key_honest:
  assumes "value_ok b" "length b < 1000"
  shows "honest_text (resp_key b)"
proof -
  have "json_text (qjoin [[], ''ok'', '':true,'', ''publicKey'', '':'', b, []])"
    using assms by (intro json_text_qjoin) (simp add: value_ok_def)
  moreover have "length (resp_key b) < 16384" "NUL \<notin> set (resp_key b)"
    using assms by (simp_all add: resp_key_def value_ok_def)
  moreover have "b \<noteq> ''error''" using value_not_key [OF assms(1)] by simp
  then have "strstr (resp_key b) error_key = None"
    using strstr_qjoin [of "[''{'', ''ok'', '':true,'', ''publicKey'', '':'', b, ''}'']" "''error''"] value_no_quote [OF assms(1)]
    by (simp add: error_key_def resp_key_pieces)
  ultimately show ?thesis unfolding honest_text_def resp_key_def by (metis append_Cons)
qed

lemma resp_key_field:
  assumes "value_ok b" "length b < 4096"
  shows "json_field_str (resp_key b) ''publicKey'' 4096 = (True, b)"
  unfolding resp_key_pieces using assms value_no_quote [OF assms(1)]
  by (intro json_field_str_pieces [where rest = "''}''"]) (simp_all add: quoted_def value_ok_def)

definition reg_pieces :: "int \<Rightarrow> int \<Rightarrow> string \<Rightarrow> string \<Rightarrow> string \<Rightarrow> string list" where
  "reg_pieces issued ttl sid envel sg =
     [''{'', ''ok'', '':true,'', ''sessionId'', '':'', sid, '','',
        ''bridgeIssuedAtUnix'', '':'' @ int_dec issued @ '','', ''ttlSeconds'', '':'' @ int_dec ttl @ '','',
        ''responseEnvelope'', '':'', envel, '','', ''transcriptSig'', '':'', sg, ''}'']"

lemma reg_pieces_no_quote:
  "value_ok sid \<Longrightarrow> value_ok envel \<Longrightarrow> value_ok sg \<Longrightarrow> list_all no_quote (reg_pieces issued ttl sid envel sg)"
  by (simp add: reg_pieces_def value_no_quote)

lemma resp_reg_honest:
  assumes "value_ok sid" "value_ok envel" "value_ok sg"
    and "length (resp_reg issued ttl sid envel sg) < 16384"
  shows "honest_text (resp_reg issued ttl sid envel sg)"
proof -
  have "json_text (qjoin [[], ''ok'', '':true,'', ''sessionId'', '':'', sid, '','',
        ''bridgeIssuedAtUnix'', '':'' @ int_dec issued @ '','', ''ttlSeconds'', '':'' @ int_dec ttl @ '','',
        ''responseEnvelope'', '':'', envel, '','', ''transcriptSig'', '':'', sg, []])"
    using assms by (intro json_text_qjoin) (simp add: value_ok_def int_dec_plain)
  moreover have "NUL \<notin> set (resp_reg issued ttl sid envel sg)"
    using assms by (simp add: resp_reg_def value_ok_def int_dec_plain)
  moreover have "strstr (resp_reg issued ttl sid envel sg) error_key = None"
    using strstr_qjoin [OF reg_pieces_no_quote [OF assms(1-3)], of "''error''" issued ttl]
      value_not_key [OF assms(1)] value_not_key [OF assms(2)] value_not_key [OF assms(3)]
    by (simp add: error_key_def resp_reg_pieces reg_pieces_def)
  ultimately show ?thesis using assms(4) unfolding honest_text_def resp_reg_def by (metis append_Cons)
qed

lemma resp_reg_fields:
  assumes "value_ok sid" "value_ok envel" "value_ok sg"
    and "length sid = 24" "length envel < cap" "length sg < 1024"
    and "LONG_MIN \<le> issued" "issued \<le> LONG_MAX" "LONG_MIN \<le> ttl" "ttl \<le> LONG_MAX"
  shows "json_field_int (resp_reg issued ttl sid envel sg) ''bridgeIssuedAtUnix'' = Some issued"
    "json_field_int (resp_reg issued ttl sid envel sg) ''ttlSeconds'' = Some ttl"
    "json_field_str (resp_reg issued ttl sid envel sg) ''sessionId'' 4096 = (True, sid)"
    "json_field_str (resp_reg issued ttl sid envel sg) ''responseEnvelope'' cap = (True, envel)"
    "json_field_str (resp_reg issued ttl sid envel sg) ''transcriptSig'' 1024 = (True, sg)"
proof -
  note nq = reg_pieces_no_quote [OF assms(1-3), of issued ttl]
  have r: "resp_reg issued ttl sid envel sg = qjoin (reg_pieces issued ttl sid envel sg)"
    by (simp add: resp_reg_pieces reg_pieces_def)
  have sid: "sid \<noteq> ''bridgeIssuedAtUnix''" "sid \<noteq> ''ttlSeconds''" "sid \<noteq> ''responseEnvelope''" using assms(4) by auto
  note other = value_not_key [OF assms(1)] value_not_key [OF assms(2)]
  show "json_field_int (resp_reg issued ttl sid envel sg) ''bridgeIssuedAtUnix'' = Some issued"
    unfolding r by (rule json_field_int_pieces [OF nq])
      (use sid in \<open>simp_all add: reg_pieces_def quoted_def assms\<close>)
  show "json_field_int (resp_reg issued ttl sid envel sg) ''ttlSeconds'' = Some ttl"
    unfolding r by (rule json_field_int_pieces [OF nq])
      (use sid in \<open>simp_all add: reg_pieces_def quoted_def assms\<close>)
  show "json_field_str (resp_reg issued ttl sid envel sg) ''sessionId'' 4096 = (True, sid)"
    unfolding r by (rule json_field_str_pieces [OF nq])
      (use assms in \<open>simp_all add: reg_pieces_def quoted_def value_ok_def\<close>)
  show "json_field_str (resp_reg issued ttl sid envel sg) ''responseEnvelope'' cap = (True, envel)"
    unfolding r by (rule json_field_str_pieces [OF nq])
      (use assms sid in \<open>simp_all add: reg_pieces_def quoted_def value_ok_def\<close>)
  show "json_field_str (resp_reg issued ttl sid envel sg) ''transcriptSig'' 1024 = (True, sg)"
    unfolding r by (rule json_field_str_pieces [OF nq])
      (use assms other in \<open>simp_all add: reg_pieces_def quoted_def value_ok_def\<close>)
qed

subsection \<open>Runs\<close>

text \<open>
  A state whose socket will carry the given answers, one per request, each request leaving in one
  write.
\<close>

definition connectable :: "('c, 'd) bl_st \<Rightarrow> bool" where
  "connectable s \<longleftrightarrow> fd_open (cl s)
     \<or> (\<exists>ce. conn_evs s = ConnOk # ce) \<and> length (socket_path (cl s)) < 108"

definition ready :: "('c, 'd) bl_st \<Rightarrow> string list \<Rightarrow> bool" where
  "ready s rs \<longleftrightarrow> connectable s
     \<and> (\<exists>ns we re. wr_evs s = map WrN ns @ we \<and> length ns = length rs \<and> (\<forall>n\<in>set ns. 2048 \<le> n)
          \<and> rd_evs s = map RdByte (concat rs) @ re)"

text \<open>States alike for what a client draws and says of itself, and for everything but the crypto state.\<close>

definition same_rng :: "('c, 'd) bl_st \<Rightarrow> ('c, 'd) bl_st \<Rightarrow> bool" where
  "same_rng s s' \<longleftrightarrow> rand_n s' = rand_n s \<and> secp_ready s' = secp_ready s \<and> clock s' = clock s
     \<and> agent_name (cl s') = agent_name (cl s) \<and> agent_version (cl s') = agent_version (cl s)
     \<and> ttl_seconds (cl s') = ttl_seconds (cl s)"

definition crypto_only :: "('c, 'd) bl_st \<Rightarrow> ('c, 'd) bl_st \<Rightarrow> bool" where
  "crypto_only s s' \<longleftrightarrow> blc_state.more s' = blc_state.more s"

lemma crypto_only_fields:
  assumes "crypto_only s s'"
  shows "cl s' = cl s" "conn_evs s' = conn_evs s" "wr_evs s' = wr_evs s" "rd_evs s' = rd_evs s"
    "wire s' = wire s" "clock s' = clock s" "pin_ctx s' = pin_ctx s" "geo_out s' = geo_out s"
  using assms by (cases s; cases s'; simp add: crypto_only_def)+

lemma ready_crypto_only: "crypto_only s s' \<Longrightarrow> ready s' rs = ready s rs"
  by (simp add: ready_def connectable_def crypto_only_fields)

lemma crypto_only_frame: "crypto_only s s' \<Longrightarrow> frame s s'"
  by (simp add: frame_def crypto_only_fields)

lemma crypto_only_rel: "reflp crypto_only" "transp crypto_only"
  by (auto simp: crypto_only_def reflp_def transp_def)

named_theorems crypto_intro \<open>operations that touch the crypto state only\<close>

lemmas crypto_bind [crypto_intro] = keeps_bind [OF crypto_only_rel(2)]
lemmas crypto_pure [crypto_intro] = keeps_pure [OF crypto_only_rel(1)] keeps_sopt [OF crypto_only_rel(1)]
lemmas crypto_son_err [crypto_intro] = keeps_son_err [where R = crypto_only]

lemma crypto_calls [crypto_intro]:
  "keeps crypto_only (rand_bytes env n)" "keeps crypto_only (malloc env)"
  "keeps crypto_only (blc_secp env)"
  by (auto simp: keeps_def rand_bytes_def malloc_def blc_secp_def crypto_only_def split: option.splits)

lemma crypto_random_priv_loop [crypto_intro]: "keeps crypto_only (random_priv_loop env n)"
  by (induction n) (auto intro!: crypto_intro)

lemma crypto_blc [crypto_intro]:
  "keeps crypto_only (blc_secp_random_priv env)" "keeps crypto_only (blc_secp_pub_uncompressed env k)"
  "keeps crypto_only (blc_secp_pub_compressed env k)"
  by (auto simp: blc_secp_random_priv_def blc_secp_pub_uncompressed_def
      blc_secp_pub_compressed_def intro!: crypto_intro)

lemma crypto_ecies [crypto_intro]:
  "keeps crypto_only (blc_ecies_encrypt env pub pt)" "keeps crypto_only (blc_ecies_decrypt env priv e)"
  "keeps crypto_only (blc_b64decode env src cap)"
  by (auto simp: blc_ecies_encrypt_def blc_ecies_decrypt_def blc_b64decode_def Let_def
      intro!: crypto_intro split: prod.split)

lemma keeps_run: "keeps R m \<Longrightarrow> fst (m s) = Inr a \<Longrightarrow> \<exists>s'. m s = (Inr a, s') \<and> R s s'"
  unfolding keeps_def by (metis prod.collapse)

text \<open>One request.\<close>

lemma write_all_once:
  assumes "length json \<le> n" "0 < n"
  shows "write_all (WrN n # we) [] json = (True, json, if json = [] then WrN n # we else we)"
  using assms by (simp add: write_all.simps [of "WrN n # we"] write_all.simps [of we])

lemma bl_connect_run:
  assumes "connectable s"
  shows "\<exists>s1. bl_connect s = (Inr (), s1) \<and> fd_open (cl s1) \<and> wr_evs s1 = wr_evs s
    \<and> rd_evs s1 = rd_evs s \<and> same_rng s s1"
proof (cases "fd_open (cl s)")
  case True
  then show ?thesis by (simp add: bl_connect_def same_rng_def)
next
  case False
  with assms show ?thesis by (auto simp: connectable_def bl_connect_def Let_def same_rng_def)
qed

lemma bl_send_request_run:
  assumes "ready s (r # rs)" "honest_text r" "json \<noteq> []" "length json \<le> 2048" "\<forall>i. malloc_ok env i"
  shows "\<exists>s'. bl_send_request env json s = (Inr r, s') \<and> ready s' rs \<and> same_rng s s'"
proof -
  obtain n ns we re where ev: "wr_evs s = WrN n # map WrN ns @ we" "length ns = length rs"
      "2048 \<le> n" "\<forall>n\<in>set ns. 2048 \<le> n" "rd_evs s = map RdByte r @ map RdByte (concat rs) @ re"
    using assms(1) unfolding ready_def
    by (auto simp: length_Suc_conv)
  obtain s1 where s1: "bl_connect s = (Inr (), s1)" "fd_open (cl s1)" "wr_evs s1 = wr_evs s"
      "rd_evs s1 = rd_evs s" "same_rng s s1"
    using assms(1) bl_connect_run by (auto simp: ready_def)
  define s2 where "s2 = s1\<lparr>wr_evs := map WrN ns @ we, wire := wire s1 @ json\<rparr>"
  have w: "sock_write json s1 = (Inr True, s2)"
    using assms(3,4) ev(1,3) s1(3) write_all_once [of json n "map WrN ns @ we"]
    by (simp add: sock_write_def s2_def del: write_all.simps)
  obtain t where t: "json_text t" "r = CHR ''{'' # t @ [CHR ''}'']" "length r < 16384" "NUL \<notin> set r"
    using assms(2) by (auto simp: honest_text_def)
  define s3 where "s3 = s2\<lparr>rd_evs := map RdByte (concat rs) @ re\<rparr>"
  have "read_until_brace 16384 (rd_evs s2) = (Framed r, map RdByte (concat rs) @ re)"
    using read_until_brace_object [OF t(1), of 16384 "map RdByte (concat rs) @ re"] t(2,3) ev(5) s1(4)
    by (simp add: s2_def)
  then have rd: "sock_read 16384 s2 = (Inr (Framed r), s3)" by (simp add: sock_read_def s3_def)
  have tw: "takeWhile (\<lambda>c. c \<noteq> NUL) r = r" using t(4) by (auto simp: takeWhile_eq_all_conv)
  let ?s4 = "s3\<lparr>alloc_n := Suc (alloc_n s3)\<rparr>"
  have "bl_send_request env json s = (Inr r, ?s4)"
    using assms(5) by (simp add: bl_send_request_def sbind_def s1(1) w rd tw son_err_def malloc_answers serr_defs)
  moreover have "ready ?s4 rs"
    using ev(2,4) s1(2) by (auto simp: ready_def connectable_def s3_def s2_def)
  moreover have "same_rng s ?s4" using s1(5) by (simp add: same_rng_def s3_def s2_def)
  ultimately show ?thesis by blast
qed

lemma checked_request_run:
  assumes "ready s (r # rs)" "honest_text r" "json \<noteq> []" "length json \<le> 2048" "\<forall>i. malloc_ok env i"
  shows "\<exists>s'. checked_request env json s = (Inr r, s') \<and> ready s' rs \<and> same_rng s s'"
proof -
  have "strstr r error_key = None" using assms(2) by (simp add: honest_text_def)
  then show ?thesis
    using bl_send_request_run [OF assms]
    by (auto simp: checked_request_def capture_bridge_error_def sbind_def serr_defs)
qed

lemma same_rng_trans: "same_rng s t \<Longrightarrow> same_rng t u \<Longrightarrow> same_rng s u"
  by (simp add: same_rng_def)

lemma same_rng_decode: "same_rng s (snd (blc_b64decode env src cap s))"
  by (simp add: same_rng_def blc_b64decode_def Let_def sbind_def malloc_def sopt_def serr_defs
      split: option.split)

lemma json_field_b64_run:
  assumes "evp_base64 (EVP_EncodeBlock env) (EVP_DecodeBlock env)" "\<forall>i. malloc_ok env i"
    and "json_field_str json key 4096 = (True, EVP_EncodeBlock env bs)" "length bs \<le> cap"
  shows "\<exists>s'. json_field_b64 env json key cap s = (Inr bs, s') \<and> crypto_only s s' \<and> same_rng s s'"
proof -
  have "fst (blc_b64decode env (EVP_EncodeBlock env bs) cap s) = Inr bs"
    by (rule blc_b64decode_enc [OF assms(1,2,4)])
  from keeps_run [OF crypto_ecies(3) this] show ?thesis
    using assms(3) same_rng_decode [of s env "EVP_EncodeBlock env bs" cap]
    by (auto simp: json_field_b64_def)
qed

lemma enc_bound:
  assumes "evp_base64 (EVP_EncodeBlock env) (EVP_DecodeBlock env)" "length bs \<le> n"
  shows "length (EVP_EncodeBlock env bs) \<le> 4 * ((n + 2) div 3)"
  using evp_base64.enc_length [OF assms(1), of bs] assms(2) by (simp add: div_le_mono)

lemma fetch_pubkey_run:
  assumes law: "evp_base64 (EVP_EncodeBlock env) (EVP_DecodeBlock env)" "\<forall>i. malloc_ok env i"
    and "ready s (resp_key (EVP_EncodeBlock env p) # rs)" "pin65 p" "json \<noteq> []" "length json \<le> 2048"
  shows "\<exists>s'. fetch_pubkey env json s = (Inr p, s') \<and> ready s' rs \<and> same_rng s s'"
proof -
  let ?b = "EVP_EncodeBlock env p"
  have b: "value_ok ?b" "length ?b \<le> 88"
    using value_ok_enc [OF law(1)] enc_bound [OF law(1), of p 65] assms(4) by (auto simp: pin65_def)
  obtain s1 where s1: "checked_request env json s = (Inr (resp_key ?b), s1)" "ready s1 rs" "same_rng s s1"
    using checked_request_run [OF assms(3) resp_key_honest [OF b(1)] assms(5,6) law(2)] b(2) by auto
  have "json_field_str (resp_key ?b) ''publicKey'' 4096 = (True, ?b)"
    using resp_key_field [OF b(1)] b(2) by simp
  then obtain s2 where "json_field_b64 env (resp_key ?b) ''publicKey'' 65 s1 = (Inr p, s2)"
      "crypto_only s1 s2" "same_rng s1 s2"
    using json_field_b64_run [OF law, of _ _ p 65 s1] assms(4) by (auto simp: pin65_def)
  with s1 assms(4) show ?thesis
    by (auto simp: fetch_pubkey_def sbind_def son_err_def serr_defs pin65_def ready_crypto_only
        intro: same_rng_trans)
qed

lemma json_cmd_short: "json_cmd c \<noteq> []" "length c \<le> 100 \<Longrightarrow> length (json_cmd c) \<le> 2048"
  by (simp_all add: json_cmd_def quoted_def)

lemma register_identity_run:
  assumes law: "evp_base64 (EVP_EncodeBlock env) (EVP_DecodeBlock env)" "\<forall>i. malloc_ok env i"
    and "ready s (resp_key (EVP_EncodeBlock env bp) # resp_key (EVP_EncodeBlock env sep) # rs)"
    and "pin65 bp" "pin65 sep" "pin_loaded (cl s) \<Longrightarrow> pin_pub65 (cl s) = sep"
  shows "\<exists>s'. register_identity env s = (Inr (bp, sep), s') \<and> ready s' rs \<and> same_rng s s'"
proof -
  obtain s1 where s1: "fetch_pubkey env (json_cmd ''GET_PUBLIC_KEY'') s = (Inr bp, s1)"
      "ready s1 (resp_key (EVP_EncodeBlock env sep) # rs)" "same_rng s s1"
    using fetch_pubkey_run [OF law assms(3,4) json_cmd_short, of "''GET_PUBLIC_KEY''"] by auto
  obtain s2 where s2: "fetch_pubkey env (json_cmd ''GET_ENCLAVE_PUBLIC_KEY'') s1 = (Inr sep, s2)"
      "ready s2 rs" "same_rng s1 s2"
    using fetch_pubkey_run [OF law s1(2) assms(5) json_cmd_short, of "''GET_ENCLAVE_PUBLIC_KEY''"] by auto
  have "frame s s2"
    using frame_run [OF frame_requests(4) s1(1)] frame_run [OF frame_requests(4) s2(1)]
    by (rule transpD [OF transp_frame])
  then have "pin_loaded (cl s2) \<Longrightarrow> pin_pub65 (cl s2) = sep"
    using assms(6) by (simp add: frame_def)
  then show ?thesis
    using s1 s2 same_rng_trans by (auto simp: register_identity_def sbind_def serr_defs)
qed

text \<open>The material drawn depends on the generator and the clock only.\<close>

definition sim :: "('s \<Rightarrow> 's \<Rightarrow> bool) \<Rightarrow> ('s, 'e, 'a) serr \<Rightarrow> bool" where
  "sim R m \<longleftrightarrow> (\<forall>s t. R s t \<longrightarrow> fst (m s) = fst (m t) \<and> R (snd (m s)) (snd (m t)))"

lemma sim_bind: "sim R m \<Longrightarrow> (\<And>a. sim R (f a)) \<Longrightarrow> sim R (sbind m f)"
  unfolding sim_def sbind_def
  by (auto split: prod.splits sum.splits) (metis fst_conv snd_conv sum.distinct(1) sum.inject)+

lemma sim_pure: "sim R (sret a)" "sim R (sthrow e)" "sim R (sguard b e)" "sim R (sopt e x)"
  by (auto simp: sim_def sopt_def serr_defs split: option.splits)

lemma sim_son_err: "sim R m \<Longrightarrow> sim R (son_err e m)"
  unfolding sim_def son_err_def by (auto split: prod.splits sum.splits) (metis fst_conv snd_conv sum.distinct(1) sum.inject)+

lemma sim_rng:
  assumes "\<forall>i. malloc_ok env i"
  shows "sim same_rng (rand_bytes env n)" "sim same_rng (blc_secp env)" "sim same_rng (sget clock)"
  using assms by (auto simp: sim_def same_rng_def rand_bytes_def blc_secp_def malloc_answers serr_defs
      split: option.splits)

lemma sim_random_priv_loop: "\<forall>i. malloc_ok env i \<Longrightarrow> sim same_rng (random_priv_loop env n)"
  by (induction n) (auto intro!: sim_bind sim_pure sim_rng)

text \<open>So does the request for a session.\<close>

definition sealed_request :: "blc_env \<Rightarrow> bytes \<Rightarrow> 'd client_material \<Rightarrow> string \<Rightarrow> ('c, 'd, string) bl" where
  "sealed_request env bridge_pub m plaintext_json =
     sbind (sguard (length plaintext_json < 1024) BL_ERR_PROTOCOL) (\<lambda>_.
     sbind (son_err BL_ERR_CRYPTO (blc_ecies_encrypt env bridge_pub (bytes_of_string plaintext_json)))
       (\<lambda>envelope.
     sbind (son_err BL_ERR_CRYPTO (malloc env)) (\<lambda>_.
     sbind (sopt BL_ERR_CRYPTO (blc_b64encode env envelope (4 * ((length envelope + 2) div 3) + 1)))
       (\<lambda>env_b64.
     sbind (sopt BL_ERR_CRYPTO (blc_b64encode env (cm_nonce m) 32)) (\<lambda>nonce_b64.
     sbind (son_err BL_ERR_OOM (malloc env)) (\<lambda>_.
     let request = link_register_json nonce_b64 env_b64 in
     sbind (sguard (length request < length env_b64 + 256) BL_ERR_PROTOCOL) (\<lambda>_.
     sret request)))))))"

lemma register_request_sealed:
  "register_request env dbl pub m s = sealed_request env pub m (register_plaintext env dbl (cl s) m) s"
  by (simp add: register_request_def sealed_request_def sbind_def sget_def Let_def)

lemma sim_ecies:
  assumes "\<forall>i. malloc_ok env i"
  shows "sim same_rng (blc_ecies_encrypt env pub pt)"
proof -
  have m: "sim same_rng (malloc env)" using assms by (simp add: sim_def same_rng_def malloc_answers)
  show ?thesis
    unfolding blc_ecies_encrypt_def blc_secp_random_priv_def blc_secp_pub_compressed_def split_beta
    by (intro sim_bind sim_pure m sim_rng [OF assms] sim_random_priv_loop [OF assms])
qed

lemma register_request_cong:
  assumes "\<forall>i. malloc_ok env i" "same_rng s t"
  shows "fst (register_request env dbl pub m s) = fst (register_request env dbl pub m t)"
proof -
  have "sim same_rng (malloc env)" using assms(1) by (simp add: sim_def same_rng_def malloc_answers)
  then have "sim same_rng (sealed_request env pub m pt)" for pt
    unfolding sealed_request_def Let_def by (intro sim_bind sim_pure sim_son_err sim_ecies [OF assms(1)])
  moreover have "register_plaintext env dbl (cl s) m = register_plaintext env dbl (cl t) m"
    using assms(2) by (simp add: register_plaintext_def same_rng_def)
  ultimately show ?thesis using assms(2) unfolding register_request_sealed sim_def by metis
qed

lemma register_material_same_rng:
  assumes "\<forall>i. malloc_ok env i" "same_rng s t" "register_material env dbl s = (Inr m, s1)"
  shows "\<exists>t1. register_material env dbl t = (Inr m, t1) \<and> same_rng s1 t1"
proof -
  have "sim same_rng (register_material env dbl)"
    unfolding register_material_def blc_secp_random_priv_def blc_secp_pub_uncompressed_def
    by (intro sim_bind sim_pure sim_son_err sim_rng [OF assms(1)] sim_random_priv_loop [OF assms(1)])
  with assms(2,3) show ?thesis unfolding sim_def by (metis fst_conv prod.collapse snd_conv)
qed

lemma register_request_run:
  assumes law: "evp_base64 (EVP_EncodeBlock env) (EVP_DecodeBlock env)" "\<forall>i. malloc_ok env i"
      "secp_laws env" "evp_laws env" "rng_answers env (first_draw s)"
    and key: "seckey_verify env kb" "pubkey_create env kb = Some pk" "serialize_uncompressed env pk = Some bp"
    and "length (register_plaintext env dbl (cl s) m) < 1024" "length (cm_nonce m) = 16"
  shows "\<exists>e s1 s'. blc_ecies_encrypt env bp (bytes_of_string (register_plaintext env dbl (cl s) m)) s = (Inr e, s1)
    \<and> length e \<le> 1087
    \<and> register_request env dbl bp m s = (Inr (link_register_json (EVP_EncodeBlock env (cm_nonce m)) (EVP_EncodeBlock env e)), s')
    \<and> crypto_only s s' \<and> length (link_register_json (EVP_EncodeBlock env (cm_nonce m)) (EVP_EncodeBlock env e)) \<le> 2048"
proof -
  let ?pt = "bytes_of_string (register_plaintext env dbl (cl s) m)"
  have parse: "pubkey_parse env (take 65 bp) = Some pk"
    using secp_pub [OF law(3) key(1)] key(2,3) by (metis option.inject order_refl take_all)
  obtain e s1 where e: "blc_ecies_encrypt env bp ?pt s = (Inr e, s1)"
    using blc_ecies_encrypt_live [OF law(3-5,2) key(1,2) parse] by blast
  have co: "crypto_only s s1" using keeps_run [OF crypto_ecies(1)] e by (metis fst_conv snd_conv)
  have "length e = 64 + length (register_plaintext env dbl (cl s) m)"
    using blc_ecies_decrypt_encrypt(1) [OF law(3,4,2) key e] by (simp add: bytes_of_string_def)
  then have el: "length e \<le> 1087" using assms(9) by simp
  then have eb: "length (EVP_EncodeBlock env e) \<le> 1452" using enc_bound [OF law(1), of e 1087] by simp
  have nb: "length (EVP_EncodeBlock env (cm_nonce m)) \<le> 24"
    using enc_bound [OF law(1), of "cm_nonce m" 16] assms(10) by simp
  let ?req = "link_register_json (EVP_EncodeBlock env (cm_nonce m)) (EVP_EncodeBlock env e)"
  have req: "length ?req < length (EVP_EncodeBlock env e) + 256"
    using nb by (simp add: link_register_json_def json_str_member_def quoted_def)
  let ?s3 = "s1\<lparr>alloc_n := Suc (Suc (alloc_n s1))\<rparr>"
  have "register_request env dbl bp m s = (Inr ?req, ?s3)"
    using e law(2) assms(9,10) req
    by (simp add: register_request_def Let_def sbind_def son_err_def malloc_answers blc_b64encode_def
        sopt_def serr_defs)
  moreover have "crypto_only s ?s3" using co by (simp add: crypto_only_def)
  moreover have "length ?req \<le> 2048" using req eb by linarith
  ultimately show ?thesis using e el by blast
qed

text \<open>The answer, and its verification.\<close>

lemma register_response_run:
  assumes law: "evp_base64 (EVP_EncodeBlock env) (EVP_DecodeBlock env)" "\<forall>i. malloc_ok env i"
    and resp: "resp = resp_reg issued ttl (EVP_EncodeBlock env sid) (EVP_EncodeBlock env e)
        (EVP_EncodeBlock env sg)"
    and "length sid = 16" "length sg \<le> 256"
    and "LONG_MIN \<le> issued" "issued \<le> LONG_MAX" "LONG_MIN \<le> ttl" "ttl \<le> LONG_MAX"
    and "\<And>t :: ('c, 'd) bl_st. fst (blc_ecies_decrypt env (cm_priv m) e t) = Inr share" "length share = 32"
  shows "\<exists>s'. register_response env m resp (s :: ('c, 'd) bl_st)
      = (Inr \<lparr>ra_issued_at = issued, ra_ttl = ttl, ra_session_id = sid, ra_bridge_share = share\<rparr>, s')"
proof -
  let ?sid = "EVP_EncodeBlock env sid" and ?e = "EVP_EncodeBlock env e" and ?sg = "EVP_EncodeBlock env sg"
  have len: "length ?e < length resp + 1"
    unfolding resp resp_reg_pieces by simp
  have v: "value_ok ?sid" "value_ok ?e" "value_ok ?sg" using value_ok_enc [OF law(1)] by auto
  have l: "length ?sid = 24" "length ?sg < 1024"
    using evp_base64.enc_length [OF law(1), of sid] enc_bound [OF law(1) assms(5)] assms(4) by auto
  note f = resp_reg_fields [OF v l(1) len l(2) assms(6-9), folded resp, simplified]
  obtain s1 where s1: "json_field_b64 env resp ''sessionId'' 16 s = (Inr sid, s1)"
    using json_field_b64_run [OF law f(3), of 16 s] assms(4) by auto
  let ?s2 = "s1\<lparr>alloc_n := Suc (Suc (alloc_n s1))\<rparr>"
  have "length e \<le> length ?e" using evp_base64.enc_length [OF law(1), of e] by linarith
  then obtain s3 where s3: "blc_b64decode env ?e (length resp + 1) ?s2 = (Inr e, s3)"
    using blc_b64decode_enc [OF law, of e "length resp + 1" ?s2] len by (metis less_imp_le order_trans prod.collapse)
  obtain s4 where s4: "blc_ecies_decrypt env (cm_priv m) e s3 = (Inr share, s4)"
    using assms(10) by (metis prod.collapse)
  have "register_response env m resp s
      = (Inr \<lparr>ra_issued_at = issued, ra_ttl = ttl, ra_session_id = sid, ra_bridge_share = share\<rparr>, s4)"
    using s3 s4 law(2) assms(4,11)
    by (simp add: register_response_def f sbind_def sopt_def son_err_def s1 malloc_answers Let_def serr_defs)
  then show ?thesis by blast
qed

lemma register_verify_run:
  assumes law: "evp_base64 (EVP_EncodeBlock env) (EVP_DecodeBlock env)" "\<forall>i. malloc_ok env i"
    and resp: "resp = resp_reg issued ttl (EVP_EncodeBlock env sid) (EVP_EncodeBlock env e)
        (EVP_EncodeBlock env sg)"
    and "length sid = 16" "length sg \<le> 256"
    and "LONG_MIN \<le> issued" "issued \<le> LONG_MAX" "LONG_MIN \<le> ttl" "ttl \<le> LONG_MAX"
    and "session_key_of env m a = Some k" "transcript_of dbl m a = Some t" "blc_verify_p256 env sep t sg"
  shows "\<exists>s'. register_verify env dbl sep m resp a s = (Inr k, s')"
proof -
  let ?sid = "EVP_EncodeBlock env sid" and ?e = "EVP_EncodeBlock env e" and ?sg = "EVP_EncodeBlock env sg"
  have v: "value_ok ?sid" "value_ok ?e" "value_ok ?sg" using value_ok_enc [OF law(1)] by auto
  have l: "length ?sid = 24" "length ?sg < 1024"
    using evp_base64.enc_length [OF law(1), of sid] enc_bound [OF law(1) assms(5)] assms(4) by auto
  note f = resp_reg_fields(5) [OF v l(1) lessI l(2) assms(6-9), folded resp]
  obtain s1 where "blc_b64decode env ?sg 256 s = (Inr sg, s1)"
    using blc_b64decode_enc [OF law assms(5), of s] by (metis prod.collapse)
  then show ?thesis
    using assms(10-12)
    by (auto simp: register_verify_def f sbind_def sopt_def son_err_def Let_def serr_defs)
qed

subsection \<open>The bridge\<close>

text \<open>
  The other side, as the test bridge \<open>mock-brightnexus.c\<close> implements it. It sees nothing but the request:
  it takes nonce, client key, share, time and lifetime from there, draws the session identifier and its
  share, signs the transcript and encrypts its share to the client key it read.
\<close>

record bridge =
  br_priv :: bytes
  br_pub :: bytes
  br_sep_priv :: bytes
  br_sep :: bytes
  br_now :: int

record 'd bridge_session =
  bs_nonce :: bytes
  bs_pub :: bytes
  bs_share :: bytes
  bs_issued :: 'd
  bs_ttl :: int
  bs_sid :: bytes
  bs_bridge_share :: bytes

definition mock_field_str :: "string \<Rightarrow> string \<Rightarrow> nat \<Rightarrow> string option" where
  "mock_field_str json key cap =
     (case json_locate json key of
        None \<Rightarrow> None
      | Some p \<Rightarrow>
          if hd_nul p \<noteq> DQUOTE then None
          else let v = takeWhile (\<lambda>c. c \<noteq> NUL \<and> c \<noteq> DQUOTE) (tl p)
               in if length v < cap \<and> hd_nul (drop (length v) (tl p)) = DQUOTE then Some v else None)"

definition mock_b64 :: "blc_env \<Rightarrow> string \<Rightarrow> nat \<Rightarrow> nat \<Rightarrow> ('z, bytes) blc" where
  "mock_b64 env src cap len =
     sbind (blc_b64decode env src cap) (\<lambda>b. sbind (sguard (length b = len) ()) (\<lambda>_. sret b))"

definition mock_plaintext :: "blc_env \<Rightarrow> bridge \<Rightarrow> string \<Rightarrow> ('z, string) blc" where
  "mock_plaintext env b req =
     sbind (sopt () (mock_field_str req ''envelope'' 8192)) (\<lambda>env_b64.
     sbind (malloc env) (\<lambda>_.
     sbind (blc_b64decode env env_b64 (length env_b64)) (\<lambda>envelope.
     sbind (blc_ecies_decrypt env (br_priv b) envelope) (\<lambda>plaintext.
     sbind (malloc env) (\<lambda>_.
     sret (takeWhile (\<lambda>c. c \<noteq> NUL) (map char_of_byte plaintext)))))))"

definition mock_read :: "blc_env \<Rightarrow> 'd dbl_ops \<Rightarrow> bridge \<Rightarrow> string \<Rightarrow> ('z, 'd bridge_session) blc" where
  "mock_read env dbl b req =
     sbind (sopt () (mock_field_str req ''clientNonce'' 64)) (\<lambda>nonce_b64.
     sbind (mock_b64 env nonce_b64 16 16) (\<lambda>nonce.
     sbind (mock_plaintext env b req) (\<lambda>pt.
     sbind (sopt () (mock_field_str pt ''clientPub'' 256)) (\<lambda>pub_b64.
     sbind (sopt () (mock_field_str pt ''clientShare'' 64)) (\<lambda>share_b64.
     sbind (sopt () (json_locate pt ''issuedAtBd'')) (\<lambda>p_iss.
     sbind (sopt () (json_locate pt ''ttlSeconds'')) (\<lambda>p_ttl.
     let issued = (case strtod dbl p_iss of None \<Rightarrow> d_zero dbl | Some d \<Rightarrow> d);
         ttl = min 3600 (max 1 (fst (strtol 10 p_ttl)))
     in
     sbind (mock_b64 env pub_b64 65 65) (\<lambda>pub.
     sbind (mock_b64 env share_b64 32 32) (\<lambda>share.
     sret \<lparr>bs_nonce = nonce, bs_pub = pub, bs_share = share, bs_issued = issued, bs_ttl = ttl,
           bs_sid = [], bs_bridge_share = []\<rparr>)))))))))"

definition session_transcript :: "'d dbl_ops \<Rightarrow> bridge \<Rightarrow> 'd bridge_session \<Rightarrow> bytes option" where
  "session_transcript dbl b v =
     build_transcript (bd_to_unix dbl) (bs_nonce v) (bs_pub v) (bs_share v) (bs_sid v) (bs_bridge_share v)
       (bs_issued v) (word_of_int (br_now b)) (word_of_int (bs_ttl v))"

definition handle_link_register ::
  "blc_env \<Rightarrow> 'd dbl_ops \<Rightarrow> bridge \<Rightarrow> string \<Rightarrow> ('z, string \<times> 'd bridge_session) blc" where
  "handle_link_register env dbl b req =
     sbind (mock_read env dbl b req) (\<lambda>v.
     sbind (rand_bytes env 16) (\<lambda>sid.
     sbind (rand_bytes env 32) (\<lambda>share.
     let v = v\<lparr>bs_sid := sid, bs_bridge_share := share\<rparr> in
     sbind (sopt () (session_transcript dbl b v)) (\<lambda>transcript.
     sbind (sopt () (blc_sign_p256 env (br_sep_priv b) transcript 256)) (\<lambda>sig_der.
     sbind (blc_ecies_encrypt env (bs_pub v) share) (\<lambda>envelope.
     let resp = resp_reg (br_now b) (bs_ttl v) (b64_text env sid 32) (b64_text env envelope 2048) (b64_text env sig_der 1024) in
     sbind (sguard (length resp < 4096) ()) (\<lambda>_.
     sret (resp, v))))))))"

text \<open>The key of the protocol, from what the bridge read and drew.\<close>

definition bridge_session_key :: "blc_env \<Rightarrow> 'd bridge_session \<Rightarrow> bytes option" where
  "bridge_session_key env v =
     blc_hkdf_sha256 env (bs_share v @ bs_bridge_share v) (bs_nonce v @ bs_sid v) BL_HKDF_INFO 32"

definition key_text :: "blc_env \<Rightarrow> bytes \<Rightarrow> string" where
  "key_text env pub = resp_key (b64_text env pub 128)"

text \<open>What both sides rely on, in one place.\<close>

definition libraries_ok :: "blc_env \<Rightarrow> bool" where
  "libraries_ok env \<longleftrightarrow> evp_base64 (EVP_EncodeBlock env) (EVP_DecodeBlock env)
     \<and> (\<forall>i. malloc_ok env i) \<and> secp_laws env \<and> evp_laws env \<and> (\<forall>r. rng_answers env r)"

text \<open>What the bridge relies on: key pairs, and a signature that its enclave key verifies.\<close>

definition bridge_ok :: "blc_env \<Rightarrow> bridge \<Rightarrow> bool" where
  "bridge_ok env b \<longleftrightarrow>
     seckey_verify env (br_priv b)
     \<and> (\<exists>pk. pubkey_create env (br_priv b) = Some pk \<and> serialize_uncompressed env pk = Some (br_pub b))
     \<and> pin65 (br_pub b) \<and> pin65 (br_sep b) \<and> LONG_MIN \<le> br_now b \<and> br_now b \<le> LONG_MAX
     \<and> (\<forall>msg. \<exists>sg. blc_sign_p256 env (br_sep_priv b) msg 256 = Some sg \<and> length sg \<le> 256 \<and> blc_verify_p256 env (br_sep b) msg sg)"

text \<open>
  What \<open>%.6f\<close> writes of the time of the request, \<open>strtod\<close> reads to the same second. (Six digits of a day are
  less than a tenth of a second.)
\<close>

definition bd_text_ok :: "'d dbl_ops \<Rightarrow> 'd \<Rightarrow> bool" where
  "bd_text_ok dbl x \<longleftrightarrow> set (fmt_f6 dbl x) \<inter> {DQUOTE, NUL} = {}
     \<and> (\<forall>r. \<exists>y. strtod dbl (dropWhile json_ws (fmt_f6 dbl x @ CHR '','' # r)) = Some y \<and> bd_to_unix dbl y = bd_to_unix dbl x)"

definition client_texts_ok :: "'c bl_client \<Rightarrow> bool" where
  "client_texts_ok c \<longleftrightarrow> set (agent_name c @ agent_version c) \<inter> {DQUOTE, NUL} = {}
     \<and> LONG_MIN \<le> ttl_seconds c \<and> ttl_seconds c \<le> LONG_MAX"

subsection \<open>What the bridge reads\<close>

lemma mock_field_pieces:
  assumes "list_all no_quote segs" "no_quote key" "length key < 126"
    and "qfind key segs = Some (quoted key @ CHR '':'' # DQUOTE # v @ DQUOTE # rest)"
    and "set v \<inter> {DQUOTE, NUL} = {}" "length v < cap"
  shows "mock_field_str (qjoin segs) key cap = Some v"
proof -
  have "takeWhile (\<lambda>c. c \<noteq> NUL \<and> c \<noteq> DQUOTE) (v @ DQUOTE # rest) = v"
    using assms(5) by (subst takeWhile_append2) auto
  with assms(6) show ?thesis
    unfolding mock_field_str_def json_locate_pieces [OF assms(1-4)] by (simp add: hd_nul_def Let_def)
qed

lemma value_plain: "value_ok v \<Longrightarrow> set v \<inter> {DQUOTE, NUL} = {}"
  by (auto simp: value_ok_def inside_ok_def)

lemma request_fields:
  assumes "value_ok n" "value_ok e" "length n = 24" "length e < 8192"
  shows "mock_field_str (link_register_json n e) ''clientNonce'' 64 = Some n"
    "mock_field_str (link_register_json n e) ''envelope'' 8192 = Some e"
proof -
  let ?ps = "[''{'', ''cmd'', '':'', ''LINK_REGISTER'', '','', ''protocolVersion'', '':1,'', ''clientNonce'', '':'', n, '','',
    ''envelope'', '':'', e, ''}'']"
  have r: "link_register_json n e = qjoin ?ps" by (simp add: link_register_json_def json_str_member_def quoted_def)
  have nq: "list_all no_quote ?ps" using assms by (simp add: value_no_quote)
  show "mock_field_str (link_register_json n e) ''clientNonce'' 64 = Some n"
    unfolding r by (rule mock_field_pieces [OF nq]) (use assms value_plain in \<open>simp_all add: quoted_def\<close>)
  have "n \<noteq> ''envelope''" using assms(3) by auto
  then show "mock_field_str (link_register_json n e) ''envelope'' 8192 = Some e"
    unfolding r by (intro mock_field_pieces [OF nq]) (use assms value_plain in \<open>simp_all add: quoted_def\<close>)
qed

text \<open>The plaintext by its pieces; \<open>P\<close> and \<open>S\<close> are the encoded key and share.\<close>

definition plain_pieces :: "string \<Rightarrow> string \<Rightarrow> string \<Rightarrow> int \<Rightarrow> string \<Rightarrow> string \<Rightarrow> string list" where
  "plain_pieces P S f ttl name ver =
     [''{'', ''v'', '':1,'', ''clientPub'', '':'', P, '','', ''clientShare'', '':'', S, '','', ''issuedAtBd'', '':'' @ f @ '','',
      ''ttlSeconds'', '':'' @ int_dec ttl @ '','', ''agent'', '':{'', ''name'', '':'', name, '','', ''version'', '':'', ver, '','',
      ''platform'', '':'', ''libbrightlink-c'', ''}}'']"

lemma b64_text_fits: "4 * ((length bs + 2) div 3) < cap \<Longrightarrow> b64_text env bs cap = EVP_EncodeBlock env bs"
  by (simp add: b64_text_def blc_b64encode_def)

lemma register_plaintext_pieces:
  assumes "length (cm_pub m) = 65" "length (cm_share m) = 32"
  shows "register_plaintext env dbl c m = qjoin (plain_pieces (EVP_EncodeBlock env (cm_pub m)) (EVP_EncodeBlock env (cm_share m))
    (fmt_f6 dbl (cm_issued m)) (ttl_seconds c) (agent_name c) (agent_version c))"
  using assms by (simp add: register_plaintext_def plain_pieces_def json_str_member_def quoted_def b64_text_fits)

lemma plain_fields:
  assumes "value_ok P" "value_ok S" "length P = 88" "length S = 44"
    and "no_quote f" "no_quote name" "no_quote ver" "LONG_MIN \<le> ttl" "ttl \<le> LONG_MAX"
  shows "mock_field_str (qjoin (plain_pieces P S f ttl name ver)) ''clientPub'' 256 = Some P"
    "mock_field_str (qjoin (plain_pieces P S f ttl name ver)) ''clientShare'' 64 = Some S"
    "\<exists>r. json_locate (qjoin (plain_pieces P S f ttl name ver)) ''issuedAtBd'' = Some (dropWhile json_ws (f @ CHR '','' # r))"
    "\<exists>p. json_locate (qjoin (plain_pieces P S f ttl name ver)) ''ttlSeconds'' = Some p \<and> fst (strtol 10 p) = ttl"
proof -
  have nq: "list_all no_quote (plain_pieces P S f ttl name ver)"
    using assms by (simp add: plain_pieces_def value_no_quote)
  have ne: "P \<notin> {''clientShare'', ''issuedAtBd'', ''ttlSeconds''}" "S \<notin> {''issuedAtBd'', ''ttlSeconds''}"
    using assms(3,4) by auto
  show "mock_field_str (qjoin (plain_pieces P S f ttl name ver)) ''clientPub'' 256 = Some P"
    by (rule mock_field_pieces [OF nq]) (use assms value_plain in \<open>simp_all add: plain_pieces_def quoted_def\<close>)
  show "mock_field_str (qjoin (plain_pieces P S f ttl name ver)) ''clientShare'' 64 = Some S"
    by (rule mock_field_pieces [OF nq]) (use assms ne value_plain in \<open>simp_all add: plain_pieces_def quoted_def\<close>)
  show "\<exists>r. json_locate (qjoin (plain_pieces P S f ttl name ver)) ''issuedAtBd'' = Some (dropWhile json_ws (f @ CHR '','' # r))"
    by (rule exI, rule json_locate_pieces [OF nq]) (use ne in \<open>simp_all add: plain_pieces_def quoted_def\<close>)
  have "\<exists>r. json_locate (qjoin (plain_pieces P S f ttl name ver)) ''ttlSeconds'' = Some (dropWhile json_ws (int_dec ttl @ CHR '','' # r))"
    by (rule exI, rule json_locate_pieces [OF nq]) (use ne in \<open>simp_all add: plain_pieces_def quoted_def\<close>)
  then obtain r where "json_locate (qjoin (plain_pieces P S f ttl name ver)) ''ttlSeconds'' = Some (int_dec ttl @ CHR '','' # r)"
    by (auto simp: int_dec_head_not_ws)
  moreover have "\<not> starts_with_digit 10 (CHR '','' # r)"
    by (simp add: starts_with_digit_def digit_in_def digit_val_def)
  ultimately show "\<exists>p. json_locate (qjoin (plain_pieces P S f ttl name ver)) ''ttlSeconds'' = Some p \<and> fst (strtol 10 p) = ttl"
    using strtol_int_dec [OF assms(8,9)] by simp
qed

lemma mock_b64_run:
  assumes "evp_base64 (EVP_EncodeBlock env) (EVP_DecodeBlock env)" "\<forall>i. malloc_ok env i" "length bs = n"
  shows "\<exists>t'. mock_b64 env (EVP_EncodeBlock env bs) n n t = (Inr bs, t')"
proof -
  have "fst (blc_b64decode env (EVP_EncodeBlock env bs) n t) = Inr bs"
    by (rule blc_b64decode_enc [OF assms(1,2)]) (simp add: assms(3))
  then obtain t' where "blc_b64decode env (EVP_EncodeBlock env bs) n t = (Inr bs, t')" by (metis prod.collapse)
  with assms(3) show ?thesis by (simp add: mock_b64_def sbind_def serr_defs)
qed

lemma NUL_plain_pieces:
  "NUL \<in> set (qjoin (plain_pieces P S f ttl name ver)) \<longleftrightarrow> NUL \<in> set P \<union> set S \<union> set f \<union> set name \<union> set ver"
  using int_dec_plain(2) by (auto simp: plain_pieces_def)

lemma mock_plaintext_run:
  assumes law: "libraries_ok env" and b: "bridge_ok env b"
    and e: "blc_ecies_encrypt env (br_pub b) (bytes_of_string pt) s = (Inr e, s1)" "length e \<le> 1087"
    and "length nonce = 16" "NUL \<notin> set pt"
  shows "\<exists>t'. mock_plaintext env b (link_register_json (EVP_EncodeBlock env nonce) (EVP_EncodeBlock env e)) t = (Inr pt, t')"
proof -
  note l = law [unfolded libraries_ok_def]
  let ?e = "EVP_EncodeBlock env e"
  obtain pk where pk: "seckey_verify env (br_priv b)" "pubkey_create env (br_priv b) = Some pk"
      "serialize_uncompressed env pk = Some (br_pub b)" using b by (auto simp: bridge_ok_def)
  have v: "value_ok (EVP_EncodeBlock env nonce)" "value_ok ?e" using value_ok_enc l by auto
  have len: "length (EVP_EncodeBlock env nonce) = 24" "length ?e < 8192" "length e \<le> length ?e"
    using evp_base64.enc_length [OF l [THEN conjunct1], of nonce] evp_base64.enc_length [OF l [THEN conjunct1], of e]
      enc_bound [OF l [THEN conjunct1] assms(4)] assms(5) by simp_all
  note f = request_fields(2) [OF v len(1,2)]
  let ?t1 = "t\<lparr>alloc_n := Suc (alloc_n t)\<rparr>"
  obtain t2 where t2: "blc_b64decode env ?e (length ?e) ?t1 = (Inr e, t2)"
    using blc_b64decode_enc [OF l [THEN conjunct1] _ len(3), of ?t1] l by (metis prod.collapse)
  obtain t3 where t3: "blc_ecies_decrypt env (br_priv b) e t2 = (Inr (bytes_of_string pt), t3)"
    using blc_ecies_decrypt_encrypt(2) [OF _ _ _ pk e(1)] l by (metis prod.collapse)
  have "takeWhile (\<lambda>c. c \<noteq> NUL) (map char_of_byte (bytes_of_string pt)) = pt"
    using assms(6) by (simp add: bytes_of_string_def o_def takeWhile_eq_all_conv) metis
  then show ?thesis
    using l by (simp add: mock_plaintext_def f sopt_def sbind_def malloc_answers t2 t3 serr_defs)
qed

text \<open>What the client drew, as the bridge finds it in the request.\<close>

definition reads_client :: "'d dbl_ops \<Rightarrow> 'd client_material \<Rightarrow> int \<Rightarrow> 'd bridge_session \<Rightarrow> bool" where
  "reads_client dbl m ttl v \<longleftrightarrow> bs_nonce v = cm_nonce m \<and> bs_pub v = cm_pub m \<and> bs_share v = cm_share m
     \<and> bd_to_unix dbl (bs_issued v) = bd_to_unix dbl (cm_issued m) \<and> bs_ttl v = min 3600 (max 1 ttl)"

lemma mock_read_run:
  assumes law: "libraries_ok env" and b: "bridge_ok env b"
    and e: "blc_ecies_encrypt env (br_pub b) (bytes_of_string (register_plaintext env dbl c m)) s = (Inr e, s1)" "length e \<le> 1087"
    and m: "length (cm_nonce m) = 16" "length (cm_share m) = 32" "length (cm_pub m) = 65"
    and tx: "bd_text_ok dbl (cm_issued m)" "client_texts_ok c"
  shows "\<exists>v t'. mock_read env dbl b (link_register_json (EVP_EncodeBlock env (cm_nonce m)) (EVP_EncodeBlock env e)) t = (Inr v, t')
    \<and> reads_client dbl m (ttl_seconds c) v"
proof -
  note l = law [unfolded libraries_ok_def] and b64 = law [unfolded libraries_ok_def, THEN conjunct1]
  let ?req = "link_register_json (EVP_EncodeBlock env (cm_nonce m)) (EVP_EncodeBlock env e)"
  let ?P = "EVP_EncodeBlock env (cm_pub m)" and ?S = "EVP_EncodeBlock env (cm_share m)" and ?f = "fmt_f6 dbl (cm_issued m)"
  define pt where "pt = register_plaintext env dbl c m"
  have pt: "pt = qjoin (plain_pieces ?P ?S ?f (ttl_seconds c) (agent_name c) (agent_version c))"
    unfolding pt_def by (rule register_plaintext_pieces [OF m(3,2)])
  have v: "value_ok (EVP_EncodeBlock env (cm_nonce m))" "value_ok (EVP_EncodeBlock env e)" "value_ok ?P" "value_ok ?S"
    using value_ok_enc [OF b64] by auto
  have len: "length (EVP_EncodeBlock env (cm_nonce m)) = 24" "length (EVP_EncodeBlock env e) < 8192" "length ?P = 88" "length ?S = 44"
    using evp_base64.enc_length [OF b64] enc_bound [OF b64 e(2)] m by simp_all
  have q: "no_quote ?f" "no_quote (agent_name c)" "no_quote (agent_version c)"
    using tx by (auto simp: bd_text_ok_def client_texts_ok_def no_quote_def)
  have "NUL \<notin> set pt"
    unfolding pt NUL_plain_pieces using tx v(3,4) by (auto simp: bd_text_ok_def client_texts_ok_def value_ok_def)
  note plain = mock_plaintext_run [OF law b e(1) [folded pt_def] e(2) m(1) this]
  note f = plain_fields [OF v(3,4) len(3,4) q, of "ttl_seconds c", folded pt]
  obtain r where r: "json_locate pt ''issuedAtBd'' = Some (dropWhile json_ws (?f @ CHR '','' # r))"
    using f(3) tx(2) by (auto simp: client_texts_ok_def)
  obtain p where p: "json_locate pt ''ttlSeconds'' = Some p" "fst (strtol 10 p) = ttl_seconds c"
    using f(4) tx(2) by (auto simp: client_texts_ok_def)
  obtain y where y: "strtod dbl (dropWhile json_ws (?f @ CHR '','' # r)) = Some y" "bd_to_unix dbl y = bd_to_unix dbl (cm_issued m)"
    using tx(1) unfolding bd_text_ok_def by blast
  obtain t1 where t1: "mock_b64 env (EVP_EncodeBlock env (cm_nonce m)) 16 16 t = (Inr (cm_nonce m), t1)"
    using mock_b64_run [OF b64 _ m(1)] l by blast
  obtain t2 where t2: "mock_plaintext env b ?req t1 = (Inr pt, t2)" using plain by blast
  obtain t3 where t3: "mock_b64 env ?P 65 65 t2 = (Inr (cm_pub m), t3)" using mock_b64_run [OF b64 _ m(3)] l by blast
  obtain t4 where t4: "mock_b64 env ?S 32 32 t3 = (Inr (cm_share m), t4)" using mock_b64_run [OF b64 _ m(2)] l by blast
  have fs: "mock_field_str pt ''clientPub'' 256 = Some ?P" "mock_field_str pt ''clientShare'' 64 = Some ?S"
    using f(1,2) tx(2) by (simp_all add: client_texts_ok_def)
  have "mock_read env dbl b ?req t = (Inr \<lparr>bs_nonce = cm_nonce m, bs_pub = cm_pub m, bs_share = cm_share m, bs_issued = y,
      bs_ttl = min 3600 (max 1 (ttl_seconds c)), bs_sid = [], bs_bridge_share = []\<rparr>, t4)"
    by (simp add: mock_read_def request_fields(1) [OF v(1,2) len(1,2)] sopt_def sbind_def t1 t2 fs r p y(1) t3 t4 Let_def serr_defs)
  with y(2) show ?thesis by (simp add: reads_client_def)
qed

lemma nat_dec_length: "n < 10 ^ k \<Longrightarrow> 0 < k \<Longrightarrow> length (nat_dec n) \<le> k"
proof (induction k arbitrary: n)
  case (Suc k)
  show ?case
  proof (cases "n < 10")
    case True
    then show ?thesis by (subst nat_dec.simps) simp
  next
    case False
    then have "0 < k" using Suc.prems(1) by (cases k) auto
    moreover have "n div 10 < 10 ^ k" using Suc.prems(1) by (simp add: less_mult_imp_div_less)
    ultimately show ?thesis using Suc.IH [of "n div 10"] False by (subst nat_dec.simps) simp
  qed
qed simp

lemma int_dec_length: "\<bar>i\<bar> \<le> 2 ^ 63 \<Longrightarrow> length (int_dec i) \<le> 20"
  using nat_dec_length [of "nat \<bar>i\<bar>" 19] by (cases "i < 0") (simp_all add: int_dec_def nat_less_iff)

lemma rng_length: "rng_answers env r \<Longrightarrow> RAND_bytes env i n = Some b \<Longrightarrow> length b = n"
  unfolding rng_answers_def by (metis option.inject)

lemma handle_link_register_run:
  fixes t :: "'z blc_state_scheme"
  assumes law: "libraries_ok env" and b: "bridge_ok env b"
    and r: "mock_read env dbl b req t = (Inr v0, t1)" "reads_client dbl m ttl v0"
    and m: "length (cm_nonce m) = 16" "length (cm_share m) = 32" "length (cm_pub m) = 65"
    and k: "seckey_verify env priv" "pubkey_create env priv = Some pk" "serialize_uncompressed env pk = Some (cm_pub m)"
  shows "\<exists>v tr sg e (t2 :: 'z blc_state_scheme) t3 t'. handle_link_register env dbl b req t
      = (Inr (resp_reg (br_now b) (bs_ttl v) (EVP_EncodeBlock env (bs_sid v)) (EVP_EncodeBlock env e) (EVP_EncodeBlock env sg), v), t')
    \<and> reads_client dbl m ttl v \<and> length (bs_sid v) = 16 \<and> length (bs_bridge_share v) = 32
    \<and> session_transcript dbl b v = Some tr \<and> length sg \<le> 256 \<and> blc_verify_p256 env (br_sep b) tr sg
    \<and> blc_ecies_encrypt env (cm_pub m) (bs_bridge_share v) t2 = (Inr e, t3) \<and> length e = 96"
proof -
  note l = law [unfolded libraries_ok_def] and b64 = law [unfolded libraries_ok_def, THEN conjunct1]
  have rng: "rng_answers env i" for i using l by blast
  obtain sid where sid: "RAND_bytes env (rand_n t1) 16 = Some sid" "length sid = 16" using rng [unfolded rng_answers_def] by blast
  let ?t2 = "t1\<lparr>rand_n := Suc (rand_n t1)\<rparr>"
  obtain sh where sh: "RAND_bytes env (rand_n ?t2) 32 = Some sh" "length sh = 32" using rng [unfolded rng_answers_def] by blast
  let ?t3 = "?t2\<lparr>rand_n := Suc (rand_n ?t2)\<rparr>"
  have rb: "rand_bytes env 16 t1 = (Inr sid, ?t2)" "rand_bytes env 32 ?t2 = (Inr sh, ?t3)"
    using sid sh by (simp_all add: rand_bytes_def)
  define v where "v = v0\<lparr>bs_sid := sid, bs_bridge_share := sh\<rparr>"
  have v: "reads_client dbl m ttl v" "bs_sid v = sid" "bs_bridge_share v = sh" "bs_pub v = cm_pub m" "bs_ttl v = min 3600 (max 1 ttl)"
    using r(2) by (simp_all add: v_def reads_client_def)
  have v0: "bs_pub v0 = cm_pub m" "bs_ttl v0 = bs_ttl v" using r(2) by (simp_all add: v_def reads_client_def)
  have "\<exists>tr. session_transcript dbl b v = Some tr \<and> length tr = 238" unfolding session_transcript_def
    by (rule build_transcript_Some) (use v(1-3) m sid sh in \<open>simp add: transcript_args_ok_def reads_client_def\<close>)
  then obtain tr where tr: "session_transcript dbl b v = Some tr" by blast
  obtain sg where sg: "blc_sign_p256 env (br_sep_priv b) tr 256 = Some sg" "length sg \<le> 256" "blc_verify_p256 env (br_sep b) tr sg"
    using b unfolding bridge_ok_def by blast
  have parse: "pubkey_parse env (take 65 (cm_pub m)) = Some pk"
    using secp_pub [OF _ k(1)] l k(2,3) by (metis option.inject order_refl take_all)
  obtain e t4 where e: "blc_ecies_encrypt env (cm_pub m) sh ?t3 = (Inr e, t4)"
    using blc_ecies_encrypt_live [OF _ _ rng _ k(1,2) parse] l by blast
  have el: "length e = 96" using blc_ecies_decrypt_encrypt(1) [OF _ _ _ k e] l sh(2) by simp
  let ?r = "resp_reg (br_now b) (bs_ttl v) (EVP_EncodeBlock env sid) (EVP_EncodeBlock env e) (EVP_EncodeBlock env sg)"
  have sg4: "4 * ((length sg + 2) div 3) < 1024" using sg(2) by linarith
  have tx: "b64_text env sid 32 = EVP_EncodeBlock env sid" "b64_text env e 2048 = EVP_EncodeBlock env e"
      "b64_text env sg 1024 = EVP_EncodeBlock env sg"
    using sid(2) el sg4 by (simp_all add: b64_text_fits)
  have "length (int_dec (br_now b)) \<le> 20" "length (int_dec (bs_ttl v)) \<le> 20"
    using b v(5) by (auto intro!: int_dec_length simp: bridge_ok_def)
  then have "length ?r < 4096"
    using evp_base64.enc_length [OF b64] sid(2) el enc_bound [OF b64 sg(2)] by (simp add: resp_reg_pieces)
  then have "handle_link_register env dbl b req t = (Inr (?r, v), t4)"
    using r(1) e [simplified] v0
    by (simp add: handle_link_register_def sbind_def rb v_def [symmetric] Let_def tr sg(1) sopt_def tx serr_defs)
  then show ?thesis
    using v(1-3) sid(2) sh(2) tr sg(2,3) e el
    by (intro exI [of _ v] exI [of _ tr] exI [of _ sg] exI [of _ e] exI [of _ ?t3] exI [of _ t4]) simp
qed

subsection \<open>Registration with the bridge\<close>

text \<open>The request the client sends: it depends on what it draws, not on the answers before it.\<close>

definition client_request :: "blc_env \<Rightarrow> 'd dbl_ops \<Rightarrow> bytes \<Rightarrow> ('c, 'd) bl_st \<Rightarrow> string option" where
  "client_request env dbl bridge_pub s =
     (case register_material env dbl s of
        (Inl _, _) \<Rightarrow> None
      | (Inr m, s1) \<Rightarrow> (case register_request env dbl bridge_pub m s1 of (Inl _, _) \<Rightarrow> None | (Inr req, _) \<Rightarrow> Some req))"

lemma capture_none: "strstr resp error_key = None \<Longrightarrow> capture_bridge_error env resp s = (Inr False, s)"
  by (simp add: capture_bridge_error_def)

lemma checked_request_wire:
  assumes "checked_request env json s = (Inr resp, s')"
  shows "wire s' = wire s @ json"
proof -
  from assms obtain s1 where s1: "bl_send_request env json s = (Inr resp, s1)" "capture_bridge_error env resp s1 = (Inr False, s')"
    by (auto simp: checked_request_def serr_Inr split: if_splits)
  have "wire s' = wire s1"
    using s1(2) by (auto simp: capture_bridge_error_def malloc_def Let_def split: option.splits if_splits prod.splits sum.splits)
  with bl_send_request_Inr [OF s1(1)] show ?thesis by simp
qed

lemma keeps_step: "keeps R m \<Longrightarrow> m s = (r, s') \<Longrightarrow> R s s'"
  unfolding keeps_def by (metis snd_conv)

lemma crypto_field [crypto_intro]: "keeps crypto_only (json_field_b64 env json key cap)"
  by (auto simp: json_field_b64_def intro!: crypto_intro split: prod.split bool.split)

lemma crypto_stages:
  "keeps crypto_only (register_response env m resp)" "keeps crypto_only (register_verify env dbl pub m resp a)"
  unfolding register_response_def register_verify_def Let_def split_beta by (intro crypto_intro)+

lemma fetch_pubkey_wire:
  assumes "fetch_pubkey env json s = (Inr p, s')"
  shows "wire s' = wire s @ json"
proof -
  from assms obtain resp s1 where s1: "checked_request env json s = (Inr resp, s1)"
    "sbind (son_err BL_ERR_PROTOCOL (json_field_b64 env resp ''publicKey'' 65)) (\<lambda>out65.
     sbind (sguard (\<not> (length out65 \<noteq> 65 \<or> out65 ! 0 \<noteq> 0x04)) BL_ERR_PROTOCOL) (\<lambda>_. sret out65)) s1 = (Inr p, s')"
    by (auto simp: fetch_pubkey_def sbind_Inr_iff)
  have "keeps crypto_only (sbind (son_err BL_ERR_PROTOCOL (json_field_b64 env resp ''publicKey'' 65)) (\<lambda>out65.
     sbind (sguard (\<not> (length out65 \<noteq> 65 \<or> out65 ! 0 \<noteq> 0x04)) BL_ERR_PROTOCOL) (\<lambda>_. sret out65)) :: ('a, 'b, bytes) bl)"
    by (intro crypto_intro)
  then have "crypto_only s1 s'" using s1(2) by (rule keeps_step)
  with checked_request_wire [OF s1(1)] show ?thesis by (simp add: crypto_only_fields)
qed

lemma register_identity_wire:
  assumes "register_identity env s = (Inr k, s')"
  shows "wire s' = wire s @ json_cmd ''GET_PUBLIC_KEY'' @ json_cmd ''GET_ENCLAVE_PUBLIC_KEY''"
  using assms by (auto simp: register_identity_def serr_Inr dest!: fetch_pubkey_wire split: if_splits)

lemma material_exists:
  assumes "libraries_ok env"
  shows "\<exists>m s'. register_material env dbl s = (Inr m, s')"
proof -
  note l = assms [unfolded libraries_ok_def]
  have rng: "rng_answers env i" for i using l by blast
  obtain n where n: "RAND_bytes env (rand_n s) 16 = Some n" using rng [unfolded rng_answers_def] by blast
  let ?s1 = "s\<lparr>rand_n := Suc (rand_n s)\<rparr>"
  obtain sh where sh: "RAND_bytes env (rand_n ?s1) 32 = Some sh" using rng [unfolded rng_answers_def] by blast
  let ?s2 = "?s1\<lparr>rand_n := Suc (rand_n ?s1)\<rparr>"
  obtain k s3 where k: "blc_secp_random_priv env ?s2 = (Inr k, s3)" "seckey_verify env k" "secp_ready s3"
    using blc_secp_random_priv_live [OF rng] l by blast
  obtain pk u where pk: "pubkey_create env k = Some pk" "serialize_uncompressed env pk = Some u" "length u = 65"
    using secp_pub [OF _ k(2)] l by metis
  then have "blc_secp_pub_uncompressed env k s3 = (Inr u, s3)"
    using k(3) by (simp add: blc_secp_pub_uncompressed_def sbind_def blc_secp_def sopt_def serr_defs)
  then show ?thesis
    using n sh k(1) by (simp add: register_material_def sbind_def son_err_def rand_bytes_def serr_defs)
qed

lemma register_begin_ready:
  assumes "register_begin s = (Inr (), s1)"
  shows "ready s1 rs = ready s rs" "same_rng s s1"
proof -
  have "fd_open (cl s1) = fd_open (cl s) \<and> socket_path (cl s1) = socket_path (cl s)
      \<and> conn_evs s1 = conn_evs s \<and> wr_evs s1 = wr_evs s \<and> rd_evs s1 = rd_evs s \<and> same_rng s s1"
    using assms
    by (auto simp: register_begin_def bl_clear_bridge_error_def sbind_def serr_defs same_rng_def
        split: option.splits if_splits)
  then show "ready s1 rs = ready s rs" "same_rng s s1" by (simp_all add: ready_def connectable_def)
qed

lemma register_material_pub:
  assumes "register_material env dbl s = (Inr m, s')"
  shows "seckey_verify env (cm_priv m)"
    "\<exists>pk. pubkey_create env (cm_priv m) = Some pk \<and> serialize_uncompressed env pk = Some (cm_pub m)"
    "crypto_only s s'"
proof -
  show "seckey_verify env (cm_priv m)" using register_material_Inr [OF assms] by metis
  show "\<exists>pk. pubkey_create env (cm_priv m) = Some pk \<and> serialize_uncompressed env pk = Some (cm_pub m)"
    using assms by (auto simp: register_material_def blc_secp_pub_uncompressed_def serr_Inr)
  have "keeps crypto_only (register_material env dbl)"
    unfolding register_material_def by (intro crypto_intro)
  then show "crypto_only s s'" using assms by (metis keeps_def snd_conv)
qed

lemma session_key_exists:
  assumes "evp_laws env"
  shows "\<exists>k. session_key_of env m a = Some k"
proof -
  obtain out where "hkdf_derive env (take 32 (cm_share m) @ take 32 (ra_bridge_share a))
      (take 16 (cm_nonce m) @ take 16 (ra_session_id a)) BL_HKDF_INFO 32 = Some out" "length out = 32"
    using assms unfolding evp_laws_def by blast
  then show ?thesis by (simp add: session_key_of_def blc_hkdf_sha256_def)
qed

lemma key_text_pin: "pin65 p \<Longrightarrow> key_text env p = resp_key (EVP_EncodeBlock env p)"
  by (simp add: key_text_def pin65_def b64_text_fits)

lemma bridge_answer_accepted:
  fixes s :: "('c, 'd) bl_st"
  assumes law: "libraries_ok env" and b: "bridge_ok env b" and v: "reads_client dbl m ttl v"
    and m: "seckey_verify env (cm_priv m)" "pubkey_create env (cm_priv m) = Some pk" "serialize_uncompressed env pk = Some (cm_pub m)"
      "length (cm_nonce m) = 16" "length (cm_share m) = 32"
    and len: "length (bs_sid v) = 16" "length (bs_bridge_share v) = 32" "length sg \<le> 256"
    and tr: "session_transcript dbl b v = Some tr" "blc_verify_p256 env (br_sep b) tr sg"
    and e: "blc_ecies_encrypt env (cm_pub m) (bs_bridge_share v) (t2 :: blc_state) = (Inr e, t3)"
    and resp: "resp = resp_reg (br_now b) (bs_ttl v) (EVP_EncodeBlock env (bs_sid v)) (EVP_EncodeBlock env e) (EVP_EncodeBlock env sg)"
  shows "\<exists>a s1 k s2. register_response env m resp s = (Inr a, s1) \<and> register_verify env dbl (br_sep b) m resp a s1 = (Inr k, s2)
    \<and> ra_session_id a = bs_sid v \<and> bridge_session_key env v = Some k"
proof -
  note l = law [unfolded libraries_ok_def] and b64 = law [unfolded libraries_ok_def, THEN conjunct1]
  have range: "LONG_MIN \<le> br_now b" "br_now b \<le> LONG_MAX" "LONG_MIN \<le> bs_ttl v" "bs_ttl v \<le> LONG_MAX"
    using b v by (auto simp: bridge_ok_def reads_client_def)
  define a where "a = \<lparr>ra_issued_at = br_now b, ra_ttl = bs_ttl v, ra_session_id = bs_sid v, ra_bridge_share = bs_bridge_share v\<rparr>"
  have dec: "fst (blc_ecies_decrypt env (cm_priv m) e u) = Inr (bs_bridge_share v)" for u :: "('c, 'd) bl_st"
    using blc_ecies_decrypt_encrypt(2) [OF _ _ _ m(1-3) e] l by blast
  obtain s1 where s1: "register_response env m resp s = (Inr a, s1)"
    using register_response_run [OF b64 _ resp len(1,3) range dec len(2), of s] l unfolding a_def by blast
  have key: "session_key_of env m a = bridge_session_key env v"
    using v m(4,5) len(1,2) by (simp add: session_key_of_def bridge_session_key_def a_def reads_client_def)
  obtain k where k: "session_key_of env m a = Some k" using session_key_exists l by blast
  have "transcript_of dbl m a = session_transcript dbl b v"
    using v by (simp add: transcript_of_def session_transcript_def a_def reads_client_def build_transcript_def)
  then have "transcript_of dbl m a = Some tr" using tr(1) by simp
  then obtain s2 where "register_verify env dbl (br_sep b) m resp a s1 = (Inr k, s2)"
    using register_verify_run [OF b64 _ resp len(1,3) range k _ tr(2)] l by blast
  with s1 k key show ?thesis by (auto simp: a_def)
qed

lemma honest_register_run:
  fixes s :: "('c, 'd) bl_st" and t :: blc_state
  assumes law: "libraries_ok env" and b: "bridge_ok env b"
    and start: "\<not> session_active (cl s)" "known_pin s \<in> {None, Some (br_sep b)}"
    and tx: "bd_text_ok dbl (bd_of_time dbl (clock s))" "client_texts_ok (cl s)"
    and len: "\<And>m. fst (register_material env dbl s) = Inr m \<Longrightarrow> length (register_plaintext env dbl (cl s) m) < 1024"
  shows "\<exists>req resp v t'. client_request env dbl (br_pub b) s = Some req
    \<and> handle_link_register env dbl b req t = (Inr (resp, v), t')
    \<and> (ready s [key_text env (br_pub b), key_text env (br_sep b), resp] \<longrightarrow>
        (\<exists>s'. bl_register env dbl s = (Inr (), s')
          \<and> wire s' = wire s @ json_cmd ''GET_PUBLIC_KEY'' @ json_cmd ''GET_ENCLAVE_PUBLIC_KEY'' @ req
          \<and> session_active (cl s') \<and> session_id (cl s') = bs_sid v
          \<and> bridge_session_key env v = Some (session_key (cl s'))
          \<and> pin_loaded (cl s') \<and> pin_pub65 (cl s') = br_sep b))"
proof -
  note l = law [unfolded libraries_ok_def] and b64 = law [unfolded libraries_ok_def, THEN conjunct1]
  note h = b [unfolded bridge_ok_def]
  obtain m sm where sm: "register_material env dbl s = (Inr m, sm)" using material_exists [OF law] by blast
  note pub = register_material_pub [OF sm]
  obtain pk where pk: "pubkey_create env (cm_priv m) = Some pk" "serialize_uncompressed env pk = Some (cm_pub m)" using pub(2) by blast
  have ml: "length (cm_nonce m) = 16" "length (cm_share m) = 32" "length (cm_pub m) = 65" "cm_issued m = bd_of_time dbl (clock s)"
    using register_material_Inr [OF sm] rng_length l by metis+
  have cm: "cl sm = cl s" using crypto_only_fields(1) [OF pub(3)] .
  obtain bk where bk: "pubkey_create env (br_priv b) = Some bk" "serialize_uncompressed env bk = Some (br_pub b)" using h by blast
  have pl: "length (register_plaintext env dbl (cl sm) m) < 1024" using len [of m] sm cm by simp
  obtain e se sr where e: "blc_ecies_encrypt env (br_pub b) (bytes_of_string (register_plaintext env dbl (cl sm) m)) sm = (Inr e, se)"
      "length e \<le> 1087"
    and rq: "register_request env dbl (br_pub b) m sm
      = (Inr (link_register_json (EVP_EncodeBlock env (cm_nonce m)) (EVP_EncodeBlock env e)), sr)"
      "length (link_register_json (EVP_EncodeBlock env (cm_nonce m)) (EVP_EncodeBlock env e)) \<le> 2048"
    using register_request_run [OF b64 _ _ _ _ _ bk pl ml(1)] l h by blast
  define req where "req = link_register_json (EVP_EncodeBlock env (cm_nonce m)) (EVP_EncodeBlock env e)"
  have cr: "client_request env dbl (br_pub b) s = Some req" by (simp add: client_request_def sm rq(1) req_def)
  obtain v0 t1 where v0: "mock_read env dbl b req t = (Inr v0, t1)" "reads_client dbl m (ttl_seconds (cl s)) v0"
    using mock_read_run [OF law b e(1) [unfolded cm] e(2) ml(1-3) tx(1) [folded ml(4)] tx(2), of t] unfolding req_def by blast
  obtain v tr sg e2 and t2 t3 :: blc_state and t' resp where
    resp: "resp = resp_reg (br_now b) (bs_ttl v) (EVP_EncodeBlock env (bs_sid v)) (EVP_EncodeBlock env e2) (EVP_EncodeBlock env sg)"
    and hd: "handle_link_register env dbl b req t = (Inr (resp, v), t')"
    and v: "reads_client dbl m (ttl_seconds (cl s)) v" "length (bs_sid v) = 16" "length (bs_bridge_share v) = 32"
      "session_transcript dbl b v = Some tr" "length sg \<le> 256" "blc_verify_p256 env (br_sep b) tr sg"
    and e2: "blc_ecies_encrypt env (cm_pub m) (bs_bridge_share v) t2 = (Inr e2, t3)" "length e2 = 96"
    using handle_link_register_run [OF law b v0 ml(1-3) pub(1) pk] by blast
  have "\<exists>s'. bl_register env dbl s = (Inr (), s')
          \<and> wire s' = wire s @ json_cmd ''GET_PUBLIC_KEY'' @ json_cmd ''GET_ENCLAVE_PUBLIC_KEY'' @ req
          \<and> session_active (cl s') \<and> session_id (cl s') = bs_sid v
          \<and> bridge_session_key env v = Some (session_key (cl s'))
          \<and> pin_loaded (cl s') \<and> pin_pub65 (cl s') = br_sep b"
    if rdy: "ready s [key_text env (br_pub b), key_text env (br_sep b), resp]"
  proof -
    obtain s1 where s1: "register_begin s = (Inr (), s1)" "known_pin s1 = known_pin s"
        "pin_loaded (cl s1) \<longleftrightarrow> known_pin s \<noteq> None"
      and fr: "frame (upd_cl (\<lambda>c. c\<lparr>pin_loaded := pin_loaded (cl s1), pin_pub65 := pin_pub65 (cl s1)\<rparr>) s) s1"
      by (rule register_begin_run)
    note rd1 = register_begin_ready [OF s1(1)]
    have w1: "wire s1 = wire s" using s1(1) by (auto simp: register_begin_def bl_clear_bridge_error_def sbind_def serr_defs split: option.splits if_splits)
    have pin: "pin_loaded (cl s1) \<Longrightarrow> pin_pub65 (cl s1) = br_sep b"
      using start(2) s1(2,3) by (auto simp: known_pin_def split: if_splits)
    obtain s2 where s2: "register_identity env s1 = (Inr (br_pub b, br_sep b), s2)" "ready s2 [resp]" "same_rng s1 s2"
      using register_identity_run [OF b64 _ _ _ _ pin, of "br_pub b" "[resp]"] l h rdy rd1(1) key_text_pin by auto
    obtain s3 where s3: "register_material env dbl s2 = (Inr m, s3)" "same_rng sm s3"
      using register_material_same_rng [OF _ same_rng_trans [OF rd1(2) s2(3)] sm] l by blast
    note m3 = register_material_pub [OF s3(1)]
    obtain s4 where s4: "register_request env dbl (br_pub b) m s3 = (Inr req, s4)"
      using register_request_cong [OF _ s3(2), of env dbl "br_pub b" m] rq(1) l unfolding req_def by (metis fst_conv prod.collapse)
    have c34: "crypto_only s3 s4"
      using register_request_run [OF b64 _ _ _ _ _ bk _ ml(1), of s3 dbl] s3(2) pl s4 l h
      by (auto simp: register_plaintext_def same_rng_def)
    have r4: "ready s4 [resp]" using s2(2) ready_crypto_only [OF m3(3)] ready_crypto_only [OF c34] by blast
    have "length resp < 16384"
    proof -
      have "length (int_dec (br_now b)) \<le> 20" "length (int_dec (bs_ttl v)) \<le> 20"
        using h v(1) by (auto intro!: int_dec_length simp: reads_client_def)
      then show ?thesis
        unfolding resp resp_reg_pieces using evp_base64.enc_length [OF b64] v(2) e2(2) enc_bound [OF b64 v(5)] by simp
    qed
    have ne: "req \<noteq> []" by (simp add: req_def link_register_json_def)
    have "honest_text resp" using \<open>length resp < 16384\<close> unfolding resp using value_ok_enc [OF b64] by (intro resp_reg_honest)
    then obtain s5 where s5: "checked_request env req s4 = (Inr resp, s5)"
      using checked_request_run [OF r4 _ ne rq(2) [folded req_def]] l by blast
    obtain a s6 k s7 where s6: "register_response env m resp s5 = (Inr a, s6)" "register_verify env dbl (br_sep b) m resp a s6 = (Inr k, s7)"
        "ra_session_id a = bs_sid v" "bridge_session_key env v = Some k"
      using bridge_answer_accepted [OF law b v(1) pub(1) pk ml(1,2) v(2,3,5,4,6) e2(1) resp, of s5] by blast
    have reg: "bl_register env dbl s = register_commit (br_sep b) (bs_sid v) k s7"
      unfolding bl_register_stages [OF start(1) s1(1)]
      by (simp add: sbind_def s2(1) s3(1) s4 s5 s6(1-3))
    have "wire s7 = wire s @ json_cmd ''GET_PUBLIC_KEY'' @ json_cmd ''GET_ENCLAVE_PUBLIC_KEY'' @ req"
      using register_identity_wire [OF s2(1)] crypto_only_fields(5) [OF m3(3)] crypto_only_fields(5) [OF c34] checked_request_wire [OF s5]
        crypto_only_fields(5) [OF keeps_step [OF crypto_stages(1) s6(1)]] crypto_only_fields(5) [OF keeps_step [OF crypto_stages(2) s6(2)]] w1
      by simp
    moreover have "frame s1 s7"
      using frame_run [OF frame_requests(5) s2(1)] frame_run [OF frame_register(1) s3(1)]
        frame_run [OF frame_register(2) s4] frame_run [OF frame_requests(3) s5]
        frame_run [OF frame_register(3) s6(1)] frame_run [OF frame_register(4) s6(2)]
      by (meson transpD transp_frame)
    then have "pin_loaded (cl s7) \<Longrightarrow> pin_pub65 (cl s7) = br_sep b" using pin by (simp add: frame_def)
    ultimately show ?thesis using reg s6(4) by (auto simp: register_commit_def sbind_def serr_defs)
  qed
  with cr hd show ?thesis by blast
qed

text \<open>
C3: Registration with an honest bridge succeeds, and both sides then hold the same key. The bridge and the
client share nothing but what is written: from its own key pairs, a state of the libraries of its own, and
the octets of the request the client sends to it, the bridge (\<open>handle_link_register\<close>) reads the client's
nonce, share, ephemeral key, time and lifetime, and answers. It accepts the request. And when its three
answers arrive, the client has written the two key commands and that very request, its session carries the
identifier the bridge drew, its session key is the one the bridge derives from what it read and drew itself, and the
bridge's enclave key is the pin. The libraries behave as documented, the pin, if there is one, is the
bridge's key, the request fits its buffer, and the time of the request survives its six digits.
\<close>
theorem bl_register_honest:
  fixes s :: "('c, 'd) bl_st" and t :: blc_state
  assumes "libraries_ok env" "bridge_ok env b"
    and "\<not> session_active (cl s)" "known_pin s \<in> {None, Some (br_sep b)}"
    and "bd_text_ok dbl (bd_of_time dbl (clock s))" "client_texts_ok (cl s)"
    and "\<And>m. fst (register_material env dbl s) = Inr m \<Longrightarrow> length (register_plaintext env dbl (cl s) m) < 1024"
  shows "\<exists>req resp v t'. client_request env dbl (br_pub b) s = Some req
    \<and> handle_link_register env dbl b req t = (Inr (resp, v), t')
    \<and> (ready s [key_text env (br_pub b), key_text env (br_sep b), resp] \<longrightarrow>
        (\<exists>s'. bl_register env dbl s = (Inr (), s')
          \<and> wire s' = wire s @ json_cmd ''GET_PUBLIC_KEY'' @ json_cmd ''GET_ENCLAVE_PUBLIC_KEY'' @ req
          \<and> session_active (cl s') \<and> session_id (cl s') = bs_sid v
          \<and> bridge_session_key env v = Some (session_key (cl s'))
          \<and> pin_loaded (cl s') \<and> pin_pub65 (cl s') = br_sep b))"
  using honest_register_run [OF assms] .

subsection \<open>A concrete run\<close>

text \<open>
  The client of \<open>demo_st\<close> over the stand-in libraries: what it draws, and a bridge that answers it.
\<close>

definition demo_material :: "int client_material" where
  "demo_material = \<lparr>cm_nonce = replicate 16 0, cm_share = replicate 32 1, cm_priv = replicate 32 3,
     cm_pub = 0x04 # replicate 32 3 @ replicate 32 0, cm_issued = 7\<rparr>"

definition demo_bridge :: bridge where
  "demo_bridge = \<lparr>br_priv = replicate 32 0, br_pub = 0x04 # replicate 64 0, br_sep_priv = [7],
     br_sep = 0x04 # replicate 64 9, br_now = 8\<rparr>"

lemma demo_draws: "fst (register_material xor_env int_dbl (demo_st st ctx input)) = Inr demo_material"
  by (simp add: register_material_def blc_secp_random_priv_def blc_secp_pub_uncompressed_def sbind_def
      rand_bytes_def blc_secp_def malloc_def son_err_def sopt_def serr_defs demo_st_def xor_env_def
      demo_material_def int_dbl_def eval_nat_numeral)

lemma xor_env_ok: "libraries_ok xor_env"
proof -
  have "EVP_EncodeBlock xor_env = b64_enc" "EVP_DecodeBlock xor_env = b64_dec" "\<forall>i. malloc_ok xor_env i"
    by (simp_all add: xor_env_def)
  then show ?thesis
    unfolding libraries_ok_def using xor_env_laws rfc4648.evp_base64_axioms by metis
qed

lemma demo_bridge_ok: "bridge_ok xor_env demo_bridge"
proof -
  have "seckey_verify xor_env (br_priv demo_bridge)"
    "pubkey_create xor_env (br_priv demo_bridge) = Some (br_priv demo_bridge)"
    "serialize_uncompressed xor_env (br_priv demo_bridge) = Some (br_pub demo_bridge)"
    by (simp_all add: xor_env_def demo_bridge_def flip: replicate_add)
  moreover have "\<exists>sg. blc_sign_p256 xor_env (br_sep_priv demo_bridge) msg 256 = Some sg \<and> length sg \<le> 256
      \<and> blc_verify_p256 xor_env (br_sep demo_bridge) msg sg" for msg
    by (simp add: blc_sign_p256_def blc_verify_p256_def xor_env_def demo_bridge_def)
  ultimately show ?thesis
    unfolding bridge_ok_def by (auto simp: demo_bridge_def pin65_def)
qed

lemma demo_bd_text: "bd_text_ok int_dbl 7"
proof -
  have d: "fmt_f6 int_dbl 7 = int_dec 7" "\<And>p. strtod int_dbl p = (case strto_subject 10 p of None \<Rightarrow> None | Some _ \<Rightarrow> Some (fst (strtol 10 p)))"
    by (simp_all add: int_dbl_def)
  have "\<not> starts_with_digit 10 (CHR '','' # r)" for r
    by (simp add: starts_with_digit_def digit_in_def digit_val_def)
  then have "fst (strtol 10 (int_dec 7 @ CHR '','' # r)) = 7" "strto_subject 10 (int_dec 7 @ CHR '','' # r) \<noteq> None" for r
    using strtol_int_dec [of 7 "CHR '','' # r"] by (auto simp: strtol_def split: option.splits)
  moreover have "set (int_dec 7) \<inter> {DQUOTE, NUL} = {}" by code_simp
  ultimately have "\<exists>y. (case strto_subject 10 (int_dec 7 @ CHR '','' # r) of None \<Rightarrow> None
      | Some x \<Rightarrow> Some (fst (strtol 10 (int_dec 7 @ CHR '','' # r)))) = Some y \<and> bd_to_unix int_dbl y = bd_to_unix int_dbl 7" for r
    by (metis (no_types, lifting) option.case_eq_if)
  then show ?thesis using \<open>set (int_dec 7) \<inter> {DQUOTE, NUL} = {}\<close> unfolding bd_text_ok_def d int_dec_head_not_ws by blast
qed

lemma demo_plain_length:
  "length (register_plaintext xor_env int_dbl (demo_client st) demo_material) < 1024"
proof -
  have enc: "EVP_EncodeBlock xor_env = b64_enc" by (simp add: xor_env_def)
  have dec: "length (int_dec 7) = 1" "length (int_dec 3600) = 4" by code_simp+
  show ?thesis
    by (simp add: register_plaintext_def json_str_member_def quoted_def b64_text_def blc_b64encode_def
        enc rfc4648.enc_length demo_material_def demo_client_def int_dbl_def dec)
qed

definition demo_fstore :: "fs bl_pin_store" where
  "demo_fstore = \<lparr>ps_load = file_load ''p'', ps_save = file_save no_faults ''p'', ps_free = Some id,
     own_ctx = True\<rparr>"

definition demo_mstore :: "mem_ctx bl_pin_store" where
  "demo_mstore = \<lparr>ps_load = mem_load, ps_save = mem_save, ps_free = Some id, own_ctx = True\<rparr>"

text \<open>The bridge's answer to the request of the client, and the client that finds the answers on its socket.\<close>

definition demo_resp :: "'c bl_pin_store \<Rightarrow> 'c \<Rightarrow> string" where
  "demo_resp st ctx =
     (case client_request xor_env int_dbl (br_pub demo_bridge) (demo_st st ctx []) of
        None \<Rightarrow> []
      | Some req \<Rightarrow> (case fst (handle_link_register xor_env int_dbl demo_bridge req blc_start) of
          Inl _ \<Rightarrow> [] | Inr (resp, _) \<Rightarrow> resp))"

definition demo_texts :: "'c bl_pin_store \<Rightarrow> 'c \<Rightarrow> string list" where
  "demo_texts st ctx = [key_text xor_env (br_pub demo_bridge), key_text xor_env (br_sep demo_bridge), demo_resp st ctx]"

definition demo_start :: "'c bl_pin_store \<Rightarrow> 'c \<Rightarrow> ('c, int) bl_st" where
  "demo_start st ctx = (demo_st st ctx (concat (demo_texts st ctx)))\<lparr>wr_evs := map WrN [2048, 2048, 2048]\<rparr>"

lemma client_request_cong:
  assumes "libraries_ok env" "same_rng s t"
  shows "client_request env dbl p s = client_request env dbl p t"
proof -
  have mal: "\<forall>i. malloc_ok env i" using assms(1) by (simp add: libraries_ok_def)
  obtain m s1 where s1: "register_material env dbl s = (Inr m, s1)" using material_exists [OF assms(1)] by blast
  obtain t1 where t1: "register_material env dbl t = (Inr m, t1)" "same_rng s1 t1"
    using register_material_same_rng [OF mal assms(2) s1] by blast
  have "fst (register_request env dbl p m s1) = fst (register_request env dbl p m t1)"
    using register_request_cong [OF mal t1(2)] .
  then show ?thesis by (auto simp: client_request_def s1 t1(1) split: prod.split sum.split)
qed

lemma demo_same_rng: "same_rng (demo_st st ctx []) (demo_start st ctx)"
  by (simp add: same_rng_def demo_start_def demo_st_def)

lemma demo_start_facts:
  "\<not> session_active (cl (demo_start st ctx))" "known_pin (demo_start st ctx) = ps_load st ctx"
  "fst (register_material xor_env int_dbl (demo_start st ctx)) = Inr demo_material"
  "ready (demo_start st ctx) (demo_texts st ctx)"
  "length (register_plaintext xor_env int_dbl (cl (demo_start st ctx)) demo_material) < 1024"
  "bd_text_ok int_dbl (bd_of_time int_dbl (clock (demo_start st ctx)))"
  "client_texts_ok (cl (demo_start st ctx))"
proof -
  show "\<not> session_active (cl (demo_start st ctx))" "known_pin (demo_start st ctx) = ps_load st ctx"
    by (simp_all add: demo_start_def demo_st_def demo_client_def known_pin_def)
  have mal: "\<forall>i. malloc_ok xor_env i" using xor_env_ok by (simp add: libraries_ok_def)
  obtain sm where "register_material xor_env int_dbl (demo_st st ctx []) = (Inr demo_material, sm)"
    using demo_draws by (metis prod.collapse)
  from register_material_same_rng [OF mal demo_same_rng this]
  show "fst (register_material xor_env int_dbl (demo_start st ctx)) = Inr demo_material" by auto
  have "length [2048 :: nat, 2048, 2048] = length (demo_texts st ctx)" by (simp add: demo_texts_def)
  then show "ready (demo_start st ctx) (demo_texts st ctx)"
    unfolding ready_def
    by (intro conjI exI [of _ "[2048, 2048, 2048]"] exI [of _ "[]"])
       (simp_all add: demo_start_def demo_st_def connectable_def demo_client_def)
  show "length (register_plaintext xor_env int_dbl (cl (demo_start st ctx)) demo_material) < 1024"
    using demo_plain_length by (simp add: demo_start_def demo_st_def)
  show "bd_text_ok int_dbl (bd_of_time int_dbl (clock (demo_start st ctx)))"
    using demo_bd_text by (simp add: demo_start_def demo_st_def int_dbl_def)
  show "client_texts_ok (cl (demo_start st ctx))"
    by (simp add: client_texts_ok_def demo_start_def demo_st_def demo_client_def)
qed

lemma demo_plain_fits:
  "fst (register_material xor_env int_dbl (demo_start st ctx)) = Inr m
     \<Longrightarrow> length (register_plaintext xor_env int_dbl (cl (demo_start st ctx)) m) < 1024"
  using demo_start_facts(3,5) [of st ctx] by simp

lemma demo_resp_eq:
  assumes "client_request xor_env int_dbl (br_pub demo_bridge) (demo_start st ctx) = Some req"
    and "handle_link_register xor_env int_dbl demo_bridge req blc_start = (Inr (resp, v), t')"
  shows "[key_text xor_env (br_pub demo_bridge), key_text xor_env (br_sep demo_bridge), resp] = demo_texts st ctx"
  using assms client_request_cong [OF xor_env_ok demo_same_rng, of int_dbl "br_pub demo_bridge" st ctx]
  by (simp add: demo_texts_def demo_resp_def)

theorem bl_register_honest_witness:
  "\<exists>req resp v t' s'. client_request xor_env int_dbl (br_pub demo_bridge) (demo_start demo_fstore Map.empty) = Some req
    \<and> handle_link_register xor_env int_dbl demo_bridge req blc_start = (Inr (resp, v), t')
    \<and> bl_register xor_env int_dbl (demo_start demo_fstore Map.empty) = (Inr (), s')
    \<and> wire s' = json_cmd ''GET_PUBLIC_KEY'' @ json_cmd ''GET_ENCLAVE_PUBLIC_KEY'' @ req
    \<and> session_active (cl s') \<and> session_id (cl s') = bs_sid v
    \<and> bridge_session_key xor_env v = Some (session_key (cl s'))
    \<and> pin_loaded (cl s') \<and> pin_pub65 (cl s') = br_sep demo_bridge"
proof -
  have "known_pin (demo_start demo_fstore Map.empty :: (fs, int) bl_st) \<in> {None, Some (br_sep demo_bridge)}"
    by (simp add: demo_start_facts(2) demo_fstore_def file_load_def read_file_def)
  note h = bl_register_honest [OF xor_env_ok demo_bridge_ok demo_start_facts(1) this demo_start_facts(6,7) demo_plain_fits, of blc_start]
  have "wire (demo_start demo_fstore Map.empty :: (fs, int) bl_st) = []" by (simp add: demo_start_def demo_st_def)
  with h demo_resp_eq [of demo_fstore Map.empty] demo_start_facts(4) [of demo_fstore Map.empty] show ?thesis
    by (metis append_Nil)
qed

lemma demo_run:
  assumes "ps_load st ctx \<in> {None, Some (br_sep demo_bridge)}"
  shows "\<exists>s'. bl_register xor_env int_dbl (demo_start st ctx) = (Inr (), s')
    \<and> pin_pub65 (cl s') = br_sep demo_bridge"
proof -
  have "known_pin (demo_start st ctx) \<in> {None, Some (br_sep demo_bridge)}"
    using assms by (simp only: demo_start_facts(2))
  from honest_register_run [OF xor_env_ok demo_bridge_ok demo_start_facts(1) this demo_start_facts(6,7) demo_plain_fits, of blc_start]
  show ?thesis using demo_resp_eq [of st ctx] demo_start_facts(4) [of st ctx] by metis
qed

theorem bl_register_authenticated_witness:
  "\<exists>s'. bl_register xor_env int_dbl (demo_start demo_fstore Map.empty) = (Inr (), s')
   \<and> (\<exists>sep m a t sg i j.
      known_pin (demo_start demo_fstore Map.empty :: (fs, int) bl_st) \<in> {None, Some sep} \<and> pin65 sep
      \<and> RAND_bytes xor_env i 16 = Some (cm_nonce m) \<and> RAND_bytes xor_env j 32 = Some (cm_share m)
      \<and> transcript_of int_dbl m a = Some t \<and> blc_verify_p256 xor_env sep t sg
      \<and> session_active (cl s') \<and> session_id (cl s') = ra_session_id a
      \<and> length (session_id (cl s')) = 16
      \<and> session_key_of xor_env m a = Some (session_key (cl s'))
      \<and> pin_loaded (cl s') \<and> pin_pub65 (cl s') = sep
      \<and> pin_ctx s' = (if known_pin (demo_start demo_fstore Map.empty) = None
          then snd (ps_save (the_pin_store (cl (demo_start demo_fstore Map.empty))) sep
                 (pin_ctx (demo_start demo_fstore Map.empty)))
          else pin_ctx (demo_start demo_fstore Map.empty)))"
proof -
  have "ps_load demo_fstore Map.empty = None" by (simp add: demo_fstore_def file_load_def read_file_def)
  then obtain s' where s': "bl_register xor_env int_dbl (demo_start demo_fstore Map.empty) = (Inr (), s')"
    using demo_run [of demo_fstore Map.empty] by auto
  show ?thesis using s' bl_register_authenticated [OF demo_start_facts(1) s'] by blast
qed

text \<open>A client that knows another key than the bridge shows.\<close>

definition demo_pin :: bytes where
  "demo_pin = 0x04 # replicate 64 5"

definition demo_pinned :: "(mem_ctx, int) bl_st" where
  "demo_pinned = demo_start demo_mstore \<lparr>pinned = True, mem_pub65 = demo_pin\<rparr>"

lemma demo_pinned_facts:
  "known_pin demo_pinned = Some demo_pin" "br_sep demo_bridge \<noteq> demo_pin"
  by (simp_all add: demo_pinned_def demo_start_facts(2) demo_mstore_def mem_load_def demo_pin_def demo_bridge_def)

lemma demo_pinned_identity:
  "\<exists>s2 s3. fetch_pubkey xor_env (json_cmd ''GET_PUBLIC_KEY'') (snd (register_begin demo_pinned))
       = (Inr (br_pub demo_bridge), s2)
     \<and> fetch_pubkey xor_env (json_cmd ''GET_ENCLAVE_PUBLIC_KEY'') s2 = (Inr (br_sep demo_bridge), s3)"
proof -
  let ?texts = "demo_texts demo_mstore \<lparr>pinned = True, mem_pub65 = demo_pin\<rparr>"
  note law = xor_env_ok [unfolded libraries_ok_def]
  obtain s1 where s1: "register_begin demo_pinned = (Inr (), s1)" by (rule register_begin_run)
  have pins: "pin65 (br_pub demo_bridge)" "pin65 (br_sep demo_bridge)"
    using demo_bridge_ok by (simp_all add: bridge_ok_def)
  have "ready s1 ?texts"
    using register_begin_ready(1) [OF s1] demo_start_facts(4) by (simp add: demo_pinned_def)
  then obtain s2 where s2: "fetch_pubkey xor_env (json_cmd ''GET_PUBLIC_KEY'') s1 = (Inr (br_pub demo_bridge), s2)"
      "ready s2 (tl ?texts)"
    using fetch_pubkey_run [of xor_env s1 "br_pub demo_bridge" "tl ?texts"
        "json_cmd ''GET_PUBLIC_KEY''"] law pins json_cmd_short by (auto simp: demo_texts_def key_text_pin)
  obtain s3 where "fetch_pubkey xor_env (json_cmd ''GET_ENCLAVE_PUBLIC_KEY'') s2 = (Inr (br_sep demo_bridge), s3)"
    using fetch_pubkey_run [of xor_env s2 "br_sep demo_bridge" "tl (tl ?texts)"
        "json_cmd ''GET_ENCLAVE_PUBLIC_KEY''"] law pins s2(2) json_cmd_short by (auto simp: demo_texts_def key_text_pin)
  with s1 s2(1) show ?thesis by auto
qed

theorem bl_register_pin_mismatch_witness:
  "\<exists>s'. bl_register xor_env int_dbl demo_pinned = (Inl BL_ERR_PIN_MISMATCH, s')"
proof -
  obtain s2 s3 where s: "fetch_pubkey xor_env (json_cmd ''GET_PUBLIC_KEY'') (snd (register_begin demo_pinned))
      = (Inr (br_pub demo_bridge), s2)"
    "fetch_pubkey xor_env (json_cmd ''GET_ENCLAVE_PUBLIC_KEY'') s2 = (Inr (br_sep demo_bridge), s3)"
    using demo_pinned_identity by blast
  have "\<not> session_active (cl demo_pinned)" by (simp add: demo_pinned_def demo_start_facts(1))
  from bl_register_pin_mismatch [OF this demo_pinned_facts(1) s demo_pinned_facts(2)] show ?thesis by blast
qed

text \<open>A client whose bridge is not there.\<close>

theorem bl_register_failure_safe_witness:
  "\<exists>e s'. bl_register xor_env int_dbl (demo_pinned\<lparr>conn_evs := []\<rparr>) = (Inl e, s')
   \<and> \<not> session_active (cl s') \<and> session_id (cl s') = session_id (cl (demo_pinned\<lparr>conn_evs := []\<rparr>))
   \<and> session_key (cl s') = session_key (cl (demo_pinned\<lparr>conn_evs := []\<rparr>))
   \<and> pin_ctx s' = pin_ctx (demo_pinned\<lparr>conn_evs := []\<rparr>)
   \<and> known_pin s' = known_pin (demo_pinned\<lparr>conn_evs := []\<rparr>)"
proof -
  have "\<exists>s'. bl_register xor_env int_dbl (demo_pinned\<lparr>conn_evs := []\<rparr>) = (Inl BL_ERR_TRANSPORT, s')"
    by (simp add: bl_register_def register_begin_def bl_clear_bridge_error_def register_identity_def
        fetch_pubkey_def checked_request_def bl_send_request_def bl_connect_def sbind_def serr_defs
        demo_pinned_def demo_start_def demo_st_def demo_client_def split: option.split)
  then obtain s' where s': "bl_register xor_env int_dbl (demo_pinned\<lparr>conn_evs := []\<rparr>) = (Inl BL_ERR_TRANSPORT, s')"
    by blast
  show ?thesis using s' bl_register_failure_safe [OF s'] by blast
qed

text \<open>A position asked over a session.\<close>

definition geo_answer :: string where
  "geo_answer = qjoin [''{'', ''ok'', '':true,'', ''lat'', '':1,'', ''lon'', '':2}'']"

lemma geo_answer_honest: "honest_text geo_answer"
proof -
  have "json_text (qjoin [[], ''ok'', '':true,'', ''lat'', '':1,'', ''lon'', '':2''])"
    by (intro json_text_qjoin) simp
  moreover have "geo_answer = CHR ''{'' # qjoin [[], ''ok'', '':true,'', ''lat'', '':1,'', ''lon'', '':2''] @ [CHR ''}'']"
    by (simp add: geo_answer_def)
  moreover have "NUL \<notin> set geo_answer" "strstr geo_answer error_key = None" by code_simp+
  moreover have "length geo_answer < 16384" by (simp add: geo_answer_def)
  ultimately show ?thesis unfolding honest_text_def by blast
qed

definition demo_session :: "(mem_ctx, int) bl_st" where
  "demo_session = (upd_cl (\<lambda>c. c\<lparr>session_active := True, session_key := replicate 32 1, fd_open := True\<rparr>)
     demo_pinned)\<lparr>wr_evs := [WrN 2048], rd_evs := map RdByte geo_answer\<rparr>"

lemma demo_session_ready: "ready (upd_cl (\<lambda>c. c\<lparr>last_bridge_error := None\<rparr>) demo_session) [geo_answer]"
  unfolding ready_def
  by (intro conjI exI [of _ "[2048]"] exI [of _ "[]"])
     (simp_all add: demo_session_def connectable_def)

lemma demo_session_answer:
  "\<exists>s1. bl_send_request xor_env (geo_request_json BL_GEO_FORMAT_WGS84)
      (upd_cl (\<lambda>c. c\<lparr>last_bridge_error := None\<rparr>) demo_session) = (Inr geo_answer, s1)"
  using bl_send_request_run [OF demo_session_ready geo_answer_honest, of "geo_request_json BL_GEO_FORMAT_WGS84" xor_env]
    xor_env_ok by (auto simp: geo_request_json_def json_str_member_def quoted_def libraries_ok_def)

theorem bl_geo_get_ok_witness:
  "\<exists>s' buf. bl_geo_get xor_env int_dbl BL_GEO_FORMAT_WGS84 demo_session = (Inr (), s' :: (mem_ctx, int) bl_st)
     \<and> session_active (cl s')
     \<and> wire s' = wire demo_session @ geo_request_json BL_GEO_FORMAT_WGS84
     \<and> read_until_brace 16384 (map RdByte geo_answer) = (Framed buf, rd_evs s')
     \<and> geo_out s' = Some (geo_parse int_dbl (takeWhile (\<lambda>c. c \<noteq> NUL) buf))
     \<and> strstr (takeWhile (\<lambda>c. c \<noteq> NUL) buf) ok_true \<noteq> None
     \<and> session_key (cl s') = session_key (cl demo_session)"
proof -
  obtain s1 where s1: "bl_send_request xor_env (geo_request_json BL_GEO_FORMAT_WGS84)
      (upd_cl (\<lambda>c. c\<lparr>last_bridge_error := None\<rparr>) demo_session) = (Inr geo_answer, s1)"
    using demo_session_answer by blast
  have a: "strstr geo_answer error_key = None" "strstr geo_answer ok_true \<noteq> None"
      "have_wgs84 (geo_parse int_dbl geo_answer)" by code_simp+
  have act: "session_active (cl demo_session)" by (simp add: demo_session_def)
  have run: "bl_geo_get xor_env int_dbl BL_GEO_FORMAT_WGS84 demo_session
      = (Inr (), s1\<lparr>geo_out := Some (geo_parse int_dbl geo_answer)\<rparr>)"
    unfolding bl_geo_get_def sbind_run [OF bl_clear_run] using act s1 a
    by (simp add: sbind_def capture_bridge_error_def Let_def serr_defs geo_request_json_def
        json_str_member_def quoted_def)
  have "rd_evs (upd_cl (\<lambda>c. c\<lparr>last_bridge_error := None\<rparr>) demo_session) = map RdByte geo_answer"
    "wire (upd_cl (\<lambda>c. c\<lparr>last_bridge_error := None\<rparr>) demo_session) = wire demo_session"
    by (simp_all add: demo_session_def)
  with bl_geo_get_ok [OF run] act run show ?thesis by auto
qed

end
