(* ===== verification/Brightspace.thy ===== *)
theory Brightspace
  imports C_Prelude
begin

text \<open>
  \<open>brightspace.h\<close>: the coordinate types, unit conversions, distance formulas and the text helpers
  shared by the b* tools. The formulas are modelled over the real numbers: the theorems say what
  the formulas mean, not how \<open>double\<close> rounds them, and \<open>M_PI\<close> is \<open>pi\<close>. The text helpers are
  parametric in the \<open>scanf\<close> conversions they use; the answer of the web service is an argument.
\<close>

subsection \<open>Types and units\<close>

record 'd bs_ecef =
  ecef_x :: 'd
  ecef_y :: 'd
  ecef_z :: 'd

record 'd bs_geo =
  geo_lat :: 'd
  geo_lon :: 'd
  geo_valid :: bool
  geo_city :: string
  geo_country :: string
  geo_tag :: string

definition BS_MS_PER_MILLIDAY :: real where "BS_MS_PER_MILLIDAY = 86400"
definition BS_KM_PER_MBM :: real where "BS_KM_PER_MBM = 299.792"
definition BS_EARTH_RADIUS_KM :: real where "BS_EARTH_RADIUS_KM = 6371"

definition bs_to_md :: "real \<Rightarrow> real" where "bs_to_md ms = ms / BS_MS_PER_MILLIDAY"
definition bs_km_to_mbm :: "real \<Rightarrow> real" where "bs_km_to_mbm km = km / BS_KM_PER_MBM"
definition bs_mbm_to_km :: "real \<Rightarrow> real" where "bs_mbm_to_km mbm = mbm * BS_KM_PER_MBM"

subsection \<open>Coordinates\<close>

text \<open>
  \<open>scan3\<close> and \<open>scan2\<close> are \<open>sscanf\<close> with the formats \<open>%lf,%lf,%lf\<close> and \<open>%lf,%lf\<close>: the list of
  the fields converted. Fields that were converted are stored even when the call fails.
\<close>

definition bs_parse_ecef :: "(string \<Rightarrow> 'd list) \<Rightarrow> string \<Rightarrow> 'd bs_ecef \<Rightarrow> bool \<times> 'd bs_ecef" where
  "bs_parse_ecef scan3 s e =
     (case scan3 s of
        [] \<Rightarrow> (False, e)
      | [x] \<Rightarrow> (False, e\<lparr>ecef_x := x\<rparr>)
      | [x, y] \<Rightarrow> (False, e\<lparr>ecef_x := x, ecef_y := y\<rparr>)
      | x # y # z # _ \<Rightarrow> (True, e\<lparr>ecef_x := x, ecef_y := y, ecef_z := z\<rparr>))"

definition bs_parse_latlon :: "(string \<Rightarrow> 'd list) \<Rightarrow> string \<Rightarrow> ('d \<times> 'd) option" where
  "bs_parse_latlon scan2 s = (case scan2 s of x # y # _ \<Rightarrow> Some (x, y) | _ \<Rightarrow> None)"

definition atan2 :: "real \<Rightarrow> real \<Rightarrow> real" where
  "atan2 y x = Arg (Complex x y)"

definition bs_ecef_to_geo :: "real bs_ecef \<Rightarrow> real bs_geo \<Rightarrow> string option \<Rightarrow> real bs_geo" where
  "bs_ecef_to_geo e g tag =
     (let bm = sqrt (ecef_x e * ecef_x e + ecef_y e * ecef_y e + ecef_z e * ecef_z e)
      in if bm \<le> 0 then g
         else g\<lparr>geo_lat := arcsin (ecef_z e / bm) * 180 / pi,
                geo_lon := atan2 (ecef_y e) (ecef_x e) * 180 / pi,
                geo_valid := True,
                geo_tag := snprintf_buf 24 (case tag of None \<Rightarrow> ''[ecef]'' | Some t \<Rightarrow> t)\<rparr>)"

definition R_BM :: real where
  "R_BM = BS_EARTH_RADIUS_KM / (BS_KM_PER_MBM * 1000)"

definition bs_latlon_to_ecef :: "real \<Rightarrow> real \<Rightarrow> real bs_ecef" where
  "bs_latlon_to_ecef lat lon =
     (let lat_r = lat * pi / 180; lon_r = lon * pi / 180
      in \<lparr>ecef_x = R_BM * cos lat_r * cos lon_r, ecef_y = R_BM * cos lat_r * sin lon_r,
          ecef_z = R_BM * sin lat_r\<rparr>)"

text \<open>\<open>fmt5\<close> is the \<open>%.5f\<close> conversion.\<close>

definition bs_geo_ecef_str :: "(real \<Rightarrow> string) \<Rightarrow> real bs_geo \<Rightarrow> nat \<Rightarrow> string" where
  "bs_geo_ecef_str fmt5 g n =
     (if \<not> geo_valid g then snprintf_buf n ''?''
      else let e = bs_latlon_to_ecef (geo_lat g) (geo_lon g)
           in snprintf_buf n (fmt5 (ecef_x e) @ '', '' @ fmt5 (ecef_y e) @ '', '' @ fmt5 (ecef_z e) @ '' BM''))"

subsection \<open>Distances\<close>

definition bs_ecef_chord_mbm :: "real bs_ecef \<Rightarrow> real bs_ecef \<Rightarrow> real" where
  "bs_ecef_chord_mbm a b =
     (let dx = ecef_x a - ecef_x b; dy = ecef_y a - ecef_y b; dz = ecef_z a - ecef_z b
      in sqrt (dx * dx + dy * dy + dz * dz) * 1000)"

definition hav_a :: "real \<Rightarrow> real \<Rightarrow> real \<Rightarrow> real \<Rightarrow> real" where
  "hav_a la1 lo1 la2 lo2 =
     (let toR = pi / 180; dlat = (la2 - la1) * toR; dlon = (lo2 - lo1) * toR
      in sin (dlat / 2) * sin (dlat / 2)
         + cos (la1 * toR) * cos (la2 * toR) * sin (dlon / 2) * sin (dlon / 2))"

definition bs_haversine_km :: "real \<Rightarrow> real \<Rightarrow> real \<Rightarrow> real \<Rightarrow> real" where
  "bs_haversine_km la1 lo1 la2 lo2 =
     (let a = hav_a la1 lo1 la2 lo2
      in BS_EARTH_RADIUS_KM * 2 * atan2 (sqrt a) (sqrt (1 - a)))"

subsection \<open>Geolocation by address\<close>

definition geo_zero :: "'d \<Rightarrow> 'd bs_geo" where
  "geo_zero z = \<lparr>geo_lat = z, geo_lon = z, geo_valid = False, geo_city = [], geo_country = [],
     geo_tag = []\<rparr>"

definition geo_command :: "string option \<Rightarrow> string" where
  "geo_command ip =
     snprintf_buf 256 (''curl -s --max-time 3 '' @ [CHR 0x27] @ ''http://ip-api.com/json/''
       @ (case ip of None \<Rightarrow> [] | Some s \<Rightarrow> s) @ ''?fields=status,city,country,lat,lon'' @ [CHR 0x27])"

text \<open>A quoted text field: what stands between \<open>key\<close> and the next quote, cut to the array.\<close>

definition geo_text :: "string \<Rightarrow> string \<Rightarrow> string \<Rightarrow> string" where
  "geo_text buf key old =
     (case strstr buf key of
        None \<Rightarrow> old
      | Some p \<Rightarrow>
          (let q = drop (length key) p
           in case strchr q (CHR 0x22) of
                None \<Rightarrow> old
              | Some e \<Rightarrow> take (min (length q - length e) 63) q))"

definition json_colon :: "string \<Rightarrow> string" where
  "json_colon k = CHR 0x22 # k @ [CHR 0x22, CHR '':'']"

text \<open>\<open>run\<close> gives the first line the command prints, up to 510 characters, or \<open>None\<close> where
  \<open>popen\<close> fails; \<open>strtod0\<close> is \<open>strtod\<close> with a null end pointer.\<close>

definition bs_geolocate ::
  "'d \<Rightarrow> (string \<Rightarrow> 'd) \<Rightarrow> (string \<Rightarrow> string option) \<Rightarrow> string option \<Rightarrow> 'd bs_geo" where
  "bs_geolocate zero strtod0 run ip =
     (let g = (geo_zero zero)\<lparr>geo_tag := snprintf_buf 24 ''[~geoIP]''\<rparr>
      in case run (geo_command ip) of
           None \<Rightarrow> g
         | Some line \<Rightarrow>
             (let buf = take 510 line
              in if strstr buf (CHR 0x22 # ''success'' @ [CHR 0x22]) = None then g
                 else let g1 = (case strstr buf (json_colon ''lat'') of None \<Rightarrow> g
                                | Some p \<Rightarrow> g\<lparr>geo_lat := strtod0 (drop 6 p)\<rparr>);
                          g2 = (case strstr buf (json_colon ''lon'') of None \<Rightarrow> g1
                                | Some p \<Rightarrow> g1\<lparr>geo_lon := strtod0 (drop 6 p)\<rparr>)
                 in g2\<lparr>geo_city := geo_text buf (json_colon ''city'' @ [CHR 0x22]) (geo_city g2),
                       geo_country := geo_text buf (json_colon ''country'' @ [CHR 0x22]) (geo_country g2),
                       geo_valid := True\<rparr>))"

subsection \<open>Traceroute lines\<close>

text \<open>
  \<open>scan\<close> is \<open>sscanf\<close> with the format \<open> %lf %7s%n\<close>: value, unit and the number of characters
  consumed where both fields were converted, which is then at least two.
\<close>

type_synonym 'd scan_ms = "string \<Rightarrow> ('d \<times> string \<times> nat) option"

definition ms_token :: "'d scan_ms \<Rightarrow> string \<Rightarrow> ('d \<times> nat) option" where
  "ms_token scan p =
     (case scan p of
        None \<Rightarrow> None
      | Some (v, u, n) \<Rightarrow> if u = ''ms'' then Some (v, n) else None)"

function avg_rtt_loop :: "real scan_ms \<Rightarrow> real \<Rightarrow> nat \<Rightarrow> string \<Rightarrow> real \<times> nat" where
  "avg_rtt_loop scan sm cnt [] = (sm, cnt)"
| "avg_rtt_loop scan sm cnt (c # p) =
     (case ms_token scan (c # p) of
        Some (v, n) \<Rightarrow> avg_rtt_loop scan (sm + v) (cnt + 1) (drop (n - 1) p)
      | None \<Rightarrow> avg_rtt_loop scan sm cnt p)"
  by pat_completeness auto
termination by (relation "measure (\<lambda>(_, _, _, p). length p)") auto

definition bs_line_avg_rtt :: "real scan_ms \<Rightarrow> string \<Rightarrow> real" where
  "bs_line_avg_rtt scan line =
     (let (sm, cnt) = avg_rtt_loop scan 0 0 line
      in if cnt > 0 then sm / real cnt else - 1)"

function rtts_loop :: "'d scan_ms \<Rightarrow> nat \<Rightarrow> 'd list \<Rightarrow> string \<Rightarrow> 'd list" where
  "rtts_loop scan max_samples out [] = out"
| "rtts_loop scan max_samples out (c # p) =
     (if \<not> length out < max_samples then out
      else case ms_token scan (c # p) of
        Some (v, n) \<Rightarrow> rtts_loop scan max_samples (out @ [v]) (drop (n - 1) p)
      | None \<Rightarrow> rtts_loop scan max_samples out p)"
  by pat_completeness auto
termination by (relation "measure (\<lambda>(_, _, _, p). length p)") auto

definition bs_line_rtts :: "'d scan_ms \<Rightarrow> string \<Rightarrow> nat \<Rightarrow> 'd list" where
  "bs_line_rtts scan line max_samples = rtts_loop scan max_samples [] line"

text \<open>The text before the first \<open>ms\<close> token that starts at a space.\<close>

fun hop_text :: "'d scan_ms \<Rightarrow> string \<Rightarrow> string" where
  "hop_text scan [] = []"
| "hop_text scan (c # p) =
     (if c = CHR '' '' \<and> ms_token scan (c # p) \<noteq> None then [] else c # hop_text scan p)"

definition rstrip :: "string \<Rightarrow> string" where
  "rstrip s = rev (dropWhile (\<lambda>c. c = CHR '' '') (rev s))"

definition bs_hop_host :: "'d scan_ms \<Rightarrow> string \<Rightarrow> nat \<Rightarrow> string" where
  "bs_hop_host scan line outsz =
     (let p = dropWhile (\<lambda>c. c = CHR '' '')
                (dropWhile (\<lambda>c. c \<noteq> CHR '' '') (dropWhile (\<lambda>c. c = CHR '' '') line))
      in if hd_nul p = CHR ''*'' then snprintf_buf outsz ''* * *''
         else let start = hop_text scan p
              in if start = [] then snprintf_buf outsz ''?''
                 else rstrip (if length start \<ge> outsz then take (outsz - 1) start else start))"

definition bs_hop_ip :: "string \<Rightarrow> nat \<Rightarrow> string" where
  "bs_hop_ip host ip_outsz =
     (if host = ''* * *'' \<or> host = ''?'' then []
      else case strchr host (CHR ''('') of
             None \<Rightarrow> snprintf_buf ip_outsz host
           | Some lp \<Rightarrow>
               (case strchr (tl lp) (CHR '')'') of
                  None \<Rightarrow> snprintf_buf ip_outsz host
                | Some rp \<Rightarrow>
                    (let il = length (tl lp) - length rp
                     in if il > 0 \<and> il < ip_outsz then take il (tl lp)
                        else snprintf_buf ip_outsz host)))"

definition bs_geo_label :: "'d bs_geo option \<Rightarrow> nat \<Rightarrow> string" where
  "bs_geo_label og outsz =
     (case og of
        None \<Rightarrow> []
      | Some g \<Rightarrow>
          if \<not> geo_valid g then []
          else if geo_city g \<noteq> [] \<and> geo_country g \<noteq> []
            then snprintf_buf outsz (geo_city g @ '', '' @ geo_country g)
          else if geo_city g \<noteq> [] then snprintf_buf outsz (geo_city g)
          else if geo_country g \<noteq> [] then snprintf_buf outsz (geo_country g)
          else [])"

subsection \<open>Lemmas on the formulas\<close>

lemma const_pos [simp]: "0 < BS_KM_PER_MBM" "0 < BS_EARTH_RADIUS_KM" "0 < R_BM"
  by (simp_all add: BS_KM_PER_MBM_def BS_EARTH_RADIUS_KM_def R_BM_def)

lemma R_BM_nonzero [simp]: "R_BM \<noteq> 0" "\<not> R_BM \<le> 0"
  using const_pos(3) by linarith+

lemma atan2_polar: "0 < r \<Longrightarrow> - pi < t \<Longrightarrow> t \<le> pi \<Longrightarrow> atan2 (r * sin t) (r * cos t) = t"
proof -
  assume r: "0 < r" and t: "- pi < t" "t \<le> pi"
  have "Complex (r * cos t) (r * sin t) = complex_of_real r * cis t"
    by (simp add: complex_eq_iff)
  moreover have "sgn (complex_of_real r * cis t) = cis t"
    using r by (simp add: sgn_mult sgn_of_real)
  ultimately show ?thesis
    unfolding atan2_def using t by (intro cis_Arg_unique) simp_all
qed

lemma sphere_norm:
  "(r * cos p * cos l) * (r * cos p * cos l) + (r * cos p * sin l) * (r * cos p * sin l)
    + (r * sin p) * (r * sin p) = r * (r :: real)"
  using sin_cos_squared_add3 [of l] sin_cos_squared_add3 [of p] by algebra

lemma chord_square:
  "(cos p * cos l - cos q * cos m)\<^sup>2 + (cos p * sin l - cos q * sin m)\<^sup>2 + (sin p - sin q)\<^sup>2
   = 2 - 2 * (cos p * cos q * cos (l - m) + sin p * sin (q :: real))"
  unfolding cos_diff
  using sin_cos_squared_add3 [of l] sin_cos_squared_add3 [of p] sin_cos_squared_add3 [of q]
    sin_cos_squared_add3 [of m]
  by algebra

lemma half_sin: "sin (x / 2) * sin (x / 2) = (1 - cos (x :: real)) / 2"
  using cos_double_sin [of "x / 2"] by (simp add: power2_eq_square)

lemma hav_a_cos:
  "hav_a la1 lo1 la2 lo2 =
     (1 - (cos (la1 * pi / 180) * cos (la2 * pi / 180) * cos (lo1 * pi / 180 - lo2 * pi / 180)
           + sin (la1 * pi / 180) * sin (la2 * pi / 180))) / 2"
proof -
  define p q l m where pq: "p = la1 * pi / 180" "q = la2 * pi / 180" "l = lo1 * pi / 180" "m = lo2 * pi / 180"
  have "hav_a la1 lo1 la2 lo2
      = sin ((q - p) / 2) * sin ((q - p) / 2) + cos p * cos q * (sin ((m - l) / 2) * sin ((m - l) / 2))"
    by (simp add: hav_a_def pq algebra_simps Let_def)
  also have "\<dots> = (1 - cos (q - p)) / 2 + cos p * cos q * ((1 - cos (m - l)) / 2)"
    by (simp only: half_sin)
  also have "\<dots> = (1 - (cos p * cos q * cos (l - m) + sin p * sin q)) / 2"
    by (simp add: cos_diff field_simps)
  finally show ?thesis by (simp add: pq)
qed

lemma hav_a_range: "0 \<le> hav_a la1 lo1 la2 lo2" "hav_a la1 lo1 la2 lo2 \<le> 1"
proof -
  define p q l m where pq: "p = la1 * pi / 180" "q = la2 * pi / 180" "l = lo1 * pi / 180" "m = lo2 * pi / 180"
  define z where "z = cos p * cos q * cos (l - m) + sin p * sin q"
  have "0 \<le> 2 - 2 * z"
    unfolding z_def chord_square [of p l q m, symmetric] by simp
  moreover have "0 \<le> 2 + 2 * z"
  proof -
    have "0 \<le> (cos p * cos l + cos q * cos m)\<^sup>2 + (cos p * sin l + cos q * sin m)\<^sup>2 + (sin p + sin q)\<^sup>2"
      by simp
    also have "\<dots> = 2 + 2 * z"
      unfolding z_def cos_diff
      using sin_cos_squared_add3 [of l] sin_cos_squared_add3 [of p] sin_cos_squared_add3 [of q]
        sin_cos_squared_add3 [of m]
      by algebra
    finally show ?thesis .
  qed
  moreover have "hav_a la1 lo1 la2 lo2 = (1 - z) / 2"
    by (simp add: hav_a_cos pq z_def)
  ultimately show "0 \<le> hav_a la1 lo1 la2 lo2" "hav_a la1 lo1 la2 lo2 \<le> 1" by auto
qed

lemma atan2_sqrt:
  assumes "0 \<le> a" "a \<le> 1"
  shows "sin (atan2 (sqrt a) (sqrt (1 - a))) = sqrt a" "0 \<le> atan2 (sqrt a) (sqrt (1 - a))"
    "atan2 (sqrt a) (sqrt (1 - a)) \<le> pi / 2"
proof -
  define z where "z = Complex (sqrt (1 - a)) (sqrt a)"
  have n: "norm z = 1" using assms by (simp add: z_def complex_norm)
  then have nz: "z \<noteq> 0" by auto
  have t: "atan2 (sqrt a) (sqrt (1 - a)) = Arg z" by (simp add: atan2_def z_def)
  have s: "sin (Arg z) = sqrt a" and c: "cos (Arg z) = sqrt (1 - a)"
    using sin_Arg [OF nz] cos_Arg [OF nz] n by (simp_all add: z_def)
  then show "sin (atan2 (sqrt a) (sqrt (1 - a))) = sqrt a" by (simp add: t)
  have b: "- pi < Arg z" "Arg z \<le> pi" using Arg_bounded by auto
  have "0 \<le> sin (Arg z)" "0 \<le> cos (Arg z)" using s c assms by simp_all
  show "0 \<le> atan2 (sqrt a) (sqrt (1 - a))"
  proof (rule ccontr)
    assume "\<not> ?thesis"
    with b t have "sin (Arg z) < 0" using sin_lt_zero [of "Arg z + 2 * pi"] by (simp add: t)
    with \<open>0 \<le> sin (Arg z)\<close> show False by simp
  qed
  show "atan2 (sqrt a) (sqrt (1 - a)) \<le> pi / 2"
  proof (rule ccontr)
    assume "\<not> ?thesis"
    then have "pi / 2 < Arg z" by (simp add: t)
    with b have "cos (Arg z) < cos (pi / 2)" by (intro cos_monotone_0_pi) auto
    with \<open>0 \<le> cos (Arg z)\<close> show False by simp
  qed
qed

subsection \<open>Properties of the geometry\<close>

lemma chord_haversine:
  "bs_ecef_chord_mbm (bs_latlon_to_ecef la1 lo1) (bs_latlon_to_ecef la2 lo2)
   = 2 * bs_km_to_mbm BS_EARTH_RADIUS_KM
     * sin (bs_haversine_km la1 lo1 la2 lo2 / (2 * BS_EARTH_RADIUS_KM))"
proof -
  define p q l m where pq: "p = la1 * pi / 180" "q = la2 * pi / 180" "l = lo1 * pi / 180" "m = lo2 * pi / 180"
  define a where "a = hav_a la1 lo1 la2 lo2"
  have a: "0 \<le> a" "a \<le> 1" using hav_a_range by (simp_all add: a_def)
  have "(R_BM * cos p * cos l - R_BM * cos q * cos m) * (R_BM * cos p * cos l - R_BM * cos q * cos m)
      + (R_BM * cos p * sin l - R_BM * cos q * sin m) * (R_BM * cos p * sin l - R_BM * cos q * sin m)
      + (R_BM * sin p - R_BM * sin q) * (R_BM * sin p - R_BM * sin q)
      = R_BM\<^sup>2 * ((cos p * cos l - cos q * cos m)\<^sup>2 + (cos p * sin l - cos q * sin m)\<^sup>2 + (sin p - sin q)\<^sup>2)"
    by algebra
  also have "\<dots> = (2 * R_BM)\<^sup>2 * a"
    by (simp only: chord_square a_def hav_a_cos pq) (simp add: power2_eq_square algebra_simps)
  finally have "bs_ecef_chord_mbm (bs_latlon_to_ecef la1 lo1) (bs_latlon_to_ecef la2 lo2)
      = 2 * R_BM * sqrt a * 1000"
    by (simp add: bs_ecef_chord_mbm_def bs_latlon_to_ecef_def Let_def pq real_sqrt_mult abs_of_pos [OF const_pos(3)])
  moreover have "sin (bs_haversine_km la1 lo1 la2 lo2 / (2 * BS_EARTH_RADIUS_KM)) = sqrt a"
    using atan2_sqrt(1) [OF a] const_pos(2)
    by (simp add: bs_haversine_km_def a_def Let_def BS_EARTH_RADIUS_KM_def)
  moreover have "2 * R_BM * 1000 = 2 * bs_km_to_mbm BS_EARTH_RADIUS_KM"
    by (simp add: R_BM_def bs_km_to_mbm_def)
  ultimately show ?thesis by (simp add: algebra_simps)
qed

text \<open>
The two distance formulas describe the same sphere: the straight chord between the Cartesian
positions of two places is the chord of the great-circle arc the haversine formula measures.
\<close>
lemma bs_chord_haversine:
  "bs_ecef_chord_mbm (bs_latlon_to_ecef la1 lo1) (bs_latlon_to_ecef la2 lo2)
   = 2 * bs_km_to_mbm BS_EARTH_RADIUS_KM
     * sin (bs_haversine_km la1 lo1 la2 lo2 / (2 * BS_EARTH_RADIUS_KM))"
  by (rule chord_haversine)

lemma chord_le_arc:
  "bs_ecef_chord_mbm (bs_latlon_to_ecef la1 lo1) (bs_latlon_to_ecef la2 lo2) \<le> bs_km_to_mbm (bs_haversine_km la1 lo1 la2 lo2)"
proof -
  let ?d = "bs_haversine_km la1 lo1 la2 lo2"
  have "0 \<le> ?d" using atan2_sqrt(2) [OF hav_a_range, of la1 lo1 la2 lo2] by (simp add: bs_haversine_km_def Let_def BS_EARTH_RADIUS_KM_def)
  then have "sin (?d / (2 * BS_EARTH_RADIUS_KM)) \<le> ?d / (2 * BS_EARTH_RADIUS_KM)"
    by (intro sin_x_le_x) (simp add: BS_EARTH_RADIUS_KM_def)
  then show ?thesis unfolding chord_haversine by (simp add: bs_km_to_mbm_def BS_KM_PER_MBM_def BS_EARTH_RADIUS_KM_def)
qed

text \<open>The angle between two places, seen from the centre.\<close>

definition central_angle :: "real \<Rightarrow> real \<Rightarrow> real \<Rightarrow> real \<Rightarrow> real" where
  "central_angle la1 lo1 la2 lo2 = bs_haversine_km la1 lo1 la2 lo2 / BS_EARTH_RADIUS_KM"

definition unit_vec :: "real \<Rightarrow> real \<Rightarrow> real \<times> real \<times> real" where
  "unit_vec la lo = (cos (la * pi / 180) * cos (lo * pi / 180), cos (la * pi / 180) * sin (lo * pi / 180), sin (la * pi / 180))"

definition dot :: "real \<times> real \<times> real \<Rightarrow> real \<times> real \<times> real \<Rightarrow> real" where
  "dot u v = fst u * fst v + fst (snd u) * fst (snd v) + snd (snd u) * snd (snd v)"

lemma unit_vec_norm: "dot (unit_vec la lo) (unit_vec la lo) = 1"
  using sphere_norm [of 1 "la * pi / 180" "lo * pi / 180"] by (simp add: dot_def unit_vec_def)

lemma central_angle_range: "0 \<le> central_angle la1 lo1 la2 lo2" "central_angle la1 lo1 la2 lo2 \<le> pi"
  using atan2_sqrt(2,3) [OF hav_a_range, of la1 lo1 la2 lo2]
  by (simp_all add: central_angle_def bs_haversine_km_def Let_def BS_EARTH_RADIUS_KM_def)

lemma cos_central_angle: "cos (central_angle la1 lo1 la2 lo2) = dot (unit_vec la1 lo1) (unit_vec la2 lo2)"
proof -
  let ?a = "hav_a la1 lo1 la2 lo2" and ?t = "atan2 (sqrt (hav_a la1 lo1 la2 lo2)) (sqrt (1 - hav_a la1 lo1 la2 lo2))"
  have "central_angle la1 lo1 la2 lo2 = 2 * ?t"
    by (simp add: central_angle_def bs_haversine_km_def Let_def BS_EARTH_RADIUS_KM_def)
  then have "cos (central_angle la1 lo1 la2 lo2) = 1 - 2 * (sin ?t)\<^sup>2" by (simp only: cos_double_sin)
  also have "\<dots> = 1 - 2 * ?a" by (simp only: atan2_sqrt(1) [OF hav_a_range] real_sqrt_pow2 [OF hav_a_range(1)])
  also have "\<dots> = dot (unit_vec la1 lo1) (unit_vec la2 lo2)"
    unfolding hav_a_cos cos_diff by (simp add: dot_def unit_vec_def field_simps)
  finally show ?thesis .
qed

lemma gram_determinant:
  assumes "dot u u = 1" "dot v v = 1" "dot w w = 1"
  shows "(dot u w - dot u v * dot v w)\<^sup>2 \<le> (1 - (dot u v)\<^sup>2) * (1 - (dot v w)\<^sup>2)"
proof -
  obtain a b c d e f g h i where u: "u = (a, b, c)" "v = (d, e, f)" "w = (g, h, i)"
    by (cases u; cases v; cases w)
  have "(1 - (dot u v)\<^sup>2) * (1 - (dot v w)\<^sup>2) - (dot u w - dot u v * dot v w)\<^sup>2
      = (a * (e * i - f * h) - b * (d * i - f * g) + c * (d * h - e * g))\<^sup>2"
    using assms unfolding u dot_def fst_conv snd_conv by algebra
  then show ?thesis by (metis diff_ge_0_iff_ge zero_le_power2)
qed

lemma central_angle_triangle:
  "central_angle la1 lo1 la3 lo3 \<le> central_angle la1 lo1 la2 lo2 + central_angle la2 lo2 la3 lo3"
proof (cases "central_angle la1 lo1 la2 lo2 + central_angle la2 lo2 la3 lo3 \<le> pi")
  case True
  define u v w where uvw: "u = unit_vec la1 lo1" "v = unit_vec la2 lo2" "w = unit_vec la3 lo3"
  define a b where ab: "a = central_angle la1 lo1 la2 lo2" "b = central_angle la2 lo2 la3 lo3"
  have cs: "cos a = dot u v" "cos b = dot v w" by (simp_all add: ab uvw cos_central_angle)
  have sn: "0 \<le> sin a" "0 \<le> sin b" using central_angle_range by (simp_all add: ab sin_ge_zero)
  have "(dot u w - dot u v * dot v w)\<^sup>2 \<le> (sin a * sin b)\<^sup>2"
    using gram_determinant [of u v w] unit_vec_norm
    by (simp add: uvw [symmetric] power_mult_distrib sin_squared_eq cs) (simp add: uvw)
  then have "\<bar>dot u w - dot u v * dot v w\<bar> \<le> sin a * sin b"
    using sn by (metis abs_le_square_iff abs_of_nonneg mult_nonneg_nonneg)
  then have "cos (a + b) \<le> cos (central_angle la1 lo1 la3 lo3)"
    by (simp add: cos_add cs cos_central_angle uvw)
  moreover have "0 \<le> a + b" using central_angle_range(1) by (simp add: ab)
  ultimately have "\<not> a + b < central_angle la1 lo1 la3 lo3"
    using cos_monotone_0_pi [of "a + b" "central_angle la1 lo1 la3 lo3"] central_angle_range(2) [of la1 lo1 la3 lo3]
    by (auto simp: not_le [symmetric])
  then show ?thesis by (simp add: ab)
next
  case False
  then show ?thesis using central_angle_range(2) [of la1 lo1 la3 lo3] by linarith
qed

lemma bs_haversine_angle: "bs_haversine_km la1 lo1 la2 lo2 = BS_EARTH_RADIUS_KM * central_angle la1 lo1 la2 lo2"
  by (simp add: central_angle_def BS_EARTH_RADIUS_KM_def)

lemma bs_haversine_nonneg: "0 \<le> bs_haversine_km la1 lo1 la2 lo2"
  using central_angle_range(1) by (simp add: bs_haversine_angle BS_EARTH_RADIUS_KM_def)

lemma bs_haversine_sym: "bs_haversine_km la1 lo1 la2 lo2 = bs_haversine_km la2 lo2 la1 lo1"
proof -
  have "hav_a la1 lo1 la2 lo2 = hav_a la2 lo2 la1 lo1"
    unfolding hav_a_cos cos_diff by (simp add: algebra_simps)
  then show ?thesis by (simp add: bs_haversine_km_def)
qed

lemma bs_haversine_self: "bs_haversine_km la1 lo1 la1 lo1 = 0"
proof -
  have "hav_a la1 lo1 la1 lo1 = 0" by (simp add: hav_a_def)
  moreover have "atan2 0 1 = 0" using atan2_polar [of 1 0] by simp
  ultimately show ?thesis by (simp add: bs_haversine_km_def)
qed

lemma bs_haversine_triangle:
  "bs_haversine_km la1 lo1 la3 lo3 \<le> bs_haversine_km la1 lo1 la2 lo2 + bs_haversine_km la2 lo2 la3 lo3"
  using mult_left_mono [OF central_angle_triangle, of BS_EARTH_RADIUS_KM la1 lo1 la3 lo3 la2 lo2]
  by (simp add: bs_haversine_angle algebra_simps BS_EARTH_RADIUS_KM_def)

text \<open>
C13: The great-circle distance is a distance: symmetric, never negative, zero from a place to itself,
at most half the circumference, and never longer than a way over a third place.
\<close>
theorem bs_haversine_metric:
  "bs_haversine_km la1 lo1 la2 lo2 = bs_haversine_km la2 lo2 la1 lo1
   \<and> 0 \<le> bs_haversine_km la1 lo1 la2 lo2
   \<and> bs_haversine_km la1 lo1 la2 lo2 \<le> pi * BS_EARTH_RADIUS_KM
   \<and> bs_haversine_km la1 lo1 la1 lo1 = 0
   \<and> bs_haversine_km la1 lo1 la3 lo3 \<le> bs_haversine_km la1 lo1 la2 lo2 + bs_haversine_km la2 lo2 la3 lo3"
proof (intro conjI bs_haversine_sym bs_haversine_nonneg bs_haversine_self bs_haversine_triangle)
  show "bs_haversine_km la1 lo1 la2 lo2 \<le> pi * BS_EARTH_RADIUS_KM"
    using central_angle_range(2) [of la1 lo1 la2 lo2] by (simp add: bs_haversine_angle BS_EARTH_RADIUS_KM_def)
qed

text \<open>
Converting a position to Cartesian coordinates and back gives the position, away from the
poles and with the longitude in its principal range, and marks it valid with the given tag.
\<close>
lemma bs_latlon_roundtrip:
  assumes "- 90 < lat" "lat < 90" "- 180 < lon" "lon \<le> 180"
  shows "bs_ecef_to_geo (bs_latlon_to_ecef lat lon) g (Some t)
    = g\<lparr>geo_lat := lat, geo_lon := lon, geo_valid := True, geo_tag := snprintf_buf 24 t\<rparr>"
proof -
  define p l where pl: "p = lat * pi / 180" "l = lon * pi / 180"
  have p: "- (pi / 2) < p" "p < pi / 2" and l: "- pi < l" "l \<le> pi"
  proof -
    have "pi * (- 90) < pi * lat" "pi * lat < pi * 90" "pi * (- 180) < pi * lon" "pi * lon \<le> pi * 180"
      using assms by (simp_all only: mult_less_cancel_left_pos mult_le_cancel_left_pos pi_gt_zero)
    then show "- (pi / 2) < p" "p < pi / 2" "- pi < l" "l \<le> pi"
      by (simp_all add: pl field_simps)
  qed
  have norm: "sqrt ((R_BM * cos p * cos l) * (R_BM * cos p * cos l)
      + (R_BM * cos p * sin l) * (R_BM * cos p * sin l) + (R_BM * sin p) * (R_BM * sin p)) = R_BM"
    by (simp only: sphere_norm) (simp add: abs_of_pos [OF const_pos(3)])
  have "arcsin (R_BM * sin p / R_BM) = p"
    using p by (simp add: arcsin_sin)
  moreover have "atan2 (R_BM * cos p * sin l) (R_BM * cos p * cos l) = l"
    using atan2_polar [of "R_BM * cos p" l] l cos_gt_zero_pi [OF p] by simp
  ultimately show ?thesis
    using norm
    by (simp add: bs_ecef_to_geo_def bs_latlon_to_ecef_def Let_def pl [symmetric] not_le) (simp add: pl)
qed


subsection \<open>Properties of the text helpers\<close>

lemma avg_rtt_loop_rtts:
  assumes "length line + length out \<le> k"
  shows "avg_rtt_loop scan (sum_list out) (length out) line
    = (sum_list (rtts_loop scan k out line), length (rtts_loop scan k out line))"
  using assms
proof (induction line arbitrary: out rule: length_induct)
  case (1 line)
  show ?case
  proof (cases line)
    case Nil
    then show ?thesis by simp
  next
    case (Cons c p)
    with 1 have room: "length out < k" by simp
    show ?thesis
    proof (cases "ms_token scan (c # p)")
      case None
      have "avg_rtt_loop scan (sum_list out) (length out) p
          = (sum_list (rtts_loop scan k out p), length (rtts_loop scan k out p))"
        using 1 Cons by simp
      with None Cons room show ?thesis by simp
    next
      case (Some vn)
      obtain v n where vn: "vn = (v, n)" by (cases vn)
      have "avg_rtt_loop scan (sum_list (out @ [v])) (length (out @ [v])) (drop (n - 1) p)
          = (sum_list (rtts_loop scan k (out @ [v]) (drop (n - 1) p)),
             length (rtts_loop scan k (out @ [v]) (drop (n - 1) p)))"
        by (rule 1 [rule_format]) (use 1 Cons in auto)
      with Some vn Cons room show ?thesis by simp
    qed
  qed
qed

definition scan_demo :: "real scan_ms" where
  "scan_demo p = (if p = ''5 ms'' then Some (5, ''ms'', 4) else None)"

text \<open>
The average over a traceroute line is the mean of the samples the sample extractor finds with
room for all of them, and -1 exactly when it finds none.
\<close>
lemma bs_line_avg_rtt_mean:
  assumes "length line \<le> k"
  shows "bs_line_avg_rtt scan line =
    (if bs_line_rtts scan line k = [] then - 1
     else sum_list (bs_line_rtts scan line k) / real (length (bs_line_rtts scan line k)))"
  using avg_rtt_loop_rtts [of line "[]" k scan] assms
  by (simp add: bs_line_avg_rtt_def bs_line_rtts_def)


text \<open>
Of a hop printed as a name and a bracketed address the address is extracted, whatever the name,
as long as it fits; a name whose closing bracket is missing, as when a long name was cut to the
size of the host array, comes back as the address instead.
\<close>
lemma bs_hop_ip_bracketed:
  assumes "CHR ''('' \<notin> set name" "CHR '')'' \<notin> set ip" "ip \<noteq> []" "length ip < n"
  shows "bs_hop_ip (name @ ''('' @ ip @ '')'' @ rest) n = ip
    \<and> bs_hop_ip (name @ ''('' @ ip) n = take (n - 1) (name @ ''('' @ ip)"
proof -
  have skip: "strchr (xs @ c # r) c = Some (c # r)" if "c \<notin> set xs" for xs c r
    using that by (induction xs) auto
  have "strchr (name @ ''('' @ ip @ '')'' @ rest) (CHR ''('') = Some (''('' @ ip @ '')'' @ rest)"
    "strchr (ip @ '')'' @ rest) (CHR '')'') = Some ('')'' @ rest)"
    using skip [OF assms(1)] skip [OF assms(2)] by simp_all
  moreover have "name @ ''('' @ r \<noteq> ''* * *'' \<and> name @ ''('' @ r \<noteq> ''?''" for r
  proof -
    have "CHR ''('' \<in> set (name @ ''('' @ r)" "CHR ''('' \<notin> set ''* * *''" "CHR ''('' \<notin> set ''?''"
      by simp_all
    then show ?thesis by metis
  qed
  moreover have "strchr (name @ ''('' @ ip) (CHR ''('') = Some (''('' @ ip)" "strchr ip (CHR '')'') = None"
    using skip [OF assms(1)] assms(2) by (simp_all add: strchr_None)
  ultimately show ?thesis
    using assms(3,4) by (simp add: bs_hop_ip_def snprintf_buf_def)
qed


end
