(* ===== verification/Bl_Glue.thy ===== *)
theory Bl_Glue
  imports Bl_Client Brightspace
begin

text \<open>
  \<open>brightlink_glue.h\<close>: the adapter between the b* tools and libbrightlink. It derives a store
  name from \<open>argv[0]\<close>, opens the file store below the home directory, asks the bridge for a
  position and records why it failed. The static reason buffer is threaded through as a string;
  messages on standard error are values of \<open>notice\<close>.
\<close>

subsection \<open>Names and paths\<close>

definition bl_glue_home :: "(string \<Rightarrow> string option) \<Rightarrow> string option \<Rightarrow> string option" where
  "bl_glue_home getenv pw_dir =
     (case getenv ''HOME'' of Some (c # h) \<Rightarrow> Some (c # h) | _ \<Rightarrow> pw_dir)"

text \<open>The POSIX \<open>basename\<close> of \<open>libgen.h\<close>.\<close>

definition posix_basename :: "string \<Rightarrow> string" where
  "posix_basename path =
     (if path = [] then ''.''
      else let p = rev (dropWhile (\<lambda>c. c = CHR ''/'') (rev path))
           in if p = [] then ''/'' else rev (takeWhile (\<lambda>c. c \<noteq> CHR ''/'') (rev p)))"

fun glue_copy :: "nat \<Rightarrow> string \<Rightarrow> string \<Rightarrow> string" where
  "glue_copy cap out [] = out"
| "glue_copy cap out (c # base) =
     (if length out + 1 < cap then glue_copy cap (if id_char c then out @ [c] else out) base
      else out)"

definition bl_glue_binary_id :: "string option \<Rightarrow> nat \<Rightarrow> string" where
  "bl_glue_binary_id argv0 cap =
     (let tmp = snprintf_buf 256 (case argv0 of Some (c # a) \<Rightarrow> c # a | _ \<Rightarrow> ''iputils'');
          out = glue_copy cap [] (posix_basename tmp)
      in if out = [] \<or> hd_nul out = CHR ''.'' then snprintf_buf cap ''iputils'' else out)"

definition bl_glue_last_reason :: "string \<Rightarrow> string option" where
  "bl_glue_last_reason reason = (if reason \<noteq> [] then Some reason else None)"

definition bl_glue_annotate_tag :: "string \<Rightarrow> 'd bs_geo \<Rightarrow> 'd bs_geo" where
  "bl_glue_annotate_tag reason g =
     (case bl_glue_last_reason reason of
        None \<Rightarrow> g
      | Some r \<Rightarrow>
          if \<not> has_prefix ''[~geoIP'' (geo_tag g) then g
          else if strchr (geo_tag g) (CHR ''/'') \<noteq> None then g
          else g\<lparr>geo_tag := snprintf_buf 24 (snprintf_buf 24 (''[~geoIP/'' @ r @ '']''))\<rparr>)"

definition bl_glue_pin_path ::
  "(string \<Rightarrow> string option) \<Rightarrow> string option \<Rightarrow> string option \<Rightarrow> nat \<Rightarrow> string option" where
  "bl_glue_pin_path getenv pw_dir argv0 cap =
     (case bl_glue_home getenv pw_dir of
        None \<Rightarrow> None
      | Some home \<Rightarrow>
          (let path = home @ ''/.brightchain/iputils-pins/'' @ bl_glue_binary_id argv0 64 @ ''.sep-pub''
           in if length path < cap then Some path else None))"

datatype reset_outcome = ResetNoPath | ResetAbsent string | ResetFailed string | ResetDone string

text \<open>\<open>can_unlink\<close>: whether unlinking an existing file succeeds.\<close>

definition bl_glue_reset_pin ::
  "(string \<Rightarrow> string option) \<Rightarrow> string option \<Rightarrow> bool \<Rightarrow> string option \<Rightarrow> fs
   \<Rightarrow> int \<times> reset_outcome \<times> fs" where
  "bl_glue_reset_pin getenv pw_dir can_unlink argv0 fs =
     (case bl_glue_pin_path getenv pw_dir argv0 1024 of
        None \<Rightarrow> (- 1, ResetNoPath, fs)
      | Some path \<Rightarrow>
          (case fs path of
             None \<Rightarrow> (0, ResetAbsent path, fs)
           | Some Dir \<Rightarrow> (- 1, ResetFailed path, fs)
           | Some (File b) \<Rightarrow>
               if can_unlink then (0, ResetDone path, fs(path := None))
               else (- 1, ResetFailed path, fs)))"

text \<open>The exit status, or \<open>None\<close> where the program goes on.\<close>

definition bl_glue_handle_global_args ::
  "(string \<Rightarrow> string option) \<Rightarrow> string option \<Rightarrow> bool \<Rightarrow> string list \<Rightarrow> fs \<Rightarrow> int option \<times> fs" where
  "bl_glue_handle_global_args getenv pw_dir can_unlink argv fs =
     (if list_ex (\<lambda>a. a = ''--reset-brightlink-pin'') (tl argv)
      then case bl_glue_reset_pin getenv pw_dir can_unlink (Some (hd argv)) fs of
             (rc, _, fs') \<Rightarrow> (Some (if rc = 0 then 0 else 1), fs')
      else (None, fs))"

subsection \<open>Asking the bridge\<close>

datatype notice = NotePinMismatch | NoteHandshakeFailed string | NoteRefused string

fun reason_slug :: "bl_status_t \<Rightarrow> string option" where
  "reason_slug BL_ERR_PIN_MISMATCH = Some ''pin-mismatch''"
| "reason_slug BL_ERR_CRYPTO = Some ''crypto''"
| "reason_slug BL_ERR_PROTOCOL = Some ''proto''"
| "reason_slug BL_ERR_BRIDGE_REFUSED = Some ''refused''"
| "reason_slug BL_ERR_DENIED = Some ''denied''"
| "reason_slug BL_ERR_TIMEOUT = Some ''timeout''"
| "reason_slug _ = None"

definition record_reason :: "bl_status_t \<Rightarrow> string" where
  "record_reason st = (case reason_slug st of Some slug \<Rightarrow> snprintf_buf 16 slug | None \<Rightarrow> [])"

fun failure_notice :: "bl_status_t \<Rightarrow> notice option" where
  "failure_notice BL_ERR_PIN_MISMATCH = Some NotePinMismatch"
| "failure_notice BL_ERR_CRYPTO = Some (NoteHandshakeFailed (bl_strerror BL_ERR_CRYPTO))"
| "failure_notice BL_ERR_PROTOCOL = Some (NoteHandshakeFailed (bl_strerror BL_ERR_PROTOCOL))"
| "failure_notice BL_ERR_BRIDGE_REFUSED = Some (NoteRefused (bl_strerror BL_ERR_BRIDGE_REFUSED))"
| "failure_notice BL_ERR_DENIED = Some (NoteRefused (bl_strerror BL_ERR_DENIED))"
| "failure_notice _ = None"

record 'd glue =
  gl_ecef :: "'d bs_ecef"
  gl_have_ecef :: bool
  gl_geo :: "'d bs_geo"
  gl_reason :: string
  gl_notices :: "notice list"

definition glue_take_position :: "'d bl_geo_position \<Rightarrow> 'd glue \<Rightarrow> 'd glue" where
  "glue_take_position pos w =
     (let w1 = w\<lparr>gl_reason := []\<rparr>;
          w2 = (if have_wgs84 pos
                then w1\<lparr>gl_geo := (gl_geo w1)\<lparr>geo_lat := wgs84_lat pos, geo_lon := wgs84_lon pos,
                       geo_valid := True, geo_tag := snprintf_buf 24 ''[brightlink]''\<rparr>\<rparr>
                else w1)
      in if have_brightspace pos
         then w2\<lparr>gl_ecef := \<lparr>ecef_x = brightspace_x_bm pos, ecef_y = brightspace_y_bm pos,
                              ecef_z = brightspace_z_bm pos\<rparr>,
                 gl_have_ecef := True,
                 gl_geo := (gl_geo w2)\<lparr>geo_tag := snprintf_buf 24 ''[brightlink:ecef]''\<rparr>\<rparr>
         else w2)"

definition glue_record_failure :: "(string \<Rightarrow> string option) \<Rightarrow> bl_status_t \<Rightarrow> 'd glue \<Rightarrow> 'd glue" where
  "glue_record_failure getenv st w =
     (let w1 = w\<lparr>gl_reason := record_reason st\<rparr>
      in if getenv ''BRIGHTLINK_QUIET'' = None
         then (case failure_notice st of
                 None \<Rightarrow> w1
               | Some n \<Rightarrow> w1\<lparr>gl_notices := gl_notices w1 @ [n]\<rparr>)
         else w1)"

text \<open>The outcomes of the calls around the client: the two \<open>mkdir\<close>, the three allocations and
  the faults of a save.\<close>

record glue_env =
  ge_getenv :: "string \<Rightarrow> string option"
  ge_pw_dir :: "string option"
  ge_mkdir_parent :: bool
  ge_mkdir_pins :: bool
  ge_calloc_ctx :: bool
  ge_calloc_store :: bool
  ge_calloc_client :: bool
  ge_faults :: save_faults

definition glue_mkdir_parent :: "glue_env \<Rightarrow> string \<Rightarrow> fs \<Rightarrow> fs option" where
  "glue_mkdir_parent ge home fs =
     (let parent = snprintf_buf 1024 (home @ ''/.brightchain'')
      in case fs parent of
           Some _ \<Rightarrow> Some fs
         | None \<Rightarrow> if ge_mkdir_parent ge then Some (fs(parent \<mapsto> Dir)) else None)"

definition glue_config :: "'c bl_pin_store \<Rightarrow> string \<Rightarrow> 'c bl_client_config" where
  "glue_config store binary_id =
     \<lparr>cfg_socket_path = None, cfg_agent_name = Some binary_id, cfg_agent_version = None,
      cfg_pin_store = Some store, cfg_ttl_seconds = 0\<rparr>"

text \<open>\<open>t\<close> carries the socket, clock and library state; its client and store context are the ones
  opened here.\<close>

definition glue_query ::
  "glue_env \<Rightarrow> blc_env \<Rightarrow> 'd dbl_ops \<Rightarrow> (fs, 'd) bl_st \<Rightarrow> fs bl_pin_store \<Rightarrow> string \<Rightarrow> 'd glue \<Rightarrow> fs
   \<Rightarrow> 'd glue \<times> fs" where
  "glue_query ge env dbl t store binary_id w fs =
     (case bl_client_new (ge_getenv ge) (ge_pw_dir ge) (ge_calloc_client ge)
             (Some (glue_config store binary_id)) of
        None \<Rightarrow> (w, bl_pin_store_free (Some store) fs)
      | Some c \<Rightarrow>
          (case bl_geo_get env dbl BL_GEO_FORMAT_BOTH (t\<lparr>cl := c, pin_ctx := fs, geo_out := None\<rparr>) of
             (Inr _, t') \<Rightarrow>
               ((case geo_out t' of None \<Rightarrow> w | Some pos \<Rightarrow> glue_take_position pos w),
                bl_client_free (Some (cl t')) (pin_ctx t'))
           | (Inl st, t') \<Rightarrow>
               (glue_record_failure (ge_getenv ge) st w,
                bl_client_free (Some (cl t')) (pin_ctx t'))))"

definition glue_pin_dir :: "string \<Rightarrow> string" where
  "glue_pin_dir home = snprintf_buf 1024 (home @ ''/.brightchain/iputils-pins'')"

definition bl_glue_get_geo ::
  "glue_env \<Rightarrow> blc_env \<Rightarrow> 'd dbl_ops \<Rightarrow> (fs, 'd) bl_st \<Rightarrow> string option \<Rightarrow> 'd glue \<Rightarrow> fs
   \<Rightarrow> 'd glue \<times> fs" where
  "bl_glue_get_geo ge env dbl t argv0 w fs =
     (if gl_have_ecef w \<or> geo_valid (gl_geo w) then (w, fs)
      else case bl_glue_home (ge_getenv ge) (ge_pw_dir ge) of
        None \<Rightarrow> (w, fs)
      | Some home \<Rightarrow>
     (case glue_mkdir_parent ge home fs of
        None \<Rightarrow> (w, fs)
      | Some fs1 \<Rightarrow>
     (case bl_pin_store_file (ge_mkdir_pins ge) (ge_calloc_ctx ge) (ge_calloc_store ge)
                (ge_faults ge) (Some (glue_pin_dir home)) (Some (bl_glue_binary_id argv0 64)) fs1 of
        (None, fs2) \<Rightarrow> (w, fs2)
      | (Some (store, path), fs2) \<Rightarrow>
          glue_query ge env dbl t store (bl_glue_binary_id argv0 64) w fs2)))"

subsection \<open>Properties\<close>

lemma glue_copy_take:
  "length out \<le> cap - 1 \<Longrightarrow> glue_copy cap out base = take (cap - 1) (out @ filter id_char base)"
  by (induction cap out base rule: glue_copy.induct) (auto simp: Suc_le_eq take_Cons')

lemma binary_id_chars:
  assumes "1 < cap"
  shows "list_all id_char (bl_glue_binary_id argv0 cap)"
    "bl_glue_binary_id argv0 cap \<noteq> [] \<and> hd_nul (bl_glue_binary_id argv0 cap) \<noteq> CHR ''.''"
    "length (bl_glue_binary_id argv0 cap) < cap"
proof -
  define base where "base = posix_basename
    (snprintf_buf 256 (case argv0 of Some (c # a) \<Rightarrow> c # a | _ \<Rightarrow> ''iputils''))"
  have copy: "glue_copy cap [] base = take (cap - 1) (filter id_char base)"
    by (simp add: glue_copy_take)
  have id: "bl_glue_binary_id argv0 cap =
      (if glue_copy cap [] base = [] \<or> hd_nul (glue_copy cap [] base) = CHR ''.''
       then snprintf_buf cap ''iputils'' else glue_copy cap [] base)"
    by (simp add: bl_glue_binary_id_def base_def Let_def)
  obtain k where k: "cap = Suc (Suc k)" using assms by (cases cap; cases "cap - 1") auto
  have fixed: "list_all id_char ''iputils''" by code_simp
  show "list_all id_char (bl_glue_binary_id argv0 cap)"
    using fixed by (auto simp: id copy snprintf_buf_def list_all_iff dest!: in_set_takeD)
  show "bl_glue_binary_id argv0 cap \<noteq> [] \<and> hd_nul (bl_glue_binary_id argv0 cap) \<noteq> CHR ''.''"
    unfolding id by (auto simp: k snprintf_buf_def hd_nul_def)
  show "length (bl_glue_binary_id argv0 cap) < cap"
    using assms by (auto simp: id copy)
qed

text \<open>
Whatever the program was called as, the store name derived from it is one the pin store
accepts, and it fits its buffer.
\<close>
lemma bl_glue_binary_id_valid:
  assumes "1 < cap"
  shows "valid_binary_id (Some (bl_glue_binary_id argv0 cap))
    \<and> length (bl_glue_binary_id argv0 cap) < cap"
  using binary_id_chars [OF assms] by (simp add: valid_binary_id_def)


lemma glue_query_outcomes:
  "fst (glue_query ge env dbl t store ident w fs)
   \<in> {w} \<union> range (\<lambda>st. glue_record_failure (ge_getenv ge) st w) \<union> range (\<lambda>pos. glue_take_position pos w)"
  by (auto simp: glue_query_def split: option.splits prod.splits sum.splits)

lemma glue_outcomes:
  "fst (bl_glue_get_geo ge env dbl t argv0 w fs)
   \<in> {w} \<union> range (\<lambda>st. glue_record_failure (ge_getenv ge) st w) \<union> range (\<lambda>pos. glue_take_position pos w)"
  unfolding bl_glue_get_geo_def using glue_query_outcomes
  by (simp split: option.split prod.split) blast

lemma glue_record_failure_keeps:
  "gl_ecef (glue_record_failure g st w) = gl_ecef w"
  "gl_have_ecef (glue_record_failure g st w) = gl_have_ecef w"
  "gl_geo (glue_record_failure g st w) = gl_geo w"
  by (auto simp: glue_record_failure_def Let_def split: option.splits)

text \<open>
Coordinates given on the command line win: nothing is asked, written or recorded. Otherwise the
caller's position changes only when the bridge answered, so that every failure falls through to the
next source, and the reason left behind is that of this very attempt.
\<close>
lemma bl_glue_get_geo_fallthrough:
  "(gl_have_ecef w \<or> geo_valid (gl_geo w) \<longrightarrow> bl_glue_get_geo ge env dbl t argv0 w fs = (w, fs))
   \<and> (let w' = fst (bl_glue_get_geo ge env dbl t argv0 w fs) in
        gl_ecef w' = gl_ecef w \<and> gl_have_ecef w' = gl_have_ecef w \<and> gl_geo w' = gl_geo w
        \<or> gl_reason w' = [] \<and> gl_notices w' = gl_notices w
          \<and> (\<exists>pos. w' = glue_take_position pos w))"
proof (intro conjI impI)
  assume "gl_have_ecef w \<or> geo_valid (gl_geo w)"
  then show "bl_glue_get_geo ge env dbl t argv0 w fs = (w, fs)" by (simp add: bl_glue_get_geo_def)
next
  have "gl_reason (glue_take_position pos w) = []" "gl_notices (glue_take_position pos w) = gl_notices w" for pos
    by (auto simp: glue_take_position_def Let_def)
  then show "let w' = fst (bl_glue_get_geo ge env dbl t argv0 w fs) in
        gl_ecef w' = gl_ecef w \<and> gl_have_ecef w' = gl_have_ecef w \<and> gl_geo w' = gl_geo w
        \<or> gl_reason w' = [] \<and> gl_notices w' = gl_notices w
          \<and> (\<exists>pos. w' = glue_take_position pos w)"
    using glue_outcomes [of ge env dbl t argv0 w fs] glue_record_failure_keeps [of "ge_getenv ge" _ w]
    by (auto simp: Let_def)
qed

definition demo_ge :: glue_env where
  "demo_ge = \<lparr>ge_getenv = (\<lambda>_. Some ''h''), ge_pw_dir = None, ge_mkdir_parent = True,
     ge_mkdir_pins = True, ge_calloc_ctx = True, ge_calloc_store = True, ge_calloc_client = True,
     ge_faults = no_faults\<rparr>"

definition demo_store :: "fs bl_pin_store" where
  "demo_store = \<lparr>ps_load = file_load ''d/a.sep-pub'', ps_save = file_save no_faults ''d/a.sep-pub'',
     ps_free = Some id, own_ctx = True\<rparr>"

definition demo_glue :: "bool \<Rightarrow> int glue" where
  "demo_glue b = \<lparr>gl_ecef = \<lparr>ecef_x = 1, ecef_y = 2, ecef_z = 3\<rparr>, gl_have_ecef = b,
     gl_geo = geo_zero 0, gl_reason = ''crypto'', gl_notices = []\<rparr>"


lemma record_reason_short: "length (record_reason st) \<le> 12"
  by (cases st) (simp_all add: record_reason_def snprintf_buf_def)

text \<open>
Every reason a failed attempt records fits the tag untruncated: a geoIP position is then
labelled with the whole reason, exactly once, and any other label is left alone.
\<close>
lemma bl_glue_annotate_exact:
  assumes "reason_slug st \<noteq> None"
  shows "bl_glue_annotate_tag (record_reason st) (g\<lparr>geo_tag := ''[~geoIP]''\<rparr>)
      = g\<lparr>geo_tag := ''[~geoIP/'' @ the (reason_slug st) @ '']''\<rparr>
    \<and> bl_glue_annotate_tag r (bl_glue_annotate_tag (record_reason st) (g\<lparr>geo_tag := ''[~geoIP]''\<rparr>))
      = bl_glue_annotate_tag (record_reason st) (g\<lparr>geo_tag := ''[~geoIP]''\<rparr>)
    \<and> (\<not> has_prefix ''[~geoIP'' (geo_tag h) \<longrightarrow> bl_glue_annotate_tag r h = h)"
  using assms
  by (cases st) (simp_all add: bl_glue_annotate_tag_def bl_glue_last_reason_def record_reason_def
      snprintf_buf_def split: option.split)


text \<open>
The reset option removes exactly the file the next attempt would load its pin from: the path
is the one the store is opened on, nothing else in the file system changes, and after a reset that
reports success the store has no pin.
\<close>
lemma bl_glue_reset_pin_target:
  assumes "bl_glue_reset_pin getenv pw can argv0 fs = (0, out, fs')"
    and "bl_glue_home getenv pw = Some home"
    and "bl_pin_store_file mk c1 c2 flt (Some (glue_pin_dir home)) (Some (bl_glue_binary_id argv0 64)) fs2
         = (Some (st, path), fs3)"
  shows "ps_load st fs' = None \<and> fs' = fs(path := None)"
proof -
  have path: "path = glue_pin_dir home @ ''/'' @ bl_glue_binary_id argv0 64 @ ''.sep-pub''"
    and st: "ps_load st = file_load path"
    using assms(3) by (auto simp: bl_pin_store_file_def Let_def split: if_splits prod.splits bool.splits)
  from assms(1,2) obtain p where p: "bl_glue_pin_path getenv pw argv0 1024 = Some p"
    and fs': "fs' = fs(p := None)"
    by (auto simp: fun_upd_idem bl_glue_reset_pin_def split: option.splits node.splits if_splits)
  have "p = home @ ''/.brightchain/iputils-pins/'' @ bl_glue_binary_id argv0 64 @ ''.sep-pub''"
    and "length p < 1024"
    using p assms(2) by (auto simp: bl_glue_pin_path_def Let_def split: if_splits)
  then have "p = path" by (simp add: path glue_pin_dir_def snprintf_buf_def)
  with fs' show ?thesis by (simp add: st file_load_def read_file_def)
qed


end
