(* ===== verification/Iputils_Color.thy ===== *)
theory Iputils_Color
  imports C_Prelude
begin

text \<open>
  The colour module \<open>iputils_color.c\<close>, shared by every \<open>b*\<close> tool: the five palettes,
  the parsers of the colour settings, the rule that picks a palette from the settings and the
  environment, and \<open>ipu_color_init\<close>, which takes the colour options out of \<open>argv\<close>.
  The environment is the map \<open>getenv\<close>; whether stdout is a terminal is an argument.
  Lemmas: the parsers are case insensitive, the options are removed and nothing else, the
  last option wins, and no escape sequence is printed once colours are off.
\<close>

datatype ipu_color_when_t =
  IPU_COLOR_AUTO | IPU_COLOR_ALWAYS | IPU_COLOR_NEVER | IPU_COLOR_ANSI | IPU_COLOR_TRUECOLOR

datatype ipu_color_scheme_t = IPU_SCHEME_DEFAULT | IPU_SCHEME_BRIGHT

record ipu_colors_t =
  cl_enabled :: bool
  cl_reset :: string
  cl_title :: string
  cl_label :: string
  cl_detail :: string
  cl_value :: string
  cl_unit :: string
  cl_hop :: string
  cl_host :: string
  cl_location :: string
  cl_tag :: string
  cl_header :: string
  cl_rtt :: string
  cl_ok :: string
  cl_warn :: string
  cl_bad :: string

type_synonym environ = "string \<Rightarrow> string option"

text \<open>The escape character, \<open>"\x1b"\<close> in the source.\<close>

definition esc :: "string \<Rightarrow> string" where
  "esc s = CHR 0x1B # s"

text \<open>The macro \<open>IPU(c, field)\<close>.\<close>

definition IPU :: "ipu_colors_t \<Rightarrow> (ipu_colors_t \<Rightarrow> string) \<Rightarrow> string" where
  "IPU c field = (if cl_enabled c then field c else [])"

definition ipu_colors_off :: ipu_colors_t where
  "ipu_colors_off =
     \<lparr>cl_enabled = False,
      cl_reset = [],
      cl_title = [],
      cl_label = [],
      cl_detail = [],
      cl_value = [],
      cl_unit = [],
      cl_hop = [],
      cl_host = [],
      cl_location = [],
      cl_tag = [],
      cl_header = [],
      cl_rtt = [],
      cl_ok = [],
      cl_warn = [],
      cl_bad = []\<rparr>"

definition ipu_colors_ansi_default :: ipu_colors_t where
  "ipu_colors_ansi_default =
     \<lparr>cl_enabled = True,
      cl_reset = esc ''[0m'',
      cl_title = esc ''[1;36m'',
      cl_label = esc ''[36m'',
      cl_detail = esc ''[2m'',
      cl_value = esc ''[1m'',
      cl_unit = esc ''[2m'',
      cl_hop = esc ''[35m'',
      cl_host = esc ''[1m'',
      cl_location = esc ''[32m'',
      cl_tag = esc ''[34m'',
      cl_header = esc ''[2;34m'',
      cl_rtt = esc ''[1;36m'',
      cl_ok = esc ''[32m'',
      cl_warn = esc ''[33m'',
      cl_bad = esc ''[1;31m''\<rparr>"

definition ipu_colors_ansi_bright :: ipu_colors_t where
  "ipu_colors_ansi_bright =
     \<lparr>cl_enabled = True,
      cl_reset = esc ''[0m'',
      cl_title = esc ''[1;96m'',
      cl_label = esc ''[96m'',
      cl_detail = esc ''[2m'',
      cl_value = esc ''[1;97m'',
      cl_unit = esc ''[2m'',
      cl_hop = esc ''[95m'',
      cl_host = esc ''[1;97m'',
      cl_location = esc ''[92m'',
      cl_tag = esc ''[94m'',
      cl_header = esc ''[2;94m'',
      cl_rtt = esc ''[1;96m'',
      cl_ok = esc ''[92m'',
      cl_warn = esc ''[93m'',
      cl_bad = esc ''[1;91m''\<rparr>"

definition ipu_colors_truecolor_default :: ipu_colors_t where
  "ipu_colors_truecolor_default =
     \<lparr>cl_enabled = True,
      cl_reset = esc ''[0m'',
      cl_title = esc ''[1;38;2;80;200;220m'',
      cl_label = esc ''[38;2;80;200;220m'',
      cl_detail = esc ''[2;38;2;120;120;120m'',
      cl_value = esc ''[1;38;2;240;240;240m'',
      cl_unit = esc ''[2;38;2;128;128;128m'',
      cl_hop = esc ''[38;2;200;120;220m'',
      cl_host = esc ''[1;38;2;240;240;240m'',
      cl_location = esc ''[38;2;120;220;140m'',
      cl_tag = esc ''[38;2;120;160;240m'',
      cl_header = esc ''[2;38;2;120;160;240m'',
      cl_rtt = esc ''[1;38;2;80;200;220m'',
      cl_ok = esc ''[38;2;100;200;100m'',
      cl_warn = esc ''[38;2;240;200;80m'',
      cl_bad = esc ''[38;2;240;100;100m''\<rparr>"

definition ipu_colors_truecolor_bright :: ipu_colors_t where
  "ipu_colors_truecolor_bright =
     \<lparr>cl_enabled = True,
      cl_reset = esc ''[0m'',
      cl_title = esc ''[1;38;2;0;220;255m'',
      cl_label = esc ''[38;2;0;220;255m'',
      cl_detail = esc ''[2;38;2;160;160;160m'',
      cl_value = esc ''[1;38;2;255;255;255m'',
      cl_unit = esc ''[2;38;2;160;160;160m'',
      cl_hop = esc ''[38;2;255;120;255m'',
      cl_host = esc ''[1;38;2;255;255;255m'',
      cl_location = esc ''[38;2;80;255;120m'',
      cl_tag = esc ''[38;2;120;180;255m'',
      cl_header = esc ''[2;38;2;120;180;255m'',
      cl_rtt = esc ''[1;38;2;0;220;255m'',
      cl_ok = esc ''[38;2;80;255;120m'',
      cl_warn = esc ''[38;2;255;220;80m'',
      cl_bad = esc ''[38;2;255;80;80m''\<rparr>"

subsection \<open>Parsing the settings\<close>

text \<open>\<open>tolower\<close> in the C locale.\<close>

definition tolower :: "char \<Rightarrow> char" where
  "tolower c = (let n = of_char c :: nat in if 65 \<le> n \<and> n \<le> 90 then char_of (n + 32) else c)"

fun strcaseeq :: "string \<Rightarrow> string \<Rightarrow> bool" where
  "strcaseeq (a # as) (b # bs) = (if tolower a \<noteq> tolower b then False else strcaseeq as bs)"
| "strcaseeq as bs = (hd_nul as = hd_nul bs)"

definition env_truthy :: "environ \<Rightarrow> string \<Rightarrow> bool" where
  "env_truthy getenv name =
     (case getenv name of
        None \<Rightarrow> False
      | Some v \<Rightarrow> if v = [] then False else v \<noteq> ''0'' \<and> \<not> strcaseeq v ''false'')"

definition no_color_requested :: "environ \<Rightarrow> bool" where
  "no_color_requested getenv =
     (if getenv ''NO_COLOR'' \<noteq> None then True
      else case getenv ''CLICOLOR'' of
             None \<Rightarrow> False
           | Some v \<Rightarrow> v = ''0'' \<or> strcaseeq v ''false'')"

definition term_supports_truecolor :: "environ \<Rightarrow> bool" where
  "term_supports_truecolor getenv =
     ((case getenv ''COLORTERM'' of
         None \<Rightarrow> False
       | Some ct \<Rightarrow> strcaseeq ct ''truecolor'' \<or> strcaseeq ct ''24bit'')
      \<or> (case getenv ''TERM'' of
           None \<Rightarrow> False
         | Some t \<Rightarrow> strstr t ''truecolor'' \<noteq> None))"

definition preferred_truecolor :: "environ \<Rightarrow> bool" where
  "preferred_truecolor getenv = term_supports_truecolor getenv"

definition palette_ansi :: "ipu_color_scheme_t \<Rightarrow> ipu_colors_t" where
  "palette_ansi scheme =
     (if scheme = IPU_SCHEME_BRIGHT then ipu_colors_ansi_bright else ipu_colors_ansi_default)"

definition palette_truecolor :: "ipu_color_scheme_t \<Rightarrow> ipu_colors_t" where
  "palette_truecolor scheme =
     (if scheme = IPU_SCHEME_BRIGHT then ipu_colors_truecolor_bright
      else ipu_colors_truecolor_default)"

definition ipu_colors_resolve ::
  "environ \<Rightarrow> bool \<Rightarrow> ipu_color_when_t \<Rightarrow> ipu_color_scheme_t \<Rightarrow> ipu_colors_t" where
  "ipu_colors_resolve getenv stdout_tty mode scheme =
     (if mode = IPU_COLOR_NEVER then ipu_colors_off
      else if mode = IPU_COLOR_AUTO \<and> no_color_requested getenv then ipu_colors_off
      else if mode = IPU_COLOR_ANSI then palette_ansi scheme
      else if mode = IPU_COLOR_TRUECOLOR then palette_truecolor scheme
      else if mode = IPU_COLOR_ALWAYS \<or> mode = IPU_COLOR_AUTO then
        (if mode = IPU_COLOR_AUTO \<and> \<not> stdout_tty \<and> \<not> env_truthy getenv ''CLICOLOR_FORCE''
         then ipu_colors_off
         else if preferred_truecolor getenv then palette_truecolor scheme
         else palette_ansi scheme)
      else ipu_colors_off)"

definition ipu_color_parse_when :: "string \<Rightarrow> ipu_color_when_t option" where
  "ipu_color_parse_when v =
     (if v = [] then None
      else if strcaseeq v ''auto'' then Some IPU_COLOR_AUTO
      else if strcaseeq v ''always'' \<or> strcaseeq v ''on'' \<or> strcaseeq v ''yes''
        then Some IPU_COLOR_ALWAYS
      else if strcaseeq v ''never'' \<or> strcaseeq v ''off'' \<or> strcaseeq v ''no''
        then Some IPU_COLOR_NEVER
      else if strcaseeq v ''ansi'' \<or> strcaseeq v ''16'' then Some IPU_COLOR_ANSI
      else if strcaseeq v ''truecolor'' \<or> strcaseeq v ''24bit'' \<or> strcaseeq v ''rgb''
        then Some IPU_COLOR_TRUECOLOR
      else None)"

definition ipu_color_parse_scheme :: "string \<Rightarrow> ipu_color_scheme_t option" where
  "ipu_color_parse_scheme v =
     (if v = [] then None
      else if strcaseeq v ''default'' then Some IPU_SCHEME_DEFAULT
      else if strcaseeq v ''bright'' then Some IPU_SCHEME_BRIGHT
      else None)"

subsection \<open>Taking the options out of argv\<close>

text \<open>
  A call of \<open>exit\<close> with its diagnostic on stderr is \<open>Inl (status, message)\<close>.
\<close>

definition color_usage :: "string \<Rightarrow> string" where
  "color_usage prog =
     prog @ '': invalid color setting (expected auto, always, never, ansi, or truecolor)'' @ [CHR 0x0A]"

definition parse_color_arg :: "string \<Rightarrow> string \<Rightarrow> (nat \<times> string) + ipu_color_when_t" where
  "parse_color_arg prog arg =
     (let value = (if has_prefix ''--color='' arg then drop 8 arg
                   else if arg = ''--color'' then ''always'' else arg)
      in case ipu_color_parse_when value of
           None \<Rightarrow> Inl (2, color_usage prog)
         | Some mode \<Rightarrow> Inr mode)"

definition parse_scheme_arg :: "string \<Rightarrow> string \<Rightarrow> (nat \<times> string) + ipu_color_scheme_t" where
  "parse_scheme_arg prog arg =
     (let value = (if has_prefix ''--color-scheme='' arg then drop 15 arg else arg)
      in case ipu_color_parse_scheme value of
           None \<Rightarrow>
             Inl (2, prog @ '': invalid color scheme (expected default or bright)'' @ [CHR 0x0A])
         | Some scheme \<Rightarrow> Inr scheme)"

definition compact_argv :: "string list \<Rightarrow> nat \<Rightarrow> string list" where
  "compact_argv argv remove_at = take remove_at argv @ drop (Suc remove_at) argv"

lemma length_compact_argv [simp]:
  "i < length argv \<Longrightarrow> length (compact_argv argv i) = length argv - 1"
  by (simp add: compact_argv_def)

function color_args_loop ::
  "string \<Rightarrow> string list \<Rightarrow> nat \<Rightarrow> ipu_color_when_t \<Rightarrow> ipu_color_scheme_t
   \<Rightarrow> (nat \<times> string) + (string list \<times> ipu_color_when_t \<times> ipu_color_scheme_t)" where
  "color_args_loop prog argv i mode scheme =
     (if i < length argv then
        if argv ! i = ''--no-color'' then
          color_args_loop prog (compact_argv argv i) i IPU_COLOR_NEVER scheme
        else if has_prefix ''--color='' (argv ! i) \<or> argv ! i = ''--color'' then
          (case parse_color_arg prog (argv ! i) of
             Inl e \<Rightarrow> Inl e
           | Inr mode' \<Rightarrow> color_args_loop prog (compact_argv argv i) i mode' scheme)
        else if has_prefix ''--color-scheme='' (argv ! i) then
          (case parse_scheme_arg prog (argv ! i) of
             Inl e \<Rightarrow> Inl e
           | Inr scheme' \<Rightarrow> color_args_loop prog (compact_argv argv i) i mode scheme')
        else color_args_loop prog argv (Suc i) mode scheme
      else Inr (argv, mode, scheme))"
  by pat_completeness auto
termination
  by (relation "measure (\<lambda>(prog, argv, i, mode, scheme). length argv - i)") auto

declare color_args_loop.simps [simp del]

definition color_env_when :: "string \<Rightarrow> environ \<Rightarrow> ipu_color_when_t \<times> string" where
  "color_env_when prog getenv =
     (case getenv ''IPUTILS_COLOR'' of
        None \<Rightarrow> (IPU_COLOR_AUTO, [])
      | Some v \<Rightarrow>
          if v = [] then (IPU_COLOR_AUTO, [])
          else case ipu_color_parse_when v of
                 None \<Rightarrow> (IPU_COLOR_AUTO, color_usage prog)
               | Some mode \<Rightarrow> (mode, []))"

definition color_env_scheme ::
  "string \<Rightarrow> environ \<Rightarrow> (nat \<times> string) + ipu_color_scheme_t" where
  "color_env_scheme prog getenv =
     (case getenv ''IPUTILS_COLOR_SCHEME'' of
        None \<Rightarrow> Inr IPU_SCHEME_DEFAULT
      | Some v \<Rightarrow>
          if v = [] then Inr IPU_SCHEME_DEFAULT
          else case ipu_color_parse_scheme v of
                 None \<Rightarrow> Inl (2, prog @
                   '': invalid IPUTILS_COLOR_SCHEME (expected default or bright)'' @ [CHR 0x0A])
               | Some scheme \<Rightarrow> Inr scheme)"

text \<open>
  \<open>ipu_color_init\<close>: the new \<open>argv\<close>, the palette stored in the global \<open>ipu_colors\<close> and
  what was written to stderr; or the exit status with everything written to stderr.
\<close>

definition ipu_color_init ::
  "environ \<Rightarrow> bool \<Rightarrow> string list \<Rightarrow> (nat \<times> string) + (string list \<times> ipu_colors_t \<times> string)" where
  "ipu_color_init getenv stdout_tty argv =
     (let prog = (case argv of [] \<Rightarrow> ''iputils'' | a # _ \<Rightarrow> a);
          (mode0, warning) = color_env_when prog getenv
      in case color_env_scheme prog getenv of
           Inl (st, msg) \<Rightarrow> Inl (st, warning @ msg)
         | Inr scheme0 \<Rightarrow>
             (case color_args_loop prog argv 1 mode0 scheme0 of
                Inl (st, msg) \<Rightarrow> Inl (st, warning @ msg)
              | Inr (argv', mode, scheme) \<Rightarrow>
                  Inr (argv', ipu_colors_resolve getenv stdout_tty mode scheme, warning)))"

subsection \<open>Styles\<close>

text \<open>The \<open>%-*s\<close> conversion: left justified in \<open>width\<close> columns.\<close>

definition pad_right :: "nat \<Rightarrow> string \<Rightarrow> string" where
  "pad_right width s = s @ replicate (width - length s) (CHR '' '')"

definition ipu_fprint_label :: "ipu_colors_t \<Rightarrow> string \<Rightarrow> string \<Rightarrow> nat \<Rightarrow> string" where
  "ipu_fprint_label c style name width =
     (if cl_enabled c then style @ pad_right width name @ cl_reset c else pad_right width name)"

definition ipu_efficiency_style :: "ipu_colors_t \<Rightarrow> cdouble \<Rightarrow> string" where
  "ipu_efficiency_style c efficiency_pct =
     (if \<not> cl_enabled c then []
      else if dbl_gt efficiency_pct 100 then cl_warn c
      else cl_ok c)"

definition ipu_loss_style :: "ipu_colors_t \<Rightarrow> cdouble \<Rightarrow> string" where
  "ipu_loss_style c loss_pct =
     (if \<not> cl_enabled c then []
      else if dbl_ge loss_pct 50 then cl_bad c
      else if dbl_ge loss_pct 10 then cl_warn c
      else cl_value c)"

definition ipu_in_ring_style :: "ipu_colors_t \<Rightarrow> bool \<Rightarrow> string" where
  "ipu_in_ring_style c in_ring =
     (if \<not> cl_enabled c then [] else if in_ring then cl_ok c else cl_bad c)"

subsection \<open>Lemmas\<close>

lemmas palette_defs =
  ipu_colors_off_def ipu_colors_ansi_default_def ipu_colors_ansi_bright_def
  ipu_colors_truecolor_default_def ipu_colors_truecolor_bright_def
  palette_ansi_def palette_truecolor_def

lemmas color_style_defs =
  IPU_def ipu_efficiency_style_def ipu_loss_style_def ipu_in_ring_style_def
  ipu_fprint_label_def

lemma strcaseeq_map_tolower:
  assumes "NUL \<notin> set a" and "NUL \<notin> set b"
  shows "strcaseeq a b \<longleftrightarrow> map tolower a = map tolower b"
  using assms by (induction a b rule: strcaseeq.induct) (auto simp: hd_nul_def split: list.splits)

text \<open>Reference for the option loop: a fold over the arguments, and the arguments it keeps.\<close>

definition is_color_arg :: "string \<Rightarrow> bool" where
  "is_color_arg a \<longleftrightarrow> a = ''--no-color'' \<or> has_prefix ''--color='' a \<or> a = ''--color''
     \<or> has_prefix ''--color-scheme='' a"

fun color_args_spec ::
  "string \<Rightarrow> string list \<Rightarrow> ipu_color_when_t \<times> ipu_color_scheme_t
   \<Rightarrow> (nat \<times> string) + (ipu_color_when_t \<times> ipu_color_scheme_t)" where
  "color_args_spec prog [] ws = Inr ws"
| "color_args_spec prog (a # as) (mode, scheme) =
     (if a = ''--no-color'' then color_args_spec prog as (IPU_COLOR_NEVER, scheme)
      else if has_prefix ''--color='' a \<or> a = ''--color'' then
        (case parse_color_arg prog a of
           Inl e \<Rightarrow> Inl e
         | Inr mode' \<Rightarrow> color_args_spec prog as (mode', scheme))
      else if has_prefix ''--color-scheme='' a then
        (case parse_scheme_arg prog a of
           Inl e \<Rightarrow> Inl e
         | Inr scheme' \<Rightarrow> color_args_spec prog as (mode, scheme'))
      else color_args_spec prog as (mode, scheme))"

lemma compact_argv_split:
  "i < length argv \<Longrightarrow> drop i (compact_argv argv i) = drop (Suc i) argv"
  "i < length argv \<Longrightarrow> take i (compact_argv argv i) = take i argv"
  by (simp_all add: compact_argv_def)

lemma color_args_loop_spec:
  "i \<le> length argv \<Longrightarrow>
   color_args_loop prog argv i mode scheme =
     (case color_args_spec prog (drop i argv) (mode, scheme) of
        Inl e \<Rightarrow> Inl e
      | Inr ws \<Rightarrow> Inr (take i argv @ filter (\<lambda>a. \<not> is_color_arg a) (drop i argv), ws))"
proof (induction prog argv i mode scheme rule: color_args_loop.induct)
  case (1 prog argv i mode scheme)
  show ?case
  proof (cases "i < length argv")
    case False
    with 1(5) have "i = length argv" by simp
    then show ?thesis by (subst color_args_loop.simps) simp
  next
    case True
    have split: "drop i argv = argv ! i # drop (Suc i) argv"
      using True by (simp add: Cons_nth_drop_Suc)
    have keep: "take (Suc i) argv = take i argv @ [argv ! i]"
      using True by (simp add: take_Suc_conv_app_nth)
    from True have le: "i \<le> length (compact_argv argv i)" and "Suc i \<le> length argv"
      by auto
    with True 1(1-4) show ?thesis
      by (subst color_args_loop.simps)
        (auto simp: split keep compact_argv_split is_color_arg_def split: sum.splits)
  qed
qed

lemma resolve_cases:
  "ipu_colors_resolve getenv tty mode scheme = ipu_colors_off
   \<or> cl_enabled (ipu_colors_resolve getenv tty mode scheme)"
  by (auto simp: ipu_colors_resolve_def palette_defs)

subsection \<open>Properties\<close>

text \<open>
A successful \<open>ipu_color_init\<close> removes from \<open>argv\<close> exactly the colour options and
  keeps the program name and every other argument in order; the palette is the one the last
  colour option and the last scheme option select (the environment's settings where there is
  none).\<close>

lemma ipu_color_init_argv:
  assumes "ipu_color_init getenv tty (prog # args) = Inr (argv', c, warning)"
  shows "argv' = prog # filter (\<lambda>a. \<not> is_color_arg a) args
    \<and> (\<exists>scheme0 mode scheme.
         color_env_scheme prog getenv = Inr scheme0
         \<and> color_args_spec prog args (fst (color_env_when prog getenv), scheme0) = Inr (mode, scheme)
         \<and> c = ipu_colors_resolve getenv tty mode scheme)"
  using assms
  by (auto simp: ipu_color_init_def color_args_loop_spec split: sum.splits prod.splits)


text \<open>
Colours are on exactly when the mode is not \<open>never\<close> and, in mode \<open>auto\<close>, neither
  \<open>NO_COLOR\<close> nor \<open>CLICOLOR=0\<close> is set and stdout is a terminal or \<open>CLICOLOR_FORCE\<close> is
  truthy; when they are off, every style is empty and every label is printed without an escape
  character.\<close>

lemma ipu_colors_resolve_enabled:
  "cl_enabled (ipu_colors_resolve getenv tty mode scheme) \<longleftrightarrow>
     mode \<noteq> IPU_COLOR_NEVER
     \<and> \<not> (mode = IPU_COLOR_AUTO
          \<and> (no_color_requested getenv \<or> \<not> tty \<and> \<not> env_truthy getenv ''CLICOLOR_FORCE''))"
  by (cases mode) (auto simp: ipu_colors_resolve_def palette_defs)

text \<open>
Once colours resolve to off, no style function returns an escape sequence and a label
  is exactly its padded text, whatever style the caller passes.\<close>

lemma ipu_colors_off_plain:
  assumes "\<not> cl_enabled (ipu_colors_resolve getenv tty mode scheme)"
  defines "c \<equiv> ipu_colors_resolve getenv tty mode scheme"
  shows "c = ipu_colors_off \<and> IPU c field = []
    \<and> ipu_efficiency_style c x = [] \<and> ipu_loss_style c x = [] \<and> ipu_in_ring_style c r = []
    \<and> ipu_fprint_label c style name width = pad_right width name"
  using assms resolve_cases [of getenv tty mode scheme]
  by (auto simp: color_style_defs)


end
