(* ===== verification/Iputils_Common.thy ===== *)
theory Iputils_Common
  imports C_Prelude
begin

text \<open>
  \<open>iputils_common.c\<close>: closing the standard streams, checked number parsing, seeding and the
  difference of two times. The outcomes of the C library calls on a stream are a record; a call of
  \<open>error\<close> with a nonzero status is an error value; the random source is a list of the answers of
  \<open>getrandom\<close>. Only \<open>print_config\<close>, which prints compile-time switches, and the replacement for
  a missing \<open>error.h\<close> are left out.
\<close>

subsection \<open>Closing streams\<close>

abbreviation EBADF :: int where "EBADF \<equiv> 9"
abbreviation EPIPE :: int where "EPIPE \<equiv> 32"

record stream_calls =
  flush_fails :: bool
  some_pending :: bool
  prev_fail :: bool
  fclose_fails :: bool
  errno_after :: int

text \<open>Whether the stream failed (\<open>EOF\<close>), and \<open>errno\<close> after the call.\<close>

definition close_stream :: "stream_calls \<Rightarrow> bool \<times> int" where
  "close_stream f =
     (if flush_fails f \<or> prev_fail f
         \<or> (fclose_fails f \<and> (some_pending f \<or> errno_after f \<noteq> EBADF))
      then (True, if \<not> fclose_fails f \<and> errno_after f \<noteq> EPIPE then 0 else errno_after f)
      else (False, errno_after f))"

text \<open>The error reported on standard error, if any, and whether the process exits with a failure.\<close>

definition close_stdout :: "stream_calls \<Rightarrow> stream_calls \<Rightarrow> int option \<times> bool" where
  "close_stdout out err =
     (case close_stream out of
        (failed, e) \<Rightarrow>
          if failed \<and> e \<noteq> EPIPE then (Some e, True)
          else (None, fst (close_stream err)))"

subsection \<open>Checked numbers\<close>

datatype num_error = BadNumber int | OutOfRange int

abbreviation ERANGE :: int where "ERANGE \<equiv> 34"

definition strtol_or_err :: "string option \<Rightarrow> int \<Rightarrow> int \<Rightarrow> num_error + int" where
  "strtol_or_err str mn mx =
     (case str of
        None \<Rightarrow> Inl (BadNumber 0)
      | Some s \<Rightarrow>
          if s = [] then Inl (BadNumber 0)
          else case strtol 10 s of
            (num, rest, erange) \<Rightarrow>
              if erange then Inl (BadNumber ERANGE)
              else if strto_subject 10 s = None \<or> rest \<noteq> [] then Inl (BadNumber 0)
              else if num < mn \<or> mx < num then Inl (OutOfRange num)
              else Inr num)"

definition strtoul_or_err :: "string option \<Rightarrow> int \<Rightarrow> int \<Rightarrow> num_error + int" where
  "strtoul_or_err str mn mx =
     (case str of
        None \<Rightarrow> Inl (BadNumber 0)
      | Some s \<Rightarrow>
          if s = [] then Inl (BadNumber 0)
          else case strtoul 10 s of
            (num, rest, erange) \<Rightarrow>
              if erange then Inl (BadNumber ERANGE)
              else if strto_subject 10 s = None \<or> rest \<noteq> [] then Inl (BadNumber 0)
              else if num < mn \<or> mx < num then Inl (OutOfRange num)
              else Inr num)"

subsection \<open>Seeding\<close>

text \<open>One answer of \<open>getrandom\<close>: so many bytes and what the integer then holds, or an error.\<close>

datatype gr_ev = GrBytes nat "32 word" | GrEintr | GrError

definition iputil_srand_fallback :: "32 word \<Rightarrow> 32 word \<Rightarrow> 32 word \<Rightarrow> 32 word \<Rightarrow> 32 word" where
  "iputil_srand_fallback pid uid sec nsec = (push_bit 16 pid XOR uid XOR sec XOR nsec)"

text \<open>The seed; \<open>None\<close> while the source keeps interrupting.\<close>

fun srand_seed :: "32 word \<Rightarrow> gr_ev list \<Rightarrow> 32 word option" where
  "srand_seed fallback [] = None"
| "srand_seed fallback (GrError # evs) = Some fallback"
| "srand_seed fallback (GrEintr # evs) = srand_seed fallback evs"
| "srand_seed fallback (GrBytes n i # evs) = (if n = 4 then Some i else srand_seed fallback evs)"

text \<open>The generator after seeding: \<open>rnd\<close> gives a number and the next state, and the first number
  decides how many more are thrown away.\<close>

fun rand_skip :: "('g \<Rightarrow> 32 word \<times> 'g) \<Rightarrow> nat \<Rightarrow> 'g \<Rightarrow> 'g" where
  "rand_skip rnd 0 g = g"
| "rand_skip rnd (Suc n) g = rand_skip rnd n (snd (rnd g))"

definition iputils_srand ::
  "(32 word \<Rightarrow> 'g) \<Rightarrow> ('g \<Rightarrow> 32 word \<times> 'g) \<Rightarrow> 32 word \<Rightarrow> gr_ev list \<Rightarrow> 'g option" where
  "iputils_srand srand rnd fallback evs =
     (case srand_seed fallback evs of
        None \<Rightarrow> None
      | Some seed \<Rightarrow> (case rnd (srand seed) of (r, g) \<Rightarrow> Some (rand_skip rnd (unat (r AND 0x1F)) g)))"

subsection \<open>Times\<close>

record timespec =
  tv_sec :: int
  tv_nsec :: int

definition timespecsub :: "timespec \<Rightarrow> timespec \<Rightarrow> timespec" where
  "timespecsub a b =
     (let res = \<lparr>tv_sec = tv_sec a - tv_sec b, tv_nsec = tv_nsec a - tv_nsec b\<rparr>
      in if tv_nsec res < 0
         then \<lparr>tv_sec = tv_sec res - 1, tv_nsec = tv_nsec res + 1000000000\<rparr> else res)"

definition ts_ns :: "timespec \<Rightarrow> int" where
  "ts_ns t = tv_sec t * 1000000000 + tv_nsec t"

definition ts_ok :: "timespec \<Rightarrow> bool" where
  "ts_ok t \<longleftrightarrow> 0 \<le> tv_nsec t \<and> tv_nsec t < 1000000000"

subsection \<open>Properties\<close>

lemma timespecsub_ns: "ts_ns (timespecsub a b) = ts_ns a - ts_ns b"
  by (simp add: timespecsub_def ts_ns_def Let_def)

lemma timespecsub_normal: "ts_ok a \<Longrightarrow> ts_ok b \<Longrightarrow> ts_ok (timespecsub a b)"
  by (auto simp: timespecsub_def ts_ok_def Let_def)

text \<open>A normal form determines its nanoseconds and conversely.\<close>

lemma ts_ns_div_mod: "ts_ok t \<Longrightarrow> tv_sec t = ts_ns t div 1000000000 \<and> tv_nsec t = ts_ns t mod 1000000000"
  by (simp add: ts_ok_def ts_ns_def)

lemma strtol_subject_int:
  "strtol 10 s = (v, rest, False) \<Longrightarrow> strto_subject 10 s \<noteq> None \<Longrightarrow> LONG_MIN \<le> v \<and> v \<le> LONG_MAX"
  by (auto simp: strtol_def Let_def split: option.splits if_splits)

text \<open>
The checked number parser accepts exactly the numbers in range: whatever it returns lies between
the bounds and the whole text was a number; the decimal text of every number within the bounds is
accepted with that value; text after a number, an empty text and a missing one are errors.
\<close>
lemma strtol_or_err_exact:
  assumes "LONG_MIN \<le> mn" "mx \<le> LONG_MAX"
  shows "(case strtol_or_err str mn mx of
            Inr v \<Rightarrow> mn \<le> v \<and> v \<le> mx \<and> (\<exists>s. str = Some s \<and> strtol 10 s = (v, [], False))
          | Inl (OutOfRange v) \<Rightarrow> v < mn \<or> mx < v
          | Inl (BadNumber e) \<Rightarrow> e \<in> {0, ERANGE})
    \<and> (mn \<le> v \<and> v \<le> mx \<longrightarrow> strtol_or_err (Some (int_dec v)) mn mx = Inr v)
    \<and> strtol_or_err (Some (int_dec v @ ''x'')) mn mx
      = Inl (BadNumber (if v < LONG_MIN \<or> LONG_MAX < v then ERANGE else 0))"
proof (intro conjI impI)
  show "case strtol_or_err str mn mx of
            Inr v \<Rightarrow> mn \<le> v \<and> v \<le> mx \<and> (\<exists>s. str = Some s \<and> strtol 10 s = (v, [], False))
          | Inl (OutOfRange v) \<Rightarrow> v < mn \<or> mx < v
          | Inl (BadNumber e) \<Rightarrow> e \<in> {0, ERANGE}"
    by (auto simp: strtol_or_err_def split: option.splits prod.splits if_splits)
next
  assume v: "mn \<le> v \<and> v \<le> mx"
  have "\<not> starts_with_digit 10 []" by (simp add: starts_with_digit_def)
  from strtol_int_dec [OF _ _ this, of v] v assms
  show "strtol_or_err (Some (int_dec v)) mn mx = Inr v"
    by (simp add: strtol_or_err_def)
next
  have x: "\<not> starts_with_digit 10 ''x''" by code_simp
  show "strtol_or_err (Some (int_dec v @ ''x'')) mn mx
      = Inl (BadNumber (if v < LONG_MIN \<or> LONG_MAX < v then ERANGE else 0))"
    using strto_subject_dec [OF x] by (auto simp: strtol_or_err_def strtol_def int_dec_def)
qed


end
