(* ===== verification/Btools.thy ===== *)
theory Btools
  imports Bl_Glue Iputils_Color Iputils_Common
begin

text \<open>
  What \<open>bping\<close>, \<open>btraceroute\<close>, \<open>bmtr\<close> and \<open>baudit\<close> share: the pieces of their coloured output, the
  lines of the commands they run, the common command line options and the search for the own
  position. The \<open>printf\<close> and \<open>sscanf\<close> conversions of floating point numbers, \<open>getaddrinfo\<close> and the
  commands run through \<open>popen\<close> are parameters, gathered in the record \<open>tool_env\<close>.
\<close>

subsection \<open>Output\<close>

text \<open>\<open>ff w p\<close> is the \<open>printf\<close> conversion \<open>%w.pf\<close>, and \<open>ff 0 p\<close> is \<open>%.pf\<close>.\<close>

type_synonym fmt_f = "nat \<Rightarrow> nat \<Rightarrow> real \<Rightarrow> string"

definition pad_left :: "nat \<Rightarrow> string \<Rightarrow> string" where
  "pad_left width s = replicate (width - length s) (CHR '' '') @ s"

definition styled :: "ipu_colors_t \<Rightarrow> (ipu_colors_t \<Rightarrow> string) \<Rightarrow> string \<Rightarrow> string" where
  "styled c style txt = IPU c style @ txt @ IPU c cl_reset"

definition NL :: string where "NL = [CHR 0x0A]"
definition ESC :: string where "ESC = [CHR 0x1B]"

text \<open>The em dash of the headings, in UTF-8.\<close>

definition MDASH :: string where "MDASH = [CHR 0xE2, CHR 0x80, CHR 0x94]"

definition dashes :: "nat \<Rightarrow> string" where
  "dashes n = replicate n (CHR ''-'')"

definition table_head :: "ipu_colors_t \<Rightarrow> (nat \<times> string) list \<Rightarrow> string" where
  "table_head c cols = concat (map (\<lambda>(w, t). ''  '' @ styled c cl_header (pad_right w t)) cols) @ NL"

definition label_line :: "ipu_colors_t \<Rightarrow> string \<Rightarrow> string \<Rightarrow> string \<Rightarrow> string" where
  "label_line c txt gap val = ''  '' @ ipu_fprint_label c (cl_label c) txt 22 @ gap @ val @ NL"

definition mbm_km :: "fmt_f \<Rightarrow> ipu_colors_t \<Rightarrow> real \<Rightarrow> real \<Rightarrow> string" where
  "mbm_km ff c mbm km =
     styled c cl_value (ff 0 3 mbm) @ '' '' @ styled c cl_unit ''mBM''
     @ ''  ('' @ styled c cl_detail (''~'' @ ff 0 0 km @ '' km'') @ '')''"

definition efficiency :: "real \<Rightarrow> real \<Rightarrow> real" where
  "efficiency mbm floor_mbm = (if floor_mbm > 0 then mbm / floor_mbm * 100 else 0)"

definition efficiency_text :: "fmt_f \<Rightarrow> ipu_colors_t \<Rightarrow> string \<Rightarrow> real \<Rightarrow> string" where
  "efficiency_text ff c hint eff =
     ipu_efficiency_style c (Fin eff) @ ff 0 2 eff @ ''%'' @ IPU c cl_reset
     @ (if eff > 100 then ''  '' @ styled c cl_warn (''[warn: exceeds c '' @ MDASH @ hint @ '']'') else [])"

text \<open>The line with tag, coordinates and place of a position.\<close>

definition position_line :: "fmt_f \<Rightarrow> ipu_colors_t \<Rightarrow> string \<Rightarrow> nat \<Rightarrow> real bs_geo \<Rightarrow> string" where
  "position_line ff c head labelsz g =
     (let lbl = bs_geo_label (Some g) labelsz; ecef = bs_geo_ecef_str (ff 0 5) g 48
      in head @ styled c cl_tag (pad_right 18 (geo_tag g)) @ '' '' @ styled c cl_value ecef
         @ (if lbl \<noteq> [] then ''  '' @ styled c cl_location (''('' @ lbl @ '')'') else []) @ NL)"

subsection \<open>Lines of a command\<close>

function fgets_lines :: "nat \<Rightarrow> string \<Rightarrow> string list" where
  "fgets_lines n input =
     (if input = [] \<or> n = 0 then []
      else case fgets n input of (buf, rest) \<Rightarrow> buf # fgets_lines n rest)"
  by pat_completeness auto
termination
proof (relation "measure (\<lambda>(_, input). length input)", goal_cases)
  case (2 n input x y)
  then show ?case using fgets_progress [of input n] by (metis in_measure case_prod_conv snd_conv neq0_conv)
qed simp

declare fgets_lines.simps [simp del]

text \<open>A line of \<open>traceroute\<close>: its hop number and text, where it has a positive number.\<close>

definition trace_line :: "string \<Rightarrow> (int \<times> string) option" where
  "trace_line buf =
     (let buf = chop_nl buf
      in if buf = [] then None
         else let hop = (case scan_d buf of None \<Rightarrow> 0 | Some n \<Rightarrow> n)
              in if hop \<le> 0 then None else Some (hop, buf))"

subsection \<open>Environment and own position\<close>

record tool_env =
  te_ms :: "real scan_ms"
  te_scan3 :: "string \<Rightarrow> real list"
  te_latlon :: "string \<Rightarrow> real list"
  te_slash :: "nat \<Rightarrow> string \<Rightarrow> real list"
  te_strtod0 :: "string \<Rightarrow> real"
  te_fmt :: fmt_f
  te_run :: "string \<Rightarrow> string option"
  te_getaddrinfo :: "string \<Rightarrow> string option"
  te_tty :: bool
  te_can_unlink :: bool
  te_glue :: glue_env
  te_blc :: blc_env
  te_dbl :: "real dbl_ops"
  te_link :: "(fs, real) bl_st"

text \<open>\<open>out\<close> before the call is empty, and stays so where the name does not resolve.\<close>

definition bs_resolve_to_ip :: "(string \<Rightarrow> string option) \<Rightarrow> string \<Rightarrow> nat \<Rightarrow> bool \<times> string" where
  "bs_resolve_to_ip getaddrinfo host outsz =
     (case getaddrinfo host of
        None \<Rightarrow> (False, [])
      | Some ip \<Rightarrow> (True, if length ip < outsz then ip else []))"

definition tool_geolocate :: "'z tool_env_scheme \<Rightarrow> string option \<Rightarrow> real bs_geo" where
  "tool_geolocate te ip = bs_geolocate 0 (te_strtod0 te) (te_run te) ip"

definition target_position :: "'z tool_env_scheme \<Rightarrow> string \<Rightarrow> real bs_geo" where
  "target_position te ip = (if ip \<noteq> [] then tool_geolocate te (Some ip) else geo_zero 0)"

definition take_coord :: "'z tool_env_scheme \<Rightarrow> string \<Rightarrow> real bs_geo \<Rightarrow> real bs_geo" where
  "take_coord te s g =
     (case bs_parse_latlon (te_latlon te) s of
        None \<Rightarrow> g
      | Some (lat, lon) \<Rightarrow> g\<lparr>geo_lat := lat, geo_lon := lon, geo_valid := True, geo_tag := ''[coord]''\<rparr>)"

definition zero_ecef :: "real bs_ecef" where
  "zero_ecef = \<lparr>ecef_x = 0, ecef_y = 0, ecef_z = 0\<rparr>"

text \<open>The coordinates of the command line, the bridge, the lookup of the public address.\<close>

definition own_position ::
  "'z tool_env_scheme \<Rightarrow> string list \<Rightarrow> real bs_ecef \<Rightarrow> bool \<Rightarrow> real bs_geo \<Rightarrow> fs
   \<Rightarrow> real bs_ecef \<times> bool \<times> real bs_geo \<times> fs" where
  "own_position te argv ecef have_ecef geo fs =
     (case bl_glue_get_geo (te_glue te) (te_blc te) (te_dbl te) (te_link te)
             (case argv of [] \<Rightarrow> None | a # _ \<Rightarrow> Some a)
             \<lparr>gl_ecef = ecef, gl_have_ecef = have_ecef, gl_geo = geo, gl_reason = [], gl_notices = []\<rparr> fs of
        (w, fs') \<Rightarrow>
          (let g1 = (if \<not> gl_have_ecef w \<and> \<not> geo_valid (gl_geo w) then tool_geolocate te None else gl_geo w);
               g2 = (if gl_have_ecef w \<and> \<not> geo_valid g1
                     then bs_ecef_to_geo (gl_ecef w) g1 (Some ''[ecef]'') else g1)
           in (gl_ecef w, gl_have_ecef w, bl_glue_annotate_tag (gl_reason w) g2, fs')))"

text \<open>The options every tool takes first: the exit status, or the remaining arguments and the palette.\<close>

definition tool_start ::
  "'z tool_env_scheme \<Rightarrow> string list \<Rightarrow> fs \<Rightarrow> (int + string list \<times> ipu_colors_t) \<times> fs" where
  "tool_start te argv fs =
     (case bl_glue_handle_global_args (ge_getenv (te_glue te)) (ge_pw_dir (te_glue te)) (te_can_unlink te) argv fs of
        (Some code, fs1) \<Rightarrow> (Inl code, fs1)
      | (None, fs1) \<Rightarrow>
          (case ipu_color_init (ge_getenv (te_glue te)) (te_tty te) argv of
             Inl (code, _) \<Rightarrow> (Inl (int code), fs1)
           | Inr (argv, c, _) \<Rightarrow> (Inr (argv, c), fs1)))"

subsection \<open>Which source wins\<close>

lemma own_position_coord:
  "geo_valid geo \<Longrightarrow> own_position te argv ecef have_ecef geo fs
     = (ecef, have_ecef, bl_glue_annotate_tag [] geo, fs)"
  by (simp add: own_position_def bl_glue_get_geo_def Let_def)

lemma own_position_ecef:
  "\<not> geo_valid geo \<Longrightarrow> own_position te argv ecef True geo fs
     = (ecef, True, bl_glue_annotate_tag [] (bs_ecef_to_geo ecef geo (Some ''[ecef]'')), fs)"
  by (simp add: own_position_def bl_glue_get_geo_def Let_def)

end
