(* ===== verification/Bmtr.thy ===== *)
theory Bmtr
  imports Btools
begin

text \<open>
  \<open>bmtr.c\<close>: repeated probes of the hops of a route. The commands it runs are a function from the
  command line to what the command prints; the \<open>sscanf\<close> and \<open>printf\<close> conversions of numbers are
  parameters, numbers are reals; the interrupt signal is the number of times \<open>g_stop\<close> is still read
  as zero, or none.
\<close>

subsection \<open>Hops and their statistics\<close>

abbreviation MAX_HOPS :: nat where "MAX_HOPS \<equiv> 30"
abbreviation MAX_SAMPLES :: nat where "MAX_SAMPLES \<equiv> 512"

record bmtr_hop =
  h_num :: int
  h_host :: string
  h_ip :: string
  h_loc :: string
  h_geo :: "real bs_geo"
  samples :: "real list"
  nsamp :: nat
  ntimeout :: nat
  nprobes :: nat
  h_sum :: real
  h_sumsq :: real
  smin :: real
  smax :: real

definition hop_add_sample :: "bmtr_hop \<Rightarrow> real \<Rightarrow> bmtr_hop" where
  "hop_add_sample h rtt_ms =
     (let h = h\<lparr>nprobes := nprobes h + 1\<rparr>
      in if rtt_ms < 0 then h\<lparr>ntimeout := ntimeout h + 1\<rparr>
         else let idx = nsamp h mod MAX_SAMPLES;
                  h = h\<lparr>samples := (samples h)[idx := rtt_ms], nsamp := nsamp h + 1,
                        h_sum := h_sum h + rtt_ms, h_sumsq := h_sumsq h + rtt_ms * rtt_ms\<rparr>;
                  h = (if nsamp h = 1 \<or> rtt_ms < smin h then h\<lparr>smin := rtt_ms\<rparr> else h)
              in if nsamp h = 1 \<or> rtt_ms > smax h then h\<lparr>smax := rtt_ms\<rparr> else h)"

definition hop_avg :: "bmtr_hop \<Rightarrow> real" where
  "hop_avg h = (if nsamp h > 0 then h_sum h / real (nsamp h) else 0)"

definition hop_stddev :: "bmtr_hop \<Rightarrow> real" where
  "hop_stddev h =
     (if nsamp h < 2 then 0
      else let mean = hop_avg h; var = h_sumsq h / real (nsamp h) - mean * mean
           in if var > 0 then sqrt var else 0)"

subsection \<open>Route discovery\<close>

definition traceroute_command :: "int \<Rightarrow> string \<Rightarrow> string" where
  "traceroute_command maxhops dest =
     snprintf_buf 512 (''traceroute -q 1 -m '' @ int_dec maxhops @ '' '' @ dest @ '' 2>&1'')"

definition new_hop :: "real scan_ms \<Rightarrow> int \<Rightarrow> string \<Rightarrow> bmtr_hop" where
  "new_hop scan hopnum buf =
     (let host = bs_hop_host scan buf 80
      in \<lparr>h_num = hopnum, h_host = host, h_ip = bs_hop_ip host 48, h_loc = [], h_geo = geo_zero 0,
          samples = replicate MAX_SAMPLES 0, nsamp = 0, ntimeout = 0, nprobes = 0, h_sum = 0,
          h_sumsq = 0, smin = 1000000000, smax = 0\<rparr>)"

text \<open>The loop over the lines of the answer; \<open>hops\<close> is the filled part of the array.\<close>

function discover_loop ::
  "real scan_ms \<Rightarrow> nat \<Rightarrow> bool \<Rightarrow> bmtr_hop list \<Rightarrow> string \<Rightarrow> bmtr_hop list" where
  "discover_loop scan maxhops first hops input =
     (if input = [] then hops
      else case fgets 511 input of (buf, rest) \<Rightarrow>
        if \<not> length hops < maxhops then hops
        else if first then discover_loop scan maxhops False hops rest
        else let buf = chop_nl buf
             in if buf = [] then discover_loop scan maxhops False hops rest
                else let hopnum = (case scan_d buf of None \<Rightarrow> 0 | Some n \<Rightarrow> n)
                     in if hopnum \<le> 0 then discover_loop scan maxhops False hops rest
                        else discover_loop scan maxhops False (hops @ [new_hop scan hopnum buf]) rest)"
  by pat_completeness auto
termination
proof (relation "measure (\<lambda>(_, _, _, _, input). length input)", goal_cases)
  case 1
  show ?case by simp
qed (use fgets_progress [of _ 511] in \<open>metis in_measure case_prod_conv snd_conv zero_less_numeral\<close>)+

declare discover_loop.simps [simp del]

definition discover_hops ::
  "real scan_ms \<Rightarrow> (string \<Rightarrow> string option) \<Rightarrow> string \<Rightarrow> int \<Rightarrow> bmtr_hop list" where
  "discover_hops scan run dest maxhops =
     (case run (traceroute_command maxhops dest) of
        None \<Rightarrow> []
      | Some output \<Rightarrow> discover_loop scan (nat maxhops) True [] output)"

definition geolocate_hop ::
  "(string \<Rightarrow> real) \<Rightarrow> (string \<Rightarrow> string option) \<Rightarrow> bmtr_hop \<Rightarrow> bmtr_hop" where
  "geolocate_hop strtod0 run h =
     (if h_host h = ''* * *'' \<or> h_ip h = [] then h
      else let g = bs_geolocate 0 strtod0 run (Some (h_ip h))
           in h\<lparr>h_geo := g, h_loc := bs_geo_label (Some g) 48\<rparr>)"

definition geolocate_hops ::
  "(string \<Rightarrow> real) \<Rightarrow> (string \<Rightarrow> string option) \<Rightarrow> bmtr_hop list \<Rightarrow> bmtr_hop list" where
  "geolocate_hops strtod0 run hops = map (geolocate_hop strtod0 run) hops"

subsection \<open>Probing\<close>

text \<open>\<open>scan2\<close> and \<open>scan1\<close> are \<open>sscanf\<close> with \<open> %lf/%lf\<close> and \<open>%lf\<close>.\<close>

record bmtr_scan =
  sc_ms :: "real scan_ms"
  sc2 :: "string \<Rightarrow> real list"
  sc1 :: "string \<Rightarrow> real option"

definition probe_line :: "bmtr_scan \<Rightarrow> string \<Rightarrow> real \<Rightarrow> real" where
  "probe_line sc buf rtt0 =
     (let rtt1 = (case strstr buf ''='' of
                    None \<Rightarrow> rtt0
                  | Some eq \<Rightarrow>
                      if strstr buf ''min/avg/max'' = None then rtt0
                      else case sc2 sc (tl eq) of vmin # vavg # _ \<Rightarrow> vavg | _ \<Rightarrow> rtt0);
          tp = (case strstr buf ''time='' of Some p \<Rightarrow> Some p | None \<Rightarrow> strstr buf ''time ='')
      in case tp of
           None \<Rightarrow> rtt1
         | Some p \<Rightarrow>
             (case sc1 sc (drop (if p ! 4 = CHR ''='' then 5 else 6) p) of
                None \<Rightarrow> rtt1
              | Some t \<Rightarrow> t))"

function probe_loop :: "bmtr_scan \<Rightarrow> real \<Rightarrow> string \<Rightarrow> real" where
  "probe_loop sc rtt input =
     (if input = [] then rtt
      else case fgets 255 input of (buf, rest) \<Rightarrow> probe_loop sc (probe_line sc buf rtt) rest)"
  by pat_completeness auto
termination
proof (relation "measure (\<lambda>(_, _, input). length input)", goal_cases)
  case 1
  show ?case by simp
qed (use fgets_progress [of _ 255] in \<open>metis in_measure case_prod_conv snd_conv zero_less_numeral\<close>)

declare probe_loop.simps [simp del]

definition ping_command :: "string \<Rightarrow> string" where
  "ping_command ip = snprintf_buf 256 (''ping -c 1 -W 1 '' @ ip @ '' 2>&1'')"

definition probe_hop :: "bmtr_scan \<Rightarrow> (string \<Rightarrow> string option) \<Rightarrow> bmtr_hop \<Rightarrow> bmtr_hop" where
  "probe_hop sc run h =
     (if h_ip h = [] \<or> h_host h = ''* * *'' then hop_add_sample h (- 1)
      else case run (ping_command (h_ip h)) of
             None \<Rightarrow> hop_add_sample h (- 1)
           | Some output \<Rightarrow> hop_add_sample h (probe_loop sc (- 1) output))"

subsection \<open>Display\<close>

definition loss_pct :: "bmtr_hop \<Rightarrow> real" where
  "loss_pct h = (if nprobes h > 0 then real (ntimeout h) / real (nprobes h) * 100 else 100)"

definition source_line :: "fmt_f \<Rightarrow> ipu_colors_t \<Rightarrow> real bs_geo option \<Rightarrow> string" where
  "source_line ff c my_geo =
     (case my_geo of
        None \<Rightarrow> []
      | Some g \<Rightarrow> if geo_valid g then position_line ff c ''src '' 80 g else [])"

text \<open>The first four columns of a row.\<close>

definition row_head :: "fmt_f \<Rightarrow> ipu_colors_t \<Rightarrow> bmtr_hop \<Rightarrow> string" where
  "row_head ff c h =
     ''  '' @ styled c cl_hop (pad_right 4 (int_dec (h_num h)))
     @ ''  '' @ styled c cl_host (pad_right 38 (h_host h))
     @ ''  '' @ styled c cl_location (pad_right 20 (h_loc h))
     @ ''  '' @ ipu_loss_style c (Fin (loss_pct h)) @ ff 5 1 (loss_pct h) @ ''%'' @ IPU c cl_reset"

definition question_cells :: "nat list \<Rightarrow> string" where
  "question_cells ws = concat (map (\<lambda>w. ''  '' @ pad_left w ''?'') ws) @ NL"

definition table_row :: "fmt_f \<Rightarrow> ipu_colors_t \<Rightarrow> bmtr_hop \<Rightarrow> string" where
  "table_row ff c h =
     (if nprobes h = 0 then []
      else if nsamp h = 0 then row_head ff c h @ question_cells [8, 8, 8, 10, 10]
      else let avg = hop_avg h; stddev = hop_stddev h; floor_mbm = avg / 2; floor_km = bs_mbm_to_km floor_mbm
           in row_head ff c h
              @ ''  '' @ styled c cl_rtt (ff 8 3 avg) @ ''  '' @ styled c cl_detail (ff 8 6 (bs_to_md avg))
              @ ''  '' @ styled c cl_value (ff 8 3 stddev) @ ''  '' @ styled c cl_value (ff 10 4 floor_mbm)
              @ ''  '' @ styled c cl_detail (ff 10 1 floor_km) @ NL)"

definition draw_table ::
  "fmt_f \<Rightarrow> ipu_colors_t \<Rightarrow> string \<Rightarrow> bmtr_hop list \<Rightarrow> nat \<Rightarrow> real bs_geo option \<Rightarrow> string" where
  "draw_table ff c dest hops cycle my_geo =
     ESC @ ''[H'' @ styled c cl_title (''bmtr '' @ MDASH @ '' '' @ dest)
     @ ''    '' @ styled c cl_label (''cycle '' @ nat_dec cycle) @ ''    (Ctrl+C to stop)'' @ NL
     @ source_line ff c my_geo @ NL
     @ table_head c [(4, ''hop''), (38, ''host''), (20, ''location''), (6, ''loss%''), (8, ''avg(ms)''),
         (8, ''avg(md)''), (8, ''stddev''), (10, ''floor(mBM)''), (10, ''floor(km)'')]
     @ ''  '' @ dashes 4 @ ''  '' @ dashes 38 @ ''  '' @ dashes 20 @ ''  '' @ dashes 6
     @ ''  '' @ pad_left 8 (dashes 7) @ ''  '' @ pad_left 8 (dashes 7) @ ''  '' @ pad_left 8 (dashes 6)
     @ ''  '' @ dashes 10 @ ''  '' @ dashes 10 @ NL
     @ concat (map (table_row ff c) hops) @ ESC @ ''[J''"

definition report_row :: "fmt_f \<Rightarrow> ipu_colors_t \<Rightarrow> bmtr_hop \<Rightarrow> string" where
  "report_row ff c h =
     (if nsamp h = 0 then row_head ff c h @ question_cells [8, 8, 8, 8, 10]
      else let avg = hop_avg h; floor_mbm = avg / 2
           in row_head ff c h
              @ ''  '' @ styled c cl_value (ff 8 3 (smin h)) @ ''  '' @ styled c cl_rtt (ff 8 3 avg)
              @ ''  '' @ styled c cl_value (ff 8 3 (smax h)) @ ''  '' @ styled c cl_detail (ff 8 6 (bs_to_md avg))
              @ ''  '' @ styled c cl_value (ff 10 4 floor_mbm) @ NL)"

definition draw_report ::
  "fmt_f \<Rightarrow> ipu_colors_t \<Rightarrow> string \<Rightarrow> bmtr_hop list \<Rightarrow> nat \<Rightarrow> real bs_geo option \<Rightarrow> string" where
  "draw_report ff c dest hops cycles my_geo =
     styled c cl_title (''bmtr report '' @ MDASH @ '' '' @ dest)
     @ ''    '' @ styled c cl_label (nat_dec cycles @ '' cycles'') @ NL
     @ source_line ff c my_geo @ NL
     @ table_head c [(4, ''hop''), (38, ''host''), (20, ''location''), (6, ''loss%''), (8, ''min(ms)''),
         (8, ''avg(ms)''), (8, ''max(ms)''), (8, ''avg(md)''), (10, ''floor(mBM)'')]
     @ ''  '' @ dashes 4 @ ''  '' @ dashes 38 @ ''  '' @ dashes 20 @ ''  '' @ dashes 6
     @ ''  '' @ pad_left 8 (dashes 7) @ ''  '' @ pad_left 8 (dashes 7) @ ''  '' @ pad_left 8 (dashes 7)
     @ ''  '' @ pad_left 8 (dashes 7) @ ''  '' @ dashes 10 @ NL
     @ concat (map (report_row ff c) hops)"

subsection \<open>Command line\<close>

record bmtr_args =
  ba_ecef :: "real bs_ecef"
  ba_have_ecef :: bool
  ba_geo :: "real bs_geo"
  ba_max_cycles :: int
  ba_interval :: int
  ba_maxhops :: int
  ba_report :: bool
  ba_dest :: "string option"

definition bmtr_defaults :: bmtr_args where
  "bmtr_defaults = \<lparr>ba_ecef = \<lparr>ecef_x = 0, ecef_y = 0, ecef_z = 0\<rparr>, ba_have_ecef = False,
     ba_geo = geo_zero 0, ba_max_cycles = 0, ba_interval = 2, ba_maxhops = 30, ba_report = False,
     ba_dest = None\<rparr>"

definition at_least_1 :: "int \<Rightarrow> int" where
  "at_least_1 n = (if n < 1 then 1 else n)"

text \<open>One argument with those after it: the new settings and how many of those it used up;
  \<open>None\<close> is the exit through \<open>usage\<close>.\<close>

definition bmtr_arg ::
  "(string \<Rightarrow> real list) \<Rightarrow> (string \<Rightarrow> real list) \<Rightarrow> string \<Rightarrow> string list \<Rightarrow> bmtr_args \<Rightarrow> (bmtr_args \<times> nat) option" where
  "bmtr_arg scan3 scan2 a as b =
     (if has_prefix ''--my-ecef='' a then
        (case bs_parse_ecef scan3 (drop 10 a) (ba_ecef b) of
           (ok, e) \<Rightarrow> Some (b\<lparr>ba_ecef := e, ba_have_ecef := ok\<rparr>, 0))
      else if has_prefix ''--my-coord='' a then
        (case bs_parse_latlon scan2 (drop 11 a) of
           None \<Rightarrow> Some (b, 0)
         | Some (lat, lon) \<Rightarrow>
             Some (b\<lparr>ba_geo := (ba_geo b)\<lparr>geo_lat := lat, geo_lon := lon, geo_valid := True, geo_tag := ''[coord]''\<rparr>\<rparr>, 0))
      else if a = ''-c'' \<and> as \<noteq> [] then Some (b\<lparr>ba_max_cycles := atoi (hd as)\<rparr>, 1)
      else if has_prefix ''-c'' a then Some (b\<lparr>ba_max_cycles := atoi (drop 2 a)\<rparr>, 0)
      else if a = ''-i'' \<and> as \<noteq> [] then Some (b\<lparr>ba_interval := at_least_1 (atoi (hd as))\<rparr>, 1)
      else if has_prefix ''-i'' a then Some (b\<lparr>ba_interval := at_least_1 (atoi (drop 2 a))\<rparr>, 0)
      else if a = ''-m'' \<and> as \<noteq> [] then Some (b\<lparr>ba_maxhops := atoi (hd as)\<rparr>, 1)
      else if has_prefix ''-m'' a then Some (b\<lparr>ba_maxhops := atoi (drop 2 a)\<rparr>, 0)
      else if a = ''--report'' then Some (b\<lparr>ba_report := True\<rparr>, 0)
      else if a = ''-h'' \<or> a = ''--help'' then None
      else if hd_nul a \<noteq> CHR ''-'' then Some (b\<lparr>ba_dest := Some a\<rparr>, 0)
      else Some (b, 0))"

fun bmtr_args_loop ::
  "(string \<Rightarrow> real list) \<Rightarrow> (string \<Rightarrow> real list) \<Rightarrow> bmtr_args \<Rightarrow> string list \<Rightarrow> bmtr_args option" where
  "bmtr_args_loop scan3 scan2 b [] = Some b"
| "bmtr_args_loop scan3 scan2 b (a # as) =
     (case bmtr_arg scan3 scan2 a as b of
        None \<Rightarrow> None
      | Some (b', n) \<Rightarrow> bmtr_args_loop scan3 scan2 b' (drop n as))"

definition bmtr_parse ::
  "(string \<Rightarrow> real list) \<Rightarrow> (string \<Rightarrow> real list) \<Rightarrow> string list \<Rightarrow> (bmtr_args \<times> string) option" where
  "bmtr_parse scan3 scan2 argv =
     (case bmtr_args_loop scan3 scan2 bmtr_defaults (tl argv) of
        None \<Rightarrow> None
      | Some b \<Rightarrow>
          (case ba_dest b of
             None \<Rightarrow> None
           | Some dest \<Rightarrow>
               Some (if ba_maxhops b < 1 \<or> ba_maxhops b > int MAX_HOPS then b\<lparr>ba_maxhops := int MAX_HOPS\<rparr> else b,
                     dest)))"

subsection \<open>The cycles\<close>

text \<open>\<open>g_stop\<close> is zero for a number of reads, then one for good; \<open>None\<close> is no signal at all.\<close>

type_synonym stop_sig = "nat option"

definition read_stop :: "stop_sig \<Rightarrow> bool \<times> stop_sig" where
  "read_stop sg = (case sg of None \<Rightarrow> (False, None) | Some 0 \<Rightarrow> (True, Some 0) | Some (Suc n) \<Rightarrow> (False, Some n))"

text \<open>\<open>run k\<close> is the \<open>k\<close>-th probe command of the process.\<close>

fun probe_all ::
  "bmtr_scan \<Rightarrow> (nat \<Rightarrow> string \<Rightarrow> string option) \<Rightarrow> nat \<Rightarrow> stop_sig \<Rightarrow> bmtr_hop list
   \<Rightarrow> bmtr_hop list \<times> nat \<times> stop_sig" where
  "probe_all sc run k sg [] = ([], k, sg)"
| "probe_all sc run k sg (h # hs) =
     (case read_stop sg of
        (True, sg') \<Rightarrow> (h # hs, k, sg')
      | (False, sg') \<Rightarrow>
          (case probe_all sc run (k + 1) sg' hs of
             (hs', k', sg'') \<Rightarrow> (probe_hop sc (run k) h # hs', k', sg'')))"

fun sleep_loop :: "nat \<Rightarrow> stop_sig \<Rightarrow> stop_sig" where
  "sleep_loop 0 sg = sg"
| "sleep_loop (Suc n) sg = (case read_stop sg of (True, sg') \<Rightarrow> sg' | (False, sg') \<Rightarrow> sleep_loop n sg')"

record bmtr_run =
  r_hops :: "bmtr_hop list"
  r_cycle :: nat
  r_out :: string
  r_calls :: nat
  r_sig :: stop_sig

definition more_cycles :: "int \<Rightarrow> nat \<Rightarrow> bool" where
  "more_cycles max_cycles cycle \<longleftrightarrow> max_cycles = 0 \<or> int cycle < max_cycles"

definition bmtr_cycle ::
  "bmtr_scan \<Rightarrow> (nat \<Rightarrow> string \<Rightarrow> string option) \<Rightarrow> fmt_f \<Rightarrow> ipu_colors_t \<Rightarrow> bmtr_args \<Rightarrow> string
   \<Rightarrow> bmtr_run \<Rightarrow> bmtr_run" where
  "bmtr_cycle sc run ff c b dest st =
     (case probe_all sc run (r_calls st) (r_sig st) (r_hops st) of
        (hops, k, sg) \<Rightarrow>
          (let cycle = r_cycle st + 1
           in \<lparr>r_hops = hops, r_cycle = cycle,
               r_out = r_out st @ (if ba_report b then [] else draw_table ff c dest hops cycle (Some (ba_geo b))),
               r_calls = k,
               r_sig = (if more_cycles (ba_max_cycles b) cycle then sleep_loop (nat (ba_interval b)) sg else sg)\<rparr>))"

partial_function (option) bmtr_loop ::
  "bmtr_scan \<Rightarrow> (nat \<Rightarrow> string \<Rightarrow> string option) \<Rightarrow> fmt_f \<Rightarrow> ipu_colors_t \<Rightarrow> bmtr_args \<Rightarrow> string
   \<Rightarrow> bmtr_run \<Rightarrow> bmtr_run option" where
  "bmtr_loop sc run ff c b dest st =
     (let r = read_stop (r_sig st); st = st\<lparr>r_sig := snd r\<rparr>
      in if fst r \<or> \<not> more_cycles (ba_max_cycles b) (r_cycle st) then Some st
         else bmtr_loop sc run ff c b dest (bmtr_cycle sc run ff c b dest st))"

subsection \<open>The program\<close>

record bmtr_env = tool_env +
  be_scan :: bmtr_scan
  be_probe :: "nat \<Rightarrow> string \<Rightarrow> string option"
  be_sig :: stop_sig

datatype bmtr_result = BmtrExit int | BmtrDone string

definition bmtr_main :: "bmtr_env \<Rightarrow> string list \<Rightarrow> fs \<Rightarrow> bmtr_result option \<times> fs" where
  "bmtr_main e argv fs =
     (case tool_start e argv fs of
        (Inl code, fs1) \<Rightarrow> (Some (BmtrExit code), fs1)
      | (Inr (argv, c), fs1) \<Rightarrow>
     (case bmtr_parse (te_scan3 e) (te_latlon e) argv of
        None \<Rightarrow> (Some (BmtrExit 2), fs1)
      | Some (b, dest) \<Rightarrow>
     (case own_position e argv (ba_ecef b) (ba_have_ecef b) (ba_geo b) fs1 of (_, _, geo, fs2) \<Rightarrow>
       let b = b\<lparr>ba_geo := geo\<rparr>;
           hops = discover_hops (sc_ms (be_scan e)) (te_run e) dest (ba_maxhops b)
       in if hops = [] then (Some (BmtrExit 1), fs2)
          else
            (let hops = geolocate_hops (te_strtod0 e) (te_run e) hops;
                 st0 = \<lparr>r_hops = hops, r_cycle = 0, r_out = (if ba_report b then [] else ESC @ ''[2J''),
                        r_calls = 0, r_sig = be_sig e\<rparr>
             in case bmtr_loop (be_scan e) (be_probe e) (te_fmt e) c b dest st0 of
                  None \<Rightarrow> (None, fs2)
                | Some st \<Rightarrow>
                    (Some (BmtrDone (r_out st
                       @ (if ba_report b \<or> fst (read_stop (r_sig st))
                          then (if ba_report b then [] else NL @ NL)
                               @ draw_report (te_fmt e) c dest (r_hops st) (r_cycle st) (Some (ba_geo b))
                          else []))), fs2)))))"

subsection \<open>Statistics\<close>

text \<open>What a hop that was given these results holds; a negative result is a timeout.\<close>

definition hop_holds :: "bmtr_hop \<Rightarrow> real list \<Rightarrow> bool" where
  "hop_holds h rs \<longleftrightarrow>
     (let ok = filter (\<lambda>r. 0 \<le> r) rs
      in nprobes h = length rs \<and> ntimeout h = length rs - length ok \<and> nsamp h = length ok
         \<and> h_sum h = sum_list ok \<and> h_sumsq h = sum_list (map (\<lambda>r. r * r) ok)
         \<and> (if ok = [] then True else smin h = Min (set ok) \<and> smax h = Max (set ok))
         \<and> length (samples h) = MAX_SAMPLES
         \<and> (\<forall>i<length ok. length ok \<le> i + MAX_SAMPLES \<longrightarrow> samples h ! (i mod MAX_SAMPLES) = ok ! i))"

lemma window_keep:
  assumes "\<forall>i<n. n \<le> i + m \<longrightarrow> w ! (i mod m) = xs ! i" "length w = m" "0 < m" "length xs = n"
  shows "\<forall>i<Suc n. Suc n \<le> i + m \<longrightarrow> w[n mod m := x] ! (i mod m) = (xs @ [x]) ! i"
proof (intro allI impI)
  fix i assume i: "i < Suc n" "Suc n \<le> i + m"
  show "w[n mod m := x] ! (i mod m) = (xs @ [x]) ! i"
  proof (cases "i = n")
    case True
    then show ?thesis using assms(2-4) by (simp add: nth_append)
  next
    case False
    with i have lt: "i < n" "n < i + m" by auto
    have "n mod m \<noteq> i mod m"
    proof
      assume "n mod m = i mod m"
      then have "m dvd n - i" using lt(1) by (metis mod_eq_dvd_iff_nat less_imp_le)
      then have "m \<le> n - i" using lt(1) by (intro dvd_imp_le) auto
      with lt show False by simp
    qed
    then show ?thesis using assms(1,4) lt by (simp add: nth_append)
  qed
qed

lemma hop_holds_new: "hop_holds (new_hop scan n buf) []"
  by (simp add: hop_holds_def new_hop_def Let_def)

lemma Min_Max_snoc:
  fixes xs :: "real list"
  assumes "xs \<noteq> []"
  shows "Min (set (xs @ [x])) = (if x < Min (set xs) then x else Min (set xs))"
    "Max (set (xs @ [x])) = (if x > Max (set xs) then x else Max (set xs))"
proof -
  have mm: "min a b = (if a < b then a else b)" "max a b = (if a > b then a else b)" for a b :: real
    by auto
  have "set (xs @ [x]) = insert x (set xs)" by simp
  then have "Min (set (xs @ [x])) = min x (Min (set xs))" "Max (set (xs @ [x])) = max x (Max (set xs))"
    using assms by (simp_all only: Min_insert Max_insert finite_set set_empty simp_thms)
  then show "Min (set (xs @ [x])) = (if x < Min (set xs) then x else Min (set xs))"
    "Max (set (xs @ [x])) = (if x > Max (set xs) then x else Max (set xs))"
    by (simp_all only: mm)
qed

lemma hop_holds_add:
  assumes "hop_holds h rs"
  shows "hop_holds (hop_add_sample h r) (rs @ [r])"
proof (cases "r < 0")
  case True
  have "length (filter (\<lambda>r. 0 \<le> r) rs) \<le> length rs" by (rule length_filter_le)
  with assms True show ?thesis
    by (auto simp: hop_holds_def hop_add_sample_def Let_def Suc_diff_le)
next
  case False
  let ?ok = "filter (\<lambda>r. 0 \<le> r) rs"
  note h = assms [unfolded hop_holds_def Let_def]
  have w: "\<forall>i<Suc (length ?ok). Suc (length ?ok) \<le> i + MAX_SAMPLES \<longrightarrow>
      (samples h)[length ?ok mod MAX_SAMPLES := r] ! (i mod MAX_SAMPLES) = (?ok @ [r]) ! i"
    by (rule window_keep) (use h in auto)
  have le: "length ?ok \<le> length rs" by (rule length_filter_le)
  show ?thesis
  proof (cases "?ok = []")
    case True
    with h False w le show ?thesis
      by (simp add: hop_holds_def hop_add_sample_def Let_def)
  next
    case nonempty: False
    with h have "nsamp h \<noteq> 0" by simp
    with h False w le nonempty Min_Max_snoc [OF nonempty, of r] show ?thesis
      by (simp add: hop_holds_def hop_add_sample_def Let_def)
  qed
qed

lemma hop_holds_run: "hop_holds (foldl hop_add_sample (new_hop scan n buf) rs) rs"
proof (induction rs rule: rev_induct)
  case Nil
  show ?case by (simp add: hop_holds_new)
next
  case (snoc r rs)
  from hop_holds_add [OF snoc.IH] show ?case by simp
qed

lemma variance_formula:
  fixes xs :: "real list"
  assumes "xs \<noteq> []"
  defines "n \<equiv> real (length xs)" and "m \<equiv> sum_list xs / real (length xs)"
  shows "sum_list (map (\<lambda>x. (x - m)\<^sup>2) xs) / n = sum_list (map (\<lambda>x. x * x) xs) / n - m * m"
proof -
  have n: "n \<noteq> 0" using assms(1) by (simp add: n_def)
  have exp: "sum_list (map (\<lambda>x. (x - a)\<^sup>2) ys)
      = sum_list (map (\<lambda>x. x * x) ys) - 2 * a * sum_list ys + real (length ys) * (a * a)" for a :: real and ys
    by (induction ys) (simp_all add: algebra_simps power2_eq_square)
  have s: "sum_list xs = n * m" using n by (simp add: n_def m_def)
  have "sum_list (map (\<lambda>x. (x - m)\<^sup>2) xs) = sum_list (map (\<lambda>x. x * x) xs) - 2 * m * (n * m) + n * (m * m)"
    using exp [of m xs] unfolding s n_def [symmetric] .
  then have "sum_list (map (\<lambda>x. (x - m)\<^sup>2) xs) = sum_list (map (\<lambda>x. x * x) xs) - n * (m * m)"
    by simp
  then show ?thesis using n by (simp add: diff_divide_distrib)
qed

lemma hop_stddev_population:
  assumes "hop_holds h rs"
  defines "ok \<equiv> filter (\<lambda>r. 0 \<le> r) rs"
  shows "hop_stddev h = (if length ok < 2 then 0
    else sqrt (sum_list (map (\<lambda>x. (x - hop_avg h)\<^sup>2) ok) / real (length ok)))"
proof (cases "length ok < 2")
  case True
  with assms show ?thesis by (simp add: hop_stddev_def hop_holds_def Let_def)
next
  case False
  then have ne: "ok \<noteq> []" by auto
  have h: "nsamp h = length ok" "h_sum h = sum_list ok" "h_sumsq h = sum_list (map (\<lambda>r. r * r) ok)"
    using assms by (simp_all add: hop_holds_def Let_def)
  have avg: "hop_avg h = sum_list ok / real (length ok)" using ne by (simp add: hop_avg_def h)
  let ?v = "sum_list (map (\<lambda>x. (x - hop_avg h)\<^sup>2) ok) / real (length ok)"
  have v: "?v = h_sumsq h / real (nsamp h) - hop_avg h * hop_avg h"
    using variance_formula [OF ne] by (simp only: avg h)
  have "0 \<le> ?v" by (intro divide_nonneg_nonneg sum_list_nonneg) auto
  moreover have "hop_stddev h = (if ?v > 0 then sqrt ?v else 0)"
    using False unfolding v by (simp add: hop_stddev_def h(1) Let_def)
  ultimately show ?thesis using False by auto
qed

text \<open>
C15: After any sequence of probe results a hop holds exactly their statistics: the number of probes
and of timeouts, sum, sum of squares, minimum and maximum of the round trips, the last 512 of them
in the ring buffer; the average is their mean and the deviation computed from the running sums is
the standard deviation of the population.
\<close>
theorem bmtr_hop_statistics:
  "(let h = foldl hop_add_sample (new_hop scan n buf) rs; ok = filter (\<lambda>r. 0 \<le> r) rs
    in hop_holds h rs
       \<and> hop_avg h = (if ok = [] then 0 else sum_list ok / real (length ok))
       \<and> hop_stddev h = (if length ok < 2 then 0
           else sqrt (sum_list (map (\<lambda>x. (x - hop_avg h)\<^sup>2) ok) / real (length ok))))"
proof -
  note h = hop_holds_run [of scan n buf rs]
  have "hop_avg (foldl hop_add_sample (new_hop scan n buf) rs)
      = (if filter (\<lambda>r. 0 \<le> r) rs = [] then 0
         else sum_list (filter (\<lambda>r. 0 \<le> r) rs) / real (length (filter (\<lambda>r. 0 \<le> r) rs)))"
    using h by (simp add: hop_avg_def hop_holds_def Let_def)
  with h hop_stddev_population [OF h] show ?thesis by (simp only: Let_def simp_thms)
qed

subsection \<open>Bounds of the route\<close>

lemma bmtr_arg_interval:
  "bmtr_arg scan3 scan2 a as b = Some (b', n) \<Longrightarrow> 1 \<le> ba_interval b \<Longrightarrow> 1 \<le> ba_interval b'"
  by (auto simp: bmtr_arg_def at_least_1_def split: if_splits option.splits prod.splits)

lemma bmtr_args_interval:
  "bmtr_args_loop scan3 scan2 b as = Some b' \<Longrightarrow> 1 \<le> ba_interval b \<Longrightarrow> 1 \<le> ba_interval b'"
proof (induction scan3 scan2 b as rule: bmtr_args_loop.induct)
  case (2 scan3 scan2 b a as)
  then show ?case using bmtr_arg_interval by (fastforce split: option.splits)
qed simp

definition hop_ok :: "bmtr_hop \<Rightarrow> bool" where
  "hop_ok h \<longleftrightarrow> 0 < h_num h \<and> length (h_host h) < 80 \<and> length (h_ip h) < 48 \<and> hop_holds h []"

lemma discover_loop_bound:
  assumes "length hops \<le> m" "list_all hop_ok hops" "\<And>n buf. 0 < n \<Longrightarrow> hop_ok (new_hop scan n buf)"
  shows "length (discover_loop scan m first hops input) \<le> m
    \<and> list_all hop_ok (discover_loop scan m first hops input)"
  using assms
proof (induction scan m first hops input rule: discover_loop.induct)
  case (1 scan m first hops input)
  show ?case
    using 1 by (subst (1 2) discover_loop.simps) (auto simp: Let_def split: prod.splits)
qed

lemma rstrip_length: "length (rstrip s) \<le> length s"
  unfolding rstrip_def using length_dropWhile_le [of "\<lambda>c. c = CHR '' ''" "rev s"] by simp

lemma new_hop_ok: "0 < n \<Longrightarrow> hop_ok (new_hop scan n buf)"
proof -
  assume n: "0 < n"
  have "length (bs_hop_host scan buf 80) < 80"
    using rstrip_length le_less_trans
    by (auto simp: bs_hop_host_def Let_def min_less_iff_disj intro!: le_less_trans [OF rstrip_length])
  moreover have "length (bs_hop_ip host 48) < 48" for host
    by (auto simp: bs_hop_ip_def Let_def min_less_iff_disj split: option.split)
  ultimately show ?thesis
    using n hop_holds_new by (auto simp: hop_ok_def new_hop_def Let_def hop_holds_def)
qed

text \<open>
Whatever the command line and whatever the route trace prints, the settings accepted keep the
hop limit between 1 and 30 and the interval at least one second, the hops found never exceed the
limit and so fit the array of 30, and each has a positive number, texts that fit their buffers
and empty statistics.
\<close>
lemma bmtr_route_bounds:
  assumes "bmtr_parse scan3 scan2 argv = Some (b, dest)"
  shows "1 \<le> ba_maxhops b \<and> ba_maxhops b \<le> 30 \<and> 1 \<le> ba_interval b
    \<and> length (discover_hops scan run dest (ba_maxhops b)) \<le> nat (ba_maxhops b)
    \<and> length (discover_hops scan run dest (ba_maxhops b)) \<le> MAX_HOPS
    \<and> list_all hop_ok (discover_hops scan run dest (ba_maxhops b))"
proof -
  obtain b0 where b0: "bmtr_args_loop scan3 scan2 bmtr_defaults (tl argv) = Some b0"
    and b: "b = (if ba_maxhops b0 < 1 \<or> ba_maxhops b0 > 30 then b0\<lparr>ba_maxhops := 30\<rparr> else b0)"
    using assms by (auto simp: bmtr_parse_def split: option.splits if_splits)
  have "1 \<le> ba_interval b" using bmtr_args_interval [OF b0] by (simp add: b bmtr_defaults_def)
  moreover have mh: "1 \<le> ba_maxhops b \<and> ba_maxhops b \<le> 30" by (simp add: b)
  moreover have "length (discover_hops scan run dest (ba_maxhops b)) \<le> nat (ba_maxhops b)
      \<and> list_all hop_ok (discover_hops scan run dest (ba_maxhops b))"
    using discover_loop_bound [of "[]" "nat (ba_maxhops b)" scan] new_hop_ok
    by (simp add: discover_hops_def split: option.split)
  moreover from this mh have "length (discover_hops scan run dest (ba_maxhops b)) \<le> MAX_HOPS" by linarith
  ultimately show ?thesis by blast
qed


subsection \<open>Cycles end\<close>

fun sig_left :: "stop_sig \<Rightarrow> nat" where
  "sig_left None = 0"
| "sig_left (Some n) = n"

lemma read_stop_left: "sig_left (snd (read_stop sg)) \<le> sig_left sg" "(snd (read_stop sg) = None) = (sg = None)"
  by (auto simp: read_stop_def split: option.splits nat.splits)

lemma read_stop_step: "\<not> fst (read_stop (Some n)) \<Longrightarrow> sig_left (snd (read_stop (Some n))) < n"
  by (auto simp: read_stop_def split: nat.splits)

lemma probe_all_left:
  "sig_left (snd (snd (probe_all sc run k sg hs))) \<le> sig_left sg
   \<and> (snd (snd (probe_all sc run k sg hs)) = None) = (sg = None)"
proof (induction hs arbitrary: k sg)
  case (Cons h hs)
  show ?case
    using Cons.IH [of "k + 1" "snd (read_stop sg)"] read_stop_left [of sg]
    by (auto split: prod.splits bool.splits)
qed simp

lemma sleep_loop_left: "sig_left (sleep_loop n sg) \<le> sig_left sg \<and> (sleep_loop n sg = None) = (sg = None)"
proof (induction n arbitrary: sg)
  case (Suc n)
  show ?case
    using Suc.IH [of "snd (read_stop sg)"] read_stop_left [of sg] by (auto split: prod.splits bool.splits)
qed simp

lemma bmtr_cycle_left:
  "sig_left (r_sig (bmtr_cycle sc run ff c b dest st)) \<le> sig_left (r_sig st)
   \<and> (r_sig (bmtr_cycle sc run ff c b dest st) = None) = (r_sig st = None)
   \<and> r_cycle (bmtr_cycle sc run ff c b dest st) = r_cycle st + 1"
proof -
  let ?sg = "snd (snd (probe_all sc run (r_calls st) (r_sig st) (r_hops st)))"
  show ?thesis
    using probe_all_left [of sc run "r_calls st" "r_sig st" "r_hops st"]
      sleep_loop_left [of "nat (ba_interval b)" ?sg]
    by (simp add: bmtr_cycle_def Let_def case_prod_beta)
qed

text \<open>Without a signal every cycle probes every hop once.\<close>

lemma nprobes_probe: "nprobes (probe_hop sc run h) = nprobes h + 1"
  by (simp add: probe_hop_def hop_add_sample_def Let_def split: option.split)

lemma probe_all_quiet:
  "\<exists>k'. probe_all sc run k None hs = (fst (probe_all sc run k None hs), k', None)
     \<and> map nprobes (fst (probe_all sc run k None hs)) = map (\<lambda>h. nprobes h + 1) hs"
proof (induction hs arbitrary: k)
  case (Cons h hs)
  from Cons.IH [of "k + 1"] show ?case
    by (auto simp: read_stop_def nprobes_probe split: prod.splits)
qed simp

lemma sleep_quiet: "sleep_loop n None = None"
  by (induction n) (simp_all add: read_stop_def)

lemma bmtr_cycle_quiet:
  assumes "r_sig st = None"
  shows "r_sig (bmtr_cycle sc run ff c b dest st) = None
    \<and> map nprobes (r_hops (bmtr_cycle sc run ff c b dest st)) = map (\<lambda>h. nprobes h + 1) (r_hops st)"
  using probe_all_quiet [of sc run "r_calls st" "r_hops st"] assms
  by (auto simp: bmtr_cycle_def Let_def sleep_quiet split: prod.splits)

lemma bmtr_loop_counted:
  assumes "0 < ba_max_cycles b" "r_sig st = None" "int (r_cycle st) \<le> ba_max_cycles b"
  shows "\<exists>st'. bmtr_loop sc run ff c b dest st = Some st' \<and> int (r_cycle st') = ba_max_cycles b
    \<and> map nprobes (r_hops st') = map (\<lambda>h. nprobes h + (nat (ba_max_cycles b) - r_cycle st)) (r_hops st)"
  using assms
proof (induction "nat (ba_max_cycles b) - r_cycle st" arbitrary: st)
  case 0
  then have "\<not> more_cycles (ba_max_cycles b) (r_cycle st)" by (auto simp: more_cycles_def)
  with 0 show ?case by (subst bmtr_loop.simps) (auto simp: Let_def read_stop_def)
next
  case (Suc n)
  let ?st = "bmtr_cycle sc run ff c b dest st"
  have more: "more_cycles (ba_max_cycles b) (r_cycle st)" using Suc.hyps(2) unfolding more_cycles_def by linarith
  have same: "st\<lparr>r_sig := None\<rparr> = st" using Suc.prems(2) by (cases st) simp
  have step: "bmtr_loop sc run ff c b dest st = bmtr_loop sc run ff c b dest ?st"
    using more Suc.prems(2) by (subst bmtr_loop.simps) (simp add: Let_def read_stop_def same)
  have q: "r_sig ?st = None" "map nprobes (r_hops ?st) = map (\<lambda>h. nprobes h + 1) (r_hops st)"
    "r_cycle ?st = r_cycle st + 1"
    using bmtr_cycle_quiet [OF Suc.prems(2)] bmtr_cycle_left by blast+
  have "n = nat (ba_max_cycles b) - r_cycle ?st" "int (r_cycle ?st) \<le> ba_max_cycles b"
    using Suc.hyps(2) q(3) by linarith+
  note n = this
  from Suc.hyps(1) [OF n(1) Suc.prems(1) q(1) n(2)] obtain st' where
    st': "bmtr_loop sc run ff c b dest ?st = Some st'" "int (r_cycle st') = ba_max_cycles b"
      "map nprobes (r_hops st') = map (\<lambda>h. nprobes h + (nat (ba_max_cycles b) - r_cycle ?st)) (r_hops ?st)"
    by blast
  have "map nprobes (r_hops st') = map (\<lambda>x. x + n) (map nprobes (r_hops ?st))"
    unfolding st'(3) n(1) [symmetric] by simp
  also have "\<dots> = map (\<lambda>h. nprobes h + (nat (ba_max_cycles b) - r_cycle st)) (r_hops st)"
    unfolding q(2) Suc.hyps(2) [symmetric] by simp
  finally have "map nprobes (r_hops st') = map (\<lambda>h. nprobes h + (nat (ba_max_cycles b) - r_cycle st)) (r_hops st)" .
  with step st' show ?case by auto
qed

lemma bmtr_loop_signal:
  assumes "r_sig st = Some n"
  shows "\<exists>st'. bmtr_loop sc run ff c b dest st = Some st'"
  using assms
proof (induction n arbitrary: st rule: less_induct)
  case (less n)
  let ?r = "read_stop (r_sig st)" and ?st = "st\<lparr>r_sig := snd (read_stop (r_sig st))\<rparr>"
  show ?case
  proof (cases "fst ?r \<or> \<not> more_cycles (ba_max_cycles b) (r_cycle st)")
    case True
    then show ?thesis by (subst bmtr_loop.simps) (simp add: Let_def)
  next
    case False
    then have step: "bmtr_loop sc run ff c b dest st = bmtr_loop sc run ff c b dest (bmtr_cycle sc run ff c b dest ?st)"
      by (subst bmtr_loop.simps) (simp add: Let_def)
    have "sig_left (r_sig ?st) < n" "r_sig ?st \<noteq> None"
      using False less.prems read_stop_step read_stop_left(2) [of "Some n"] by auto
    then obtain m where "r_sig (bmtr_cycle sc run ff c b dest ?st) = Some m" "m < n"
      using bmtr_cycle_left [of sc run ff c b dest ?st] by (cases "r_sig (bmtr_cycle sc run ff c b dest ?st)") auto
    from less.IH [OF this(2,1)] step show ?thesis by simp
  qed
qed

text \<open>
C16: The display loop ends: with a cycle count and no interrupt it returns after exactly that many
cycles, each of which probed every hop once; and with an interrupt at whatever point it returns
whatever the count, even when it was to run forever.
\<close>
theorem bmtr_loop_ends:
  "(0 < ba_max_cycles b \<longrightarrow>
      (\<exists>st'. bmtr_loop sc run ff c b dest
               \<lparr>r_hops = hops, r_cycle = 0, r_out = out, r_calls = k, r_sig = None\<rparr> = Some st'
         \<and> int (r_cycle st') = ba_max_cycles b
         \<and> map nprobes (r_hops st') = map (\<lambda>h. nprobes h + nat (ba_max_cycles b)) hops))
   \<and> (\<exists>st'. bmtr_loop sc run ff c b dest
         \<lparr>r_hops = hops, r_cycle = 0, r_out = out, r_calls = k, r_sig = Some n\<rparr> = Some st')"
  using bmtr_loop_counted [of b "\<lparr>r_hops = hops, r_cycle = 0, r_out = out, r_calls = k, r_sig = None\<rparr>"]
    bmtr_loop_signal [of "\<lparr>r_hops = hops, r_cycle = 0, r_out = out, r_calls = k, r_sig = Some n\<rparr>" n]
  by simp

theorem bmtr_loop_ends_witness:
  "\<exists>st'. bmtr_loop \<lparr>sc_ms = (\<lambda>_. None), sc2 = (\<lambda>_. []), sc1 = (\<lambda>_. None)\<rparr> (\<lambda>_ _. None) (\<lambda>_ _ _. [])
       ipu_colors_off (bmtr_defaults\<lparr>ba_max_cycles := 3\<rparr>) ''h''
       \<lparr>r_hops = [new_hop (\<lambda>_. None) 1 ''1 *''], r_cycle = 0, r_out = [], r_calls = 0, r_sig = None\<rparr> = Some st'
     \<and> int (r_cycle st') = 3 \<and> map nprobes (r_hops st') = [3]"
  using bmtr_loop_ends [of "bmtr_defaults\<lparr>ba_max_cycles := 3\<rparr>"
      "\<lparr>sc_ms = (\<lambda>_. None), sc2 = (\<lambda>_. []), sc1 = (\<lambda>_. None)\<rparr>" "\<lambda>_ _. None" "\<lambda>_ _ _. []" ipu_colors_off "''h''"
      "[new_hop (\<lambda>_. None) 1 ''1 *'']" "[]" 0 0]
  by (simp add: new_hop_def Let_def)

end
