(* ===== verification/Bping.thy ===== *)
theory Bping
  imports Btools
begin

text \<open>
  \<open>bping.c\<close>: the round-trip times of three pings, compared with the time light needs for the
  distance between the two ends, and the trace of the hops on request.
\<close>

subsection \<open>Statistics\<close>

record ping_times =
  pt_min :: real
  pt_avg :: real
  pt_max :: real
  pt_mdev :: real

definition times_text :: "ipu_colors_t \<Rightarrow> (real \<Rightarrow> string) \<Rightarrow> string \<Rightarrow> ping_times \<Rightarrow> string" where
  "times_text c f unit t =
     styled c cl_value (f (pt_min t)) @ ''/'' @ styled c cl_value (f (pt_avg t)) @ ''/''
     @ styled c cl_value (f (pt_max t)) @ ''/'' @ styled c cl_value (f (pt_mdev t)) @ '' ''
     @ styled c cl_unit unit"

definition limit_text :: "fmt_f \<Rightarrow> ipu_colors_t \<Rightarrow> real \<Rightarrow> string" where
  "limit_text ff c mbm =
     styled c cl_value (ff 0 3 mbm) @ '' '' @ styled c cl_unit ''ms''
     @ ''   ('' @ styled c cl_detail (ff 0 8 (bs_to_md mbm) @ '' md'') @ '')''"

definition geo_distance_km :: "real bs_geo \<Rightarrow> real bs_geo \<Rightarrow> real" where
  "geo_distance_km a b = bs_haversine_km (geo_lat a) (geo_lon a) (geo_lat b) (geo_lon b)"

definition print_ecef :: "fmt_f \<Rightarrow> ipu_colors_t \<Rightarrow> real \<Rightarrow> real \<Rightarrow> string" where
  "print_ecef ff c floor_mbm ecef_mbm =
     label_line c ''chord dist [ecef]'' ''     = '' (mbm_km ff c ecef_mbm (bs_mbm_to_km ecef_mbm))
     @ label_line c ''light-spd limit [ecef]'' ''= '' (limit_text ff c ecef_mbm)
     @ label_line c ''efficiency [ecef]'' ''     = ''
         (efficiency_text ff c '' check coords'' (efficiency ecef_mbm floor_mbm))"

definition print_geo :: "fmt_f \<Rightarrow> ipu_colors_t \<Rightarrow> real \<Rightarrow> real bs_geo \<Rightarrow> real bs_geo \<Rightarrow> string" where
  "print_geo ff c floor_mbm my_geo tgt_geo =
     (let km = geo_distance_km my_geo tgt_geo; mbm = bs_km_to_mbm km
      in position_line ff c ''  src '' 96 my_geo @ position_line ff c ''  tgt '' 96 tgt_geo
         @ label_line c ''geo distance'' ''          = '' (mbm_km ff c mbm km)
         @ label_line c ''light-spd limit'' ''       = '' (limit_text ff c mbm)
         @ label_line c ''efficiency'' ''            = ''
             (efficiency_text ff c '' geoIP may be off'' (efficiency mbm floor_mbm)))"

definition print_stats ::
  "fmt_f \<Rightarrow> ipu_colors_t \<Rightarrow> string \<Rightarrow> ping_times \<Rightarrow> bool \<Rightarrow> real \<Rightarrow> real bs_geo \<Rightarrow> real bs_geo \<Rightarrow> string" where
  "print_stats ff c dest t have_ecef ecef_mbm my_geo tgt_geo =
     (let floor_mbm = pt_avg t / 2
      in styled c cl_title (''bping '' @ dest @ '':'') @ NL
         @ label_line c ''rtt min/avg/max/mdev'' ''  = '' (times_text c (ff 0 3) ''ms'' t)
         @ label_line c ''rtt min/avg/max/mdev'' ''  = '' (times_text c (\<lambda>v. ff 0 8 (bs_to_md v)) ''md'' t)
         @ label_line c ''light-floor (RTT/2)'' ''   = '' (mbm_km ff c floor_mbm (bs_mbm_to_km floor_mbm))
         @ (if have_ecef then print_ecef ff c floor_mbm ecef_mbm
            else if geo_valid my_geo \<and> geo_valid tgt_geo then print_geo ff c floor_mbm my_geo tgt_geo
            else []))"

subsection \<open>Hops\<close>

definition hop_location :: "'z tool_env_scheme \<Rightarrow> string \<Rightarrow> string" where
  "hop_location te host =
     (if host = ''* * *'' then []
      else let ip = bs_hop_ip host 48
           in if ip = [] then [] else bs_geo_label (Some (tool_geolocate te (Some ip))) 48)"

definition print_hop :: "'z tool_env_scheme \<Rightarrow> ipu_colors_t \<Rightarrow> int \<Rightarrow> string \<Rightarrow> string" where
  "print_hop te c hop buf =
     (let ff = te_fmt te; host = bs_hop_host (te_ms te) buf 64; avg = bs_line_avg_rtt (te_ms te) buf;
          loc = hop_location te host;
          head = ''  '' @ styled c cl_hop (pad_right 4 (int_dec hop))
            @ ''  '' @ styled c cl_host (pad_right 40 host)
            @ ''  '' @ styled c cl_location (pad_right 20 loc)
      in if avg < 0 then head @ ''  '' @ styled c cl_bad (pad_left 10 ''timeout'') @ NL
         else let floorbuf = snprintf_buf 24 (ff 0 3 (avg / 2) @ ''/~'' @ ff 0 0 (avg / 2 * BS_KM_PER_MBM))
              in head @ ''  '' @ styled c cl_rtt (ff 10 3 avg) @ ''  '' @ styled c cl_detail (ff 12 8 (bs_to_md avg))
                 @ ''  '' @ styled c cl_value (pad_left 16 floorbuf) @ NL)"

text \<open>The first line of \<open>traceroute\<close> is its heading.\<close>

definition print_hops :: "'z tool_env_scheme \<Rightarrow> ipu_colors_t \<Rightarrow> string \<Rightarrow> string" where
  "print_hops te c dest =
     (case te_run te (snprintf_buf 512 (''traceroute -q 3 -m 30 '' @ dest @ '' 2>&1'')) of
        None \<Rightarrow> []
      | Some output \<Rightarrow>
          NL @ styled c cl_title ''Per-hop trace:'' @ NL
          @ table_head c [(4, ''hop''), (40, ''host''), (20, ''location''), (10, ''rtt (ms)''), (12, ''rtt (md)''),
              (16, ''floor (mBM/km)'')]
          @ ''  '' @ dashes 4 @ ''  '' @ dashes 40 @ ''  '' @ dashes 20 @ ''  '' @ dashes 10
          @ ''  '' @ dashes 12 @ ''  '' @ dashes 16 @ NL
          @ concat (map (\<lambda>(hop, buf). print_hop te c hop buf)
              (List.map_filter trace_line (tl (fgets_lines 511 output)))))"

subsection \<open>Command line\<close>

record bping_args =
  bp_my_ecef :: "real bs_ecef"
  bp_have_my :: bool
  bp_my_geo :: "real bs_geo"
  bp_tgt_ecef :: "real bs_ecef"
  bp_have_tgt :: bool
  bp_tgt_geo :: "real bs_geo"
  bp_hops :: bool
  bp_dest :: "string option"

definition bping_defaults :: bping_args where
  "bping_defaults = \<lparr>bp_my_ecef = zero_ecef, bp_have_my = False, bp_my_geo = geo_zero 0, bp_tgt_ecef = zero_ecef,
     bp_have_tgt = False, bp_tgt_geo = geo_zero 0, bp_hops = False, bp_dest = None\<rparr>"

definition bping_arg :: "'z tool_env_scheme \<Rightarrow> string \<Rightarrow> bping_args \<Rightarrow> bping_args option" where
  "bping_arg te a b =
     (if has_prefix ''--my-ecef='' a then
        (case bs_parse_ecef (te_scan3 te) (drop 10 a) (bp_my_ecef b) of
           (ok, e) \<Rightarrow> Some (b\<lparr>bp_my_ecef := e, bp_have_my := ok\<rparr>))
      else if has_prefix ''--my-coord='' a then Some (b\<lparr>bp_my_geo := take_coord te (drop 11 a) (bp_my_geo b)\<rparr>)
      else if has_prefix ''--target-ecef='' a then
        (case bs_parse_ecef (te_scan3 te) (drop 14 a) (bp_tgt_ecef b) of
           (ok, e) \<Rightarrow> Some (b\<lparr>bp_tgt_ecef := e, bp_have_tgt := ok\<rparr>))
      else if has_prefix ''--target-coord='' a then Some (b\<lparr>bp_tgt_geo := take_coord te (drop 15 a) (bp_tgt_geo b)\<rparr>)
      else if a = ''--hops'' then Some (b\<lparr>bp_hops := True\<rparr>)
      else if a = ''-h'' \<or> a = ''--help'' then None
      else if hd_nul a \<noteq> CHR ''-'' then Some (b\<lparr>bp_dest := Some a\<rparr>)
      else Some b)"

fun bping_args_loop :: "'z tool_env_scheme \<Rightarrow> bping_args \<Rightarrow> string list \<Rightarrow> bping_args option" where
  "bping_args_loop te b [] = Some b"
| "bping_args_loop te b (a # as) =
     (case bping_arg te a b of None \<Rightarrow> None | Some b' \<Rightarrow> bping_args_loop te b' as)"

subsection \<open>The program\<close>

text \<open>A partial conversion overwrites the values it reached.\<close>

definition ping_summary_line ::
  "(string \<Rightarrow> real list) \<Rightarrow> string \<Rightarrow> ping_times \<times> bool \<Rightarrow> ping_times \<times> bool" where
  "ping_summary_line scan4 buf tg =
     (case tg of (t, got) \<Rightarrow>
       case strstr buf ''='' of
         None \<Rightarrow> (t, got)
       | Some eq \<Rightarrow>
           if strstr buf ''min/avg/max'' = None then (t, got)
           else (case scan4 (tl eq) of
                   [] \<Rightarrow> (t, got)
                 | [a] \<Rightarrow> (t\<lparr>pt_min := a\<rparr>, got)
                 | [a, b] \<Rightarrow> (t\<lparr>pt_min := a, pt_avg := b\<rparr>, got)
                 | [a, b, d] \<Rightarrow> (t\<lparr>pt_min := a, pt_avg := b, pt_max := d\<rparr>, got)
                 | a # b # d # e # _ \<Rightarrow> (\<lparr>pt_min = a, pt_avg = b, pt_max = d, pt_mdev = e\<rparr>, True)))"

definition run_ping :: "'z tool_env_scheme \<Rightarrow> string \<Rightarrow> ping_times option" where
  "run_ping te dest =
     (case te_run te (snprintf_buf 512 (''ping -c 3 '' @ dest @ '' 2>&1'')) of
        None \<Rightarrow> None
      | Some output \<Rightarrow>
          (case fold (ping_summary_line (te_slash te 4)) (fgets_lines 255 output)
                  (\<lparr>pt_min = 0, pt_avg = 0, pt_max = 0, pt_mdev = 0\<rparr>, False) of
             (t, got) \<Rightarrow> if got then Some t else None))"

definition bping_target :: "'z tool_env_scheme \<Rightarrow> bping_args \<Rightarrow> string \<Rightarrow> real bs_geo" where
  "bping_target te b dest =
     (if bp_have_tgt b \<or> geo_valid (bp_tgt_geo b)
      then (if bp_have_tgt b \<and> \<not> geo_valid (bp_tgt_geo b)
            then bs_ecef_to_geo (bp_tgt_ecef b) (bp_tgt_geo b) (Some ''[ecef]'') else bp_tgt_geo b)
      else target_position te (snd (bs_resolve_to_ip (te_getaddrinfo te) dest 64)))"

definition bping_main :: "'z tool_env_scheme \<Rightarrow> string list \<Rightarrow> fs \<Rightarrow> (int \<times> string) \<times> fs" where
  "bping_main te argv fs =
     (case tool_start te argv fs of
        (Inl code, fs1) \<Rightarrow> ((code, []), fs1)
      | (Inr (argv, c), fs1) \<Rightarrow>
     (case bping_args_loop te bping_defaults (tl argv) of
        None \<Rightarrow> ((2, []), fs1)
      | Some b \<Rightarrow>
     (case bp_dest b of
        None \<Rightarrow> ((2, []), fs1)
      | Some dest \<Rightarrow>
     (case own_position te argv (bp_my_ecef b) (bp_have_my b) (bp_my_geo b) fs1 of
        (my_ecef, have_my, my_geo, fs2) \<Rightarrow>
     (case run_ping te dest of
        None \<Rightarrow> ((1, []), fs2)
      | Some t \<Rightarrow>
          (let tgt_geo = bping_target te b dest;
               have_ecef = (have_my \<and> bp_have_tgt b);
               ecef_d = (if have_ecef then bs_ecef_chord_mbm my_ecef (bp_tgt_ecef b) else 0)
           in ((0, print_stats (te_fmt te) c dest t have_ecef ecef_d my_geo tgt_geo
                   @ (if bp_hops b then print_hops te c dest else [])), fs2)))))))"

subsection \<open>Properties\<close>

lemma efficiency_over:
  assumes "0 < avg"
  shows "efficiency mbm (avg / 2) > 100 \<longleftrightarrow> avg < 2 * mbm"
  using assms by (simp add: efficiency_def field_simps)

lemma efficiency_mono: "0 < avg \<Longrightarrow> m \<le> n \<Longrightarrow> efficiency m (avg / 2) \<le> efficiency n (avg / 2)"
  by (simp add: efficiency_def divide_right_mono)

lemma efficiency_line:
  assumes "0 < avg"
  shows "efficiency_text ff c hint (efficiency mbm (avg / 2)) =
    IPU c (if avg < 2 * mbm then cl_warn else cl_ok) @ ff 0 2 (2 * mbm / avg * 100) @ ''%'' @ IPU c cl_reset
      @ (if avg < 2 * mbm then ''  '' @ styled c cl_warn (''[warn: exceeds c '' @ MDASH @ hint @ '']'') else [])"
proof -
  have e: "efficiency mbm (avg / 2) = 2 * mbm / avg * 100" using assms by (simp add: efficiency_def)
  have w: "2 * mbm / avg * 100 > 100 \<longleftrightarrow> avg < 2 * mbm" using efficiency_over [OF assms, of mbm] unfolding e .
  show ?thesis
    unfolding e efficiency_text_def w using w by (simp add: ipu_efficiency_style_def IPU_def)
qed

text \<open>
C21: The report ends with the efficiency, the time light needs to the place and back as a percentage of the
average round trip, and after it comes a warning about a signal faster than light exactly when that
round trip is shorter than light needs. The report from Cartesian coordinates uses the straight chord
\<open>d\<close>, which is shorter, so it never warns about a round trip that the report from the places accepts.
\<close>
theorem bping_light_limit:
  assumes "geo_valid my" "geo_valid tgt" "0 < pt_avg t"
    and "m = bs_km_to_mbm (geo_distance_km my tgt)"
    and "d = bs_ecef_chord_mbm (bs_latlon_to_ecef (geo_lat my) (geo_lon my)) (bs_latlon_to_ecef (geo_lat tgt) (geo_lon tgt))"
  shows "(\<exists>body. print_stats ff c dest t False 0 my tgt = body @ label_line c ''efficiency'' ''            = ''
        (IPU c (if pt_avg t < 2 * m then cl_warn else cl_ok) @ ff 0 2 (2 * m / pt_avg t * 100) @ ''%'' @ IPU c cl_reset
         @ (if pt_avg t < 2 * m then ''  '' @ styled c cl_warn (''[warn: exceeds c '' @ MDASH @ '' geoIP may be off]'') else [])))
    \<and> (\<exists>body. print_stats ff c dest t True d my tgt = body @ label_line c ''efficiency [ecef]'' ''     = ''
        (IPU c (if pt_avg t < 2 * d then cl_warn else cl_ok) @ ff 0 2 (2 * d / pt_avg t * 100) @ ''%'' @ IPU c cl_reset
         @ (if pt_avg t < 2 * d then ''  '' @ styled c cl_warn (''[warn: exceeds c '' @ MDASH @ '' check coords]'') else [])))
    \<and> d \<le> m"
proof (intro conjI)
  note e = efficiency_line [OF assms(3)]
  show "\<exists>body. print_stats ff c dest t False 0 my tgt = body @ label_line c ''efficiency'' ''            = ''
        (IPU c (if pt_avg t < 2 * m then cl_warn else cl_ok) @ ff 0 2 (2 * m / pt_avg t * 100) @ ''%'' @ IPU c cl_reset
         @ (if pt_avg t < 2 * m then ''  '' @ styled c cl_warn (''[warn: exceeds c '' @ MDASH @ '' geoIP may be off]'') else []))"
    using assms(1,2) e [of ff c "'' geoIP may be off''" m]
    unfolding print_stats_def print_geo_def Let_def assms(4) [symmetric]
    by (simp only: append_assoc append.simps if_True if_False simp_thms) (metis append_assoc)
  show "\<exists>body. print_stats ff c dest t True d my tgt = body @ label_line c ''efficiency [ecef]'' ''     = ''
        (IPU c (if pt_avg t < 2 * d then cl_warn else cl_ok) @ ff 0 2 (2 * d / pt_avg t * 100) @ ''%'' @ IPU c cl_reset
         @ (if pt_avg t < 2 * d then ''  '' @ styled c cl_warn (''[warn: exceeds c '' @ MDASH @ '' check coords]'') else []))"
    using e [of ff c "'' check coords''" d]
    unfolding print_stats_def print_ecef_def Let_def
    by (simp only: append_assoc append.simps if_True if_False simp_thms) (metis append_assoc)
  show "d \<le> m" by (simp add: assms(4,5) chord_le_arc geo_distance_km_def)
qed

definition demo_place :: "real \<Rightarrow> real \<Rightarrow> real bs_geo" where
  "demo_place lat lon = (geo_zero 0)\<lparr>geo_lat := lat, geo_lon := lon, geo_valid := True\<rparr>"

lemma haversine_antipodes: "bs_haversine_km 0 0 0 180 = pi * BS_EARTH_RADIUS_KM"
proof -
  have "cos (central_angle 0 0 0 180) = cos pi" by (simp add: cos_central_angle dot_def unit_vec_def)
  then have "central_angle 0 0 0 180 = pi"
    using cos_inj_pi [of "central_angle 0 0 0 180" pi] central_angle_range by simp
  then show ?thesis by (simp add: bs_haversine_angle)
qed

theorem bping_light_limit_witness:
  "\<exists>body m. print_stats (\<lambda>_ _ _. ''1'') ipu_colors_off ''h'' \<lparr>pt_min = 1, pt_avg = 10, pt_max = 20, pt_mdev = 3\<rparr> False 0
        (demo_place 0 0) (demo_place 0 180)
      = body @ label_line ipu_colors_off ''efficiency'' ''            = ''
        (IPU ipu_colors_off cl_warn @ ''1'' @ ''%'' @ IPU ipu_colors_off cl_reset
         @ ''  '' @ styled ipu_colors_off cl_warn (''[warn: exceeds c '' @ MDASH @ '' geoIP may be off]''))
    \<and> m = bs_km_to_mbm (geo_distance_km (demo_place 0 0) (demo_place 0 180)) \<and> 10 < 2 * m"
proof -
  let ?t = "\<lparr>pt_min = 1, pt_avg = 10, pt_max = 20, pt_mdev = 3\<rparr> :: ping_times"
  define m where "m = bs_km_to_mbm (geo_distance_km (demo_place 0 0) (demo_place 0 180))"
  have "(1 :: real) < pi" using pi_ge_two by linarith
  then have w: "pt_avg ?t < 2 * m"
    by (simp add: m_def demo_place_def geo_distance_km_def haversine_antipodes bs_km_to_mbm_def BS_KM_PER_MBM_def BS_EARTH_RADIUS_KM_def)
  moreover have "geo_valid (demo_place 0 0)" "geo_valid (demo_place 0 180)" "0 < pt_avg ?t" by (simp_all add: demo_place_def)
  note bping_light_limit [OF this m_def refl, of "\<lambda>_ _ _. ''1''" ipu_colors_off "''h''", unfolded if_P [OF w]]
  then show ?thesis using w unfolding m_def [symmetric] by (auto simp del: append.simps)
qed

end
