(* ===== verification/Btraceroute.thy ===== *)
theory Btraceroute
  imports Bping
begin

text \<open>
  \<open>btraceroute.c\<close>: the hops of a route with their places, the length of the path over them and its
  comparison with the direct distance.
\<close>

subsection \<open>Hops\<close>

abbreviation TR_MAX_HOPS :: nat where "TR_MAX_HOPS \<equiv> 30"

record hop_t =
  ht_num :: int
  ht_host :: string
  ht_ip :: string
  ht_avg :: real
  ht_geo :: "real bs_geo"

definition tr_hop :: "'z tool_env_scheme \<Rightarrow> int \<Rightarrow> string \<Rightarrow> hop_t" where
  "tr_hop te hopnum buf =
     (let host = bs_hop_host (te_ms te) buf 80; ip = bs_hop_ip host 48
      in \<lparr>ht_num = hopnum, ht_host = host, ht_ip = ip, ht_avg = bs_line_avg_rtt (te_ms te) buf,
          ht_geo = (if host \<noteq> ''* * *'' \<and> ip \<noteq> [] then tool_geolocate te (Some ip) else geo_zero 0)\<rparr>)"

definition tr_row :: "fmt_f \<Rightarrow> ipu_colors_t \<Rightarrow> hop_t \<Rightarrow> string" where
  "tr_row ff c h =
     (let loc = bs_geo_label (Some (ht_geo h)) 48;
          head = ''  '' @ styled c cl_hop (pad_right 4 (int_dec (ht_num h)))
            @ ''  '' @ styled c cl_host (pad_right 42 (ht_host h))
            @ ''  '' @ styled c cl_location (pad_right 22 loc)
      in if ht_avg h < 0 then head @ ''  '' @ styled c cl_bad (pad_left 9 ''timeout'') @ NL
         else let floorbuf = snprintf_buf 20 (ff 0 3 (ht_avg h / 2) @ ''/~'' @ ff 0 0 (ht_avg h / 2 * BS_KM_PER_MBM))
              in head @ ''  '' @ styled c cl_rtt (ff 9 3 (ht_avg h))
                 @ ''  '' @ styled c cl_detail (ff 11 8 (bs_to_md (ht_avg h)))
                 @ ''  '' @ styled c cl_value (pad_left 14 floorbuf) @ NL)"

fun tr_loop :: "'z tool_env_scheme \<Rightarrow> ipu_colors_t \<Rightarrow> hop_t list \<Rightarrow> string \<Rightarrow> string list \<Rightarrow> hop_t list \<times> string" where
  "tr_loop te c hops out [] = (hops, out)"
| "tr_loop te c hops out (buf # bufs) =
     (if \<not> length hops < TR_MAX_HOPS then (hops, out)
      else case trace_line buf of
             None \<Rightarrow> tr_loop te c hops out bufs
           | Some (hopnum, line) \<Rightarrow>
               (let h = tr_hop te hopnum line
                in tr_loop te c (hops @ [h]) (out @ tr_row (te_fmt te) c h) bufs))"

subsection \<open>Summary\<close>

text \<open>\<open>prev\<close> starts at the own position where that is valid.\<close>

fun path_loop :: "real bs_geo option \<Rightarrow> real \<Rightarrow> nat \<Rightarrow> real bs_geo list \<Rightarrow> real \<times> nat" where
  "path_loop prev km segs [] = (km, segs)"
| "path_loop prev km segs (g # gs) =
     (if \<not> geo_valid g then path_loop prev km segs gs
      else case prev of
             None \<Rightarrow> path_loop (Some g) km segs gs
           | Some p \<Rightarrow>
               if geo_valid p then path_loop (Some g) (km + geo_distance_km p g) (segs + 1) gs
               else path_loop (Some g) km segs gs)"

definition path_length :: "real bs_geo \<Rightarrow> hop_t list \<Rightarrow> real \<times> nat" where
  "path_length my_geo hops = path_loop (if geo_valid my_geo then Some my_geo else None) 0 0 (map ht_geo hops)"

definition direct_distance :: "real bs_geo \<Rightarrow> real bs_geo \<Rightarrow> real" where
  "direct_distance my_geo tgt_geo = (if geo_valid my_geo \<and> geo_valid tgt_geo then geo_distance_km my_geo tgt_geo else 0)"

definition last_rtt :: "hop_t list \<Rightarrow> real" where
  "last_rtt hops = (case List.find (\<lambda>h. ht_avg h \<ge> 0) (rev hops) of None \<Rightarrow> 0 | Some h \<Rightarrow> ht_avg h)"

definition path_ratio :: "real \<Rightarrow> real \<Rightarrow> real" where
  "path_ratio path_km direct_km = (if direct_km > 0 then path_km / direct_km else 0)"

definition tr_summary :: "fmt_f \<Rightarrow> ipu_colors_t \<Rightarrow> real bs_geo \<Rightarrow> real bs_geo \<Rightarrow> hop_t list \<Rightarrow> string" where
  "tr_summary ff c my_geo tgt_geo hops =
     (case path_length my_geo hops of (path_km, path_segs) \<Rightarrow>
       let direct_km = direct_distance my_geo tgt_geo; floor_mbm = last_rtt hops / 2;
           direct_mbm = bs_km_to_mbm direct_km
       in (if direct_km > 0
           then label_line c ''direct geo distance'' ''   = '' (mbm_km ff c direct_mbm direct_km)
                @ (if floor_mbm > 0
                   then label_line c ''light-floor (last hop)'' ''= '' (mbm_km ff c floor_mbm (bs_mbm_to_km floor_mbm))
                        @ label_line c ''efficiency'' ''            = ''
                            (efficiency_text ff c '' geoIP may be off'' (direct_mbm / floor_mbm * 100))
                   else [])
           else [])
          @ (if path_km > 0 \<and> path_segs > 1
             then label_line c ''geo path length'' ''       = ''
                    (styled c cl_value (ff 0 0 path_km) @ '' '' @ styled c cl_unit ''km''
                     @ ''  ('' @ styled c cl_detail (ff 0 2 (path_ratio path_km direct_km) @ ''x direct'') @ '')'')
             else []))"

subsection \<open>The program\<close>

record tr_args =
  tr_ecef :: "real bs_ecef"
  tr_have_ecef :: bool
  tr_geo :: "real bs_geo"
  tr_maxhops :: int
  tr_nqueries :: int
  tr_dest :: "string option"

definition tr_defaults :: tr_args where
  "tr_defaults = \<lparr>tr_ecef = zero_ecef, tr_have_ecef = False, tr_geo = geo_zero 0, tr_maxhops = 30, tr_nqueries = 3,
     tr_dest = None\<rparr>"

definition within_or :: "int \<Rightarrow> int \<Rightarrow> int \<Rightarrow> int \<Rightarrow> int" where
  "within_or lo hi dflt n = (if n < lo \<or> n > hi then dflt else n)"

definition tr_arg :: "'z tool_env_scheme \<Rightarrow> string \<Rightarrow> string list \<Rightarrow> tr_args \<Rightarrow> (tr_args \<times> nat) option" where
  "tr_arg te a as b =
     (if has_prefix ''--my-ecef='' a then
        (case bs_parse_ecef (te_scan3 te) (drop 10 a) (tr_ecef b) of
           (ok, e) \<Rightarrow> Some (b\<lparr>tr_ecef := e, tr_have_ecef := ok\<rparr>, 0))
      else if has_prefix ''--my-coord='' a then Some (b\<lparr>tr_geo := take_coord te (drop 11 a) (tr_geo b)\<rparr>, 0)
      else if a = ''-m'' \<and> as \<noteq> [] then Some (b\<lparr>tr_maxhops := within_or 1 255 30 (atoi (hd as))\<rparr>, 1)
      else if has_prefix ''-m'' a then Some (b\<lparr>tr_maxhops := within_or 1 255 30 (atoi (drop 2 a))\<rparr>, 0)
      else if a = ''-q'' \<and> as \<noteq> [] then Some (b\<lparr>tr_nqueries := within_or 1 10 3 (atoi (hd as))\<rparr>, 1)
      else if a = ''-h'' \<or> a = ''--help'' then None
      else if hd_nul a \<noteq> CHR ''-'' then Some (b\<lparr>tr_dest := Some a\<rparr>, 0)
      else Some (b, 0))"

fun tr_args_loop :: "'z tool_env_scheme \<Rightarrow> tr_args \<Rightarrow> string list \<Rightarrow> tr_args option" where
  "tr_args_loop te b [] = Some b"
| "tr_args_loop te b (a # as) =
     (case tr_arg te a as b of None \<Rightarrow> None | Some (b', n) \<Rightarrow> tr_args_loop te b' (drop n as))"

definition tr_heading ::
  "fmt_f \<Rightarrow> ipu_colors_t \<Rightarrow> string \<Rightarrow> string \<Rightarrow> real bs_geo \<Rightarrow> real bs_geo \<Rightarrow> string" where
  "tr_heading ff c dest dest_ip my_geo tgt_geo =
     styled c cl_title (''btraceroute to '' @ dest)
     @ (if dest_ip \<noteq> [] \<and> dest_ip \<noteq> dest then '' ('' @ dest_ip @ '')'' else [])
     @ (if geo_valid tgt_geo
        then (let lbl = bs_geo_label (Some tgt_geo) 96
              in (if lbl \<noteq> [] then '', '' @ styled c cl_location lbl else []) @ '' '' @ styled c cl_tag (geo_tag tgt_geo))
        else [])
     @ NL
     @ (if geo_valid my_geo then position_line ff c ''src '' 96 my_geo else [])
     @ NL
     @ table_head c [(4, ''hop''), (42, ''host''), (22, ''location''), (9, ''rtt (ms)''), (11, ''rtt (md)''),
         (14, ''floor(mBM/km)'')]
     @ ''  '' @ dashes 4 @ ''  '' @ dashes 42 @ ''  '' @ dashes 22 @ ''  '' @ dashes 9
     @ ''  '' @ dashes 11 @ ''  '' @ dashes 14 @ NL"

definition btraceroute_main :: "'z tool_env_scheme \<Rightarrow> string list \<Rightarrow> fs \<Rightarrow> (int \<times> string) \<times> fs" where
  "btraceroute_main te argv fs =
     (case tool_start te argv fs of
        (Inl code, fs1) \<Rightarrow> ((code, []), fs1)
      | (Inr (argv, c), fs1) \<Rightarrow>
     (case tr_args_loop te tr_defaults (tl argv) of
        None \<Rightarrow> ((2, []), fs1)
      | Some b \<Rightarrow>
     (case tr_dest b of
        None \<Rightarrow> ((2, []), fs1)
      | Some dest \<Rightarrow>
     (case own_position te argv (tr_ecef b) (tr_have_ecef b) (tr_geo b) fs1 of
        (_, _, my_geo, fs2) \<Rightarrow>
     (let dest_ip = snd (bs_resolve_to_ip (te_getaddrinfo te) dest 64);
          tgt_geo = target_position te dest_ip;
          heading = tr_heading (te_fmt te) c dest dest_ip my_geo tgt_geo
      in case te_run te (snprintf_buf 512 (''traceroute -q '' @ int_dec (tr_nqueries b) @ '' -m ''
                  @ int_dec (tr_maxhops b) @ '' '' @ dest @ '' 2>&1'')) of
           None \<Rightarrow> ((1, heading), fs2)
         | Some output \<Rightarrow>
             (case tr_loop te c [] [] (tl (fgets_lines 511 output)) of
                (hops, rows) \<Rightarrow>
                  ((0, heading @ rows @ NL @ tr_summary (te_fmt te) c my_geo tgt_geo hops), fs2)))))))"

subsection \<open>Properties\<close>

text \<open>The consecutive legs of a path.\<close>

fun legs_km :: "real bs_geo list \<Rightarrow> real" where
  "legs_km (a # b # gs) = geo_distance_km a b + legs_km (b # gs)"
| "legs_km gs = 0"

lemma path_loop_legs:
  "geo_valid p \<Longrightarrow> path_loop (Some p) km segs gs
     = (km + legs_km (p # filter geo_valid gs), segs + length (filter geo_valid gs))"
  by (induction gs arbitrary: p km segs) simp_all

lemma path_loop_none:
  "path_loop None 0 0 gs = (legs_km (filter geo_valid gs), length (filter geo_valid gs) - 1)"
  by (induction gs) (simp_all add: path_loop_legs)

lemma geo_triangle: "geo_distance_km a c \<le> geo_distance_km a b + geo_distance_km b c"
  unfolding geo_distance_km_def by (rule bs_haversine_triangle)

lemma legs_km_direct: "gs \<noteq> [] \<Longrightarrow> geo_distance_km (hd gs) (last gs) \<le> legs_km gs"
proof (induction gs)
  case (Cons a gs)
  show ?case
  proof (cases gs)
    case Nil
    then show ?thesis by (simp add: geo_distance_km_def bs_haversine_self)
  next
    case (Cons b hs)
    then have "geo_distance_km b (last gs) \<le> legs_km gs" using Cons.IH by simp
    then show ?thesis using Cons geo_triangle [of a "last gs" b] by simp
  qed
qed simp

lemma tr_loop_bound: "length hops \<le> TR_MAX_HOPS \<Longrightarrow> length (fst (tr_loop te c hops out bufs)) \<le> TR_MAX_HOPS"
  by (induction te c hops out bufs rule: tr_loop.induct) (auto simp: Let_def split: option.splits)

text \<open>
From a known position, the reported path is the sum of the great-circle legs over the located
hops, one segment for each. Where the last located hop lies at the target, it is at least the direct
distance, so the reported ratio is never below one.
\<close>
lemma btraceroute_path:
  assumes "geo_valid my_geo" "geo_valid tgt_geo" "gs = filter geo_valid (map ht_geo hops)" "gs \<noteq> []"
    and "geo_lat (last gs) = geo_lat tgt_geo" "geo_lon (last gs) = geo_lon tgt_geo"
  shows "path_length my_geo hops = (legs_km (my_geo # gs), length gs)
    \<and> direct_distance my_geo tgt_geo \<le> legs_km (my_geo # gs)
    \<and> (direct_distance my_geo tgt_geo = 0
       \<or> 1 \<le> path_ratio (fst (path_length my_geo hops)) (direct_distance my_geo tgt_geo))"
proof -
  have len: "path_length my_geo hops = (legs_km (my_geo # gs), length gs)"
    using assms(1) by (simp add: path_length_def path_loop_legs assms(3))
  have direct: "direct_distance my_geo tgt_geo = geo_distance_km my_geo (last gs)"
    using assms(1,2,5,6) by (simp add: direct_distance_def geo_distance_km_def)
  have le: "direct_distance my_geo tgt_geo \<le> legs_km (my_geo # gs)"
    using legs_km_direct [of "my_geo # gs"] assms(4) by (simp add: direct)
  have "0 \<le> direct_distance my_geo tgt_geo"
    by (simp add: direct geo_distance_km_def bs_haversine_nonneg)
  then show ?thesis using len le by (auto simp: path_ratio_def)
qed

definition demo_hop :: "real bs_geo \<Rightarrow> hop_t" where
  "demo_hop g = \<lparr>ht_num = 1, ht_host = ''h'', ht_ip = [], ht_avg = 1, ht_geo = g\<rparr>"


end
