(* ===== verification/Baudit.thy ===== *)
theory Baudit
  imports Btraceroute
begin

text \<open>
  \<open>baudit.c\<close>: rings around measurement anchors. The round-trip time from an anchor bounds how far the
  target can be from it; the tool compares the rings with the looked-up place of the target.
\<close>

subsection \<open>Anchors\<close>

abbreviation MAX_ANCHORS :: nat where "MAX_ANCHORS \<equiv> 32"

record anchor_t =
  an_lat :: real
  an_lon :: real
  an_rtt :: real
  an_label :: string
  an_cli :: bool

definition zero_anchor :: anchor_t where
  "zero_anchor = \<lparr>an_lat = 0, an_lon = 0, an_rtt = 0, an_label = [], an_cli = False\<rparr>"

text \<open>\<open>ae_scan\<close> is \<open>sscanf\<close> with \<open>%lf,%lf,%lf%n\<close>: the values and the characters consumed.\<close>

record audit_env = tool_env +
  ae_scan :: "string \<Rightarrow> real list \<times> nat"

definition parse_anchor :: "(string \<Rightarrow> real list \<times> nat) \<Rightarrow> string \<Rightarrow> anchor_t \<Rightarrow> anchor_t option" where
  "parse_anchor scan s a =
     (case scan s of
        (lat # lon # rtt # _, n) \<Rightarrow>
          (let a = a\<lparr>an_lat := lat, an_lon := lon, an_rtt := rtt, an_cli := True\<rparr>; rest = drop n s
           in Some (if hd_nul rest = CHR '','' then a\<lparr>an_label := take 63 (tl rest)\<rparr> else a))
      | _ \<Rightarrow> None)"

text \<open>The centroid weighted by the inverse radius.\<close>

fun centroid_loop :: "anchor_t list \<Rightarrow> real list \<Rightarrow> real \<times> real \<times> real \<Rightarrow> real \<times> real \<times> real" where
  "centroid_loop (a # as) (r # rs) (wlat, wlon, wtot) =
     (if r \<le> 0 then centroid_loop as rs (wlat, wlon, wtot)
      else let w = 1 / r in centroid_loop as rs (wlat + an_lat a * w, wlon + an_lon a * w, wtot + w))"
| "centroid_loop _ _ acc = acc"

definition weighted_centroid :: "anchor_t list \<Rightarrow> real list \<Rightarrow> real \<times> real" where
  "weighted_centroid anchors radii =
     (case centroid_loop anchors radii (0, 0, 0) of
        (wlat, wlon, wtot) \<Rightarrow> if wtot > 0 then (wlat / wtot, wlon / wtot) else (0, 0))"

subsection \<open>Rings\<close>

definition ring_km :: "anchor_t \<Rightarrow> real" where
  "ring_km a = an_rtt a / 2 * BS_KM_PER_MBM"

definition target_km :: "real bs_geo \<Rightarrow> anchor_t \<Rightarrow> real" where
  "target_km tgt a = (if geo_valid tgt then bs_haversine_km (an_lat a) (an_lon a) (geo_lat tgt) (geo_lon tgt) else - 1)"

definition in_ring :: "real bs_geo \<Rightarrow> anchor_t \<Rightarrow> bool" where
  "in_ring tgt a \<longleftrightarrow> geo_valid tgt \<and> target_km tgt a \<le> ring_km a"

definition n_inside :: "real bs_geo \<Rightarrow> anchor_t list \<Rightarrow> nat" where
  "n_inside tgt anchors = length (filter (in_ring tgt) anchors)"

definition tightest_km :: "real list \<Rightarrow> real" where
  "tightest_km radii = fold (\<lambda>r t. if r < t then r else t) radii 1000000000"

definition anchor_row :: "fmt_f \<Rightarrow> ipu_colors_t \<Rightarrow> real bs_geo \<Rightarrow> anchor_t \<Rightarrow> string" where
  "anchor_row ff c tgt a =
     (let dist_buf = (if target_km tgt a \<ge> 0 then snprintf_buf 16 (ff 0 0 (target_km tgt a)) else ''?'');
          in_buf = (if geo_valid tgt then snprintf_buf 8 (if in_ring tgt a then ''yes'' else ''NO'') else ''?'');
          e = bs_latlon_to_ecef (an_lat a) (an_lon a)
      in ''  '' @ styled c cl_host (pad_right 28 (if an_label a \<noteq> [] then an_label a else ''(unnamed)''))
         @ ''  '' @ styled c cl_value (ff 9 5 (ecef_x e)) @ ''  '' @ styled c cl_value (ff 9 5 (ecef_y e))
         @ ''  '' @ styled c cl_value (ff 9 5 (ecef_z e)) @ ''  '' @ styled c cl_rtt (ff 10 3 (an_rtt a))
         @ ''  '' @ styled c cl_value (ff 8 0 (ring_km a)) @ ''  '' @ styled c cl_value (pad_left 8 dist_buf)
         @ ''  '' @ ipu_in_ring_style c (in_ring tgt a) @ pad_left 8 in_buf @ IPU c cl_reset @ NL)"

definition audit_table :: "fmt_f \<Rightarrow> ipu_colors_t \<Rightarrow> real bs_geo \<Rightarrow> anchor_t list \<Rightarrow> string" where
  "audit_table ff c tgt anchors =
     NL @ table_head c [(28, ''anchor''), (9, ''x(BM)''), (9, ''y(BM)''), (9, ''z(BM)''), (10, ''rtt(ms)''),
       (8, ''ring(km)''), (8, ''tgt_dist''), (8, ''in_ring?'')]
     @ ''  '' @ dashes 28 @ ''  '' @ dashes 9 @ ''  '' @ dashes 9 @ ''  '' @ dashes 9 @ ''  '' @ dashes 10
     @ ''  '' @ dashes 8 @ ''  '' @ dashes 8 @ ''  '' @ dashes 8 @ NL
     @ concat (map (anchor_row ff c tgt) anchors)"

text \<open>The arrow of the last label, in UTF-8.\<close>

definition ARROW :: string where "ARROW = [CHR 0xE2, CHR 0x86, CHR 0x92]"

definition verdict_text :: "ipu_colors_t \<Rightarrow> real bs_geo \<Rightarrow> anchor_t list \<Rightarrow> string" where
  "verdict_text c tgt anchors =
     (if n_inside tgt anchors = length anchors
      then let lbl = bs_geo_label (Some tgt) 80
           in styled c cl_ok (''consistent '' @ MDASH @ '' geoIP '' @ (if lbl \<noteq> [] then lbl else geo_tag tgt) @ '' is plausible'')
      else styled c cl_bad (''INCONSISTENT '' @ MDASH @ '' geoIP placement conflicts'' @ NL @ replicate 26 (CHR '' '')
             @ ''with '' @ nat_dec (length anchors - n_inside tgt anchors) @ '' anchor(s) '' @ MDASH
             @ '' possible anycast / VPN''))"

definition consistency_text :: "fmt_f \<Rightarrow> ipu_colors_t \<Rightarrow> real bs_geo \<Rightarrow> anchor_t list \<Rightarrow> string" where
  "consistency_text ff c tgt anchors =
     (let n = n_inside tgt anchors; score = real n / real (length anchors) * 100;
          score_style = (if n = length anchors then cl_ok c else cl_warn c)
      in label_line c ''geoIP consistency'' ''     = ''
           (styled c cl_value (nat_dec n @ ''/'' @ nat_dec (length anchors)) @ '' anchors (''
            @ score_style @ ff 0 0 score @ ''%'' @ IPU c cl_reset @ '')'')
         @ label_line c ''verdict'' ''               : '' (verdict_text c tgt anchors))"

definition audit_summary :: "fmt_f \<Rightarrow> ipu_colors_t \<Rightarrow> real bs_geo \<Rightarrow> anchor_t list \<Rightarrow> string" where
  "audit_summary ff c tgt anchors =
     (let radii = map ring_km anchors; (est_lat, est_lon) = weighted_centroid anchors radii;
          e = bs_latlon_to_ecef est_lat est_lon; t = tightest_km radii
      in NL
         @ label_line c ''weighted centroid'' ''     = ''
             (styled c cl_value (ff 0 5 (ecef_x e) @ '', '' @ ff 0 5 (ecef_y e) @ '', '' @ ff 0 5 (ecef_z e))
              @ '' '' @ styled c cl_unit ''BM'')
         @ label_line c ''tightest ring radius'' ''  = ''
             (styled c cl_value (ff 0 0 t) @ '' '' @ styled c cl_unit ''km'' @ ''  (''
              @ styled c cl_detail (''target within '' @ ff 0 0 t @ '' km of best anchor'') @ '')'')
         @ (if geo_valid tgt \<and> length anchors > 0 then consistency_text ff c tgt anchors else [])
         @ (if geo_valid tgt
            then label_line c (''centroid '' @ ARROW @ '' geoIP'') ''      = ''
                   (styled c cl_value (ff 0 0 (bs_haversine_km est_lat est_lon (geo_lat tgt) (geo_lon tgt)))
                    @ '' '' @ styled c cl_unit ''km'')
            else []))"

subsection \<open>The program\<close>

record audit_args =
  aa_ecef :: "real bs_ecef"
  aa_have_ecef :: bool
  aa_geo :: "real bs_geo"
  aa_anchors :: "anchor_t list"
  aa_count :: int
  aa_dest :: "string option"

definition audit_defaults :: audit_args where
  "audit_defaults = \<lparr>aa_ecef = zero_ecef, aa_have_ecef = False, aa_geo = geo_zero 0, aa_anchors = [], aa_count = 5,
     aa_dest = None\<rparr>"

definition add_anchor :: "(string \<Rightarrow> real list \<times> nat) \<Rightarrow> string \<Rightarrow> anchor_t list \<Rightarrow> anchor_t list" where
  "add_anchor scan s anchors =
     (if length anchors < MAX_ANCHORS
      then case parse_anchor scan s zero_anchor of None \<Rightarrow> anchors | Some a \<Rightarrow> anchors @ [a]
      else anchors)"

definition audit_arg :: "audit_env \<Rightarrow> string \<Rightarrow> string list \<Rightarrow> audit_args \<Rightarrow> (audit_args \<times> nat) option" where
  "audit_arg te a as b =
     (if has_prefix ''--my-ecef='' a then
        (case bs_parse_ecef (te_scan3 te) (drop 10 a) (aa_ecef b) of
           (ok, e) \<Rightarrow> Some (b\<lparr>aa_ecef := e, aa_have_ecef := ok\<rparr>, 0))
      else if has_prefix ''--my-coord='' a then Some (b\<lparr>aa_geo := take_coord te (drop 11 a) (aa_geo b)\<rparr>, 0)
      else if has_prefix ''--anchor='' a then Some (b\<lparr>aa_anchors := add_anchor (ae_scan te) (drop 9 a) (aa_anchors b)\<rparr>, 0)
      else if a = ''-c'' \<and> as \<noteq> [] then Some (b\<lparr>aa_count := within_or 1 100 5 (atoi (hd as))\<rparr>, 1)
      else if has_prefix ''-c'' a then Some (b\<lparr>aa_count := within_or 1 100 5 (atoi (drop 2 a))\<rparr>, 0)
      else if a = ''-h'' \<or> a = ''--help'' then None
      else if hd_nul a \<noteq> CHR ''-'' then Some (b\<lparr>aa_dest := Some a\<rparr>, 0)
      else Some (b, 0))"

fun audit_args_loop :: "audit_env \<Rightarrow> audit_args \<Rightarrow> string list \<Rightarrow> audit_args option" where
  "audit_args_loop te b [] = Some b"
| "audit_args_loop te b (a # as) =
     (case audit_arg te a as b of None \<Rightarrow> None | Some (b', n) \<Rightarrow> audit_args_loop te b' (drop n as))"

definition self_rtt_line :: "(string \<Rightarrow> real list) \<Rightarrow> string \<Rightarrow> real \<Rightarrow> real" where
  "self_rtt_line scan2 buf rtt =
     (case strstr buf ''='' of
        None \<Rightarrow> rtt
      | Some eq \<Rightarrow>
          if strstr buf ''min/avg/max'' = None then rtt
          else case scan2 (tl eq) of vmin # vavg # _ \<Rightarrow> vavg | _ \<Rightarrow> rtt)"

definition self_rtt :: "audit_env \<Rightarrow> real bs_geo \<Rightarrow> int \<Rightarrow> string \<Rightarrow> real" where
  "self_rtt te my_geo count dest =
     (if \<not> geo_valid my_geo then - 1
      else case te_run te (snprintf_buf 256 (''ping -c '' @ int_dec count @ '' '' @ dest @ '' 2>&1'')) of
             None \<Rightarrow> - 1
           | Some output \<Rightarrow> fold (self_rtt_line (te_slash te 2)) (fgets_lines 255 output) (- 1))"

definition self_anchor :: "real bs_geo \<Rightarrow> real \<Rightarrow> anchor_t" where
  "self_anchor my_geo rtt =
     (let lbl = bs_geo_label (Some my_geo) 80
      in \<lparr>an_lat = geo_lat my_geo, an_lon = geo_lon my_geo, an_rtt = rtt,
          an_label = snprintf_buf 64 ((if lbl \<noteq> [] then lbl else ''self'') @ '' '' @ geo_tag my_geo), an_cli = False\<rparr>)"

definition with_self :: "real bs_geo \<Rightarrow> real \<Rightarrow> anchor_t list \<Rightarrow> anchor_t list" where
  "with_self my_geo rtt anchors =
     (if geo_valid my_geo \<and> rtt > 0 \<and> length anchors < MAX_ANCHORS then self_anchor my_geo rtt # anchors else anchors)"

definition audit_heading :: "ipu_colors_t \<Rightarrow> string \<Rightarrow> string \<Rightarrow> real bs_geo \<Rightarrow> string" where
  "audit_heading c dest dest_ip tgt =
     styled c cl_title (''baudit '' @ MDASH @ '' '' @ dest)
     @ (if dest_ip \<noteq> [] \<and> dest_ip \<noteq> dest then '' ('' @ dest_ip @ '')'' else [])
     @ (if geo_valid tgt
        then (let lbl = bs_geo_label (Some tgt) 80
              in (if lbl \<noteq> [] then ''  '' @ styled c cl_location lbl else []) @ ''  '' @ styled c cl_tag (geo_tag tgt))
        else [])
     @ NL"

definition baudit_main :: "audit_env \<Rightarrow> string list \<Rightarrow> fs \<Rightarrow> (int \<times> string) \<times> fs" where
  "baudit_main te argv fs =
     (case tool_start te argv fs of
        (Inl code, fs1) \<Rightarrow> ((code, []), fs1)
      | (Inr (argv, c), fs1) \<Rightarrow>
     (case audit_args_loop te audit_defaults (tl argv) of
        None \<Rightarrow> ((2, []), fs1)
      | Some b \<Rightarrow>
     (case aa_dest b of
        None \<Rightarrow> ((2, []), fs1)
      | Some dest \<Rightarrow>
     (case own_position te argv (aa_ecef b) (aa_have_ecef b) (aa_geo b) fs1 of
        (_, _, my_geo, fs2) \<Rightarrow>
     (let dest_ip = snd (bs_resolve_to_ip (te_getaddrinfo te) dest 64);
          tgt = target_position te dest_ip;
          anchors = with_self my_geo (self_rtt te my_geo (aa_count b) dest) (aa_anchors b);
          heading = audit_heading c dest dest_ip tgt
      in if anchors = [] then ((1, heading), fs2)
         else ((0, heading @ audit_table (te_fmt te) c tgt anchors @ audit_summary (te_fmt te) c tgt anchors), fs2))))))"

subsection \<open>Properties\<close>

lemma add_anchor_bound: "length anchors \<le> MAX_ANCHORS \<Longrightarrow> length (add_anchor scan s anchors) \<le> MAX_ANCHORS"
  by (simp add: add_anchor_def split: option.splits)

lemma audit_args_bound:
  "audit_args_loop te b as = Some b' \<Longrightarrow> length (aa_anchors b) \<le> MAX_ANCHORS \<Longrightarrow> length (aa_anchors b') \<le> MAX_ANCHORS"
proof (induction te b as rule: audit_args_loop.induct)
  case (2 te b a as)
  then obtain b1 n where b1: "audit_arg te a as b = Some (b1, n)" "audit_args_loop te b1 (drop n as) = Some b'"
    by (auto split: option.splits)
  have "length (aa_anchors b1) \<le> MAX_ANCHORS"
    using b1(1) 2(3) by (auto simp: audit_arg_def add_anchor_bound split: if_splits prod.splits)
  with 2(1) b1 show ?case by auto
qed simp

text \<open>The anchors that take part in the centroid.\<close>

definition weighted :: "anchor_t list \<Rightarrow> real list \<Rightarrow> (anchor_t \<times> real) list" where
  "weighted anchors radii = filter (\<lambda>(_, r). r > 0) (zip anchors radii)"

lemma centroid_loop_sums:
  "centroid_loop as rs (x, y, z) =
     (x + (\<Sum>(a, r)\<leftarrow>weighted as rs. an_lat a * (1 / r)), y + (\<Sum>(a, r)\<leftarrow>weighted as rs. an_lon a * (1 / r)),
      z + (\<Sum>(a, r)\<leftarrow>weighted as rs. 1 / r))"
  by (induction as rs "(x, y, z)" arbitrary: x y z rule: centroid_loop.induct) (auto simp: weighted_def Let_def)

lemma weights_pos: "0 \<le> (\<Sum>(a, r)\<leftarrow>weighted as rs. 1 / r)"
  by (intro sum_list_nonneg) (auto simp: weighted_def)

lemma weighted_between:
  assumes "list_all (\<lambda>a. lo \<le> f a \<and> f a \<le> hi) as"
  shows "lo * (\<Sum>(a, r)\<leftarrow>weighted as rs. 1 / r) \<le> (\<Sum>(a, r)\<leftarrow>weighted as rs. f a * (1 / r))"
    "(\<Sum>(a, r)\<leftarrow>weighted as rs. f a * (1 / r)) \<le> hi * (\<Sum>(a, r)\<leftarrow>weighted as rs. 1 / r)"
proof -
  have "lo * (1 / r) \<le> f a * (1 / r) \<and> f a * (1 / r) \<le> hi * (1 / r)" if "(a, r) \<in> set (weighted as rs)" for a r
    using that assms by (auto simp: weighted_def list_all_iff dest!: set_zip_leftD intro!: divide_right_mono)
  then show "lo * (\<Sum>(a, r)\<leftarrow>weighted as rs. 1 / r) \<le> (\<Sum>(a, r)\<leftarrow>weighted as rs. f a * (1 / r))"
    "(\<Sum>(a, r)\<leftarrow>weighted as rs. f a * (1 / r)) \<le> hi * (\<Sum>(a, r)\<leftarrow>weighted as rs. 1 / r)"
    unfolding sum_list_const_mult [symmetric] by (auto intro!: sum_list_mono split: prod.splits)
qed

lemma weights_positive: "weighted as rs \<noteq> [] \<Longrightarrow> 0 < (\<Sum>(a, r)\<leftarrow>weighted as rs. 1 / r)"
proof (cases "weighted as rs")
  case (Cons ar xs)
  have pos: "list_all (\<lambda>(_, r). 0 < r) (ar # xs)" by (simp only: Cons [symmetric]) (auto simp: weighted_def list_all_iff)
  then have "0 \<le> (\<Sum>(a, r)\<leftarrow>xs. 1 / r)" by (intro sum_list_nonneg) (fastforce simp: list_all_iff)
  then show ?thesis using pos unfolding Cons by (cases ar) (simp add: add_pos_nonneg)
qed simp

text \<open>
The estimated position lies between the anchors: where at least one anchor has a ring of positive
radius, latitude and longitude of the estimate stay within any bounds that hold for the anchors.
\<close>
lemma baudit_centroid:
  assumes "weighted anchors radii \<noteq> []"
    and "list_all (\<lambda>a. la0 \<le> an_lat a \<and> an_lat a \<le> la1) anchors"
    and "list_all (\<lambda>a. lo0 \<le> an_lon a \<and> an_lon a \<le> lo1) anchors"
  shows "case weighted_centroid anchors radii of (lat, lon) \<Rightarrow> la0 \<le> lat \<and> lat \<le> la1 \<and> lo0 \<le> lon \<and> lon \<le> lo1"
proof -
  have w: "0 < (\<Sum>(a, r)\<leftarrow>weighted anchors radii. 1 / r)" by (rule weights_positive [OF assms(1)])
  show ?thesis
    using w weighted_between [OF assms(2), of radii] weighted_between [OF assms(3), of radii]
    by (simp add: weighted_centroid_def centroid_loop_sums pos_le_divide_eq pos_divide_le_eq)
qed

definition demo_anchor :: "real \<Rightarrow> real \<Rightarrow> real \<Rightarrow> anchor_t" where
  "demo_anchor lat lon rtt = \<lparr>an_lat = lat, an_lon = lon, an_rtt = rtt, an_label = [], an_cli = True\<rparr>"


lemma n_inside_all: "n_inside tgt anchors = length anchors \<longleftrightarrow> list_all (in_ring tgt) anchors"
  unfolding n_inside_def list_all_iff by (metis filter_id_conv length_filter_less less_irrefl)

lemma rings_meet:
  assumes "in_ring tgt a" "in_ring tgt b"
  shows "bs_haversine_km (an_lat a) (an_lon a) (an_lat b) (an_lon b) \<le> ring_km a + ring_km b"
proof -
  have "bs_haversine_km (an_lat a) (an_lon a) (an_lat b) (an_lon b)
      \<le> bs_haversine_km (an_lat a) (an_lon a) (geo_lat tgt) (geo_lon tgt)
        + bs_haversine_km (geo_lat tgt) (geo_lon tgt) (an_lat b) (an_lon b)"
    by (rule bs_haversine_triangle)
  also have "bs_haversine_km (geo_lat tgt) (geo_lon tgt) (an_lat b) (an_lon b)
      = bs_haversine_km (an_lat b) (an_lon b) (geo_lat tgt) (geo_lon tgt)"
    by (rule bs_haversine_sym)
  finally show ?thesis using assms by (auto simp: in_ring_def target_km_def)
qed

text \<open>The time light needs to an anchor's round trip, in milliseconds, and the verdict it leads to.\<close>

definition light_ms :: "real bs_geo \<Rightarrow> anchor_t \<Rightarrow> real" where
  "light_ms tgt a = 2 * bs_km_to_mbm (bs_haversine_km (an_lat a) (an_lon a) (geo_lat tgt) (geo_lon tgt))"

lemma in_ring_light: "geo_valid tgt \<Longrightarrow> in_ring tgt a \<longleftrightarrow> light_ms tgt a \<le> an_rtt a"
  using const_pos(1) by (auto simp: in_ring_def target_km_def ring_km_def bs_km_to_mbm_def light_ms_def field_simps)

lemma n_outside: "length anchors - n_inside tgt anchors = length (filter (\<lambda>a. \<not> in_ring tgt a) anchors)"
  using sum_length_filter_compl [of "in_ring tgt" anchors] by (simp add: n_inside_def)

lemma text_between: "\<exists>pre post. nl @ s @ t @ text @ u = pre @ text @ post"
  by (metis append_assoc)

lemma summary_verdict:
  assumes "geo_valid tgt" "anchors \<noteq> []"
  shows "\<exists>pre post. audit_summary ff c tgt anchors
    = pre @ label_line c ''verdict'' ''               : '' (verdict_text c tgt anchors) @ post"
proof -
  have "\<exists>pre2. consistency_text ff c tgt anchors = pre2 @ label_line c ''verdict'' ''               : '' (verdict_text c tgt anchors)"
    unfolding consistency_text_def Let_def by blast
  then obtain pre2 where "consistency_text ff c tgt anchors
      = pre2 @ label_line c ''verdict'' ''               : '' (verdict_text c tgt anchors)" ..
  moreover have "\<exists>pre post. audit_summary ff c tgt anchors = pre @ consistency_text ff c tgt anchors @ post"
    unfolding audit_summary_def Let_def split_beta
    by (simp only: assms length_greater_0_conv not_False_eq_True simp_thms if_True) (rule text_between)
  ultimately show ?thesis by (metis append_assoc)
qed

lemma verdict_light:
  assumes "geo_valid tgt"
  shows "verdict_text c tgt anchors =
      (if \<forall>a\<in>set anchors. light_ms tgt a \<le> an_rtt a
       then styled c cl_ok (''consistent '' @ MDASH @ '' geoIP ''
              @ (if bs_geo_label (Some tgt) 80 \<noteq> [] then bs_geo_label (Some tgt) 80 else geo_tag tgt) @ '' is plausible'')
       else styled c cl_bad (''INCONSISTENT '' @ MDASH @ '' geoIP placement conflicts'' @ NL @ replicate 26 (CHR '' '')
              @ ''with '' @ nat_dec (length (filter (\<lambda>a. an_rtt a < light_ms tgt a) anchors)) @ '' anchor(s) '' @ MDASH
              @ '' possible anycast / VPN''))"
  unfolding verdict_text_def Let_def n_inside_all list_all_iff n_outside in_ring_light [OF assms] not_le by (rule refl)

text \<open>
C20: The verdict in the summary is the one the speed of light gives. The program prints that a placement
is consistent when the round trip to every anchor took at least the time light needs to the place
and back, and else prints that it is not, with the number of anchors that answered faster. And where two
anchors have rings that cannot meet, every placement is called inconsistent.
\<close>
theorem baudit_verdict:
  assumes "geo_valid tgt" "anchors \<noteq> []"
  shows "(\<exists>pre post. audit_summary ff c tgt anchors = pre @ label_line c ''verdict'' ''               : ''
      (if \<forall>a\<in>set anchors. light_ms tgt a \<le> an_rtt a
       then styled c cl_ok (''consistent '' @ MDASH @ '' geoIP ''
              @ (if bs_geo_label (Some tgt) 80 \<noteq> [] then bs_geo_label (Some tgt) 80 else geo_tag tgt) @ '' is plausible'')
       else styled c cl_bad (''INCONSISTENT '' @ MDASH @ '' geoIP placement conflicts'' @ NL @ replicate 26 (CHR '' '')
              @ ''with '' @ nat_dec (length (filter (\<lambda>a. an_rtt a < light_ms tgt a) anchors)) @ '' anchor(s) '' @ MDASH
              @ '' possible anycast / VPN'')) @ post)
    \<and> ((\<exists>a\<in>set anchors. \<exists>b\<in>set anchors. (an_rtt a / 2 + an_rtt b / 2) * BS_KM_PER_MBM < bs_haversine_km (an_lat a) (an_lon a) (an_lat b) (an_lon b))
        \<longrightarrow> (\<exists>pre post n. 0 < n \<and> audit_summary ff c tgt anchors = pre @ label_line c ''verdict'' ''               : ''
          (styled c cl_bad (''INCONSISTENT '' @ MDASH @ '' geoIP placement conflicts'' @ NL @ replicate 26 (CHR '' '')
              @ ''with '' @ nat_dec n @ '' anchor(s) '' @ MDASH @ '' possible anycast / VPN'')) @ post))"
    (is "?exact \<and> (?apart \<longrightarrow> ?never)")
proof
  show ?exact using summary_verdict [OF assms, of ff c] unfolding verdict_light [OF assms(1)] .
  show "?apart \<longrightarrow> ?never"
  proof
    assume ?apart
    then have "\<not> list_all (in_ring tgt) anchors"
      using rings_meet [of tgt] by (auto simp: list_all_iff ring_km_def distrib_right) (metis not_le)
    then have ne: "n_inside tgt anchors \<noteq> length anchors" by (simp add: n_inside_all)
    moreover from this have "0 < length anchors - n_inside tgt anchors"
      unfolding n_inside_def by (metis length_filter_le le_neq_implies_less zero_less_diff)
    moreover note summary_verdict [OF assms, of ff c, unfolded verdict_text_def if_not_P [OF ne]]
    ultimately show ?never by blast
  qed
qed

theorem baudit_verdict_witness:
  "\<exists>pre post n. 0 < n \<and> audit_summary (\<lambda>_ _ _. []) ipu_colors_off (demo_place 0 0) [demo_anchor 0 0 1, demo_anchor 0 180 1]
     = pre @ label_line ipu_colors_off ''verdict'' ''               : ''
        (styled ipu_colors_off cl_bad (''INCONSISTENT '' @ MDASH @ '' geoIP placement conflicts'' @ NL @ replicate 26 (CHR '' '')
              @ ''with '' @ nat_dec n @ '' anchor(s) '' @ MDASH @ '' possible anycast / VPN'')) @ post"
proof -
  have "(1 :: real) < pi" using pi_ge_two by linarith
  then have "(an_rtt (demo_anchor 0 0 1) / 2 + an_rtt (demo_anchor 0 180 1) / 2) * BS_KM_PER_MBM
      < bs_haversine_km (an_lat (demo_anchor 0 0 1)) (an_lon (demo_anchor 0 0 1))
          (an_lat (demo_anchor 0 180 1)) (an_lon (demo_anchor 0 180 1))"
    by (simp add: demo_anchor_def haversine_antipodes BS_KM_PER_MBM_def BS_EARTH_RADIUS_KM_def)
  moreover have "geo_valid (demo_place 0 0)" by (simp add: demo_place_def)
  ultimately show ?thesis
    using baudit_verdict [of "demo_place 0 0" "[demo_anchor 0 0 1, demo_anchor 0 180 1]" "\<lambda>_ _ _. []" ipu_colors_off] by fastforce
qed

end
