(* ===== verification/Inet_Cksum.thy ===== *)
theory Inet_Cksum
  imports C_Prelude
begin

text \<open>
  The two implementations of the Internet checksum in the tree: the one of \<open>clockdiff.c\<close>, which
  folds the carry after every word, and the one of \<open>ping/ping.c\<close>, which sums first and folds
  twice. Their common contract, the one's complement sum of RFC 1071 over little-endian words,
  is the locale \<open>internet_checksum\<close>; what a sender and a receiver get from it is proved there once.
  C's \<open>int\<close> is a mathematical integer with the conversion to 32 bits written out.
\<close>

subsection \<open>One's complement sums\<close>

fun words_sum :: "bytes \<Rightarrow> nat" where
  "words_sum [] = 0"
| "words_sum [b] = unat b"
| "words_sum (a # b # r) = unat a + 256 * unat b + words_sum r"

definition ones_fold :: "nat \<Rightarrow> nat" where
  "ones_fold n = (if n = 0 then 0 else (n - 1) mod 65535 + 1)"

definition le16 :: "16 word \<Rightarrow> bytes" where
  "le16 w = [ucast w, ucast (drop_bit 8 w)]"

lemma ones_fold_le: "ones_fold n \<le> 65535"
proof -
  have "(n - 1) mod 65535 < 65535" by simp
  then have "(n - 1) mod 65535 + 1 \<le> 65535" by linarith
  then show ?thesis by (simp only: ones_fold_def split: if_split) simp
qed

lemma ones_fold_0 [simp]: "ones_fold n = 0 \<longleftrightarrow> n = 0"
  by (simp add: ones_fold_def)

lemma ones_fold_mod: "ones_fold n mod 65535 = n mod 65535"
proof (cases n)
  case (Suc m)
  have "(m mod 65535 + 1) mod 65535 = (m + 1) mod 65535" by (rule mod_add_left_eq)
  then show ?thesis by (simp add: ones_fold_def Suc)
qed (simp add: ones_fold_def)

text \<open>A fold is determined by its residue and by being zero.\<close>

lemma ones_fold_unique:
  assumes "r \<le> 65535" "r mod 65535 = n mod 65535" "r = 0 \<longleftrightarrow> n = 0"
  shows "r = ones_fold n"
proof (cases "n = 0")
  case False
  have "ones_fold n mod 65535 = r mod 65535" using assms(2) ones_fold_mod by simp
  moreover have "ones_fold n \<noteq> 0" "r \<noteq> 0" using False assms(3) by simp_all
  moreover have "x mod 65535 = y mod 65535 \<Longrightarrow> x \<noteq> 0 \<Longrightarrow> y \<noteq> 0 \<Longrightarrow> x \<le> 65535 \<Longrightarrow> y \<le> 65535 \<Longrightarrow> x = y"
    for x y :: nat
    by (cases "x = 65535"; cases "y = 65535"; simp)
  ultimately show ?thesis using ones_fold_le [of n] assms(1) by metis
qed (use assms in simp)

lemma ones_fold_add: "ones_fold (ones_fold a + b) = ones_fold (a + b)"
proof (rule ones_fold_unique [OF ones_fold_le])
  have "(ones_fold a + b) mod 65535 = (a + b) mod 65535"
    using ones_fold_mod [of a] by (metis mod_add_left_eq)
  then show "ones_fold (ones_fold a + b) mod 65535 = (a + b) mod 65535" by (simp add: ones_fold_mod)
qed simp

lemma words_sum_append_even:
  "even (length xs) \<Longrightarrow> words_sum (xs @ ys) = words_sum xs + words_sum ys"
  by (induction xs rule: words_sum.induct) auto

lemma unat_le16: "unat (ucast w :: byte) + 256 * unat (ucast (drop_bit 8 w) :: byte) = unat (w :: 16 word)"
proof -
  have w: "unat w < 65536" using unsigned_less [of w] by simp
  then have "unat w div 256 < 256" by (simp add: div_less_iff_less_mult)
  moreover have "unat (ucast w :: byte) = unat w mod 256"
    by (simp add: unsigned_ucast_eq take_bit_eq_mod)
  moreover have "unat (ucast (drop_bit 8 w) :: byte) = (unat w mod 65536 div 256) mod 256"
    by (simp only: unsigned_ucast_eq unsigned_drop_bit_eq) (simp add: take_bit_eq_mod drop_bit_eq_div)
  ultimately show ?thesis using w mult_div_mod_eq [of 256 "unat w"] by simp
qed

lemma words_sum_le16 [simp]: "words_sum (le16 w) = unat w"
  by (simp add: le16_def unat_le16)

lemma words_sum_bound: "words_sum bs \<le> 65535 * ((length bs + 1) div 2)"
proof (induction bs rule: words_sum.induct)
  case (2 b)
  show ?case using unat_byte_less [of b] by (simp del: unat_byte_less)
next
  case (3 a b r)
  then show ?case using unat_byte_less [of a] unat_byte_less [of b] by (simp del: unat_byte_less)
qed simp

subsection \<open>The contract\<close>

locale internet_checksum =
  fixes cksum :: "bytes \<Rightarrow> 16 word" and fits :: "bytes \<Rightarrow> bool"
  assumes spec: "fits bs \<Longrightarrow> cksum bs = of_nat (65535 - ones_fold (words_sum bs))"
begin

lemma unat_spec: "fits bs \<Longrightarrow> unat (cksum bs) = 65535 - ones_fold (words_sum bs)"
  by (simp add: spec unat_of_nat)

text \<open>The receiver's check: a message that carries its checksum sums to zero.\<close>

lemma verify:
  assumes "even (length pre)" "fits (pre @ [0, 0] @ post)" "fits (pre @ le16 (cksum (pre @ [0, 0] @ post)) @ post)"
  shows "cksum (pre @ le16 (cksum (pre @ [0, 0] @ post)) @ post) = 0"
proof -
  let ?s = "words_sum pre + words_sum post" and ?c = "cksum (pre @ [0, 0] @ post)"
  have s: "words_sum (pre @ [0, 0] @ post) = ?s"
    using words_sum_append_even [OF assms(1), of "[0, 0] @ post"] by simp
  have "words_sum (le16 ?c @ post) = unat ?c + words_sum post"
    using words_sum_append_even [of "le16 ?c" post] words_sum_le16 [of ?c] by (simp add: le16_def)
  then have s': "words_sum (pre @ le16 ?c @ post) = ?s + unat ?c"
    using words_sum_append_even [OF assms(1), of "le16 ?c @ post"] by simp
  have c: "unat ?c = 65535 - ones_fold ?s" using unat_spec [OF assms(2)] unfolding s .
  have "65535 = ones_fold (?s + unat ?c)"
  proof (rule ones_fold_unique)
    have "?s mod 65535 = ones_fold ?s mod 65535" by (simp add: ones_fold_mod)
    then have "(?s + unat ?c) mod 65535 = (ones_fold ?s + unat ?c) mod 65535" by (metis mod_add_left_eq)
    also have "ones_fold ?s + unat ?c = 65535" unfolding c using ones_fold_le [of ?s] by simp
    finally show "65535 mod 65535 = (?s + unat ?c) mod 65535" by simp
    show "(65535 :: nat) = 0 \<longleftrightarrow> ?s + unat ?c = 0"
      using c by (cases "?s = 0") (auto simp: ones_fold_def)
  qed simp
  then have "unat (cksum (pre @ le16 ?c @ post)) = 0" using unat_spec [OF assms(3)] unfolding s' by simp
  then show ?thesis by (simp only: unsigned_eq_0_iff)
qed

end

text \<open>The contract determines the checksum.\<close>

lemma internet_checksum_agree:
  "internet_checksum c1 f1 \<Longrightarrow> internet_checksum c2 f2 \<Longrightarrow> f1 bs \<Longrightarrow> f2 bs \<Longrightarrow> c1 bs = c2 bs"
  by (simp add: internet_checksum_def)

subsection \<open>clockdiff.c\<close>

definition addcarry :: "int \<Rightarrow> int" where
  "addcarry sm = (if sm AND 0xffff0000 \<noteq> 0 then (sm AND 0xffff) + 1 else sm)"

fun cd_cksum_loop :: "int \<Rightarrow> bytes \<Rightarrow> int" where
  "cd_cksum_loop sm [] = sm"
| "cd_cksum_loop sm [b] = addcarry (sm + uint b)"
| "cd_cksum_loop sm (a # b # r) = cd_cksum_loop (addcarry (sm + (uint a + 256 * uint b))) r"

definition cd_in_cksum :: "bytes \<Rightarrow> 16 word" where
  "cd_in_cksum bs = word_of_int (NOT (cd_cksum_loop 0 bs) AND 0xffff)"

subsection \<open>ping.c\<close>

fun ping_cksum_loop :: "int \<Rightarrow> bytes \<Rightarrow> int" where
  "ping_cksum_loop sm [] = sm"
| "ping_cksum_loop sm [b] = to_int32 (sm + uint b)"
| "ping_cksum_loop sm (a # b # r) = ping_cksum_loop (to_int32 (sm + (uint a + 256 * uint b))) r"

definition ping_in_cksum :: "bytes \<Rightarrow> 16 word \<Rightarrow> 16 word" where
  "ping_in_cksum bs csum =
     (let sm = ping_cksum_loop (uint csum) bs;
          sm = (sm div 65536) + (sm AND 0xffff);
          sm = sm + sm div 65536
      in word_of_int (NOT sm))"

subsection \<open>Both meet the contract\<close>

lemma and_ffff: "(x :: int) AND 0xffff = x mod 65536"
  using take_bit_eq_mask [of 16 x] by (simp add: mask_eq_exp_minus_1 take_bit_eq_mod)

lemma and_push_bit: "(x :: int) AND push_bit k m = push_bit k (drop_bit k x AND m)"
  by (rule bit_eqI) (auto simp: bit_simps)

lemma and_high:
  assumes "0 \<le> x" "x < 2 ^ 32"
  shows "(x :: int) AND 0xffff0000 \<noteq> 0 \<longleftrightarrow> 65536 \<le> x"
proof -
  have "(0xffff0000 :: int) = push_bit 16 0xffff" by (simp add: push_bit_eq_mult)
  then have "x AND 0xffff0000 = push_bit 16 (drop_bit 16 x AND 0xffff)"
    by (simp only: and_push_bit)
  also have "drop_bit 16 x AND 0xffff = x div 65536"
    using assms by (simp add: and_ffff drop_bit_eq_div)
  finally show ?thesis using assms by (auto simp: push_bit_eq_mult zdiv_eq_0_iff)
qed

lemma addcarry_fold:
  assumes "x \<le> 131070"
  shows "addcarry (int x) = int (ones_fold x)"
proof (cases "65536 \<le> x")
  case True
  have "addcarry (int x) = int x mod 65536 + 1"
    using True assms and_high [of "int x"] by (simp add: addcarry_def and_ffff)
  also have "int x mod 65536 = (int x - 65536) mod 65536" by simp
  also have "\<dots> = int x - 65536" by (rule mod_pos_pos_trivial) (use True assms in simp_all)
  also have "\<dots> = int (x - 65536)" using True by (simp add: of_nat_diff)
  finally have "addcarry (int x) = int (x - 65535)" using True by simp
  moreover have "x - 65535 = ones_fold x"
    by (rule ones_fold_unique) (use True assms in \<open>auto simp: le_mod_geq\<close>)
  ultimately show ?thesis by simp
next
  case False
  then have "addcarry (int x) = int x" using and_high [of "int x"] by (simp add: addcarry_def)
  moreover have "x = ones_fold x" by (rule ones_fold_unique) (use False in auto)
  ultimately show ?thesis by simp
qed

lemma uint_byte_word: "uint (a :: byte) + 256 * uint (b :: byte) = int (unat a + 256 * unat b)"
  by simp

lemma cd_cksum_loop_fold: "cd_cksum_loop (int (ones_fold s)) bs = int (ones_fold (s + words_sum bs))"
proof (induction bs arbitrary: s rule: words_sum.induct)
  case (2 b)
  have "ones_fold s + unat b \<le> 131070"
    using ones_fold_le [of s] unat_byte_less [of b] by linarith
  from addcarry_fold [OF this] show ?case by (simp add: ones_fold_add)
next
  case (3 a b r)
  have "ones_fold s + (unat a + 256 * unat b) \<le> 131070"
    using ones_fold_le [of s] unat_byte_less [of a] unat_byte_less [of b] by linarith
  from addcarry_fold [OF this]
  have "addcarry (int (ones_fold s) + (uint a + 256 * uint b)) = int (ones_fold (s + (unat a + 256 * unat b)))"
    by (simp add: ones_fold_add)
  with "3.IH" [of "s + (unat a + 256 * unat b)"] show ?case by (simp add: ac_simps)
qed simp

lemma not_low_16:
  assumes "n \<le> 65535"
  shows "word_of_int (NOT (int n)) = (of_nat (65535 - n) :: 16 word)"
proof -
  have "NOT (int n) = int (65535 - n) - 65536" using assms by (simp add: not_int_def of_nat_diff)
  moreover have "(word_of_int (int (65535 - n) - 65536) :: 16 word) = word_of_int (int (65535 - n))"
    by (simp add: wi_hom_syms(2) [symmetric] del: of_nat_diff)
  ultimately show ?thesis by simp
qed

interpretation cd: internet_checksum cd_in_cksum "\<lambda>_. True"
proof
  fix bs
  have "cd_cksum_loop 0 bs = int (ones_fold (words_sum bs))"
    using cd_cksum_loop_fold [of 0 bs] by (simp add: ones_fold_def)
  moreover have "(word_of_int (x AND 0xffff) :: 16 word) = word_of_int x" for x
    by (simp add: and_ffff word_of_int_eq_iff take_bit_eq_mod)
  ultimately show "cd_in_cksum bs = of_nat (65535 - ones_fold (words_sum bs))"
    using not_low_16 [OF ones_fold_le] by (simp add: cd_in_cksum_def)
qed

text \<open>The accumulator of \<open>ping\<close> does not overflow for messages of up to 65515 bytes, which is the
  largest ICMP message an IPv4 packet carries.\<close>

definition ping_fits :: "bytes \<Rightarrow> bool" where
  "ping_fits bs \<longleftrightarrow> length bs \<le> 65515"

lemma to_int32_nat: "n < 2147483648 \<Longrightarrow> to_int32 (int n) = int n"
  by (rule to_signed_id) simp_all

lemma ping_cksum_loop_sum:
  "n + words_sum bs < 2147483648 \<Longrightarrow> ping_cksum_loop (int n) bs = int (n + words_sum bs)"
proof (induction bs arbitrary: n rule: words_sum.induct)
  case (2 b)
  then show ?case using to_int32_nat [of "n + unat b"] by simp
next
  case (3 a b r)
  have "to_int32 (int n + (uint a + 256 * uint b)) = int (n + (unat a + 256 * unat b))"
    using to_int32_nat [of "n + (unat a + 256 * unat b)"] "3.prems" by simp
  with "3.IH" [of "n + (unat a + 256 * unat b)"] "3.prems" show ?case by (simp add: ac_simps)
qed simp

lemma double_fold:
  assumes "n < 2147483648"
  shows "(let s = int n div 65536 + int n mod 65536; s = s + s div 65536 in word_of_int (NOT s))
    = (of_nat (65535 - ones_fold n) :: 16 word)"
proof -
  let ?m = "n div 65536 + n mod 65536"
  have m: "int n div 65536 + int n mod 65536 = int ?m" by (simp add: zdiv_int zmod_int)
  have bound: "?m \<le> 98302" using assms by (simp add: div_le_mono less_Suc_eq_le)
  have "n mod 65535 = (65536 * (n div 65536) + n mod 65536) mod 65535" by (simp only: mult_div_mod_eq)
  also have "\<dots> = (65535 * (n div 65536) + ?m) mod 65535" by (simp add: algebra_simps)
  also have "\<dots> = ?m mod 65535" by (simp only: mod_mult_self4)
  finally have res: "?m mod 65535 = n mod 65535" ..
  have zero: "?m = 0 \<longleftrightarrow> n = 0" by (metis add_eq_0_iff_both_eq_0 div_0 mod_0 mult_div_mod_eq mult_0_right)
  show ?thesis
  proof (cases "?m < 65536")
    case True
    then have "int ?m div 65536 = 0" by (simp add: zdiv_eq_0_iff)
    moreover have "?m = ones_fold n" by (rule ones_fold_unique [OF _ res zero]) (use True in simp)
    ultimately show ?thesis using not_low_16 [OF ones_fold_le [of n]] unfolding Let_def m by simp
  next
    case False
    define k where "k = ?m - 65535"
    have k: "?m = k + 65535" "k \<le> 32767" "k \<noteq> 0" using False bound by (auto simp: k_def)
    have "int ?m div 65536 = 1" by (rule int_div_pos_eq [of _ _ _ "int k - 1"]) (use k in simp_all)
    then have "int ?m + int ?m div 65536 = int k + 65536" using k(1) by simp
    moreover have "NOT (int k + 65536) = NOT (int k) - 65536" by (simp add: not_int_def)
    moreover have "(word_of_int (NOT (int k) - 65536) :: 16 word) = word_of_int (NOT (int k))"
      by (simp add: wi_hom_sub [symmetric])
    moreover have "k = ones_fold n"
    proof (rule ones_fold_unique)
      show "k mod 65535 = n mod 65535" using res k(1) by simp
      show "k = 0 \<longleftrightarrow> n = 0" using k zero by simp
    qed (use k in simp)
    ultimately show ?thesis using not_low_16 [OF ones_fold_le [of n]] unfolding Let_def m by simp
  qed
qed

lemma ping_in_cksum_spec:
  assumes "unat csum + words_sum bs < 2147483648"
  shows "ping_in_cksum bs csum = of_nat (65535 - ones_fold (unat csum + words_sum bs))"
  using double_fold [OF assms] ping_cksum_loop_sum [OF assms]
  by (simp add: ping_in_cksum_def and_ffff Let_def)

lemma ping_fits_sum:
  assumes "ping_fits bs"
  shows "unat (csum :: 16 word) + words_sum bs < 2147483648"
proof -
  have "(length bs + 1) div 2 \<le> 32758"
    using div_le_mono [of "length bs + 1" 65516 2] assms by (simp add: ping_fits_def)
  then have "words_sum bs \<le> 65535 * 32758"
    using words_sum_bound [of bs] by (meson le_trans mult_le_mono2)
  moreover have "unat csum < 65536" using unsigned_less [of csum] by simp
  ultimately show ?thesis by simp
qed

interpretation pg: internet_checksum "\<lambda>bs. ping_in_cksum bs 0" ping_fits
  by unfold_locales (use ping_in_cksum_spec [of 0] ping_fits_sum [of _ 0] in simp)

text \<open>
C17: Both checksum routines of the tree compute the checksum of RFC 1071, so they agree on every
message ping can send, whatever its length, odd ones included; and a message of either program
that carries its checksum in a zeroed 16-bit field at an even offset sums to zero at the
receiver.
\<close>
theorem checksums_agree_and_verify:
  assumes "even (length pre)" "length pre + length post + 2 \<le> 65515"
  defines "msg \<equiv> pre @ [0, 0] @ post"
  shows "cd_in_cksum msg = ping_in_cksum msg 0
    \<and> cd_in_cksum msg = of_nat (65535 - ones_fold (words_sum msg))
    \<and> cd_in_cksum (pre @ le16 (cd_in_cksum msg) @ post) = 0
    \<and> ping_in_cksum (pre @ le16 (ping_in_cksum msg 0) @ post) 0 = 0"
proof -
  have f: "ping_fits msg" "ping_fits (pre @ le16 c @ post)" for c
    using assms by (simp_all add: ping_fits_def le16_def)
  have "cd_in_cksum msg = ping_in_cksum msg 0"
    using internet_checksum_agree [OF cd.internet_checksum_axioms pg.internet_checksum_axioms] f by simp
  then show ?thesis
    using cd.spec [of msg] cd.verify [OF assms(1), of post] pg.verify [OF assms(1), of post] f
    unfolding msg_def by simp
qed

theorem checksums_agree_and_verify_witness:
  "cd_in_cksum ([13, 0] @ [0, 0] @ [1, 2, 3]) = ping_in_cksum ([13, 0] @ [0, 0] @ [1, 2, 3]) 0
    \<and> cd_in_cksum ([13, 0] @ le16 (cd_in_cksum ([13, 0] @ [0, 0] @ [1, 2, 3])) @ [1, 2, 3]) = 0"
proof -
  have "even (length [13 :: byte, 0])" "length [13 :: byte, 0] + length [1 :: byte, 2, 3] + 2 \<le> 65515"
    by simp_all
  from checksums_agree_and_verify [OF this] show ?thesis by blast
qed

text \<open>
  Updating a checksum: the words of \<open>xs\<close>, zero when the first sum was taken, are added to the
  complement of the first checksum.
\<close>

lemma ones_fold_complement:
  assumes "c = (of_nat (65535 - ones_fold n) :: 16 word)"
  shows "unat (NOT c) = ones_fold n"
proof -
  have "unat c = 65535 - ones_fold n" by (simp add: assms unat_of_nat)
  moreover have "NOT c = - 1 - c" by (simp add: not_eq_complement)
  moreover have "unat (- 1 - c) = unat (- 1 :: 16 word) - unat c" by (rule unat_sub) simp
  moreover have "unat (- 1 :: 16 word) = 65535" by (simp add: unsigned_minus_1_eq_mask mask_eq_exp_minus_1)
  ultimately show ?thesis using ones_fold_le [of n] by simp
qed

lemma ping_cksum_update:
  assumes "even (length pre)" "even (length xs)" "ping_fits (pre @ xs @ post)"
  shows "ping_in_cksum xs (NOT (ping_in_cksum (pre @ replicate (length xs) 0 @ post) 0))
    = ping_in_cksum (pre @ xs @ post) 0"
proof -
  have z: "words_sum (replicate k 0) = 0" for k by (induction k rule: induct_nat_012) simp_all
  let ?n = "words_sum pre + words_sum post"
  have f: "ping_fits (pre @ replicate (length xs) 0 @ post)" "ping_fits xs"
    using assms(3) by (simp_all add: ping_fits_def)
  have "words_sum (pre @ replicate (length xs) 0 @ post) = ?n"
    using assms(1,2) by (simp add: words_sum_append_even z)
  then have "unat (NOT (ping_in_cksum (pre @ replicate (length xs) 0 @ post) 0)) = ones_fold ?n"
    using pg.spec [OF f(1)] by (simp add: ones_fold_complement)
  moreover have "words_sum (pre @ xs @ post) = ?n + words_sum xs"
    using assms(1,2) by (simp add: words_sum_append_even)
  ultimately show ?thesis
    using pg.spec [OF assms(3)] ping_in_cksum_spec [OF ping_fits_sum [OF f(2)]]
    by (simp add: ones_fold_add)
qed

subsection \<open>Fields of a packet\<close>

definition be32_at :: "bytes \<Rightarrow> nat \<Rightarrow> 32 word" where
  "be32_at p i = push_bit 24 (ucast (p ! i)) OR push_bit 16 (ucast (p ! (i + 1)))
     OR push_bit 8 (ucast (p ! (i + 2))) OR ucast (p ! (i + 3))"

definition be32 :: "32 word \<Rightarrow> bytes" where
  "be32 w = [ucast (drop_bit 24 w), ucast (drop_bit 16 w), ucast (drop_bit 8 w), ucast w]"

definition le16_at :: "bytes \<Rightarrow> nat \<Rightarrow> 16 word" where
  "le16_at p i = ucast (p ! i) OR push_bit 8 (ucast (p ! (i + 1)))"

definition be16 :: "16 word \<Rightarrow> bytes" where
  "be16 w = [ucast (drop_bit 8 w), ucast w]"

definition be16_at :: "bytes \<Rightarrow> nat \<Rightarrow> 16 word" where
  "be16_at p i = push_bit 8 (ucast (p ! i)) OR ucast (p ! (i + 1))"

definition le64_at :: "bytes \<Rightarrow> nat \<Rightarrow> 64 word" where
  "le64_at p i = fold (\<lambda>k w. w OR push_bit (8 * k) (ucast (p ! (i + k)))) [0..<8] 0"

definition le64 :: "64 word \<Rightarrow> bytes" where
  "le64 w = map (\<lambda>k. ucast (drop_bit (8 * k) w)) [0..<8]"

lemma be32_at_be32: "be32_at (xs @ be32 w @ ys) (length xs) = w"
proof (rule bit_word_eqI)
  fix n assume "n < LENGTH(32)"
  then consider "n < 8" | "8 \<le> n" "n < 16" | "16 \<le> n" "n < 24" | "24 \<le> n" "n < 32" by fastforce
  then show "bit (be32_at (xs @ be32 w @ ys) (length xs)) n = bit w n"
    by cases (auto simp: be32_at_def be32_def nth_append bit_simps)
qed

lemma le16_at_le16: "le16_at (xs @ le16 w @ ys) (length xs) = w"
proof (rule bit_word_eqI)
  fix n assume "n < LENGTH(16)"
  then consider "n < 8" | "8 \<le> n" "n < 16" by fastforce
  then show "bit (le16_at (xs @ le16 w @ ys) (length xs)) n = bit w n"
    by cases (auto simp: le16_at_def le16_def nth_append bit_simps)
qed

lemma be16_at_be16: "be16_at (xs @ be16 w @ ys) (length xs) = w"
proof (rule bit_word_eqI)
  fix n assume "n < LENGTH(16)"
  then consider "n < 8" | "8 \<le> n" "n < 16" by fastforce
  then show "bit (be16_at (xs @ be16 w @ ys) (length xs)) n = bit w n"
    by cases (auto simp: be16_at_def be16_def nth_append bit_simps)
qed

lemma le64_at_le64: "le64_at (xs @ le64 w @ ys) (length xs) = w"
proof -
  have n: "[0..<8] = [0, 1, 2, 3, 4, 5, 6, 7 :: nat]" by (simp add: upt_rec)
  show ?thesis
  proof (rule bit_word_eqI)
    fix n assume "n < LENGTH(64)"
    then consider "n < 8" | "8 \<le> n" "n < 16" | "16 \<le> n" "n < 24" | "24 \<le> n" "n < 32"
      | "32 \<le> n" "n < 40" | "40 \<le> n" "n < 48" | "48 \<le> n" "n < 56" | "56 \<le> n" "n < 64" by fastforce
    then show "bit (le64_at (xs @ le64 w @ ys) (length xs)) n = bit w n"
      by cases (auto simp: le64_at_def le64_def n nth_append bit_simps)
  qed
qed

end
