(* ===== verification/Clockdiff.thy ===== *)
theory Clockdiff
  imports Inet_Cksum Iputils_Common
begin

text \<open>
  \<open>clockdiff.c\<close> and \<open>clockdiff_compat.h\<close>, as built on Linux: the ICMP timestamp exchange that
  measures the difference of two clocks. A datagram is a list of bytes, the receive buffer keeps
  what an earlier datagram left in it, and the socket is the list of what the polls and reads will
  answer. C's \<open>long\<close> is a mathematical integer; the 16-bit counters are words.
\<close>

subsection \<open>State\<close>

datatype time_fmt = time_format_ctime | time_format_iso

record run_state =
  interactive :: bool
  rs_id :: "16 word"
  ip_opt_len :: nat
  measure_delta :: int
  measure_delta1 :: int
  seqno :: "16 word"
  seqno0 :: "16 word"
  acked :: "16 word"
  rtt :: int
  min_rtt :: int
  rtt_sigma :: int
  time_format :: time_fmt

record measure_vars =
  tout :: timespec
  packet :: bytes
  msgcount :: nat
  min1 :: int
  min2 :: int

datatype measure_ret = MErr | UNREACHABLE | NONSTDTIME | BREAK | CONTINUE | HOSTDOWN | GOOD

abbreviation BIASP :: int where "BIASP \<equiv> 43199999"
abbreviation BIASN :: int where "BIASN \<equiv> - 43200000"
abbreviation MODULO :: int where "MODULO \<equiv> 86400000"
abbreviation RANGE :: int where "RANGE \<equiv> 1"
abbreviation MSGS :: nat where "MSGS \<equiv> 50"
abbreviation TRIALS :: int where "TRIALS \<equiv> 10"
abbreviation PROCESSING_TIME :: int where "PROCESSING_TIME \<equiv> 0"
abbreviation PACKET_IN :: nat where "PACKET_IN \<equiv> 1024"
abbreviation HOSTDOWN_DELTA :: int where "HOSTDOWN_DELTA \<equiv> 0x7fffffff"

abbreviation ICMP_ECHOREPLY :: byte where "ICMP_ECHOREPLY \<equiv> 0"
abbreviation ICMP_ECHO :: byte where "ICMP_ECHO \<equiv> 8"
abbreviation ICMP_TIMESTAMP :: byte where "ICMP_TIMESTAMP \<equiv> 13"
abbreviation ICMP_TIMESTAMPREPLY :: byte where "ICMP_TIMESTAMPREPLY \<equiv> 14"
abbreviation IPOPT_TIMESTAMP :: byte where "IPOPT_TIMESTAMP \<equiv> 68"
abbreviation IPOPT_TS_PRESPEC :: byte where "IPOPT_TS_PRESPEC \<equiv> 3"

text \<open>A poll that times out or fails, a read that fails, a datagram with the time of its arrival.\<close>

datatype recv_ev = PollNone | RecvErr | Recv bytes timespec

subsection \<open>Packets\<close>

text \<open>The offset of the ICMP header, and of what the code takes for the IP options.\<close>

definition clockdiff_packet_icmp :: "bytes \<Rightarrow> nat \<Rightarrow> nat option" where
  "clockdiff_packet_icmp p pkt_len =
     (if pkt_len < 20 then None
      else let ihl = unat (p ! 0 AND 0x0F); hlen = ihl * 4
           in if ihl < 5 \<or> hlen > pkt_len \<or> int pkt_len - int hlen < 8 then None else Some hlen)"

definition clockdiff_ipopts :: "nat \<Rightarrow> nat" where
  "clockdiff_ipopts ip_hdr_len = ip_hdr_len"

definition clockdiff_icmp_octets :: "nat \<Rightarrow> nat \<Rightarrow> nat" where
  "clockdiff_icmp_octets pkt_len ip_hdr_len = pkt_len - ip_hdr_len"

definition clockdiff_icmp_id :: "bytes \<Rightarrow> nat \<Rightarrow> 16 word" where
  "clockdiff_icmp_id p icp = le16_at p (icp + 4)"

definition clockdiff_icmp_seq :: "bytes \<Rightarrow> nat \<Rightarrow> 16 word" where
  "clockdiff_icmp_seq p icp = le16_at p (icp + 6)"

text \<open>Milliseconds since midnight.\<close>

definition day_ms :: "timespec \<Rightarrow> int" where
  "day_ms t = cmod (tv_sec t) 86400 * 1000 + cdiv (tv_nsec t) 1000000"

text \<open>The request: header, identifier and sequence in host order, three timestamps.\<close>

definition request_body :: "run_state \<Rightarrow> timespec \<Rightarrow> bytes" where
  "request_body ctl ts = le16 (rs_id ctl) @ le16 (seqno ctl) @ be32 (word_of_int (day_ms ts)) @ replicate 8 0"

definition build_request :: "run_state \<Rightarrow> timespec \<Rightarrow> bytes" where
  "build_request ctl ts =
     (let head = [if ip_opt_len ctl \<noteq> 0 then ICMP_ECHO else ICMP_TIMESTAMP, 0];
          body = request_body ctl ts
      in head @ le16 (cd_in_cksum (head @ [0, 0] @ body)) @ body)"

subsection \<open>One reply\<close>

definition wrap_day :: "int \<Rightarrow> int" where
  "wrap_day d = (if d < BIASN then d + MODULO else if d > BIASP then d - MODULO else d)"

definition reply_matches :: "run_state \<Rightarrow> bytes \<Rightarrow> nat \<Rightarrow> bool" where
  "reply_matches ctl p icp \<longleftrightarrow>
     (ip_opt_len ctl \<noteq> 0 \<and> p ! icp = ICMP_ECHOREPLY \<and> p ! clockdiff_ipopts icp = IPOPT_TIMESTAMP
      \<or> p ! icp = ICMP_TIMESTAMPREPLY)
     \<and> clockdiff_icmp_id p icp = rs_id ctl
     \<and> clockdiff_icmp_seq p icp \<ge> seqno0 ctl \<and> clockdiff_icmp_seq p icp \<le> seqno ctl"

record stamps =
  st_send :: int
  st_his :: int
  st_his1 :: int
  st_recv :: int

text \<open>The timestamps of the IP option, slot by slot.\<close>

fun opt_stamps :: "nat \<Rightarrow> bytes \<Rightarrow> nat \<Rightarrow> nat \<Rightarrow> nat \<Rightarrow> stamps \<Rightarrow> measure_ret + stamps" where
  "opt_stamps olen p opt i 0 s = Inr s"
| "opt_stamps olen p opt i (Suc n) s =
     (let t = be32_at p (opt + 4 + i * 8 + 4)
      in if t AND 0x80000000 \<noteq> 0 then Inl NONSTDTIME
         else let v = uint t;
                  s = (if i = 0 then s\<lparr>st_send := v\<rparr> else s);
                  s = (if i = 1 then s\<lparr>st_his := v, st_his1 := v\<rparr> else s);
                  s = (if i = 2 then (if olen = 4 + 4 * 8 then s\<lparr>st_his1 := v\<rparr> else s\<lparr>st_recv := v\<rparr>) else s);
                  s = (if i = 3 then s\<lparr>st_recv := v\<rparr> else s)
              in opt_stamps olen p opt (i + 1) n s)"

definition option_stamps :: "nat \<Rightarrow> bytes \<Rightarrow> nat \<Rightarrow> measure_ret + stamps" where
  "option_stamps olen p opt =
     (if p ! (opt + 3) AND 0xF \<noteq> IPOPT_TS_PRESPEC then Inl NONSTDTIME
      else let nslots = cdiv (uint (p ! (opt + 2)) - 5) 8
           in if nslots \<le> 0 \<or> nslots > 4 then Inl CONTINUE
              else case opt_stamps olen p opt 0 (nat nslots) \<lparr>st_send = 0, st_his = 0, st_his1 = 0, st_recv = 0\<rparr> of
                     Inl r \<Rightarrow> Inl r
                   | Inr s \<Rightarrow>
                       if st_send s AND st_his s AND st_his1 s AND st_recv s = 0 then Inl MErr else Inr s)"

definition icmp_stamps :: "bytes \<Rightarrow> nat \<Rightarrow> timespec \<Rightarrow> stamps" where
  "icmp_stamps p icp now =
     (let h = uint (be32_at p (icp + 12))
      in \<lparr>st_send = uint (be32_at p (icp + 8)), st_his = h, st_his1 = h, st_recv = day_ms now\<rparr>)"

text \<open>The clock differences in both directions, and the best of them.\<close>

definition take_deltas :: "int \<Rightarrow> int \<Rightarrow> int \<Rightarrow> run_state \<times> measure_vars \<Rightarrow> measure_ret \<times> run_state \<times> measure_vars" where
  "take_deltas diff delta1 delta2 cm =
     (case cm of (ctl, mv) \<Rightarrow>
       let mv = (if delta1 < min1 mv then mv\<lparr>min1 := delta1\<rparr> else mv);
           mv = (if delta2 < min2 mv then mv\<lparr>min2 := delta2\<rparr> else mv);
           ctl = (if delta1 + delta2 < min_rtt ctl
                  then ctl\<lparr>min_rtt := delta1 + delta2,
                           measure_delta1 := to_int32 (cdiv (delta1 - delta2) 2 + PROCESSING_TIME)\<rparr>
                  else ctl)
       in if diff < RANGE then (BREAK, ctl, mv\<lparr>min1 := delta1, min2 := delta2\<rparr>) else (CONTINUE, ctl, mv))"

definition take_reply :: "run_state \<times> measure_vars \<Rightarrow> stamps \<Rightarrow> measure_ret \<times> run_state \<times> measure_vars" where
  "take_reply cm s =
     (case cm of (ctl, mv) \<Rightarrow>
       let diff = st_recv s - st_send s
       in if diff < 0 then (CONTINUE, ctl, mv)
          else let ctl = ctl\<lparr>rtt := cdiv (rtt ctl * 3 + diff) 4\<rparr>;
                   ctl = ctl\<lparr>rtt_sigma := cdiv (rtt_sigma ctl * 3 + \<bar>diff - rtt ctl\<bar>) 4\<rparr>;
                   mv = mv\<lparr>msgcount := msgcount mv + 1\<rparr>
               in if ip_opt_len ctl = 0 \<and> st_his s AND 0x80000000 \<noteq> 0 then (NONSTDTIME, ctl, mv)
                  else take_deltas diff (wrap_day (st_his s - st_send s)) (wrap_day (st_recv s - st_his1 s)) (ctl, mv))"

definition handle_packet :: "run_state \<times> measure_vars \<Rightarrow> nat \<Rightarrow> timespec \<Rightarrow> measure_ret \<times> run_state \<times> measure_vars" where
  "handle_packet cm cc now =
     (case cm of (ctl, mv) \<Rightarrow>
       let p = packet mv
       in case clockdiff_packet_icmp p cc of
            None \<Rightarrow> (CONTINUE, ctl, mv)
          | Some icp \<Rightarrow>
              if \<not> reply_matches ctl p icp then (CONTINUE, ctl, mv)
              else if ip_opt_len ctl = 0 \<and> clockdiff_icmp_octets cc icp < 8 + 12 then (CONTINUE, ctl, mv)
              else let sq = clockdiff_icmp_seq p icp;
                       ctl = (if acked ctl < sq then ctl\<lparr>acked := sq\<rparr> else ctl)
                   in if ip_opt_len ctl \<noteq> 0
                      then case option_stamps (ip_opt_len ctl) p (clockdiff_ipopts icp) of
                             Inl r \<Rightarrow> (r, ctl, mv)
                           | Inr s \<Rightarrow> take_reply (ctl, mv) s
                      else take_reply (ctl, mv) (icmp_stamps p icp now))"

definition poll_timeout :: "run_state \<Rightarrow> timespec" where
  "poll_timeout ctl =
     (let tmo = max (rtt ctl + rtt_sigma ctl) 1
      in \<lparr>tv_sec = cdiv tmo 1000, tv_nsec = (tmo - cdiv tmo 1000 * 1000) * 1000000\<rparr>)"

definition fill_packet :: "bytes \<Rightarrow> bytes \<Rightarrow> bytes" where
  "fill_packet old d = take PACKET_IN d @ drop (length (take PACKET_IN d)) old"

definition measure_inner_loop ::
  "run_state \<times> measure_vars \<Rightarrow> recv_ev list \<Rightarrow> measure_ret \<times> (run_state \<times> measure_vars) \<times> recv_ev list" where
  "measure_inner_loop cm evs =
     (case cm of (ctl, mv) \<Rightarrow>
       let mv = mv\<lparr>tout := poll_timeout ctl\<rparr>
       in case evs of
            [] \<Rightarrow> (BREAK, (ctl, mv), [])
          | PollNone # evs' \<Rightarrow> (BREAK, (ctl, mv), evs')
          | RecvErr # evs' \<Rightarrow> (MErr, (ctl, mv), evs')
          | Recv d now # evs' \<Rightarrow>
              (case handle_packet (ctl, mv\<lparr>packet := fill_packet (packet mv) d\<rparr>) (length (take PACKET_IN d)) now of
                 (r, ctl, mv) \<Rightarrow> (r, (ctl, mv), evs')))"

lemma measure_inner_loop_evs:
  "measure_inner_loop cm evs = (CONTINUE, cm', evs') \<Longrightarrow> length evs' < length evs"
  by (auto simp: measure_inner_loop_def Let_def split: prod.splits list.splits recv_ev.splits)

text \<open>The inner loop until it leaves: \<open>BREAK\<close>, or a status \<open>measure\<close> returns.\<close>

function inner_loop ::
  "run_state \<times> measure_vars \<Rightarrow> recv_ev list \<Rightarrow> measure_ret \<times> (run_state \<times> measure_vars) \<times> recv_ev list" where
  "inner_loop cm evs =
     (case measure_inner_loop cm evs of
        (r, cm', evs') \<Rightarrow> if r = CONTINUE then inner_loop cm' evs' else (r, cm', evs'))"
  by pat_completeness auto

termination
  by (relation "measure (\<lambda>(_, evs). length evs)") (auto dest: measure_inner_loop_evs [OF sym])

declare inner_loop.simps [simp del]

subsection \<open>The measurement\<close>

text \<open>Emptying the input queue leaves the last datagrams in the buffer.\<close>

fun drain :: "bytes \<Rightarrow> recv_ev list \<Rightarrow> bytes option" where
  "drain p [] = Some p"
| "drain p (PollNone # evs) = Some p"
| "drain p (RecvErr # evs) = None"
| "drain p (Recv d _ # evs) = drain (fill_packet p d) evs"

record measure_st =
  ms_cm :: "run_state \<times> measure_vars"
  ms_evs :: "recv_ev list"
  ms_sent :: "bytes list"

text \<open>\<open>sends k\<close>: the time of the \<open>k\<close>-th request, and whether \<open>sendto\<close> succeeds.\<close>

definition send_request :: "(nat \<Rightarrow> timespec \<times> bool) \<Rightarrow> measure_st \<Rightarrow> bool \<times> measure_st" where
  "send_request sends m =
     (case ms_cm m of (ctl, mv) \<Rightarrow>
       let ctl = ctl\<lparr>seqno := seqno ctl + 1\<rparr>; (ts, ok) = sends (length (ms_sent m))
       in (ok, m\<lparr>ms_cm := (ctl, mv), ms_sent := ms_sent m @ (if ok then [build_request ctl ts] else [])\<rparr>))"

partial_function (option) measure_loop ::
  "(nat \<Rightarrow> timespec \<times> bool) \<Rightarrow> measure_st \<Rightarrow> (measure_ret \<times> measure_st) option" where
  "measure_loop sends m =
     (if \<not> msgcount (snd (ms_cm m)) < MSGS then Some (GOOD, m)
      else if uint (seqno (fst (ms_cm m))) - uint (acked (fst (ms_cm m))) > TRIALS then Some (HOSTDOWN, m)
      else let sr = send_request sends m
           in if \<not> fst sr then Some (UNREACHABLE, snd sr)
              else let il = inner_loop (ms_cm (snd sr)) (ms_evs (snd sr));
                       m' = (snd sr)\<lparr>ms_cm := fst (snd il), ms_evs := snd (snd il)\<rparr>
                   in if fst il \<noteq> BREAK then Some (fst il, m') else measure_loop sends m')"

definition measure_start :: "run_state \<Rightarrow> run_state" where
  "measure_start ctl =
     ctl\<lparr>min_rtt := 0x7fffffff, measure_delta := HOSTDOWN_DELTA, measure_delta1 := HOSTDOWN_DELTA\<rparr>"

definition measure_init :: "run_state \<Rightarrow> bytes \<Rightarrow> recv_ev list \<Rightarrow> measure_st" where
  "measure_init ctl p evs =
     \<lparr>ms_cm = (ctl\<lparr>acked := 0, seqno := 0, seqno0 := 0\<rparr>,
        \<lparr>tout = \<lparr>tv_sec = 0, tv_nsec = 0\<rparr>, packet = p, msgcount = 0, min1 = 0x7fffffff, min2 = 0x7fffffff\<rparr>),
      ms_evs = evs, ms_sent = []\<rparr>"

definition measure_end :: "measure_ret \<Rightarrow> measure_st \<Rightarrow> run_state" where
  "measure_end r m =
     (case ms_cm m of (ctl, mv) \<Rightarrow>
       if r = GOOD then ctl\<lparr>measure_delta := to_int32 (cdiv (min1 mv - min2 mv) 2 + PROCESSING_TIME)\<rparr>
       else ctl)"

definition cd_measure ::
  "(nat \<Rightarrow> timespec \<times> bool) \<Rightarrow> recv_ev list \<Rightarrow> recv_ev list \<Rightarrow> run_state
   \<Rightarrow> (measure_ret \<times> run_state \<times> bytes list) option" where
  "cd_measure sends queue evs ctl =
     (case drain (replicate PACKET_IN 0) queue of
        None \<Rightarrow> Some (MErr, measure_start ctl, [])
      | Some p \<Rightarrow>
          (case measure_loop sends (measure_init (measure_start ctl) p evs) of
             None \<Rightarrow> None
           | Some (r, m) \<Rightarrow> Some (r, measure_end r m, ms_sent m)))"

subsection \<open>Datagrams the measurement ignores\<close>

definition recv_icmp :: "bytes \<Rightarrow> nat option" where
  "recv_icmp d = clockdiff_packet_icmp (take PACKET_IN d) (length (take PACKET_IN d))"

lemma fill_packet_nth: "i < length (take PACKET_IN d) \<Longrightarrow> fill_packet old d ! i = take PACKET_IN d ! i"
  by (simp add: fill_packet_def nth_append)

lemma fill_packet_icmp:
  "clockdiff_packet_icmp (fill_packet old d) (length (take PACKET_IN d)) = recv_icmp d"
proof (cases "length (take PACKET_IN d) < 20")
  case True
  then show ?thesis by (simp only: clockdiff_packet_icmp_def recv_icmp_def if_True)
next
  case False
  then have "fill_packet old d ! 0 = take PACKET_IN d ! 0" by (intro fill_packet_nth) linarith
  then show ?thesis by (simp only: clockdiff_packet_icmp_def recv_icmp_def)
qed

lemma recv_icmp_bound:
  assumes "recv_icmp d = Some icp"
  shows "icp + 8 \<le> length (take PACKET_IN d)" "20 \<le> icp"
proof -
  let ?ihl = "unat (take PACKET_IN d ! 0 AND 0x0F)" and ?n = "length (take PACKET_IN d)"
  have "icp = ?ihl * 4" "\<not> ?ihl < 5" "\<not> int ?n - int (?ihl * 4) < 8"
    using assms
    by (simp_all only: recv_icmp_def clockdiff_packet_icmp_def Let_def option.simps de_Morgan_disj simp_thms split: if_splits)
  then show "icp + 8 \<le> ?n" "20 \<le> icp" by linarith+
qed

text \<open>Whether a datagram is an ICMP timestamp reply.\<close>

definition is_ts_reply :: "bytes \<Rightarrow> bool" where
  "is_ts_reply d = (case recv_icmp d of None \<Rightarrow> False | Some icp \<Rightarrow> take PACKET_IN d ! icp = ICMP_TIMESTAMPREPLY)"

lemma reply_matches_ts:
  "reply_matches ctl p icp \<Longrightarrow> p ! icp = ICMP_TIMESTAMPREPLY"
  by (auto simp: reply_matches_def clockdiff_ipopts_def)

lemma handle_packet_other:
  assumes "\<not> is_ts_reply d"
  shows "handle_packet (ctl, mv\<lparr>packet := fill_packet old d\<rparr>) (length (take PACKET_IN d)) now
    = (CONTINUE, ctl, mv\<lparr>packet := fill_packet old d\<rparr>)"
proof (cases "recv_icmp d")
  case None
  then show ?thesis using fill_packet_icmp [of old d] by (simp add: handle_packet_def Let_def)
next
  case (Some icp)
  have "fill_packet old d ! icp = take PACKET_IN d ! icp"
    using recv_icmp_bound(1) [OF Some] by (intro fill_packet_nth) linarith
  then have "\<not> reply_matches ctl (fill_packet old d) icp"
    using assms Some reply_matches_ts by (force simp: is_ts_reply_def)
  then show ?thesis using Some fill_packet_icmp [of old d] by (simp add: handle_packet_def Let_def)
qed

definition ignorable :: "recv_ev \<Rightarrow> bool" where
  "ignorable e = (case e of PollNone \<Rightarrow> True | RecvErr \<Rightarrow> False | Recv d _ \<Rightarrow> \<not> is_ts_reply d)"

lemma inner_loop_ignores:
  assumes "list_all ignorable evs"
  shows "\<exists>mv' evs'. inner_loop (ctl, mv) evs = (BREAK, (ctl, mv'), evs') \<and> list_all ignorable evs'
    \<and> msgcount mv' = msgcount mv"
  using assms
proof (induction evs arbitrary: mv)
  case Nil
  show ?case by (subst inner_loop.simps) (simp add: measure_inner_loop_def Let_def)
next
  case (Cons e evs)
  show ?case
  proof (cases e)
    case PollNone
    with Cons.prems show ?thesis by (subst inner_loop.simps) (simp add: measure_inner_loop_def Let_def)
  next
    case (Recv d now)
    let ?mv = "mv\<lparr>tout := poll_timeout ctl, packet := fill_packet (packet mv) d\<rparr>"
    have "\<not> is_ts_reply d" using Cons.prems Recv by (simp add: ignorable_def)
    from handle_packet_other [OF this, where ctl = ctl and mv = "mv\<lparr>tout := poll_timeout ctl\<rparr>" and old = "packet mv" and now = now]
    have "measure_inner_loop (ctl, mv) (e # evs) = (CONTINUE, (ctl, ?mv), evs)"
      by (simp add: measure_inner_loop_def Recv Let_def)
    then have "inner_loop (ctl, mv) (e # evs) = inner_loop (ctl, ?mv) evs"
      by (subst inner_loop.simps) simp
    with Cons.IH [of ?mv] Cons.prems show ?thesis by simp
  qed (use Cons.prems in \<open>simp add: ignorable_def\<close>)
qed

lemma uint_succ: "uint w < 65535 \<Longrightarrow> uint ((w :: 16 word) + 1) = uint w + 1"
  by (simp add: uint_word_ariths)

lemma request_even: "even (length [t, 0 :: byte])"
  by simp

lemma request_checksum: "cd_in_cksum (build_request ctl ts) = 0"
  unfolding build_request_def Let_def by (rule cd.verify) simp_all

definition request_type :: "run_state \<Rightarrow> byte" where
  "request_type ctl = (if ip_opt_len ctl \<noteq> 0 then ICMP_ECHO else ICMP_TIMESTAMP)"

lemma request_hd: "build_request ctl ts ! 0 = request_type ctl"
  by (simp add: build_request_def request_type_def Let_def)

lemma measure_loop_silent:
  assumes "\<And>k. snd (sends k)" "ms_cm m = (ctl, mv)" "list_all ignorable (ms_evs m)" "msgcount mv = 0"
    and "acked ctl = 0" "uint (seqno ctl) = int n" "n \<le> 11" "length (ms_sent m) = n"
    and "list_all (\<lambda>p. p ! 0 = request_type ctl \<and> cd_in_cksum p = 0) (ms_sent m)"
  shows "\<exists>m' ctl' mv'. measure_loop sends m = Some (HOSTDOWN, m') \<and> length (ms_sent m') = 11
    \<and> ms_cm m' = (ctl', mv') \<and> measure_delta ctl' = measure_delta ctl
    \<and> list_all (\<lambda>p. p ! 0 = request_type ctl \<and> cd_in_cksum p = 0) (ms_sent m')"
  using assms(2-)
proof (induction "11 - n" arbitrary: n m ctl mv)
  case 0
  then show ?case by (subst measure_loop.simps) (simp add: Let_def)
next
  case (Suc k)
  let ?ctl = "ctl\<lparr>seqno := seqno ctl + 1\<rparr>"
  define sr where "sr = m\<lparr>ms_cm := (?ctl, mv), ms_sent := ms_sent m @ [build_request ?ctl (fst (sends (length (ms_sent m))))]\<rparr>"
  have send: "send_request sends m = (True, sr)"
    using Suc.prems(1) assms(1) [of "length (ms_sent m)"]
    by (cases "sends (length (ms_sent m))") (simp add: send_request_def sr_def Let_def)
  obtain mv' evs' where il: "inner_loop (?ctl, mv) (ms_evs m) = (BREAK, (?ctl, mv'), evs')"
      "list_all ignorable evs'" "msgcount mv' = 0"
    using inner_loop_ignores [OF Suc.prems(2)] Suc.prems(3) by metis
  define m' where "m' = sr\<lparr>ms_cm := (?ctl, mv'), ms_evs := evs'\<rparr>"
  have n: "n < 11" using Suc.hyps(2) by simp
  have step: "measure_loop sends m = measure_loop sends m'"
    using Suc.prems n il send
    by (subst measure_loop.simps) (simp add: Let_def m'_def, simp add: sr_def)
  have seq: "uint (seqno ?ctl) = int (n + 1)" using Suc.prems(5) n uint_succ [of "seqno ctl"] by simp
  have rt: "request_type ?ctl = request_type ctl" by (simp add: request_type_def)
  have "\<exists>m'' ctl' mv''. measure_loop sends m' = Some (HOSTDOWN, m'') \<and> length (ms_sent m'') = 11
    \<and> ms_cm m'' = (ctl', mv'') \<and> measure_delta ctl' = measure_delta ?ctl
    \<and> list_all (\<lambda>p. p ! 0 = request_type ?ctl \<and> cd_in_cksum p = 0) (ms_sent m'')"
    by (rule Suc.hyps(1) [of "n + 1" m' ?ctl mv'])
       (use Suc.prems Suc.hyps(2) seq n il rt in
         \<open>simp_all add: m'_def sr_def request_checksum request_hd\<close>)
  then show ?case unfolding step rt by simp
qed

text \<open>
C19: A host that never sends an ICMP timestamp reply is reported as down after exactly eleven
requests, whatever other datagrams arrive and in both modes; each request carries the right
checksum. With the \<open>-o\<close> options the requests are echo requests, so the echo replies to them do not
count: what the code reads as the first IP option octet is the type octet of the reply itself.
\<close>
theorem measure_needs_timestamp_reply:
  assumes "drain (replicate PACKET_IN 0) queue \<noteq> None" "list_all ignorable evs" "\<And>k. snd (sends k)"
  shows "\<exists>ctl' sent. cd_measure sends queue evs ctl = Some (HOSTDOWN, ctl', sent)
    \<and> length sent = 11 \<and> measure_delta ctl' = HOSTDOWN_DELTA
    \<and> list_all (\<lambda>p. p ! 0 = request_type ctl \<and> cd_in_cksum p = 0) sent"
proof -
  obtain p where p: "drain (replicate PACKET_IN 0) queue = Some p" using assms(1) by blast
  define ctl1 where "ctl1 = (measure_start ctl)\<lparr>acked := 0, seqno := 0, seqno0 := 0\<rparr>"
  define mv where "mv = snd (ms_cm (measure_init (measure_start ctl) p evs))"
  have cm: "ms_cm (measure_init (measure_start ctl) p evs) = (ctl1, mv)"
    by (simp add: measure_init_def ctl1_def mv_def)
  have rt: "request_type ctl1 = request_type ctl" "measure_delta ctl1 = HOSTDOWN_DELTA"
    by (simp_all add: request_type_def ctl1_def measure_start_def)
  have start: "msgcount mv = 0" "acked ctl1 = 0" "uint (seqno ctl1) = int 0"
      "ms_evs (measure_init (measure_start ctl) p evs) = evs"
      "ms_sent (measure_init (measure_start ctl) p evs) = []"
    by (simp_all add: measure_init_def ctl1_def mv_def)
  obtain m' ctl' mv' where "measure_loop sends (measure_init (measure_start ctl) p evs) = Some (HOSTDOWN, m')"
      "length (ms_sent m') = 11" "ms_cm m' = (ctl', mv')" "measure_delta ctl' = HOSTDOWN_DELTA"
      "list_all (\<lambda>p. p ! 0 = request_type ctl \<and> cd_in_cksum p = 0) (ms_sent m')"
    using measure_loop_silent [where sends = sends, OF assms(3) cm _ start(1-3)] assms(2) rt start(4-5) by auto
  then show ?thesis by (simp add: cd_measure_def p measure_end_def)
qed

definition demo_ctl :: "nat \<Rightarrow> run_state" where
  "demo_ctl olen = \<lparr>interactive = False, rs_id = 0x1234, ip_opt_len = olen, measure_delta = 0, measure_delta1 = 0,
     seqno = 0, seqno0 = 0, acked = 0, rtt = 1000, min_rtt = 0, rtt_sigma = 0, time_format = time_format_ctime\<rparr>"

definition time0 :: timespec where "time0 = \<lparr>tv_sec = 0, tv_nsec = 0\<rparr>"

theorem measure_needs_timestamp_reply_witness:
  "\<exists>ctl' sent. cd_measure (\<lambda>_. (time0, True)) [] [PollNone, Recv [0x45, 0, 0] time0] (demo_ctl 36)
      = Some (HOSTDOWN, ctl', sent)
    \<and> length sent = 11 \<and> measure_delta ctl' = HOSTDOWN_DELTA
    \<and> list_all (\<lambda>p. p ! 0 = request_type (demo_ctl 36) \<and> cd_in_cksum p = 0) sent"
  by (rule measure_needs_timestamp_reply)
     (simp_all add: ignorable_def is_ts_reply_def recv_icmp_def clockdiff_packet_icmp_def)

subsection \<open>What the measurement leaves alone\<close>

lemma interactive_take_reply: "interactive (fst (snd (take_reply (ctl, mv) st))) = interactive ctl"
  by (simp add: take_reply_def take_deltas_def Let_def)

lemma interactive_handle: "interactive (fst (snd (handle_packet (ctl, mv) cc now))) = interactive ctl"
  by (simp add: handle_packet_def interactive_take_reply Let_def split: option.split sum.split)

lemma interactive_inner: "interactive (fst (fst (snd (measure_inner_loop (ctl, mv) evs)))) = interactive ctl"
proof (cases evs)
  case (Cons ev evs')
  show ?thesis
  proof (cases ev)
    case (Recv d now)
    let ?mv = "mv\<lparr>tout := poll_timeout ctl, packet := fill_packet (packet mv) d\<rparr>"
    obtain r c v where "handle_packet (ctl, ?mv) (length (take PACKET_IN d)) now = (r, c, v)" by (rule prod_cases3)
    then show ?thesis
      using interactive_handle [of ctl ?mv "length (take PACKET_IN d)" now]
      by (simp add: Cons Recv measure_inner_loop_def Let_def)
  qed (simp_all add: Cons measure_inner_loop_def Let_def)
qed (simp add: measure_inner_loop_def Let_def)

lemma interactive_inner_loop: "interactive (fst (fst (snd (inner_loop cm evs)))) = interactive (fst cm)"
proof (induction cm evs rule: inner_loop.induct)
  case (1 cm evs)
  obtain r cm' evs' where m: "measure_inner_loop cm evs = (r, cm', evs')" by (cases "measure_inner_loop cm evs")
  then have "interactive (fst cm') = interactive (fst cm)"
    using interactive_inner [of "fst cm" "snd cm" evs] by simp
  then show ?case using 1 [OF m [symmetric] refl] m by (subst inner_loop.simps) simp
qed

lemma interactive_send: "interactive (fst (ms_cm (snd (send_request sends m)))) = interactive (fst (ms_cm m))"
  by (simp add: send_request_def Let_def split: prod.splits)

lemma interactive_measure_loop:
  assumes "measure_loop sends m = Some rm"
  shows "interactive (fst (ms_cm (snd rm))) = interactive (fst (ms_cm m))"
proof (rule measure_loop.raw_induct [where P = "\<lambda>_ m rm. interactive (fst (ms_cm (snd rm))) = interactive (fst (ms_cm m))"], goal_cases)
  case (1 f sends m rm)
  then show ?case
    using interactive_send [of sends m]
      interactive_inner_loop [of "ms_cm (snd (send_request sends m))" "ms_evs (snd (send_request sends m))"]
    by (auto simp: Let_def split: if_splits)
qed (rule assms)

lemma interactive_measure:
  "cd_measure sends queue evs ctl = Some (r, ctl', sent) \<Longrightarrow> interactive ctl' = interactive ctl"
  by (auto simp: cd_measure_def measure_end_def measure_init_def measure_start_def
      split: option.splits prod.splits if_splits dest!: interactive_measure_loop)

subsection \<open>A host that answers\<close>

text \<open>
  The answer of a host whose clock is \<open>\<theta>\<close> milliseconds ahead: the request reaches it after
  \<open>x_out\<close> milliseconds and the reply needs \<open>x_back\<close> on its way.
\<close>

record exchange =
  x_dep :: timespec
  x_out :: int
  x_back :: int
  x_arr :: timespec

definition exchange_ok :: "int \<Rightarrow> int \<Rightarrow> exchange \<Rightarrow> bool" where
  "exchange_ok th M x \<longleftrightarrow> 0 \<le> x_out x \<and> x_out x \<le> M \<and> 0 \<le> x_back x \<and> x_back x \<le> M
     \<and> 0 \<le> day_ms (x_dep x) \<and> day_ms (x_dep x) < MODULO
     \<and> day_ms (x_arr x) = (day_ms (x_dep x) + x_out x + x_back x) mod MODULO
     \<and> BIASN \<le> th + x_out x \<and> th + x_out x \<le> BIASP \<and> BIASN \<le> x_back x - th \<and> x_back x - th \<le> BIASP"

definition host_clock :: "int \<Rightarrow> exchange \<Rightarrow> int" where
  "host_clock th x = (day_ms (x_dep x) + x_out x + th) mod MODULO"

definition host_reply :: "bytes \<Rightarrow> 16 word \<Rightarrow> 16 word \<Rightarrow> int \<Rightarrow> exchange \<Rightarrow> bytes" where
  "host_reply hdr rid sq th x =
     (let his = be32 (word_of_int (host_clock th x))
      in hdr @ [ICMP_TIMESTAMPREPLY, 0, 0, 0] @ le16 rid @ le16 sq
         @ be32 (word_of_int (day_ms (x_dep x))) @ his @ his)"

text \<open>A midnight of the local clock lies in the exchange; the reply arrives in the millisecond of the request.\<close>

definition over_midnight :: "exchange \<Rightarrow> bool" where
  "over_midnight x \<longleftrightarrow> day_ms (x_arr x) < day_ms (x_dep x)"

definition instant :: "exchange \<Rightarrow> bool" where
  "instant x \<longleftrightarrow> x_out x + x_back x = 0"

text \<open>What the polls find: the reply, and nothing more in the waiting time when there is another poll.\<close>

fun exchange_evs :: "bytes \<Rightarrow> 16 word \<Rightarrow> 16 word \<Rightarrow> int \<Rightarrow> exchange list \<Rightarrow> recv_ev list" where
  "exchange_evs hdr rid sq th [] = []"
| "exchange_evs hdr rid sq th (x # xs) =
     Recv (host_reply hdr rid sq th x) (x_arr x) # (if instant x then [] else [PollNone]) @ exchange_evs hdr rid (sq + 1) th xs"

lemma day_mod:
  assumes "- MODULO \<le> y" "y < 2 * MODULO"
  shows "y mod MODULO = (if y < 0 then y + MODULO else if y < MODULO then y else y - MODULO)"
  using assms mod_pos_pos_trivial [of y MODULO] mod_pos_pos_trivial [of "y + MODULO" MODULO]
    mod_pos_pos_trivial [of "y - MODULO" MODULO] mod_add_self2 [of y MODULO] minus_mod_self2 [of y MODULO]
  by (simp split: if_split)

lemma wrap_day_mod:
  assumes "BIASN \<le> x" "x \<le> BIASP" "0 \<le> s" "s < MODULO"
  shows "wrap_day ((s + x) mod MODULO - s) = x" "wrap_day (s - (s - x) mod MODULO) = x"
proof -
  have "- MODULO \<le> s + x" "s + x < 2 * MODULO" "- MODULO \<le> s - x" "s - x < 2 * MODULO" using assms by linarith+
  note m = day_mod [OF this(1,2)] day_mod [OF this(3,4)]
  show "wrap_day ((s + x) mod MODULO - s) = x" "wrap_day (s - (s - x) mod MODULO) = x"
    unfolding m wrap_day_def using assms by auto
qed

lemma high_bit_clear:
  assumes "0 \<le> h" "h < MODULO"
  shows "(h :: int) AND 0x80000000 = 0"
proof -
  have "h = take_bit 31 h" using assms by (simp add: take_bit_int_eq_self)
  moreover have "(0x80000000 :: int) = 2 ^ 31" by simp
  ultimately have "h AND 0x80000000 = take_bit 31 h AND 2 ^ 31" by metis
  also have "\<dots> = 0" by (rule bit_eqI) (simp only: bit_and_iff bit_take_bit_iff bit_exp_iff bit_0_eq bot_apply, auto)
  finally show ?thesis .
qed

lemma host_clock_range: "0 \<le> host_clock th x" "host_clock th x < MODULO"
  by (simp_all add: host_clock_def)

lemma exchange_delta:
  assumes "exchange_ok th M x"
  shows "wrap_day (host_clock th x - day_ms (x_dep x)) = th + x_out x"
    "wrap_day (day_ms (x_arr x) - host_clock th x) = x_back x - th"
proof -
  let ?t = "day_ms (x_dep x) + x_out x + x_back x"
  have a: "day_ms (x_arr x) = ?t mod MODULO" "0 \<le> day_ms (x_arr x)" "day_ms (x_arr x) < MODULO"
    using assms by (simp_all add: exchange_ok_def)
  have "?t - (x_back x - th) = day_ms (x_dep x) + x_out x + th" by simp
  then have c: "host_clock th x = (day_ms (x_dep x) + (th + x_out x)) mod MODULO"
    "host_clock th x = (day_ms (x_arr x) - (x_back x - th)) mod MODULO"
    unfolding a(1) mod_diff_left_eq by (simp_all add: host_clock_def add_ac)
  show "wrap_day (host_clock th x - day_ms (x_dep x)) = th + x_out x"
    unfolding c(1) using assms by (intro wrap_day_mod) (simp_all add: exchange_ok_def)
  show "wrap_day (day_ms (x_arr x) - host_clock th x) = x_back x - th"
    unfolding c(2) using assms a(2,3) by (intro wrap_day_mod) (simp_all add: exchange_ok_def)
qed

text \<open>The best differences so far, after \<open>n\<close> replies.\<close>

definition mins_ok :: "int \<Rightarrow> int \<Rightarrow> measure_vars \<Rightarrow> bool" where
  "mins_ok th M mv \<longleftrightarrow>
     (if msgcount mv = 0 then min1 mv = 0x7fffffff \<and> min2 mv = 0x7fffffff
      else th \<le> min1 mv \<and> min1 mv \<le> th + M \<and> - th \<le> min2 mv \<and> min2 mv \<le> M - th
        \<and> BIASN \<le> min1 mv \<and> min1 mv \<le> BIASP \<and> BIASN \<le> min2 mv \<and> min2 mv \<le> BIASP)"

definition exchange_stamps :: "int \<Rightarrow> exchange \<Rightarrow> stamps" where
  "exchange_stamps th x = \<lparr>st_send = day_ms (x_dep x), st_his = host_clock th x, st_his1 = host_clock th x,
     st_recv = day_ms (x_arr x)\<rparr>"

definition same_session :: "run_state \<Rightarrow> run_state \<Rightarrow> bool" where
  "same_session c c' \<longleftrightarrow> rs_id c' = rs_id c \<and> ip_opt_len c' = ip_opt_len c \<and> seqno c' = seqno c
     \<and> seqno0 c' = seqno0 c \<and> acked c' = acked c"

lemma exchange_diff:
  assumes "exchange_ok th M x"
  shows "over_midnight x \<Longrightarrow> day_ms (x_arr x) - day_ms (x_dep x) < 0"
    "\<not> over_midnight x \<Longrightarrow> day_ms (x_arr x) - day_ms (x_dep x) = x_out x + x_back x"
    "instant x \<Longrightarrow> \<not> over_midnight x"
proof -
  let ?t = "day_ms (x_dep x) + x_out x + x_back x"
  have b: "0 \<le> ?t" "?t < 2 * MODULO" using assms by (simp_all add: exchange_ok_def)
  have m: "day_ms (x_arr x) = (if ?t < MODULO then ?t else ?t - MODULO)"
    using day_mod [of ?t] b assms by (simp add: exchange_ok_def)
  show "over_midnight x \<Longrightarrow> day_ms (x_arr x) - day_ms (x_dep x) < 0" by (simp add: over_midnight_def)
  show "\<not> over_midnight x \<Longrightarrow> day_ms (x_arr x) - day_ms (x_dep x) = x_out x + x_back x"
    using m assms by (simp add: over_midnight_def exchange_ok_def split: if_splits)
  show "instant x \<Longrightarrow> \<not> over_midnight x"
    using m assms by (simp add: over_midnight_def instant_def exchange_ok_def split: if_splits)
qed

text \<open>The bound on the best differences that is left after an exchange.\<close>

definition next_bound :: "int \<Rightarrow> exchange \<Rightarrow> int" where
  "next_bound U x = (if instant x then 0 else U)"

definition reply_result :: "exchange \<Rightarrow> measure_ret" where
  "reply_result x = (if instant x then BREAK else CONTINUE)"

definition counted :: "exchange \<Rightarrow> nat" where
  "counted x = (if over_midnight x then 0 else 1)"

lemma take_deltas_mins:
  assumes "exchange_ok th M x" "\<not> over_midnight x" "mins_ok th U mv0" "mv = mv0\<lparr>msgcount := msgcount mv0 + 1\<rparr>"
    and "0 \<le> U" "msgcount mv0 = 0 \<longrightarrow> U = M"
  shows "\<exists>ctl' mv'. take_deltas (day_ms (x_arr x) - day_ms (x_dep x)) (th + x_out x) (x_back x - th) (ctl, mv) = (reply_result x, ctl', mv')
    \<and> same_session ctl ctl' \<and> mins_ok th (next_bound U x) mv' \<and> msgcount mv' = msgcount mv0 + 1"
proof (cases "instant x")
  case True
  then have "x_out x = 0" "x_back x = 0" using assms(1) by (simp_all add: instant_def exchange_ok_def)
  with assms True exchange_diff(2) [OF assms(1,2)] show ?thesis
    by (auto simp: take_deltas_def same_session_def mins_ok_def reply_result_def next_bound_def exchange_ok_def Let_def)
next
  case False
  then have d: "\<not> day_ms (x_arr x) - day_ms (x_dep x) < RANGE"
    using exchange_diff(2) [OF assms(1,2)] assms(1) by (simp add: instant_def exchange_ok_def)
  have b: "0 \<le> x_out x" "x_out x \<le> M" "0 \<le> x_back x" "x_back x \<le> M" "BIASN \<le> th + x_out x" "th + x_out x \<le> BIASP"
    "BIASN \<le> x_back x - th" "x_back x - th \<le> BIASP"
    using assms(1) by (simp_all add: exchange_ok_def)
  show ?thesis
    unfolding take_deltas_def Let_def prod.case if_not_P [OF d]
    using assms(3-) False b
    by (auto simp: same_session_def mins_ok_def reply_result_def next_bound_def split: if_splits)
qed

lemma take_reply_exchange:
  assumes "exchange_ok th M x" "mins_ok th U mv" "0 \<le> U" "msgcount mv = 0 \<longrightarrow> U = M"
  shows "\<exists>ctl' mv'. take_reply (ctl, mv) (exchange_stamps th x) = (reply_result x, ctl', mv')
    \<and> same_session ctl ctl' \<and> mins_ok th (next_bound U x) mv' \<and> msgcount mv' = msgcount mv + counted x"
proof (cases "over_midnight x")
  case True
  then have "\<not> instant x" using exchange_diff(3) [OF assms(1)] by blast
  with True exchange_diff(1) [OF assms(1) True] assms(2) show ?thesis
    by (auto simp: take_reply_def exchange_stamps_def reply_result_def next_bound_def counted_def same_session_def)
next
  case False
  let ?diff = "day_ms (x_arr x) - day_ms (x_dep x)" and ?mv = "mv\<lparr>msgcount := msgcount mv + 1\<rparr>"
  let ?c = "ctl\<lparr>rtt := cdiv (rtt ctl * 3 + ?diff) 4\<rparr>"
  let ?ctl = "?c\<lparr>rtt_sigma := cdiv (rtt_sigma ?c * 3 + \<bar>?diff - rtt ?c\<bar>) 4\<rparr>"
  have diff: "\<not> ?diff < 0" using exchange_diff(2) [OF assms(1) False] assms(1) by (simp add: exchange_ok_def)
  have eq: "take_reply (ctl, mv) (exchange_stamps th x)
      = take_deltas ?diff (th + x_out x) (x_back x - th) (?ctl, ?mv)"
    using diff high_bit_clear [OF host_clock_range, of th x] exchange_delta [OF assms(1)]
    by (simp add: take_reply_def exchange_stamps_def Let_def)
  have "\<exists>ctl' mv'. take_deltas ?diff (th + x_out x) (x_back x - th) (?ctl, ?mv) = (reply_result x, ctl', mv')
    \<and> same_session ?ctl ctl' \<and> mins_ok th (next_bound U x) mv' \<and> msgcount mv' = msgcount mv + 1"
    by (rule take_deltas_mins [OF assms(1) False assms(2)]) (use assms(3,4) in simp_all)
  then show ?thesis unfolding eq using False by (simp add: same_session_def counted_def)
qed

lemma host_reply_fields:
  assumes "length hdr = 20" "hdr ! 0 = 0x45" "exchange_ok th M x"
  shows "length (host_reply hdr rid sq th x) = 40"
    "recv_icmp (host_reply hdr rid sq th x) = Some 20"
    "host_reply hdr rid sq th x ! 20 = ICMP_TIMESTAMPREPLY"
    "clockdiff_icmp_id (host_reply hdr rid sq th x) 20 = rid"
    "clockdiff_icmp_seq (host_reply hdr rid sq th x) 20 = sq"
    "icmp_stamps (host_reply hdr rid sq th x) 20 (x_arr x) = exchange_stamps th x"
proof -
  let ?d = "host_reply hdr rid sq th x" and ?h = "hdr @ [ICMP_TIMESTAMPREPLY, 0, 0, 0]"
  let ?s = "be32 (word_of_int (day_ms (x_dep x)))" and ?c = "be32 (word_of_int (host_clock th x))"
  have d: "?d = ?h @ le16 rid @ le16 sq @ ?s @ ?c @ ?c" by (simp add: host_reply_def Let_def)
  show len: "length ?d = 40" using assms by (simp add: d le16_def be32_def)
  have "?d ! 0 = 0x45" "?d ! 20 = ICMP_TIMESTAMPREPLY" using assms by (simp_all add: d nth_append)
  then show "recv_icmp ?d = Some 20" "?d ! 20 = ICMP_TIMESTAMPREPLY"
    using len by (simp_all add: recv_icmp_def clockdiff_packet_icmp_def)
  show "clockdiff_icmp_id ?d 20 = rid"
    using le16_at_le16 [of ?h rid] assms by (simp add: d clockdiff_icmp_id_def)
  show "clockdiff_icmp_seq ?d 20 = sq"
    using le16_at_le16 [of "?h @ le16 rid" sq] assms by (simp add: d clockdiff_icmp_seq_def le16_def)
  have "be32_at ?d 28 = word_of_int (day_ms (x_dep x))"
    using be32_at_be32 [of "?h @ le16 rid @ le16 sq"] assms by (simp add: d le16_def)
  moreover have "be32_at ?d 32 = word_of_int (host_clock th x)"
    using be32_at_be32 [of "?h @ le16 rid @ le16 sq @ ?s"] assms by (simp add: d le16_def be32_def)
  moreover have "uint (word_of_int (day_ms (x_dep x)) :: 32 word) = day_ms (x_dep x)"
    using assms(3) by (simp add: exchange_ok_def uint_word_of_int)
  moreover have "uint (word_of_int (host_clock th x) :: 32 word) = host_clock th x"
    using host_clock_range [of th x] by (simp add: uint_word_of_int)
  ultimately show "icmp_stamps ?d 20 (x_arr x) = exchange_stamps th x"
    by (simp add: icmp_stamps_def exchange_stamps_def Let_def)
qed

lemma fill_packet_host:
  assumes "length d = 40"
  shows "fill_packet old d = d @ drop 40 old" "take PACKET_IN d = d"
  using assms by (simp_all add: fill_packet_def)

lemma icmp_fields_append:
  assumes "20 + 16 \<le> length d"
  shows "clockdiff_icmp_id (d @ r) 20 = clockdiff_icmp_id d 20"
    "clockdiff_icmp_seq (d @ r) 20 = clockdiff_icmp_seq d 20"
    "icmp_stamps (d @ r) 20 now = icmp_stamps d 20 now"
  using assms by (simp_all add: clockdiff_icmp_id_def clockdiff_icmp_seq_def icmp_stamps_def le16_at_def be32_at_def
      nth_append Let_def)

lemma handle_packet_exchange:
  assumes "length hdr = 20" "hdr ! 0 = 0x45" "exchange_ok th M x" "mins_ok th U mv" "ip_opt_len ctl = 0"
    and "seqno0 ctl \<le> seqno ctl" "acked ctl < seqno ctl"
    and "0 \<le> U" "msgcount mv = 0 \<longrightarrow> U = M"
    and "d = host_reply hdr (rs_id ctl) (seqno ctl) th x" "packet mv = fill_packet old d"
  shows "\<exists>ctl' mv'. handle_packet (ctl, mv) 40 (x_arr x) = (reply_result x, ctl', mv')
    \<and> same_session (ctl\<lparr>acked := seqno ctl\<rparr>) ctl' \<and> mins_ok th (next_bound U x) mv' \<and> msgcount mv' = msgcount mv + counted x"
proof -
  note f = host_reply_fields [OF assms(1-3), of "rs_id ctl" "seqno ctl", folded assms(10)]
  note fp = fill_packet_host [OF f(1)]
  note app = icmp_fields_append [of d]
  have "clockdiff_packet_icmp (packet mv) 40 = Some 20"
    using fill_packet_icmp [of old d] f(1,2) fp(2) by (simp add: assms(11))
  moreover have "reply_matches ctl (packet mv) 20"
    using f app assms(6) by (simp add: assms(11) fp reply_matches_def nth_append)
  moreover have "icmp_stamps (packet mv) 20 (x_arr x) = exchange_stamps th x"
      "clockdiff_icmp_seq (packet mv) 20 = seqno ctl"
    using f app by (simp_all add: assms(11) fp)
  ultimately have "handle_packet (ctl, mv) 40 (x_arr x)
      = take_reply (ctl\<lparr>acked := seqno ctl\<rparr>, mv) (exchange_stamps th x)"
    using assms(5,7) by (simp add: handle_packet_def clockdiff_icmp_octets_def Let_def)
  then show ?thesis using take_reply_exchange [OF assms(3,4,8,9)] by simp
qed

lemma inner_loop_exchange:
  assumes "length hdr = 20" "hdr ! 0 = 0x45" "exchange_ok th M x" "mins_ok th U mv" "ip_opt_len ctl = 0"
    and "seqno0 ctl \<le> seqno ctl" "acked ctl < seqno ctl"
    and "0 \<le> U" "msgcount mv = 0 \<longrightarrow> U = M"
  shows "\<exists>ctl' mv'. inner_loop (ctl, mv)
      (Recv (host_reply hdr (rs_id ctl) (seqno ctl) th x) (x_arr x) # (if instant x then [] else [PollNone]) @ evs) = (BREAK, (ctl', mv'), evs)
    \<and> same_session (ctl\<lparr>acked := seqno ctl\<rparr>) ctl' \<and> mins_ok th (next_bound U x) mv' \<and> msgcount mv' = msgcount mv + counted x"
proof -
  define d where "d = host_reply hdr (rs_id ctl) (seqno ctl) th x"
  define mv1 where "mv1 = mv\<lparr>tout := poll_timeout ctl, packet := fill_packet (packet mv) d\<rparr>"
  define evs1 where "evs1 = (if instant x then [] else [PollNone]) @ evs"
  have len: "length d = 40" unfolding d_def by (rule host_reply_fields(1) [OF assms(1-3)])
  have ok: "mins_ok th U mv1" "msgcount mv1 = 0 \<longrightarrow> U = M" using assms(4,9) by (simp_all add: mins_ok_def mv1_def)
  have "\<exists>ctl' mv'. handle_packet (ctl, mv1) 40 (x_arr x) = (reply_result x, ctl', mv')
    \<and> same_session (ctl\<lparr>acked := seqno ctl\<rparr>) ctl' \<and> mins_ok th (next_bound U x) mv' \<and> msgcount mv' = msgcount mv1 + counted x"
    by (rule handle_packet_exchange [OF assms(1-3) ok(1) assms(5-8) ok(2) d_def, of "packet mv"]) (simp add: mv1_def)
  then obtain ctl' mv' where h: "handle_packet (ctl, mv1) 40 (x_arr x) = (reply_result x, ctl', mv')"
      "same_session (ctl\<lparr>acked := seqno ctl\<rparr>) ctl'" "mins_ok th (next_bound U x) mv'" "msgcount mv' = msgcount mv1 + counted x" by blast
  have once: "measure_inner_loop (ctl, mv) (Recv d (x_arr x) # evs1) = (reply_result x, (ctl', mv'), evs1)"
    using h(1) len by (simp add: measure_inner_loop_def mv1_def Let_def)
  have "\<exists>mv2. inner_loop (ctl, mv) (Recv d (x_arr x) # evs1) = (BREAK, (ctl', mv2), evs)
    \<and> mins_ok th (next_bound U x) mv2 \<and> msgcount mv2 = msgcount mv'"
  proof (cases "instant x")
    case True
    with once h(3) show ?thesis by (subst inner_loop.simps) (simp add: reply_result_def evs1_def)
  next
    case False
    then have "inner_loop (ctl, mv) (Recv d (x_arr x) # evs1) = inner_loop (ctl', mv') (PollNone # evs)"
      using once by (subst inner_loop.simps) (simp add: reply_result_def evs1_def)
    also have "\<dots> = (BREAK, (ctl', mv'\<lparr>tout := poll_timeout ctl'\<rparr>), evs)"
      by (subst inner_loop.simps) (simp add: measure_inner_loop_def Let_def)
    finally show ?thesis using h(3) by (simp add: mins_ok_def)
  qed
  then show ?thesis unfolding evs1_def [symmetric] d_def [symmetric] using h(2,4) by (fastforce simp: mv1_def)
qed

text \<open>The exchanges of a measurement, up to the fiftieth reply that counts.\<close>

abbreviation counts :: "exchange list \<Rightarrow> nat" where
  "counts xs \<equiv> length (filter (\<lambda>x. \<not> over_midnight x) xs)"

lemma measure_loop_exchange:
  assumes "\<And>k. snd (sends k)" "length hdr = 20" "hdr ! 0 = 0x45"
    and "ms_cm m = (ctl, mv)" "ms_evs m = exchange_evs hdr (rs_id ctl) (seqno ctl + 1) th xs"
    and "list_all (exchange_ok th M) xs" "mins_ok th U mv" "ip_opt_len ctl = 0" "seqno0 ctl = 0" "acked ctl = seqno ctl"
    and "uint (seqno ctl) = int n" "length (ms_sent m) = n" "n + length xs < 0x10000"
    and "msgcount mv + counts xs = MSGS" "xs \<noteq> [] \<longrightarrow> \<not> over_midnight (last xs)"
    and "0 \<le> U" "msgcount mv = 0 \<longrightarrow> U = M"
  shows "\<exists>m' ctl' mv'. measure_loop sends m = Some (GOOD, m') \<and> ms_cm m' = (ctl', mv')
    \<and> mins_ok th (if \<exists>x\<in>set xs. instant x then 0 else U) mv' \<and> msgcount mv' = MSGS \<and> length (ms_sent m') = n + length xs"
  using assms(4-)
proof (induction xs arbitrary: n m ctl mv U)
  case Nil
  then show ?case by (subst measure_loop.simps) simp
next
  case (Cons x xs)
  let ?ctl = "ctl\<lparr>seqno := seqno ctl + 1\<rparr>"
  have n: "n < 0xFFFF" using Cons.prems(10) by simp
  have "last (x # xs) \<in> set (filter (\<lambda>y. \<not> over_midnight y) (x # xs))"
    using Cons.prems(12) last_in_set [of "x # xs"] by (simp only: set_filter mem_Collect_eq) simp
  then have "0 < counts (x # xs)" by (rule length_pos_if_in_set)
  then have less: "msgcount mv < MSGS" using Cons.prems(11) by linarith
  have seq: "uint (seqno ?ctl) = int (n + 1)" using Cons.prems(8) n uint_succ [of "seqno ctl"] by simp
  have lt: "acked ?ctl < seqno ?ctl" using Cons.prems(7,8) seq by (simp add: word_less_def)
  define sr where "sr = m\<lparr>ms_cm := (?ctl, mv), ms_sent := ms_sent m @ [build_request ?ctl (fst (sends (length (ms_sent m))))]\<rparr>"
  have send: "send_request sends m = (True, sr)"
    using Cons.prems(1) assms(1) [of "length (ms_sent m)"]
    by (cases "sends (length (ms_sent m))") (simp add: send_request_def sr_def Let_def)
  define rest where "rest = exchange_evs hdr (rs_id ctl) (seqno ctl + 1 + 1) th xs"
  have "\<exists>ctl' mv'. inner_loop (?ctl, mv) (Recv (host_reply hdr (rs_id ?ctl) (seqno ?ctl) th x) (x_arr x)
      # (if instant x then [] else [PollNone]) @ rest) = (BREAK, (ctl', mv'), rest)
    \<and> same_session (?ctl\<lparr>acked := seqno ?ctl\<rparr>) ctl' \<and> mins_ok th (next_bound U x) mv' \<and> msgcount mv' = msgcount mv + counted x"
    by (rule inner_loop_exchange [OF assms(2,3), of th M]) (use Cons.prems lt in simp_all)
  then obtain ctl' mv' where il: "inner_loop (?ctl, mv) (ms_evs m) = (BREAK, (ctl', mv'), rest)"
    and ss: "same_session (?ctl\<lparr>acked := seqno ?ctl\<rparr>) ctl'" and mv': "mins_ok th (next_bound U x) mv'" "msgcount mv' = msgcount mv + counted x"
    using Cons.prems(2) by (auto simp: rest_def)
  define m' where "m' = sr\<lparr>ms_cm := (ctl', mv'), ms_evs := rest\<rparr>"
  have step: "measure_loop sends m = measure_loop sends m'"
    using Cons.prems(1,7) less il send
    by (subst measure_loop.simps) (simp add: Let_def m'_def, simp add: sr_def)
  have nb: "next_bound U x = 0 \<or> next_bound U x = U \<and> \<not> instant x" by (simp add: next_bound_def)
  have "msgcount mv' = 0 \<longrightarrow> next_bound U x = M"
    using mv'(2) Cons.prems(14) Cons.prems(3) exchange_diff(3) [of th M x] by (auto simp: counted_def next_bound_def split: if_splits)
  moreover have "xs \<noteq> [] \<longrightarrow> \<not> over_midnight (last xs)" using Cons.prems(12) by (simp split: if_splits)
  moreover have "msgcount mv' + counts xs = MSGS" using mv'(2) Cons.prems(11) by (simp add: counted_def split: if_splits)
  ultimately have "\<exists>m'' ctl'' mv''. measure_loop sends m' = Some (GOOD, m'') \<and> ms_cm m'' = (ctl'', mv'')
    \<and> mins_ok th (if \<exists>x\<in>set xs. instant x then 0 else next_bound U x) mv'' \<and> msgcount mv'' = MSGS
    \<and> length (ms_sent m'') = (n + 1) + length xs"
    using Cons.prems ss mv' seq
    by (intro Cons.IH [of m' ctl' mv' "next_bound U x" "n + 1"]) (simp_all add: m'_def sr_def same_session_def rest_def next_bound_def)
  moreover have "(if \<exists>x\<in>set xs. instant x then 0 else next_bound U x) = (if \<exists>x\<in>set (x # xs). instant x then 0 else U)"
    by (auto simp: next_bound_def)
  ultimately show ?case unfolding step by simp
qed

lemma half_unit: "2 * \<bar>a\<bar> \<le> 1 \<Longrightarrow> a = 0" for a :: int
  by presburger

lemma cdiv_two: "\<bar>2 * cdiv a 2 - a\<bar> \<le> 1"
proof -
  consider "a < 0" | "a = 0" | "a > 0" by linarith
  then show ?thesis
  proof cases
    case 1
    then have "cdiv a 2 = - (- a div 2)" by (simp add: cdiv_def)
    then show ?thesis by presburger
  next
    case 3
    then have "cdiv a 2 = a div 2" by (simp add: cdiv_nonneg)
    then show ?thesis by presburger
  qed (simp add: cdiv_def)
qed

lemma mins_ok_delta:
  assumes "mins_ok th M mv" "msgcount mv = MSGS"
  shows "2 * \<bar>to_int32 (cdiv (min1 mv - min2 mv) 2 + PROCESSING_TIME) - th\<bar> \<le> M + 1"
proof -
  let ?d = "cdiv (min1 mv - min2 mv) 2"
  have b: "th \<le> min1 mv" "min1 mv \<le> th + M" "- th \<le> min2 mv" "min2 mv \<le> M - th"
      "BIASN \<le> min1 mv" "min1 mv \<le> BIASP" "BIASN \<le> min2 mv" "min2 mv \<le> BIASP"
    using assms by (simp_all add: mins_ok_def)
  have d: "\<bar>2 * ?d - (min1 mv - min2 mv)\<bar> \<le> 1" by (rule cdiv_two)
  then have "- 0x80000000 \<le> ?d" "?d < 0x80000000" using b by linarith+
  then have "to_int32 (?d + PROCESSING_TIME) = ?d" by (simp add: to_signed_id)
  moreover have "\<bar>2 * ?d - 2 * th\<bar> \<le> M + 1" using b d by linarith
  ultimately show ?thesis by (simp add: abs_if split: if_splits)
qed

text \<open>
C18: With a host that answers every request, whose clock is ahead by \<open>th\<close> (less than half a day)
and whose one-way delays are at most \<open>M\<close> milliseconds, the measurement ends after the fiftieth reply
with a result that is off by at most half of \<open>M + 1\<close>, whichever midnight lies between the two clocks.
Replies over a midnight of the local clock do not count and are made up for by one more request each.
When a reply arrives in the millisecond of its request the result is exact.
\<close>
theorem measure_accuracy:
  assumes "length (filter (\<lambda>x. \<not> over_midnight x) xs) = MSGS" "\<not> over_midnight (last xs)" "length xs < 0x10000"
    and "list_all (exchange_ok th M) xs" "ip_opt_len ctl = 0"
    and "length hdr = 20" "hdr ! 0 = 0x45"
  shows "\<exists>ctl' sent. cd_measure (\<lambda>k. (x_dep (xs ! k), True)) [] (exchange_evs hdr (rs_id ctl) 1 th xs) ctl
      = Some (GOOD, ctl', sent)
    \<and> length sent = length xs \<and> 2 * \<bar>measure_delta ctl' - th\<bar> \<le> M + 1
    \<and> ((\<exists>x\<in>set xs. x_out x + x_back x = 0) \<longrightarrow> measure_delta ctl' = th)"
proof -
  define evs where "evs = exchange_evs hdr (rs_id ctl) 1 th xs"
  define m where "m = measure_init (measure_start ctl) (replicate PACKET_IN 0) evs"
  define ctl1 where "ctl1 = fst (ms_cm m)"
  define mv where "mv = snd (ms_cm m)"
  define U where "U = (if \<exists>x\<in>set xs. instant x then 0 else M)"
  have "xs \<noteq> []" using assms(1) by auto
  then have "0 \<le> M" using assms(4) by (cases xs) (auto simp: exchange_ok_def)
  then have start: "ms_cm m = (ctl1, mv)" "ms_evs m = exchange_evs hdr (rs_id ctl1) (seqno ctl1 + 1) th xs"
      "mins_ok th M mv" "ip_opt_len ctl1 = 0" "seqno0 ctl1 = 0" "acked ctl1 = seqno ctl1"
      "uint (seqno ctl1) = int 0" "length (ms_sent m) = 0" "0 + length xs < 0x10000" "msgcount mv + counts xs = MSGS"
      "xs \<noteq> [] \<longrightarrow> \<not> over_midnight (last xs)" "0 \<le> M" "msgcount mv = 0 \<longrightarrow> M = M"
    using assms(1-3,5)
    by (simp_all add: m_def measure_init_def measure_start_def ctl1_def mv_def mins_ok_def evs_def)
  obtain m' ctl' mv' where r: "measure_loop (\<lambda>k. (x_dep (xs ! k), True)) m = Some (GOOD, m')" "ms_cm m' = (ctl', mv')"
      "mins_ok th U mv'" "msgcount mv' = MSGS" "length (ms_sent m') = length xs"
    using measure_loop_exchange [OF _ assms(6,7) start(1,2) assms(4) start(3-13), where sends = "\<lambda>k. (x_dep (xs ! k), True)"]
    by (auto simp: U_def)
  have b: "2 * \<bar>measure_delta (measure_end GOOD m') - th\<bar> \<le> U + 1"
    using r(2) mins_ok_delta [OF r(3,4)] by (simp add: measure_end_def)
  have exact: "measure_delta (measure_end GOOD m') = th" if "\<exists>x\<in>set xs. x_out x + x_back x = 0"
  proof -
    have "U = 0" using that by (simp add: U_def instant_def)
    then show ?thesis using half_unit [of "measure_delta (measure_end GOOD m') - th"] b by simp
  qed
  have "2 * \<bar>measure_delta (measure_end GOOD m') - th\<bar> \<le> M + 1" using b \<open>0 \<le> M\<close> by (simp add: U_def split: if_splits)
  with exact show ?thesis
    unfolding evs_def [symmetric] cd_measure_def using r(1,5) by (simp add: m_def [symmetric])
qed

definition demo_exchange :: exchange where
  "demo_exchange = \<lparr>x_dep = \<lparr>tv_sec = 100, tv_nsec = 5000000\<rparr>, x_out = 7, x_back = 3, x_arr = \<lparr>tv_sec = 100, tv_nsec = 15000000\<rparr>\<rparr>"

definition demo_instant :: exchange where
  "demo_instant = \<lparr>x_dep = \<lparr>tv_sec = 100, tv_nsec = 5000000\<rparr>, x_out = 0, x_back = 0, x_arr = \<lparr>tv_sec = 100, tv_nsec = 5000000\<rparr>\<rparr>"

definition demo_midnight :: exchange where
  "demo_midnight = \<lparr>x_dep = \<lparr>tv_sec = 86399, tv_nsec = 995000000\<rparr>, x_out = 7, x_back = 3, x_arr = \<lparr>tv_sec = 86400, tv_nsec = 5000000\<rparr>\<rparr>"

definition demo_exchanges :: "exchange list" where
  "demo_exchanges = demo_midnight # demo_instant # replicate 49 demo_exchange"

theorem measure_accuracy_witness:
  "\<exists>ctl' sent. cd_measure (\<lambda>k. (x_dep (demo_exchanges ! k), True)) []
      (exchange_evs (0x45 # replicate 19 0) 0x1234 1 (- 200000) demo_exchanges) (demo_ctl 0)
      = Some (GOOD, ctl', sent)
    \<and> length sent = 51 \<and> measure_delta ctl' = - 200000"
proof -
  have d: "day_ms (x_dep demo_exchange) = 100005" "day_ms (x_arr demo_exchange) = 100015"
    "day_ms (x_dep demo_instant) = 100005" "day_ms (x_arr demo_instant) = 100005"
    "day_ms (x_dep demo_midnight) = 86399995" "day_ms (x_arr demo_midnight) = 5"
    by (simp_all add: demo_exchange_def demo_instant_def demo_midnight_def day_ms_def cmod_def cdiv_def)
  have o: "over_midnight demo_midnight" "\<not> over_midnight demo_instant" "\<not> over_midnight demo_exchange"
    by (simp_all add: over_midnight_def d)
  have ok: "exchange_ok (- 200000) 10 x" if "x \<in> {demo_exchange, demo_instant, demo_midnight}" for x
    using that d by (auto simp: exchange_ok_def) (simp_all add: demo_exchange_def demo_instant_def demo_midnight_def)
  have i: "x_out demo_instant + x_back demo_instant = 0" by (simp add: demo_instant_def)
  have l: "length (filter (\<lambda>x. \<not> over_midnight x) demo_exchanges) = MSGS" "\<not> over_midnight (last demo_exchanges)"
    "length demo_exchanges < 0x10000" "list_all (exchange_ok (- 200000) 10) demo_exchanges" "length demo_exchanges = 51"
    "demo_instant \<in> set demo_exchanges"
    using o ok by (simp_all add: demo_exchanges_def list_all_iff filter_replicate last_replicate)
  show ?thesis
    using measure_accuracy [OF l(1-4), of "demo_ctl 0" "0x45 # replicate 19 0"] l(5,6) i by (fastforce simp: demo_ctl_def)
qed

end
