(* ===== verification/Getopt.thy ===== *)
theory Getopt
  imports C_Prelude
begin

text \<open>
  \<open>getopt_long\<close> as the command lines use it: options and operands may be mixed, short options may be
  run together, long options may be shortened while unambiguous. The whole scan gives the sequence of
  values the calls return, with their arguments, and the operands in order.
\<close>

record getopt_spec =
  gs_short :: "(char \<times> bool) list"
  gs_long :: "(string \<times> bool \<times> int) list"

type_synonym opt_item = "int \<times> string option"

abbreviation OPT_ERR :: int where "OPT_ERR \<equiv> 63"

definition opt_code :: "char \<Rightarrow> int" where
  "opt_code c = int (of_char c)"

fun short_opts :: "(char \<times> bool) list \<Rightarrow> string \<Rightarrow> string list \<Rightarrow> opt_item list \<times> string list" where
  "short_opts sp [] rest = ([], rest)"
| "short_opts sp (c # cs) rest =
     (case map_of sp c of
        None \<Rightarrow> (case short_opts sp cs rest of (items, rest') \<Rightarrow> ((OPT_ERR, None) # items, rest'))
      | Some False \<Rightarrow> (case short_opts sp cs rest of (items, rest') \<Rightarrow> ((opt_code c, None) # items, rest'))
      | Some True \<Rightarrow>
          if cs \<noteq> [] then ([(opt_code c, Some cs)], rest)
          else (case rest of a # as \<Rightarrow> ([(opt_code c, Some a)], as) | [] \<Rightarrow> ([(OPT_ERR, None)], [])))"

definition find_long :: "(string \<times> bool \<times> int) list \<Rightarrow> string \<Rightarrow> (bool \<times> int) option" where
  "find_long ls name =
     (case map_of ls name of
        Some l \<Rightarrow> Some l
      | None \<Rightarrow>
          (case remdups (map snd (filter (\<lambda>(n, _). has_prefix name n) ls)) of [l] \<Rightarrow> Some l | _ \<Rightarrow> None))"

definition long_opt :: "(string \<times> bool \<times> int) list \<Rightarrow> string \<Rightarrow> string list \<Rightarrow> opt_item \<times> string list" where
  "long_opt ls body rest =
     (let name = takeWhile (\<lambda>ch. ch \<noteq> CHR ''='') body; val = dropWhile (\<lambda>ch. ch \<noteq> CHR ''='') body
      in case find_long ls name of
           None \<Rightarrow> ((OPT_ERR, None), rest)
         | Some (False, code) \<Rightarrow> if val = [] then ((code, None), rest) else ((OPT_ERR, None), rest)
         | Some (True, code) \<Rightarrow>
             if val \<noteq> [] then ((code, Some (tl val)), rest)
             else (case rest of a # as \<Rightarrow> ((code, Some a), as) | [] \<Rightarrow> ((OPT_ERR, None), [])))"

lemma short_opts_rest: "length (snd (short_opts sp cs rest)) \<le> length rest"
  by (induction sp cs rest rule: short_opts.induct) (auto split: option.splits bool.splits list.splits prod.splits)

lemma long_opt_rest: "length (snd (long_opt ls body rest)) \<le> length rest"
  by (auto simp: long_opt_def Let_def split: option.splits bool.splits list.splits)

function getopt_all :: "getopt_spec \<Rightarrow> string list \<Rightarrow> opt_item list \<times> string list" where
  "getopt_all sp [] = ([], [])"
| "getopt_all sp (a # rest) =
     (if a = ''--'' then ([], rest)
      else if has_prefix ''--'' a then
        (let l = long_opt (gs_long sp) (drop 2 a) rest; r = getopt_all sp (snd l) in (fst l # fst r, snd r))
      else if has_prefix ''-'' a \<and> a \<noteq> ''-'' then
        (let s = short_opts (gs_short sp) (drop 1 a) rest; r = getopt_all sp (snd s) in (fst s @ fst r, snd r))
      else (let r = getopt_all sp rest in (fst r, a # snd r)))"
  by pat_completeness auto
termination
  by (relation "measure (\<lambda>(_, args). length args)")
     (auto simp: le_less_trans [OF short_opts_rest] le_less_trans [OF long_opt_rest] less_Suc_eq_le short_opts_rest long_opt_rest)

end
