(* ===== verification/Bclockdiff.thy ===== *)
theory Bclockdiff
  imports Clockdiff Getopt Btools
begin

text \<open>
  The command lines, set-up and output of \<open>clockdiff.c\<close> and \<open>bclockdiff.c\<close> around the measurement
  of theory \<open>Clockdiff\<close>. The sockets, the name lookup, the clock and \<open>strftime\<close> are in the record
  \<open>cd_env\<close>; a program run gives its exit status and its standard output, without
  the progress dots of an interactive run.
\<close>

subsection \<open>BrightDate units\<close>

datatype brightdate_unit = BD_UNIT_DAY | BD_UNIT_MICRODAY | BD_UNIT_NANODAY

record bright_opts =
  use_brightdate :: bool
  bd_unit :: brightdate_unit

definition BRIGHTDATE_DAY_MS :: real where "BRIGHTDATE_DAY_MS = 86400000"
definition BRIGHTDATE_MICRODAY_MS :: real where "BRIGHTDATE_MICRODAY_MS = 0.0864"
definition BRIGHTDATE_NANODAY_MS :: real where "BRIGHTDATE_NANODAY_MS = 0.0000864"

fun ms_to_brightdate :: "real \<Rightarrow> brightdate_unit \<Rightarrow> real" where
  "ms_to_brightdate ms BD_UNIT_DAY = ms / BRIGHTDATE_DAY_MS"
| "ms_to_brightdate ms BD_UNIT_MICRODAY = ms / BRIGHTDATE_MICRODAY_MS"
| "ms_to_brightdate ms BD_UNIT_NANODAY = ms / BRIGHTDATE_NANODAY_MS"

fun brightdate_unit_str :: "brightdate_unit \<Rightarrow> string" where
  "brightdate_unit_str BD_UNIT_DAY = ''d''"
| "brightdate_unit_str BD_UNIT_MICRODAY = ''ud''"
| "brightdate_unit_str BD_UNIT_NANODAY = ''nd''"

subsection \<open>Command lines\<close>

text \<open>The ways in which an option ends the program; other options change the state.\<close>

datatype cd_stop = Cd_Version | Cd_Help | Cd_Bad_Value | Cd_Unknown

definition cd_spec :: getopt_spec where
  "cd_spec = \<lparr>gs_short = [(CHR ''o'', False), (CHR ''1'', False), (CHR ''T'', True), (CHR ''I'', False),
       (CHR ''V'', False), (CHR ''h'', False)],
     gs_long = [(''time-format'', True, 84), (''version'', False, 86), (''help'', False, 104)]\<rparr>"

definition cd_opt :: "opt_item \<Rightarrow> run_state \<Rightarrow> cd_stop + run_state" where
  "cd_opt it ctl =
     (case it of (code, arg) \<Rightarrow>
       if code = opt_code (CHR ''o'') then Inr (ctl\<lparr>ip_opt_len := 4 + 4 * 8\<rparr>)
       else if code = opt_code (CHR ''1'') then Inr (ctl\<lparr>ip_opt_len := 4 + 3 * 8\<rparr>)
       else if code = opt_code (CHR ''T'') then
         (if arg = Some ''iso'' then Inr (ctl\<lparr>time_format := time_format_iso\<rparr>)
          else if arg = Some ''ctime'' then Inr (ctl\<lparr>time_format := time_format_ctime\<rparr>)
          else Inl Cd_Bad_Value)
       else if code = opt_code (CHR ''I'') then Inr (ctl\<lparr>time_format := time_format_iso\<rparr>)
       else if code = opt_code (CHR ''V'') then Inl Cd_Version
       else if code = opt_code (CHR ''h'') then Inl Cd_Help
       else Inl Cd_Unknown)"

fun cd_parse_opts :: "opt_item list \<Rightarrow> run_state \<Rightarrow> cd_stop + run_state" where
  "cd_parse_opts [] ctl = Inr ctl"
| "cd_parse_opts (it # its) ctl = (case cd_opt it ctl of Inl code \<Rightarrow> Inl code | Inr ctl' \<Rightarrow> cd_parse_opts its ctl')"

definition bcd_spec :: getopt_spec where
  "bcd_spec = \<lparr>gs_short = [(CHR ''o'', False), (CHR ''1'', False), (CHR ''T'', True), (CHR ''I'', False),
       (CHR ''V'', False), (CHR ''h'', False), (CHR ''B'', False)],
     gs_long = [(''time-format'', True, 84), (''version'', False, 86), (''help'', False, 104),
       (''brightdate'', False, 66), (''unit'', True, 1000)]\<rparr>"

definition bcd_opt :: "opt_item \<Rightarrow> run_state \<times> bright_opts \<Rightarrow> cd_stop + run_state \<times> bright_opts" where
  "bcd_opt it cb =
     (case it of (code, arg) \<Rightarrow> case cb of (ctl, b) \<Rightarrow>
       if code = opt_code (CHR ''o'') then Inr (ctl\<lparr>ip_opt_len := 4 + 4 * 8\<rparr>, b)
       else if code = opt_code (CHR ''1'') then Inr (ctl\<lparr>ip_opt_len := 4 + 3 * 8\<rparr>, b)
       else if code = opt_code (CHR ''T'') then
         (if arg = Some ''iso'' then Inr (ctl\<lparr>time_format := time_format_iso\<rparr>, b)
          else if arg = Some ''ctime'' then Inr (ctl\<lparr>time_format := time_format_ctime\<rparr>, b)
          else Inl Cd_Bad_Value)
       else if code = opt_code (CHR ''I'') then Inr (ctl\<lparr>time_format := time_format_iso\<rparr>, b)
       else if code = opt_code (CHR ''B'') then Inr (ctl, b\<lparr>use_brightdate := True\<rparr>)
       else if code = 1000 then
         (if arg = Some ''d'' then Inr (ctl, b\<lparr>bd_unit := BD_UNIT_DAY\<rparr>)
          else if arg = Some ''ud'' then Inr (ctl, b\<lparr>bd_unit := BD_UNIT_MICRODAY\<rparr>)
          else if arg = Some ''nd'' then Inr (ctl, b\<lparr>bd_unit := BD_UNIT_NANODAY\<rparr>)
          else Inl Cd_Bad_Value)
       else if code = opt_code (CHR ''V'') then Inl Cd_Version
       else if code = opt_code (CHR ''h'') then Inl Cd_Help
       else Inl Cd_Unknown)"

fun bcd_parse_loop :: "opt_item list \<Rightarrow> run_state \<times> bright_opts \<Rightarrow> cd_stop + run_state \<times> bright_opts" where
  "bcd_parse_loop [] cb = Inr cb"
| "bcd_parse_loop (it # its) cb = (case bcd_opt it cb of Inl code \<Rightarrow> Inl code | Inr cb' \<Rightarrow> bcd_parse_loop its cb')"

definition bcd_parse_opts :: "opt_item list \<Rightarrow> run_state \<Rightarrow> cd_stop + run_state \<times> bright_opts" where
  "bcd_parse_opts its ctl = bcd_parse_loop its (ctl, \<lparr>use_brightdate = False, bd_unit = BD_UNIT_MICRODAY\<rparr>)"

subsection \<open>Set-up\<close>

text \<open>The IP timestamp option with prespecified addresses: four header octets, then the slots.\<close>

definition ts_slot :: "bytes \<Rightarrow> bytes" where
  "ts_slot addr = addr @ [0, 0, 0, 0]"

definition ts_option :: "nat \<Rightarrow> bytes \<Rightarrow> bytes \<Rightarrow> bytes" where
  "ts_option olen my his =
     [IPOPT_TIMESTAMP, of_nat olen, 5, IPOPT_TS_PRESPEC]
     @ (if olen = 4 + 4 * 8 then ts_slot my @ ts_slot his @ ts_slot his @ ts_slot my
        else ts_slot my @ ts_slot his @ ts_slot my)"

record cd_env =
  ce_socket :: bool
  ce_nice :: bool
  ce_tty :: bool
  ce_stdout_tty :: bool
  ce_pid :: nat
  ce_lookup :: "string \<Rightarrow> (string \<times> bytes) option"
  ce_calloc :: bool
  ce_sockname :: "bytes option"
  ce_setsockopt :: "bytes \<Rightarrow> bool"
  ce_sends :: "nat \<Rightarrow> timespec \<times> bool"
  ce_queue :: "recv_ev list"
  ce_evs :: "recv_ev list"
  ce_now :: int
  ce_strftime :: "string \<Rightarrow> int \<Rightarrow> string"
  ce_fmt9 :: "real \<Rightarrow> string"
  ce_getenv :: "string \<Rightarrow> string option"
  ce_version :: "string \<Rightarrow> string"
  ce_config :: string

definition cd_init :: run_state where
  "cd_init = \<lparr>interactive = False, rs_id = 0, ip_opt_len = 0, measure_delta = 0, measure_delta1 = 0, seqno = 0,
     seqno0 = 0, acked = 0, rtt = 1000, min_rtt = 0, rtt_sigma = 0, time_format = time_format_ctime\<rparr>"

text \<open>Up to the measurement: the exit status of a failed call, or the state and the host name.\<close>

definition cd_setup :: "cd_env \<Rightarrow> run_state \<Rightarrow> string \<Rightarrow> int + run_state \<times> string" where
  "cd_setup e ctl dest =
     (if \<not> ce_socket e then Inl 1
      else if \<not> ce_nice e then Inl 1
      else let ctl = ctl\<lparr>interactive := ce_tty e, rs_id := of_nat (ce_pid e)\<rparr>
           in case ce_lookup e dest of
                None \<Rightarrow> Inl 1
              | Some (canon, server) \<Rightarrow>
                  (let hisname = (if canon \<noteq> [] then canon else dest)
                   in if ip_opt_len ctl = 0 then Inr (ctl, hisname)
                      else if \<not> ce_calloc e then Inl 1
                      else case ce_sockname e of
                             None \<Rightarrow> Inl 1
                           | Some my \<Rightarrow>
                               if ce_setsockopt e (ts_option (ip_opt_len ctl) my server) then Inr (ctl, hisname)
                               else Inr (ctl\<lparr>ip_opt_len := 0\<rparr>, hisname)))"

definition cd_time :: "cd_env \<Rightarrow> run_state \<Rightarrow> string" where
  "cd_time e ctl =
     ce_strftime e (case time_format ctl of time_format_iso \<Rightarrow> ''%Y-%m-%dT%H:%M:%S%z''
                                          | time_format_ctime \<Rightarrow> ''%a %b %e %H:%M:%S %Y'') (ce_now e)"

subsection \<open>Output and programs\<close>

definition cd_output :: "cd_env \<Rightarrow> run_state \<Rightarrow> string \<Rightarrow> string" where
  "cd_output e ctl hisname =
     (if interactive ctl
      then NL @ ''host='' @ hisname @ '' rtt='' @ int_dec (rtt ctl) @ ''('' @ int_dec (rtt_sigma ctl) @ '')ms/''
           @ int_dec (min_rtt ctl) @ ''ms delta='' @ int_dec (measure_delta ctl) @ ''ms/''
           @ int_dec (measure_delta1 ctl) @ ''ms '' @ cd_time e ctl @ NL
      else int_dec (ce_now e) @ '' '' @ int_dec (measure_delta ctl) @ '' '' @ int_dec (measure_delta1 ctl) @ NL)"

definition bright_pair :: "cd_env \<Rightarrow> bright_opts \<Rightarrow> run_state \<Rightarrow> string \<times> string" where
  "bright_pair e b ctl =
     (ce_fmt9 e (ms_to_brightdate (real_of_int (rtt ctl)) (bd_unit b)),
      ce_fmt9 e (ms_to_brightdate (real_of_int (measure_delta ctl)) (bd_unit b)))"

definition bcd_output :: "cd_env \<Rightarrow> ipu_colors_t \<Rightarrow> bright_opts \<Rightarrow> run_state \<Rightarrow> string \<Rightarrow> string" where
  "bcd_output e c b ctl hisname =
     (let (brtt, bdelta) = bright_pair e b ctl; u = brightdate_unit_str (bd_unit b); v = styled c cl_value
      in if interactive ctl
         then NL @ ipu_fprint_label c (cl_label c) ''host'' 5 @ ''='' @ v hisname @ '' ''
              @ ipu_fprint_label c (cl_rtt c) ''rtt'' 4 @ ''='' @ v (int_dec (rtt ctl)) @ ''(''
              @ styled c cl_detail (int_dec (rtt_sigma ctl)) @ '')'' @ styled c cl_unit ''ms'' @ ''/''
              @ v (int_dec (min_rtt ctl)) @ ''ms ''
              @ ipu_fprint_label c (cl_warn c) ''delta'' 6 @ ''='' @ v (int_dec (measure_delta ctl)) @ ''ms/''
              @ v (int_dec (measure_delta1 ctl)) @ ''ms '' @ styled c cl_tag (cd_time e ctl) @ NL
              @ (if use_brightdate b
                 then styled c cl_title ''BrightDate:'' @ '' rtt='' @ v brtt @ u @ '' delta='' @ v bdelta @ u @ NL
                 else [])
         else int_dec (ce_now e) @ '' '' @ int_dec (measure_delta ctl) @ '' '' @ int_dec (measure_delta1 ctl)
              @ (if use_brightdate b then '' '' @ brtt @ u @ '' '' @ bdelta @ u else []) @ NL)"

text \<open>Only a good measurement is printed; every other status ends the program with status 1.\<close>

definition cd_finish :: "cd_env \<Rightarrow> run_state \<times> string \<Rightarrow> (run_state \<Rightarrow> string \<Rightarrow> string) \<Rightarrow> (int \<times> string) option" where
  "cd_finish e ch output =
     (case ch of (ctl, hisname) \<Rightarrow>
       case cd_measure (ce_sends e) (ce_queue e) (ce_evs e) ctl of
         None \<Rightarrow> None
       | Some (r, ctl', _) \<Rightarrow>
           if r = MErr \<or> r = HOSTDOWN \<or> r = NONSTDTIME \<or> r = UNREACHABLE then Some (1, [])
           else Some (0, output ctl' hisname))"

text \<open>
  What the programs do when an option ends them. \<open>ce_version\<close> is the text \<open>IPUTILS_VERSION\<close> of the build for
  a name and \<open>ce_config\<close> what \<open>print_config\<close> prints. The usage and the messages of \<open>getopt_long\<close> and of \<open>error\<close> are
  on standard error; so is the hint of \<open>bclockdiff\<close> after an unknown option, while the one of \<open>clockdiff\<close> is on standard output.
\<close>

definition short_name :: "string \<Rightarrow> string" where
  "short_name arg0 = rev (takeWhile (\<lambda>ch. ch \<noteq> CHR ''/'') (rev arg0))"

fun cd_stop_result :: "cd_env \<Rightarrow> string \<Rightarrow> cd_stop \<Rightarrow> int \<times> string" where
  "cd_stop_result e arg0 Cd_Version = (0, ce_version e ''clockdiff'' @ ce_config e)"
| "cd_stop_result e arg0 Cd_Help = (0, [])"
| "cd_stop_result e arg0 Cd_Bad_Value = (1, [])"
| "cd_stop_result e arg0 Cd_Unknown = (1, ''Try '' @ [CHR 0x27] @ short_name arg0 @ '' --help'' @ [CHR 0x27] @ '' for more information.'' @ NL)"

fun bcd_stop_result :: "cd_env \<Rightarrow> cd_stop \<Rightarrow> int \<times> string" where
  "bcd_stop_result e Cd_Version = (0, ce_version e ''bclockdiff'' @ ce_config e)"
| "bcd_stop_result e Cd_Help = (0, [])"
| "bcd_stop_result e Cd_Bad_Value = (1, [])"
| "bcd_stop_result e Cd_Unknown = (1, [])"

definition clockdiff_main :: "cd_env \<Rightarrow> string list \<Rightarrow> (int \<times> string) option" where
  "clockdiff_main e argv =
     (case getopt_all cd_spec (tl argv) of (its, operands) \<Rightarrow>
       case cd_parse_opts its cd_init of
         Inl stop \<Rightarrow> Some (cd_stop_result e (hd argv) stop)
       | Inr ctl \<Rightarrow>
           if length operands \<noteq> 1 then Some (1, [])
           else case cd_setup e ctl (hd operands) of
                  Inl code \<Rightarrow> Some (code, [])
                | Inr ch \<Rightarrow> cd_finish e ch (cd_output e))"

definition bclockdiff_main :: "cd_env \<Rightarrow> string list \<Rightarrow> (int \<times> string) option" where
  "bclockdiff_main e argv =
     (case ipu_color_init (ce_getenv e) (ce_stdout_tty e) argv of
        Inl (code, _) \<Rightarrow> Some (int code, [])
      | Inr (argv, c, _) \<Rightarrow>
     (case getopt_all bcd_spec (tl argv) of (its, operands) \<Rightarrow>
       case bcd_parse_opts its cd_init of
         Inl stop \<Rightarrow> Some (bcd_stop_result e stop)
       | Inr (ctl, b) \<Rightarrow>
           if length operands \<noteq> 1 then Some (1, [])
           else case cd_setup e ctl (hd operands) of
                  Inl code \<Rightarrow> Some (code, [])
                | Inr ch \<Rightarrow> cd_finish e ch (bcd_output e c b)))"

subsection \<open>Properties\<close>

definition bright_code :: "int \<Rightarrow> bool" where
  "bright_code code \<longleftrightarrow> code = 66 \<or> code = 1000"

definition plain_items :: "opt_item list \<Rightarrow> bool" where
  "plain_items its = list_all (\<lambda>(code, _). \<not> bright_code code) its"

lemma find_long_compat:
  "find_long (gs_long cd_spec) name
    = (case find_long (gs_long bcd_spec) name of Some (a, code) \<Rightarrow> if bright_code code then None else Some (a, code) | None \<Rightarrow> None)"
proof (cases name)
  case Nil
  then show ?thesis by (simp add: find_long_def cd_spec_def bcd_spec_def)
next
  case (Cons ch cs)
  consider "ch = CHR ''t''" | "ch = CHR ''v''" | "ch = CHR ''h''" | "ch = CHR ''b''" | "ch = CHR ''u''"
    | "ch \<notin> {CHR ''t'', CHR ''v'', CHR ''h'', CHR ''b'', CHR ''u''}" by blast
  then show ?thesis
    by cases (auto simp: Cons find_long_def cd_spec_def bcd_spec_def bright_code_def split: option.splits list.splits)
qed

lemma long_opt_compat:
  assumes "plain_items [fst (long_opt (gs_long bcd_spec) body rest)]"
  shows "long_opt (gs_long cd_spec) body rest = long_opt (gs_long bcd_spec) body rest"
  using assms
  by (auto simp: long_opt_def find_long_compat plain_items_def bright_code_def Let_def
      split: option.splits prod.splits bool.splits list.splits if_splits)

lemma short_opts_compat:
  "plain_items (fst (short_opts (gs_short bcd_spec) cs rest)) \<Longrightarrow>
     short_opts (gs_short cd_spec) cs rest = short_opts (gs_short bcd_spec) cs rest"
proof (induction cs)
  case (Cons ch cs)
  have sp: "map_of (gs_short bcd_spec) ch = (if ch = CHR ''B'' then Some False else map_of (gs_short cd_spec) ch)"
    by (simp add: bcd_spec_def cd_spec_def)
  have "ch \<noteq> CHR ''B''"
    using Cons.prems by (auto simp: sp plain_items_def bright_code_def opt_code_def split: prod.splits)
  with Cons show ?case
    by (auto simp: sp plain_items_def split: option.splits bool.splits prod.splits)
qed simp

lemma getopt_compat:
  "plain_items (fst (getopt_all bcd_spec args)) \<Longrightarrow> getopt_all cd_spec args = getopt_all bcd_spec args"
proof (induction args rule: length_induct)
  case (1 args)
  show ?case
  proof (cases args)
    case (Cons a rest)
    note prems = 1(2) [unfolded Cons]
    have IH: "getopt_all cd_spec xs = getopt_all bcd_spec xs"
      if "length xs \<le> length rest" "plain_items (fst (getopt_all bcd_spec xs))" for xs
      using 1(1) that Cons by simp
    show ?thesis
      using prems IH [OF long_opt_rest, of "gs_long bcd_spec" "drop 2 a"] IH [OF short_opts_rest, of "gs_short bcd_spec" "drop 1 a"]
        IH [of rest] long_opt_compat [of "drop 2 a" rest] short_opts_compat [of "drop 1 a" rest]
      unfolding Cons by (auto simp: plain_items_def Let_def split: if_splits)
  qed simp
qed

lemma parse_compat:
  "plain_items its \<Longrightarrow> bcd_parse_loop its (ctl, b) =
     (case cd_parse_opts its ctl of Inl code \<Rightarrow> Inl code | Inr ctl' \<Rightarrow> Inr (ctl', b))"
proof (induction its arbitrary: ctl)
  case (Cons it its)
  have "bcd_opt it (ctl, b) = (case cd_opt it ctl of Inl code \<Rightarrow> Inl code | Inr ctl' \<Rightarrow> Inr (ctl', b))"
    using Cons.prems by (auto simp: bcd_opt_def cd_opt_def plain_items_def bright_code_def opt_code_def split: prod.splits)
  moreover have "plain_items its" using Cons.prems by (simp add: plain_items_def)
  ultimately show ?case using Cons.IH by (simp split: sum.splits)
qed simp

lemma cd_setup_tty: "cd_setup e ctl dest = Inr (ctl', hisname) \<Longrightarrow> interactive ctl' = ce_tty e"
  by (auto simp: cd_setup_def Let_def split: if_splits option.splits)

text \<open>
C22: Where its own options are not used and the output is not a terminal, \<open>bclockdiff\<close> is
\<open>clockdiff\<close>: same exit status, same output, whatever the network does, unless an option ends the program
with a text of its own. With \<open>-V\<close> both exit with status 0 and print their own name and the same
configuration; after an unknown option both exit with status 1, but only \<open>clockdiff\<close> prints its
hint on standard output.
\<close>
theorem bclockdiff_compatible:
  assumes "ipu_color_init (ce_getenv e) (ce_stdout_tty e) argv = Inr (argv, c, w)"
    and "plain_items (fst (getopt_all bcd_spec (tl argv)))" "\<not> ce_tty e"
  shows "case cd_parse_opts (fst (getopt_all bcd_spec (tl argv))) cd_init of
      Inl Cd_Version \<Rightarrow> clockdiff_main e argv = Some (0, ce_version e ''clockdiff'' @ ce_config e)
        \<and> bclockdiff_main e argv = Some (0, ce_version e ''bclockdiff'' @ ce_config e)
    | Inl Cd_Unknown \<Rightarrow> bclockdiff_main e argv = Some (1, [])
        \<and> clockdiff_main e argv = Some (1, ''Try '' @ [CHR 0x27] @ short_name (hd argv) @ '' --help'' @ [CHR 0x27]
            @ '' for more information.'' @ NL)
    | _ \<Rightarrow> bclockdiff_main e argv = clockdiff_main e argv"
proof -
  obtain its ops where g: "getopt_all bcd_spec (tl argv) = (its, ops)" by (cases "getopt_all bcd_spec (tl argv)")
  then have g': "getopt_all cd_spec (tl argv) = (its, ops)" and its: "plain_items its"
    using assms(2) getopt_compat by auto
  define b where "b = \<lparr>use_brightdate = False, bd_unit = BD_UNIT_MICRODAY\<rparr>"
  have fin: "cd_finish e ch (bcd_output e c b) = cd_finish e ch (cd_output e)"
    if "cd_setup e ctl dest = Inr ch" for ctl dest ch
    using cd_setup_tty [of e ctl dest] that assms(3) interactive_measure
    by (auto simp: cd_finish_def bcd_output_def cd_output_def b_def bright_pair_def Let_def split: prod.splits option.splits)
  show ?thesis
    unfolding bclockdiff_main_def clockdiff_main_def assms(1)
    using fin parse_compat [OF its, of cd_init b]
    by (auto simp: g g' bcd_parse_opts_def b_def [symmetric] split: sum.splits cd_stop.splits)
qed

definition demo_cd_env :: cd_env where
  "demo_cd_env = \<lparr>ce_socket = True, ce_nice = True, ce_tty = False, ce_stdout_tty = False, ce_pid = 17,
     ce_lookup = (\<lambda>_. Some ([], [127, 0, 0, 1])), ce_calloc = True, ce_sockname = Some [127, 0, 0, 1],
     ce_setsockopt = (\<lambda>_. True), ce_sends = (\<lambda>_. (time0, True)), ce_queue = [], ce_evs = [], ce_now = 0,
     ce_strftime = (\<lambda>_ _. []), ce_fmt9 = (\<lambda>_. []), ce_getenv = (\<lambda>_. None),
     ce_version = (\<lambda>p. p @ '' 1'' @ NL), ce_config = ''libcap: no'' @ NL\<rparr>"

theorem bclockdiff_compatible_witness:
  "bclockdiff_main demo_cd_env [''bclockdiff'', ''-o1'', ''--time=iso'', ''host'']
     = clockdiff_main demo_cd_env [''bclockdiff'', ''-o1'', ''--time=iso'', ''host'']"
proof -
  let ?argv = "[''bclockdiff'', ''-o1'', ''--time=iso'', ''host'']"
  have "ipu_color_init (ce_getenv demo_cd_env) (ce_stdout_tty demo_cd_env) ?argv = Inr (?argv, ipu_colors_off, [])"
    "plain_items (fst (getopt_all bcd_spec (tl ?argv)))" "\<not> ce_tty demo_cd_env"
    "cd_parse_opts (fst (getopt_all bcd_spec (tl ?argv))) cd_init = Inr (cd_init\<lparr>ip_opt_len := 28, time_format := time_format_iso\<rparr>)"
    by code_simp+
  with bclockdiff_compatible [of demo_cd_env ?argv ipu_colors_off "[]"] show ?thesis by simp
qed

text \<open>
The units printed with \<open>-B\<close>: the figure marked \<open>d\<close> is in days, but the one marked \<open>ud\<close> is a
thousand times the number of microdays and the one marked \<open>nd\<close> a thousand times that of nanodays.
\<close>
lemma brightdate_units:
  "ms_to_brightdate (86400000 * days) BD_UNIT_DAY = days
   \<and> ms_to_brightdate (86400000 * days) BD_UNIT_MICRODAY = 1000 * (days * 10 ^ 6)
   \<and> ms_to_brightdate (86400000 * days) BD_UNIT_NANODAY = 1000 * (days * 10 ^ 9)"
  by (simp add: BRIGHTDATE_DAY_MS_def BRIGHTDATE_MICRODAY_MS_def BRIGHTDATE_NANODAY_MS_def)

end
