(* ===== verification/Ping_State.thy ===== *)
theory Ping_State
  imports Iputils_Common
begin

text \<open>
  \<open>ping.h\<close>: the run state of \<open>ping\<close>, the table of received sequence numbers, the window of
  outstanding requests and the small helpers. Counters of type \<open>int\<close> and \<open>long\<close> are mathematical
  integers, the 16-bit sequence numbers, the 64-bit words of the table and the 64-bit moving average
  keep their width, the two sums of type \<open>double\<close> are reals. The fields only the
  capability handling uses are left out; IPv4 addresses are their value in host order, IPv6 addresses are
  octets, and the route is the list of the \<open>nroute\<close> addresses set.
\<close>

subsection \<open>State\<close>

abbreviation MIN_INTERVAL_MS :: int where "MIN_INTERVAL_MS \<equiv> 10"
abbreviation MIN_USER_INTERVAL_MS :: int where "MIN_USER_INTERVAL_MS \<equiv> 2"
abbreviation MAX_DUP_CHK :: nat where "MAX_DUP_CHK \<equiv> 0x10000"
abbreviation MAXPACKET :: nat where "MAXPACKET \<equiv> 65535"
abbreviation BITMAP_SHIFT :: nat where "BITMAP_SHIFT \<equiv> 6"

type_synonym rcvd_table = "64 word list"

record ping_json_buffer =
  jb_size :: nat
  jb_object :: string

text \<open>An IPv6 socket address; port, flow information and scope as the machine reads the stored words.\<close>

record sockaddr_in6 =
  sin6_family :: nat
  sin6_port :: "16 word"
  sin6_flowinfo :: "32 word"
  sin6_addr :: bytes
  sin6_scope_id :: "32 word"

text \<open>
  A node information query. The subject is a pointer: to the address of the destination, which may
  still change, or to octets of its own. The secret behind the nonces is the time and the process number.
\<close>

datatype ni_subject = Subject_Whereto6 | Subject_Data bytes

record ping_ni =
  ni_query :: int
  ni_flag :: int
  ni_subject :: "ni_subject option"
  ni_subject_len :: int
  ni_subject_type :: int
  ni_group :: "string option"
  ni_secret :: bytes

record ping_rts =
  mark :: int
  outpack :: bytes
  rcvd_tbl :: rcvd_table
  datalen :: int
  hostname :: string
  uid :: int
  ident :: int
  sndbuf :: int
  ttl :: int
  npackets :: int
  nreceived :: int
  nrepeats :: int
  ntransmitted :: int
  nchecksum :: int
  nerrors :: int
  interval :: int
  preload :: int
  deadline :: int
  lingertime :: int
  start_time :: timespec
  cur_time :: timespec
  exiting :: bool
  status_snapshot :: bool
  confirm :: bool
  confirm_flag :: bool
  device :: "string option"
  pmtudisc :: int
  timing :: bool
  tmin :: int
  tmax :: int
  tsum :: real
  tsum2 :: real
  rtt :: "64 word"
  rtt_addend :: int
  acked :: "16 word"
  pipesize :: int
  tclass :: int
  flowlabel :: int
  source6 :: sockaddr_in6
  whereto6 :: sockaddr_in6
  multicast :: bool
  ts_type :: int
  route :: "32 word list"
  whereto :: "32 word"
  optlen :: int
  settos :: int
  broadcast_pings :: bool
  source_addr :: "32 word"
  source_port :: int
  screen_width :: int
  subnet_router_anycast :: bool
  firsthop :: sockaddr_in6
  cmsgbuf :: bytes
  cmsglen :: nat
  ni :: ping_ni
  json_packet :: ping_json_buffer
  json_stats :: ping_json_buffer
  opt_adaptive :: bool
  opt_audible :: bool
  opt_connect_sk :: bool
  opt_flood :: bool
  opt_flood_poll :: bool
  opt_flowinfo :: bool
  opt_force_lookup :: bool
  opt_interval :: bool
  opt_latency :: bool
  opt_mark :: bool
  opt_noloop :: bool
  opt_numeric :: bool
  opt_outstanding :: bool
  opt_pingfilled :: bool
  opt_ptimeofday :: bool
  opt_rtt_precision :: bool
  opt_quiet :: bool
  opt_json :: bool
  opt_rroute :: bool
  opt_so_debug :: bool
  opt_so_dontroute :: bool
  opt_sourceroute :: bool
  opt_strictsource :: bool
  opt_timestamp :: bool
  opt_ttl :: bool
  opt_verbose :: bool

definition SCHINT :: "int \<Rightarrow> int" where
  "SCHINT a = (if a \<le> MIN_INTERVAL_MS then MIN_INTERVAL_MS else a)"

subsection \<open>Received sequence numbers\<close>

definition tbl_word :: "nat \<Rightarrow> nat" where
  "tbl_word b = drop_bit BITMAP_SHIFT b"

definition tbl_mask :: "nat \<Rightarrow> 64 word" where
  "tbl_mask b = push_bit (b AND (push_bit BITMAP_SHIFT 1 - 1)) 1"

definition rcvd_set :: "16 word \<Rightarrow> rcvd_table \<Rightarrow> rcvd_table" where
  "rcvd_set sq tbl = (let b = unat sq mod MAX_DUP_CHK in tbl[tbl_word b := tbl ! tbl_word b OR tbl_mask b])"

definition rcvd_clear :: "16 word \<Rightarrow> rcvd_table \<Rightarrow> rcvd_table" where
  "rcvd_clear sq tbl = (let b = unat sq mod MAX_DUP_CHK in tbl[tbl_word b := tbl ! tbl_word b AND NOT (tbl_mask b)])"

definition rcvd_test :: "16 word \<Rightarrow> rcvd_table \<Rightarrow> bool" where
  "rcvd_test sq tbl \<longleftrightarrow> (let b = unat sq mod MAX_DUP_CHK in tbl ! tbl_word b AND tbl_mask b \<noteq> 0)"

definition rcvd_empty :: rcvd_table where
  "rcvd_empty = replicate 1024 0"

subsection \<open>Outstanding requests\<close>

text \<open>\<open>(uint16_t)ntransmitted\<close>.\<close>

definition nt16 :: "ping_rts \<Rightarrow> 16 word" where
  "nt16 rts = word_of_int (ntransmitted rts)"

definition in_flight :: "ping_rts \<Rightarrow> int" where
  "in_flight rts =
     (let diff = nt16 rts - acked rts
      in if diff \<le> 0x7FFF then uint diff
         else to_int32 (ntransmitted rts - nreceived rts - nerrors rts))"

definition acknowledge :: "16 word \<Rightarrow> ping_rts \<Rightarrow> ping_rts" where
  "acknowledge sq rts =
     (let diff = nt16 rts - sq
      in if diff \<le> 0x7FFF
         then let rts = (if uint diff + 1 > pipesize rts then rts\<lparr>pipesize := uint diff + 1\<rparr> else rts)
              in if sint (sq - acked rts) > 0 \<or> uint (nt16 rts) - uint (acked rts) > 0x7FFF
                 then rts\<lparr>acked := sq\<rparr> else rts
         else rts)"

definition advance_ntransmitted :: "ping_rts \<Rightarrow> ping_rts" where
  "advance_ntransmitted rts =
     (let rts = rts\<lparr>ntransmitted := ntransmitted rts + 1\<rparr>
      in if uint (nt16 rts) - uint (acked rts) > 0x7FFF then rts\<lparr>acked := nt16 rts + 1\<rparr> else rts)"

subsection \<open>Times\<close>

record timeval =
  tvl_sec :: int
  tvl_usec :: int

definition tvsub :: "timeval \<Rightarrow> timeval \<Rightarrow> timeval" where
  "tvsub out inp =
     (let u = tvl_usec out - tvl_usec inp
      in if u < 0 then \<lparr>tvl_sec = tvl_sec out - 1 - tvl_sec inp, tvl_usec = u + 1000000\<rparr>
         else \<lparr>tvl_sec = tvl_sec out - tvl_sec inp, tvl_usec = u\<rparr>)"

definition tssub :: "timespec \<Rightarrow> timespec \<Rightarrow> timespec" where
  "tssub out inp =
     (let n = tv_nsec out - tv_nsec inp
      in if n < 0 then \<lparr>tv_sec = tv_sec out - 1 - tv_sec inp, tv_nsec = n + 1000000000\<rparr>
         else \<lparr>tv_sec = tv_sec out - tv_sec inp, tv_nsec = n\<rparr>)"

text \<open>\<open>write_stdout\<close> over the answers of \<open>write\<close>: a count, or a negative number for an error.\<close>

fun write_stdout :: "int list \<Rightarrow> string \<Rightarrow> string" where
  "write_stdout [] s = []"
| "write_stdout (cc # ccs) s =
     (if cc < 0 then []
      else take (nat cc) s @ (if length s > nat cc then write_stdout ccs (drop (nat cc) s) else []))"

subsection \<open>The table is a set\<close>

text \<open>What \<open>ping\<close> relies on: sequence numbers can be added, removed and looked up.\<close>

locale seq_table =
  fixes empty :: 't and ins del :: "16 word \<Rightarrow> 't \<Rightarrow> 't" and mem :: "16 word \<Rightarrow> 't \<Rightarrow> bool"
    and inv :: "'t \<Rightarrow> bool" and abs :: "'t \<Rightarrow> 16 word set"
  assumes inv_empty: "inv empty" and abs_empty: "abs empty = {}"
    and inv_ins: "inv t \<Longrightarrow> inv (ins s t)" and abs_ins: "inv t \<Longrightarrow> abs (ins s t) = insert s (abs t)"
    and inv_del: "inv t \<Longrightarrow> inv (del s t)" and abs_del: "inv t \<Longrightarrow> abs (del s t) = abs t - {s}"
    and mem_abs: "inv t \<Longrightarrow> mem s t \<longleftrightarrow> s \<in> abs t"
begin

lemma fold_ins: "inv t \<Longrightarrow> inv (fold ins ss t) \<and> abs (fold ins ss t) = abs t \<union> set ss"
  by (induction ss arbitrary: t) (auto simp: inv_ins abs_ins)

lemma mem_after:
  "inv t \<Longrightarrow> mem s (ins r t) \<longleftrightarrow> s = r \<or> mem s t"
  "inv t \<Longrightarrow> mem s (del r t) \<longleftrightarrow> s \<noteq> r \<and> mem s t"
  by (auto simp: inv_ins inv_del mem_abs abs_ins abs_del)

end

definition tbl_inv :: "rcvd_table \<Rightarrow> bool" where
  "tbl_inv tbl \<longleftrightarrow> length tbl = 1024"

definition tbl_abs :: "rcvd_table \<Rightarrow> 16 word set" where
  "tbl_abs tbl = {s. bit (tbl ! (unat s div 64)) (unat s mod 64)}"

lemma unat_seq: "unat (s :: 16 word) < 65536"
  using unsigned_less [of s, where ?'a = nat] by simp

lemma tbl_word_div: "tbl_word b = b div 64"
  by (simp add: tbl_word_def drop_bit_eq_div)

lemma tbl_mask_bit: "bit (tbl_mask b) i \<longleftrightarrow> i = b mod 64"
proof -
  have "(63 :: nat) = mask 6" by (simp add: mask_eq_exp_minus_1)
  then have "b AND 63 = b mod 64" by (simp only: take_bit_eq_mask [symmetric]) (simp add: take_bit_eq_mod)
  moreover have "push_bit BITMAP_SHIFT 1 - 1 = (63 :: nat)" by (simp add: push_bit_eq_mult)
  ultimately have "tbl_mask b = push_bit (b mod 64) 1" by (simp only: tbl_mask_def)
  moreover have "b mod 64 < 64" by simp
  ultimately show ?thesis by (auto simp: bit_simps simp del: mod_less_divisor)
qed

lemma tbl_mask_test: "w AND tbl_mask b \<noteq> 0 \<longleftrightarrow> bit w (b mod 64)"
proof
  assume "w AND tbl_mask b \<noteq> 0"
  then obtain n where "bit (w AND tbl_mask b) n" using bit_eq_iff [of "w AND tbl_mask b" 0] by auto
  then show "bit w (b mod 64)" by (auto simp: bit_and_iff tbl_mask_bit)
next
  assume "bit w (b mod 64)"
  then have "bit (w AND tbl_mask b) (b mod 64)" by (simp add: bit_and_iff tbl_mask_bit)
  then show "w AND tbl_mask b \<noteq> 0" by (intro notI) simp
qed

lemma slot_eq: "unat s div 64 = unat r div 64 \<Longrightarrow> unat s mod 64 = unat r mod 64 \<Longrightarrow> s = (r :: 16 word)"
  by (metis div_mult_mod_eq word_unat_eq_iff)

interpretation rcvd: seq_table rcvd_empty rcvd_set rcvd_clear rcvd_test tbl_inv tbl_abs
proof
  show "tbl_inv rcvd_empty" by (simp add: tbl_inv_def rcvd_empty_def)
  have "unat s div 64 < 1024" for s :: "16 word" using unat_seq [of s] by linarith
  then show "tbl_abs rcvd_empty = {}" by (auto simp: tbl_abs_def rcvd_empty_def)
  fix t s assume t: "tbl_inv t"
  show "tbl_inv (rcvd_set s t)" "tbl_inv (rcvd_clear s t)"
    using t by (simp_all add: tbl_inv_def rcvd_set_def rcvd_clear_def Let_def)
  have b: "unat r mod MAX_DUP_CHK = unat r" "unat r div 64 < length t" for r :: "16 word"
    using unat_seq [of r] t by (simp_all add: tbl_inv_def)
  show "tbl_abs (rcvd_set s t) = insert s (tbl_abs t)"
    by (auto simp: tbl_abs_def rcvd_set_def b Let_def tbl_word_div nth_list_update bit_or_iff tbl_mask_bit dest: slot_eq split: if_splits)
  show "tbl_abs (rcvd_clear s t) = tbl_abs t - {s}"
    by (auto simp: tbl_abs_def rcvd_clear_def b Let_def tbl_word_div nth_list_update bit_and_iff bit_not_iff tbl_mask_bit dest: slot_eq split: if_splits)
  show "rcvd_test s t \<longleftrightarrow> s \<in> tbl_abs t"
    by (simp add: rcvd_test_def b Let_def tbl_word_div tbl_mask_test tbl_abs_def)
qed

subsection \<open>The window\<close>

lemma sint_small: "- 32768 \<le> x \<Longrightarrow> x < 32768 \<Longrightarrow> sint (word_of_int x :: 16 word) = x"
  by (simp add: signed_of_int signed_take_bit_int_eq_self)

lemma uint_small: "0 \<le> x \<Longrightarrow> x < 65536 \<Longrightarrow> uint (word_of_int x :: 16 word) = x"
  by (simp add: uint_word_of_int)

lemma uint_word_diff:
  assumes "0 \<le> t - a" "t - a < 65536"
  shows "uint (word_of_int t :: 16 word) - uint (word_of_int a :: 16 word) \<le> t - a"
proof -
  have "uint (word_of_int t :: 16 word) = t mod 65536" "uint (word_of_int a :: 16 word) = a mod 65536"
    by (simp_all add: uint_word_of_int)
  moreover have "a div 65536 \<le> t div 65536" using assms by (intro zdiv_mono1) auto
  ultimately show ?thesis
    using minus_div_mult_eq_mod [of t 65536] minus_div_mult_eq_mod [of a 65536] by linarith
qed

text \<open>The window as unbounded numbers: the last request sent and the last one answered.\<close>

definition window :: "int \<Rightarrow> int \<Rightarrow> ping_rts \<Rightarrow> bool" where
  "window t a rts \<longleftrightarrow> ntransmitted rts = t \<and> acked rts = word_of_int a \<and> a \<le> t \<and> t - a \<le> 0x7FFF"

lemma word_of_int_diff: "(word_of_int x :: 16 word) - word_of_int y = word_of_int (x - y)"
  by (simp only: wi_hom_sub)

lemma window_diff:
  assumes "window t a rts"
  shows "nt16 rts - acked rts = word_of_int (t - a)" "uint (nt16 rts - acked rts) = t - a"
    "\<not> uint (nt16 rts) - uint (acked rts) > 0x7FFF"
proof -
  have w: "nt16 rts = word_of_int t" "acked rts = word_of_int a" "0 \<le> t - a" "t - a \<le> 0x7FFF"
    using assms by (simp_all add: window_def nt16_def)
  show d: "nt16 rts - acked rts = word_of_int (t - a)" by (simp only: w word_of_int_diff)
  show "uint (nt16 rts - acked rts) = t - a" unfolding d using w by (intro uint_small) linarith+
  show "\<not> uint (nt16 rts) - uint (acked rts) > 0x7FFF" using uint_word_diff [of t a] w by simp
qed

lemma window_in_flight: "window t a rts \<Longrightarrow> in_flight rts = t - a"
  using window_diff(2) [of t a rts] by (simp add: in_flight_def word_le_def Let_def window_def)

lemma window_acknowledge:
  assumes "window t a rts" "s \<le> t" "t - s \<le> 0x7FFF"
  shows "window t (max a s) (acknowledge (word_of_int s) rts)
    \<and> pipesize (acknowledge (word_of_int s) rts) = max (pipesize rts) (t - s + 1)"
proof -
  have w: "nt16 rts = word_of_int t" "acked rts = word_of_int a" "0 \<le> t - a" "t - a \<le> 0x7FFF"
    using assms(1) by (simp_all add: window_def nt16_def)
  have ds: "nt16 rts - word_of_int s = word_of_int (t - s)" "word_of_int s - acked rts = word_of_int (s - a)"
    by (simp_all only: w word_of_int_diff)
  have u: "uint (nt16 rts - word_of_int s) = t - s" unfolding ds using assms by (intro uint_small) linarith+
  have sg: "sint (word_of_int s - acked rts) = s - a" unfolding ds using assms w by (intro sint_small) linarith+
  have nt: "nt16 (rts\<lparr>pipesize := p\<rparr>) = nt16 rts" for p by (simp add: nt16_def)
  show ?thesis
    using assms window_diff(3) [OF assms(1)] u sg
    by (auto simp: acknowledge_def word_le_def Let_def nt window_def)
qed

lemma window_advance:
  assumes "window t a rts" "t - a < 0x7FFF"
  shows "window (t + 1) a (advance_ntransmitted rts)"
proof -
  have "window (t + 1) a (rts\<lparr>ntransmitted := ntransmitted rts + 1\<rparr>)" using assms by (simp add: window_def)
  from window_diff(3) [OF this] this show ?thesis by (simp add: advance_ntransmitted_def Let_def)
qed

text \<open>A run of requests and answers, against the unbounded numbers.\<close>

datatype win_ev = WSend | WAck int

fun win_run :: "win_ev list \<Rightarrow> ping_rts \<Rightarrow> ping_rts" where
  "win_run [] rts = rts"
| "win_run (WSend # es) rts = win_run es (advance_ntransmitted rts)"
| "win_run (WAck s # es) rts = win_run es (acknowledge (word_of_int s) rts)"

fun win_spec :: "win_ev list \<Rightarrow> int \<times> int \<Rightarrow> (int \<times> int) option" where
  "win_spec [] ta = Some ta"
| "win_spec (WSend # es) (t, a) = (if t - a < 0x7FFF then win_spec es (t + 1, a) else None)"
| "win_spec (WAck s # es) (t, a) = (if s \<le> t \<and> t - s \<le> 0x7FFF then win_spec es (t, max a s) else None)"

lemma win_run_spec: "window t a rts \<Longrightarrow> win_spec es (t, a) = Some (t', a') \<Longrightarrow> window t' a' (win_run es rts)"
  by (induction es rts arbitrary: t a rule: win_run.induct)
     (auto split: if_splits dest: window_advance window_acknowledge)

text \<open>
C23: The 16-bit bookkeeping of outstanding requests is exact across any number of sequence number
wrap-arounds: as long as fewer than 32768 requests are unanswered, \<open>in_flight\<close> is the number of
requests sent after the latest one answered, whatever the order in which the answers arrive.
\<close>
theorem in_flight_exact:
  assumes "ntransmitted rts = t" "acked rts = word_of_int t" "win_spec es (t, t) = Some (t', a')"
  shows "in_flight (win_run es rts) = t' - a' \<and> ntransmitted (win_run es rts) = t'"
proof -
  have "window t t rts" using assms(1,2) by (simp add: window_def)
  from win_run_spec [OF this assms(3)] have "window t' a' (win_run es rts)" .
  then show ?thesis by (simp add: window_in_flight window_def)
qed

definition zero_json :: ping_json_buffer where
  "zero_json = \<lparr>jb_size = 0, jb_object = []\<rparr>"

definition zero_sockaddr_in6 :: sockaddr_in6 where
  "zero_sockaddr_in6 = \<lparr>sin6_family = 0, sin6_port = 0, sin6_flowinfo = 0, sin6_addr = replicate 16 0, sin6_scope_id = 0\<rparr>"

definition ni_init :: ping_ni where
  "ni_init = \<lparr>ni_query = - 1, ni_flag = 0, ni_subject = None, ni_subject_len = 0, ni_subject_type = - 1, ni_group = None,
     ni_secret = replicate 24 0\<rparr>"

abbreviation PF_INET6 :: nat where "PF_INET6 \<equiv> 10"

text \<open>The state \<open>main\<close> starts from.\<close>

definition rts_init :: ping_rts where
  "rts_init = \<lparr>mark = 0, outpack = replicate MAXPACKET 0, rcvd_tbl = rcvd_empty, datalen = 56, hostname = [], uid = 0,
     ident = - 1, sndbuf = 0, ttl = 0, npackets = 0, nreceived = 0, nrepeats = 0, ntransmitted = 0, nchecksum = 0,
     nerrors = 0, interval = 1000, preload = 1, deadline = 0, lingertime = 10000000,
     start_time = \<lparr>tv_sec = 0, tv_nsec = 0\<rparr>, cur_time = \<lparr>tv_sec = 0, tv_nsec = 0\<rparr>, exiting = False,
     status_snapshot = False, confirm = False, confirm_flag = True, device = None, pmtudisc = - 1, timing = False,
     tmin = LONG_MAX, tmax = 0, tsum = 0, tsum2 = 0, rtt = 0, rtt_addend = 0, acked = 0, pipesize = - 1, tclass = 0,
     flowlabel = 0, source6 = zero_sockaddr_in6\<lparr>sin6_family := PF_INET6\<rparr>, whereto6 = zero_sockaddr_in6, multicast = False, ts_type = 0, route = [], whereto = 0, optlen = 0, settos = 0,
     broadcast_pings = False, source_addr = 0, source_port = 0, screen_width = INT_MAX, subnet_router_anycast = False,
     firsthop = zero_sockaddr_in6, cmsgbuf = replicate 4096 0, cmsglen = 0, ni = ni_init, json_packet = zero_json,
     json_stats = zero_json, opt_adaptive = False, opt_audible = False, opt_connect_sk = False, opt_flood = False,
     opt_flood_poll = False, opt_flowinfo = False, opt_force_lookup = False, opt_interval = False, opt_latency = False,
     opt_mark = False, opt_noloop = False, opt_numeric = False, opt_outstanding = False, opt_pingfilled = False,
     opt_ptimeofday = False, opt_rtt_precision = False, opt_quiet = False, opt_json = False, opt_rroute = False,
     opt_so_debug = False, opt_so_dontroute = False, opt_sourceroute = False, opt_strictsource = False,
     opt_timestamp = False, opt_ttl = False, opt_verbose = False\<rparr>"

theorem in_flight_exact_witness:
  "in_flight (win_run [WSend, WSend, WSend, WAck 65536, WAck 65535, WSend] (rts_init\<lparr>ntransmitted := 65534, acked := 65534\<rparr>)) = 2"
  using in_flight_exact [of "rts_init\<lparr>ntransmitted := 65534, acked := 65534\<rparr>" 65534
      "[WSend, WSend, WSend, WAck 65536, WAck 65535, WSend]" 65538 65536]
  by simp

end
