(* ===== verification/Ping_Json.thy ===== *)
theory Ping_Json
  imports Ping_State
begin

text \<open>
  \<open>ping_json.c\<close>: the JSON texts of \<open>ping -j\<close>. A buffer holds the text up to its terminator and the
  length the code believes it has; a step that leaves the bounds of the array, or reads past the
  arguments of a call, has no defined result and is an error of the model. The last two errors belong to
  the printing of replies: a read outside the packet, and a loop that makes no progress.
\<close>

abbreviation PING_JSON_MAX :: nat where "PING_JSON_MAX \<equiv> 4000"

datatype json_err = Json_Emergency | Json_Out_Of_Bounds | Json_No_Sentinel | Print_Out_Of_Bounds | Print_No_Progress

type_synonym jbuf = ping_json_buffer

subsection \<open>Appending\<close>

text \<open>
  \<open>snprintf (object + size, PING_JSON_MAX - size, ...)\<close> and \<open>json_bufsize\<close>: the text that does not
  fit is cut, its length is added all the same, and with \<open>size\<close> above the maximum the difference
  wraps around.
\<close>

definition json_append :: "string \<Rightarrow> jbuf \<Rightarrow> json_err + jbuf" where
  "json_append txt b =
     (if jb_size b > PING_JSON_MAX then Inl Json_Out_Of_Bounds
      else let obj = (if jb_size b = PING_JSON_MAX then jb_object b
                      else take (jb_size b) (jb_object b) @ take (PING_JSON_MAX - jb_size b - 1) txt)
           in if length txt \<ge> PING_JSON_MAX then Inl Json_Emergency
              else Inr \<lparr>jb_size = jb_size b + length txt, jb_object = obj\<rparr>)"

definition json_end_array :: "jbuf \<Rightarrow> json_err + jbuf" where "json_end_array = json_append '']''"
definition json_end_object :: "jbuf \<Rightarrow> json_err + jbuf" where "json_end_object = json_append ''}''"
definition json_continue :: "jbuf \<Rightarrow> json_err + jbuf" where "json_continue = json_append '', ''"

definition json_start_object :: "jbuf \<Rightarrow> json_err + jbuf" where
  "json_start_object b =
     (if jb_size b > PING_JSON_MAX then Inl Json_Out_Of_Bounds
      else Inr \<lparr>jb_size = jb_size b + 1,
                jb_object = (if jb_size b = PING_JSON_MAX then jb_object b else take (PING_JSON_MAX - jb_size b - 1) ''{'')\<rparr>)"

definition jseq :: "(jbuf \<Rightarrow> json_err + jbuf) \<Rightarrow> (jbuf \<Rightarrow> json_err + jbuf) \<Rightarrow> jbuf \<Rightarrow> json_err + jbuf" where
  "jseq f g b = (case f b of Inl e \<Rightarrow> Inl e | Inr b' \<Rightarrow> g b')"

definition dq :: string where "dq = [CHR 0x22]"

definition json_kv_str :: "string \<Rightarrow> string \<Rightarrow> jbuf \<Rightarrow> json_err + jbuf" where
  "json_kv_str key val = json_append (dq @ key @ dq @ '': '' @ dq @ val @ dq)"

definition json_kv_int :: "string \<Rightarrow> int \<Rightarrow> jbuf \<Rightarrow> json_err + jbuf" where
  "json_kv_int key val = json_append (dq @ key @ dq @ '': '' @ int_dec (to_int32 val))"

definition json_kv_uint :: "string \<Rightarrow> int \<Rightarrow> jbuf \<Rightarrow> json_err + jbuf" where
  "json_kv_uint key val = json_append (dq @ key @ dq @ '': '' @ int_dec (val mod 2 ^ 32))"

definition json_kv_str_continue :: "string \<Rightarrow> string \<Rightarrow> jbuf \<Rightarrow> json_err + jbuf" where
  "json_kv_str_continue key val = jseq (json_kv_str key val) json_continue"

definition json_kv_int_continue :: "string \<Rightarrow> int \<Rightarrow> jbuf \<Rightarrow> json_err + jbuf" where
  "json_kv_int_continue key val = jseq (json_kv_int key val) json_continue"

text \<open>The strings of an array come from a variable argument list that a null pointer has to end.\<close>

fun json_array_loop :: "string option list \<Rightarrow> bool \<Rightarrow> jbuf \<Rightarrow> json_err + jbuf" where
  "json_array_loop [] cont b = Inl Json_No_Sentinel"
| "json_array_loop (None # ap) cont b = Inr b"
| "json_array_loop (Some val # ap) cont b =
     jseq (if cont then json_continue else Inr) (jseq (json_append (dq @ val @ dq)) (json_array_loop ap True)) b"

definition json_kv_array :: "string \<Rightarrow> string option list \<Rightarrow> jbuf \<Rightarrow> json_err + jbuf" where
  "json_kv_array key ap =
     jseq (json_append (dq @ key @ dq @ '': ['')) (jseq (json_array_loop ap False) json_end_array)"

definition json_kv_object :: "string \<Rightarrow> jbuf \<Rightarrow> jbuf \<Rightarrow> json_err + jbuf" where
  "json_kv_object key val b =
     (case json_end_object val of
        Inl e \<Rightarrow> Inl e
      | Inr v \<Rightarrow> json_append (dq @ key @ dq @ '': '' @ jb_object v) b)"

subsection \<open>Packets and statistics\<close>

datatype json_val = PING_JSON_STR string | PING_JSON_INT int | PING_JSON_ARR "string option list" | PING_JSON_UINT int

definition json_open :: "jbuf \<Rightarrow> json_err + jbuf" where
  "json_open b = (if jb_object b \<noteq> [] then json_continue b else json_start_object b)"

fun json_value :: "string \<Rightarrow> json_val \<Rightarrow> jbuf \<Rightarrow> json_err + jbuf" where
  "json_value key (PING_JSON_STR s) = json_kv_str key s"
| "json_value key (PING_JSON_INT i) = json_kv_int key i"
| "json_value key (PING_JSON_UINT i) = json_kv_uint key i"
| "json_value key (PING_JSON_ARR ap) = json_kv_array key ap"

definition construct_json :: "string \<Rightarrow> json_val \<Rightarrow> ping_rts \<Rightarrow> json_err + ping_rts" where
  "construct_json key val rts =
     (if \<not> opt_json rts then Inr rts
      else case jseq json_open (json_value key val) (json_packet rts) of
             Inl e \<Rightarrow> Inl e
           | Inr b \<Rightarrow> Inr (rts\<lparr>json_packet := b\<rparr>))"

text \<open>The loss in percent is cut to an integer; \<open>elapsed\<close> is the run time in milliseconds.\<close>

definition loss_percent :: "ping_rts \<Rightarrow> int" where
  "loss_percent rts = cdiv ((ntransmitted rts - nreceived rts) * 100) (ntransmitted rts)"

definition elapsed_ms :: "timespec \<Rightarrow> int" where
  "elapsed_ms tv = 1000 * tv_sec tv + cdiv (tv_nsec tv + 500000) 1000000"

definition rtt_object :: "string \<Rightarrow> string \<Rightarrow> string \<Rightarrow> string \<Rightarrow> json_err + jbuf" where
  "rtt_object rttmin rttavg rttmax rttmdev =
     jseq json_start_object (jseq (json_kv_str_continue ''min'' rttmin) (jseq (json_kv_str_continue ''avg'' rttavg)
       (jseq (json_kv_str_continue ''max'' rttmax) (json_kv_str ''mdev'' rttmdev)))) zero_json"

definition construct_json_statistics ::
  "timespec \<Rightarrow> string \<Rightarrow> string \<Rightarrow> string \<Rightarrow> string \<Rightarrow> ping_rts \<Rightarrow> json_err + ping_rts" where
  "construct_json_statistics tv rttmin rttavg rttmax rttmdev rts =
     (if \<not> opt_json rts then Inr rts
      else case rtt_object rttmin rttavg rttmax rttmdev of
             Inl e \<Rightarrow> Inl e
           | Inr rb \<Rightarrow>
               (case jseq json_open (jseq (json_kv_str_continue ''host'' (hostname rts))
                       (jseq (json_kv_int_continue ''transmitted'' (ntransmitted rts))
                       (jseq (json_kv_int_continue ''received'' (nreceived rts))
                       (jseq (json_kv_int_continue ''duplicates'' (nrepeats rts))
                       (jseq (json_kv_int_continue ''corrupted'' (nchecksum rts))
                       (jseq (json_kv_int_continue ''errors'' (nerrors rts))
                       (jseq (json_kv_int_continue ''loss'' (loss_percent rts))
                       (jseq (json_kv_int_continue ''time'' (elapsed_ms tv))
                       (jseq (json_kv_object ''rtt'' rb)
                       (if pipesize rts > 1 then jseq json_continue (json_kv_int_continue ''pipe'' (pipesize rts)) else Inr))))))))))
                     (json_stats rts) of
                  Inl e \<Rightarrow> Inl e
                | Inr b \<Rightarrow> Inr (rts\<lparr>json_stats := b\<rparr>)))"

definition construct_json_statistics_flood :: "string \<Rightarrow> string \<Rightarrow> ping_rts \<Rightarrow> json_err + ping_rts" where
  "construct_json_statistics_flood ipg ewma rts =
     (if \<not> opt_json rts \<or> jb_object (json_stats rts) = [] then Inr rts
      else case jseq (if nreceived rts \<noteq> 0 \<and> timing rts \<and> pipesize rts < 2 then json_continue else Inr)
                  (jseq (json_kv_str_continue ''ipg'' ipg) (json_kv_str ''ewma'' ewma)) (json_stats rts) of
             Inl e \<Rightarrow> Inl e
           | Inr b \<Rightarrow> Inr (rts\<lparr>json_stats := b\<rparr>))"

text \<open>What is printed, and the emptied buffer.\<close>

definition print_json_and_reset :: "jbuf \<Rightarrow> string \<times> jbuf" where
  "print_json_and_reset b = (jb_object b @ ''}'' @ [CHR 0x0A], zero_json)"

definition print_json_packet :: "ping_rts \<Rightarrow> string \<times> ping_rts" where
  "print_json_packet rts =
     (if opt_json rts \<and> jb_object (json_packet rts) \<noteq> []
      then case print_json_and_reset (json_packet rts) of (out, b) \<Rightarrow> (out, rts\<lparr>json_packet := b\<rparr>)
      else ([], rts))"

definition print_json_statistics :: "ping_rts \<Rightarrow> string \<times> ping_rts" where
  "print_json_statistics rts =
     (if opt_json rts \<and> jb_object (json_stats rts) \<noteq> []
      then (jb_object (json_stats rts) @ ''}'' @ [CHR 0x0A], rts\<lparr>json_stats := zero_json\<rparr>)
      else ([], rts))"

definition construct_json_error ::
  "(int \<Rightarrow> string) \<Rightarrow> int \<Rightarrow> string option \<Rightarrow> ping_rts \<Rightarrow> json_err + string \<times> ping_rts" where
  "construct_json_error strerror errnum errmsg rts =
     (if errnum < 0 then Inl Json_Emergency
      else case construct_json ''error''
                  (case errmsg of
                     Some msg \<Rightarrow> if errnum = 0 then PING_JSON_STR msg
                                 else PING_JSON_ARR [Some msg, Some (strerror errnum)]
                   | None \<Rightarrow> PING_JSON_STR (strerror errnum)) rts of
             Inl e \<Rightarrow> Inl e
           | Inr rts' \<Rightarrow> Inr (print_json_packet rts'))"

subsection \<open>Properties\<close>

text \<open>A buffer whose text is complete.\<close>

definition jb_ok :: "string \<Rightarrow> jbuf \<Rightarrow> bool" where
  "jb_ok txt b \<longleftrightarrow> b = \<lparr>jb_size = length txt, jb_object = txt\<rparr> \<and> length txt < PING_JSON_MAX"

lemma json_append_ok:
  "jb_ok txt b \<Longrightarrow> length txt + length new < PING_JSON_MAX \<Longrightarrow> \<exists>b'. json_append new b = Inr b' \<and> jb_ok (txt @ new) b'"
  by (simp add: json_append_def jb_ok_def Let_def)

text \<open>The text of a value, where the code defines one.\<close>

fun json_text :: "string \<Rightarrow> json_val \<Rightarrow> string" where
  "json_text key (PING_JSON_STR s) = dq @ key @ dq @ '': '' @ dq @ s @ dq"
| "json_text key (PING_JSON_INT i) = dq @ key @ dq @ '': '' @ int_dec (to_int32 i)"
| "json_text key (PING_JSON_UINT i) = dq @ key @ dq @ '': '' @ int_dec (i mod 2 ^ 32)"
| "json_text key (PING_JSON_ARR ap) = []"

fun json_scalar :: "json_val \<Rightarrow> bool" where
  "json_scalar (PING_JSON_ARR _) = False"
| "json_scalar _ = True"

lemma json_value_ok:
  assumes "jb_ok txt b" "json_scalar v" "length txt + length (json_text key v) < PING_JSON_MAX"
  shows "\<exists>b'. json_value key v b = Inr b' \<and> jb_ok (txt @ json_text key v) b'"
  using assms json_append_ok [OF assms(1), of "json_text key v"]
  by (cases v) (simp_all add: json_kv_str_def json_kv_int_def json_kv_uint_def)

fun construct_all :: "(string \<times> json_val) list \<Rightarrow> ping_rts \<Rightarrow> json_err + ping_rts" where
  "construct_all [] rts = Inr rts"
| "construct_all ((key, v) # kvs) rts = (case construct_json key v rts of Inl e \<Rightarrow> Inl e | Inr rts' \<Rightarrow> construct_all kvs rts')"

fun json_fields :: "(string \<times> json_val) list \<Rightarrow> string" where
  "json_fields [] = []"
| "json_fields ((key, v) # kvs) = '', '' @ json_text key v @ json_fields kvs"

lemma construct_json_ok:
  assumes "opt_json rts" "jb_ok tx (json_packet rts)" "tx \<noteq> []" "json_scalar v"
    and "length tx + 2 + length (json_text key v) < PING_JSON_MAX"
  shows "\<exists>b'. construct_json key v rts = Inr (rts\<lparr>json_packet := b'\<rparr>) \<and> jb_ok (tx @ '', '' @ json_text key v) b'"
proof -
  obtain b1 where b1: "json_continue (json_packet rts) = Inr b1" "jb_ok (tx @ '', '') b1"
    using json_append_ok [OF assms(2), of "'', ''"] assms(5) by (auto simp: json_continue_def)
  obtain b2 where b2: "json_value key v b1 = Inr b2" "jb_ok ((tx @ '', '') @ json_text key v) b2"
    using json_value_ok [OF b1(2) assms(4), of key] assms(5) by auto
  have "jb_object (json_packet rts) \<noteq> []" using assms(2,3) by (simp add: jb_ok_def)
  then show ?thesis using assms(1) b1(1) b2 by (auto simp: construct_json_def jseq_def json_open_def)
qed

lemma construct_all_ok:
  assumes "opt_json rts" "jb_ok tx (json_packet rts)" "tx \<noteq> []" "list_all (\<lambda>(_, v). json_scalar v) kvs"
    and "length tx + length (json_fields kvs) < PING_JSON_MAX"
  shows "\<exists>b'. construct_all kvs rts = Inr (rts\<lparr>json_packet := b'\<rparr>) \<and> jb_ok (tx @ json_fields kvs) b'"
  using assms
proof (induction kvs arbitrary: rts tx rule: json_fields.induct)
  case 1
  then show ?case by (intro exI [of _ "json_packet rts"]) simp
next
  case (2 key v kvs)
  obtain b1 where b1: "construct_json key v rts = Inr (rts\<lparr>json_packet := b1\<rparr>)" "jb_ok (tx @ '', '' @ json_text key v) b1"
    using construct_json_ok [OF 2(2,3,4), of v key] 2(5,6) by auto
  show ?case using 2(1) [of "rts\<lparr>json_packet := b1\<rparr>" "tx @ '', '' @ json_text key v"] 2(2-) b1 by simp
qed

text \<open>
The fields of a reply come out as one JSON object: started empty and given values whose text fits
the buffer, the packet is printed as the fields in order, separated by commas, between braces, and the
buffer is empty again.
\<close>
lemma json_packet_object:
  assumes "opt_json rts" "json_packet rts = zero_json" "list_all (\<lambda>(_, v). json_scalar v) ((key, v) # kvs)"
    and "length (json_fields ((key, v) # kvs)) < PING_JSON_MAX"
  shows "\<exists>rts'. construct_all ((key, v) # kvs) rts = Inr rts'
    \<and> print_json_packet rts' = (''{'' @ json_text key v @ json_fields kvs @ ''}'' @ [CHR 0x0A], rts)"
proof -
  have s: "json_start_object zero_json = Inr \<lparr>jb_size = 1, jb_object = ''{''\<rparr>"
    by (simp add: json_start_object_def zero_json_def)
  obtain b1 where b1: "json_value key v \<lparr>jb_size = 1, jb_object = ''{''\<rparr> = Inr b1" "jb_ok (''{'' @ json_text key v) b1"
    using json_value_ok [of "''{''" "\<lparr>jb_size = 1, jb_object = ''{''\<rparr>" v key] assms(3,4) by (auto simp: jb_ok_def)
  have c: "construct_json key v rts = Inr (rts\<lparr>json_packet := b1\<rparr>)"
    using assms(1) b1(1) s by (simp add: construct_json_def assms(2) json_open_def jseq_def) (simp add: zero_json_def)
  obtain b2 where "construct_all kvs (rts\<lparr>json_packet := b1\<rparr>) = Inr (rts\<lparr>json_packet := b2\<rparr>)"
      "jb_ok ((''{'' @ json_text key v) @ json_fields kvs) b2"
    using construct_all_ok [of "rts\<lparr>json_packet := b1\<rparr>" "''{'' @ json_text key v" kvs] assms b1(2) by auto
  then show ?thesis
    using c assms(1,2) by (simp add: print_json_packet_def print_json_and_reset_def jb_ok_def)
qed


text \<open>
C24: The length check of the JSON buffer does not bound the buffer: two texts that are each short
enough to be accepted, but together longer than the buffer, are accepted too, and the next text is
written outside the array.
\<close>
theorem json_buffer_overrun:
  assumes "length a < PING_JSON_MAX" "length b < PING_JSON_MAX" "PING_JSON_MAX < length a + length b"
  shows "\<exists>b1 b2. json_append a zero_json = Inr b1 \<and> json_append b b1 = Inr b2
    \<and> jb_size b2 = length a + length b \<and> json_append c b2 = Inl Json_Out_Of_Bounds"
  using assms by (simp add: json_append_def zero_json_def Let_def)

theorem json_buffer_overrun_witness:
  "\<exists>b1 b2. json_append (replicate 2500 (CHR ''x'')) zero_json = Inr b1 \<and> json_append (replicate 2500 (CHR ''y'')) b1 = Inr b2
    \<and> jb_size b2 = length (replicate 2500 (CHR ''x'')) + length (replicate 2500 (CHR ''y''))
    \<and> json_append '', '' b2 = Inl Json_Out_Of_Bounds"
  by (rule json_buffer_overrun) simp_all

end
