(* ===== verification/Ping_Stats.thy ===== *)
theory Ping_Stats
  imports Ping_Json Inet_Cksum
begin

text \<open>
  The statistics of \<open>ping\<close>: \<open>gather_statistics\<close>, \<open>update_interval\<close>, \<open>finish\<close> and \<open>status\<close> of
  \<open>ping_common.c\<close> with the printing functions of \<open>ping_output.c\<close>. A printing function appends to the
  standard output, or in JSON mode to the packet; the \<open>printf\<close> conversion \<open>%g\<close> is a parameter. The
  warnings on standard error are left out.
\<close>

subsection \<open>Printing\<close>

record ping_io =
  io_rts :: ping_rts
  io_out :: string

type_synonym 'a pio = "(ping_io, json_err, 'a) serr"

definition emit :: "string \<Rightarrow> unit pio" where
  "emit s = smod (\<lambda>st. st\<lparr>io_out := io_out st @ s\<rparr>)"

definition on_rts :: "(ping_rts \<Rightarrow> json_err + ping_rts) \<Rightarrow> unit pio" where
  "on_rts f st = (case f (io_rts st) of Inl e \<Rightarrow> (Inl e, st) | Inr rts \<Rightarrow> (Inr (), st\<lparr>io_rts := rts\<rparr>))"

definition put_rts :: "ping_rts \<Rightarrow> unit pio" where
  "put_rts rts = smod (\<lambda>st. st\<lparr>io_rts := rts\<rparr>)"

text \<open>\<open>pre\<close> and \<open>post\<close> are the text around the one conversion of the message.\<close>

definition ping_print_int :: "string \<Rightarrow> string \<Rightarrow> string \<Rightarrow> int \<Rightarrow> unit pio" where
  "ping_print_int pre post key v =
     sbind (sget io_rts) (\<lambda>rts.
     if opt_json rts then on_rts (construct_json key (PING_JSON_INT v)) else emit (pre @ int_dec v @ post))"

definition ping_print_uint :: "string \<Rightarrow> string \<Rightarrow> string \<Rightarrow> int \<Rightarrow> unit pio" where
  "ping_print_uint pre post key v =
     sbind (sget io_rts) (\<lambda>rts.
     if opt_json rts then on_rts (construct_json key (PING_JSON_UINT v)) else emit (pre @ int_dec v @ post))"

definition ping_print_str :: "string \<Rightarrow> string \<Rightarrow> string \<Rightarrow> string \<Rightarrow> unit pio" where
  "ping_print_str pre post key v =
     sbind (sget io_rts) (\<lambda>rts.
     if opt_json rts then on_rts (construct_json key (PING_JSON_STR v)) else emit (pre @ v @ post))"

text \<open>The sequence number is passed as one octet.\<close>

definition ping_print_error_packet :: "string \<Rightarrow> int \<Rightarrow> unit pio" where
  "ping_print_error_packet address sq =
     sbind (sget io_rts) (\<lambda>rts.
     if opt_json rts then sret () else emit (''From '' @ address @ '' icmp_seq='' @ int_dec (sq mod 256) @ '' ''))"

abbreviation (input) NI_SUBJ_IPV6 :: int where "NI_SUBJ_IPV6 \<equiv> 0"
abbreviation (input) NI_SUBJ_FQDN :: int where "NI_SUBJ_FQDN \<equiv> 1"
abbreviation (input) NI_SUBJ_IPV4 :: int where "NI_SUBJ_IPV4 \<equiv> 2"

definition ping_print_truncated :: "unit pio" where
  "ping_print_truncated =
     sbind (sget io_rts) (\<lambda>rts.
     if opt_json rts then on_rts (construct_json ''info'' (PING_JSON_STR ''truncated''))
     else emit ('' (truncated)'' @ (if ni_subject_type (ni rts) = NI_SUBJ_IPV4 then [CHR 0x0A] else [])))"

definition print_timestamp :: "timeval \<Rightarrow> unit pio" where
  "print_timestamp now =
     sbind (sget io_rts) (\<lambda>rts.
     if opt_ptimeofday rts
     then emit (''['' @ int_dec (tvl_sec now) @ ''.'' @ pad_zero 6 (int_dec (tvl_usec now)) @ ''] '')
     else sret ())"

text \<open>\<open>ntohs\<close> on a little-endian host.\<close>

definition ntohs16 :: "16 word \<Rightarrow> int" where
  "ntohs16 w = uint (push_bit 8 w OR drop_bit 8 w)"

subsection \<open>One reply\<close>

abbreviation TV_SEC_MAX_VAL :: int where "TV_SEC_MAX_VAL \<equiv> 2147"
abbreviation TIMEVAL_SIZE :: nat where "TIMEVAL_SIZE \<equiv> 16"

definition get_timeval :: "bytes \<Rightarrow> timeval" where
  "get_timeval p = \<lparr>tvl_sec = sint (le64_at p 0), tvl_usec = sint (le64_at p 8)\<rparr>"

definition put_timeval :: "timeval \<Rightarrow> bytes" where
  "put_timeval tv = le64 (word_of_int (tvl_sec tv)) @ le64 (word_of_int (tvl_usec tv))"

text \<open>The round-trip time; \<open>None\<close> is a clock that went back.\<close>

definition trip_time :: "timeval \<Rightarrow> timeval \<Rightarrow> int option" where
  "trip_time tv sent =
     (let d = tvsub tv sent;
          us = (if tvl_usec d \<ge> 1000000 then 999999 else if tvl_usec d < 0 then 0 else tvl_usec d)
      in if tvl_sec d > TV_SEC_MAX_VAL then Some 0
         else if tvl_sec d < 0 then None
         else Some (tvl_sec d * 1000000 + us))"

definition stamp_trip :: "timeval \<Rightarrow> timeval \<Rightarrow> timeval \<Rightarrow> ping_rts \<Rightarrow> int \<times> ping_rts" where
  "stamp_trip tv now sent rts =
     (case trip_time tv sent of
        Some t \<Rightarrow> (t, rts)
      | None \<Rightarrow>
          if opt_latency rts then (0, rts)
          else (case trip_time now sent of Some t \<Rightarrow> t | None \<Rightarrow> 0, rts\<lparr>opt_latency := True\<rparr>))"

definition update_interval :: "ping_rts \<Rightarrow> ping_rts" where
  "update_interval rts =
     (let est = (if rtt rts \<noteq> 0 then to_int32 (uint (rtt rts div 8)) else interval rts * 1000);
          rts = rts\<lparr>interval := cdiv (est + rtt_addend rts + 500) 1000\<rparr>
      in if uid rts \<noteq> 0 \<and> interval rts < MIN_USER_INTERVAL_MS then rts\<lparr>interval := MIN_USER_INTERVAL_MS\<rparr> else rts)"

definition add_trip :: "int \<Rightarrow> ping_rts \<Rightarrow> ping_rts" where
  "add_trip t rts =
     (let rts = rts\<lparr>tsum := tsum rts + of_int t, tsum2 := tsum2 rts + of_int (t * t)\<rparr>;
          rts = (if t < tmin rts then rts\<lparr>tmin := t\<rparr> else rts);
          rts = (if t > tmax rts then rts\<lparr>tmax := t\<rparr> else rts);
          rts = (if rtt rts = 0 then rts\<lparr>rtt := of_int t * 8\<rparr> else rts\<lparr>rtt := rtt rts + (of_int t - rtt rts div 8)\<rparr>)
      in if opt_adaptive rts then update_interval rts else rts)"

definition count_reply :: "16 word \<Rightarrow> bool \<Rightarrow> ping_rts \<Rightarrow> bool \<times> ping_rts" where
  "count_reply sq csfailed rts =
     (if csfailed then (False, rts\<lparr>nchecksum := nchecksum rts + 1, nreceived := nreceived rts - 1\<rparr>)
      else if rcvd_test sq (rcvd_tbl rts)
        then (True, rts\<lparr>nrepeats := nrepeats rts + 1, nreceived := nreceived rts - 1\<rparr>)
      else (False, rts\<lparr>rcvd_tbl := rcvd_set sq (rcvd_tbl rts)\<rparr>))"

record reply =
  rp_payload :: bytes
  rp_cc :: int
  rp_seq :: "16 word"
  rp_hops :: int
  rp_csfailed :: bool
  rp_tv :: timeval
  rp_from :: string
  rp_multicast :: bool
  rp_wrong_source :: bool

definition gather_update :: "timeval \<Rightarrow> reply \<Rightarrow> ping_rts \<Rightarrow> int \<times> bool \<times> ping_rts" where
  "gather_update now r rts =
     (let rts = rts\<lparr>nreceived := nreceived rts + 1\<rparr>;
          rts = (if rp_csfailed r then rts else acknowledge (rp_seq r) rts);
          (t, rts) = (if timing rts \<and> rp_cc r \<ge> int (8 + TIMEVAL_SIZE)
                      then (case stamp_trip (rp_tv r) now (get_timeval (rp_payload r)) rts of
                              (t, rts) \<Rightarrow> (t, if rp_csfailed r then rts else add_trip t rts))
                      else (0, rts));
          (dup, rts) = count_reply (rp_seq r) (rp_csfailed r) rts
      in (t, dup, rts\<lparr>confirm := confirm_flag rts\<rparr>))"

text \<open>The time in milliseconds, with fewer decimals the longer it is.\<close>

definition dec_part :: "nat \<Rightarrow> int \<Rightarrow> string" where
  "dec_part n d = pad_zero n (int_dec d)"

definition time_text :: "bool \<Rightarrow> int \<Rightarrow> string" where
  "time_text precise t =
     (if precise then int_dec (cdiv t 1000) @ ''.'' @ dec_part 3 (cmod t 1000)
      else if t \<ge> 100000 - 50 then int_dec (cdiv (t + 500) 1000)
      else if t \<ge> 10000 - 5 then int_dec (cdiv (t + 50) 1000) @ ''.'' @ dec_part 1 (cdiv (cmod (t + 50) 1000) 100)
      else if t \<ge> 1000 then int_dec (cdiv (t + 5) 1000) @ ''.'' @ dec_part 2 (cdiv (cmod (t + 5) 1000) 10)
      else int_dec (cdiv t 1000) @ ''.'' @ dec_part 3 (cmod t 1000))"

subsection \<open>Checking the data\<close>

definition data_dump :: "bytes \<Rightarrow> nat \<Rightarrow> string" where
  "data_dump payload dlen =
     concat (map (\<lambda>i. (if i mod 32 = TIMEVAL_SIZE then CHR 0x0A # ''#'' @ nat_dec i @ [CHR 0x09] else [])
                       @ hex_text (unat (payload ! i)) @ '' '') [TIMEVAL_SIZE..<dlen])"

definition check_data :: "bytes \<Rightarrow> bytes \<Rightarrow> nat \<Rightarrow> string" where
  "check_data payload out dlen =
     (case List.find (\<lambda>i. payload ! i \<noteq> out ! (8 + i)) [TIMEVAL_SIZE..<dlen] of
        None \<Rightarrow> []
      | Some i \<Rightarrow>
          CHR 0x0A # ''wrong data byte #'' @ nat_dec i @ '' should be 0x'' @ hex_text (unat (out ! (8 + i)))
          @ '' but was 0x'' @ hex_text (unat (payload ! i)) @ data_dump payload dlen)"

subsection \<open>Reporting a reply\<close>

definition print_reply ::
  "unit pio option \<Rightarrow> timeval \<Rightarrow> reply \<Rightarrow> int \<Rightarrow> bool \<Rightarrow> bool pio" where
  "print_reply pr_reply now r t dup =
     sbind (print_timestamp now) (\<lambda>_.
     sbind (ping_print_int [] '' bytes '' ''bytes'' (rp_cc r)) (\<lambda>_.
     sbind (ping_print_str ''from '' '':'' ''host'' (rp_from r)) (\<lambda>_.
     sbind (case pr_reply of None \<Rightarrow> sret () | Some p \<Rightarrow> p) (\<lambda>_.
     sbind (sget io_rts) (\<lambda>rts.
     sbind (if opt_verbose rts \<and> ident rts \<noteq> - 1
            then ping_print_int '' ident='' [] ''ident'' (ntohs16 (word_of_int (ident rts))) else sret ()) (\<lambda>_.
     sbind (if rp_hops r \<ge> 0 then ping_print_int '' ttl='' [] ''ttl'' (rp_hops r) else sret ()) (\<lambda>_.
     if rp_cc r < datalen rts + 8
     then sbind ping_print_truncated (\<lambda>_. sret True)
     else
       sbind (if timing rts
              then ping_print_str '' time='' '' ms'' ''time'' (snprintf_buf 30 (time_text (opt_rtt_precision rts) t))
              else sret ()) (\<lambda>_.
       sbind (emit ((if dup \<and> (\<not> rp_multicast r \<or> opt_verbose rts) then '' (DUP!)'' else [])
                    @ (if rp_csfailed r then '' (BAD CHECKSUM!)'' else [])
                    @ (if rp_wrong_source r then '' (DIFFERENT ADDRESS!)'' else [])
                    @ check_data (rp_payload r) (outpack rts) (nat (datalen rts)))) (\<lambda>_.
       sret False)))))))))"

text \<open>Whether the caller is to stop after the line: \<open>True\<close> is the return value 1.\<close>

definition gather_statistics ::
  "unit pio option \<Rightarrow> timeval \<Rightarrow> reply \<Rightarrow> bool pio" where
  "gather_statistics pr_reply now r =
     sbind (sget io_rts) (\<lambda>rts.
     case gather_update now r rts of (t, dup, rts') \<Rightarrow>
     sbind (put_rts rts') (\<lambda>_.
     if opt_quiet rts' then sret True
     else if opt_flood rts'
       then sbind (emit (if rp_csfailed r then [CHR 0x08, CHR ''C''] else [CHR 0x08, CHR '' '', CHR 0x08])) (\<lambda>_. sret False)
       else print_reply pr_reply now r t dup))"

subsection \<open>The end of a run\<close>

function llsqrt_loop :: "int \<Rightarrow> int \<Rightarrow> int \<Rightarrow> int" where
  "llsqrt_loop a prev x =
     (if 0 < x \<and> x < prev then llsqrt_loop a x (cdiv (x + cdiv a x) 2) else x)"
  by pat_completeness auto
termination
  by (relation "measure (\<lambda>(_, prev, _). nat prev)") auto

declare llsqrt_loop.simps [simp del]

definition llsqrt :: "int \<Rightarrow> int" where
  "llsqrt a = (if a > 0 then llsqrt_loop a LONG_MAX a else a)"

definition ms_text :: "int \<Rightarrow> string" where
  "ms_text t = int_dec (cdiv t 1000) @ ''.'' @ dec_part 3 (cmod t 1000)"

text \<open>\<open>trunc\<close> is the conversion of a \<open>double\<close> to an integer, towards zero.\<close>

definition trunc :: "real \<Rightarrow> int" where
  "trunc x = (if x \<ge> 0 then \<lfloor>x\<rfloor> else \<lceil>x\<rceil>)"

definition mean_time :: "ping_rts \<Rightarrow> int" where
  "mean_time rts = trunc (tsum rts / of_int (nreceived rts + nrepeats rts))"

definition var_time :: "ping_rts \<Rightarrow> int" where
  "var_time rts =
     (let total = of_int (nreceived rts + nrepeats rts) :: real
      in if tsum rts < of_int INT_MAX
         then trunc ((tsum2 rts - tsum rts * tsum rts / total) / total)
         else trunc (tsum2 rts / total - of_int (mean_time rts * mean_time rts)))"

definition ping_print_statistics :: "timespec \<Rightarrow> unit pio" where
  "ping_print_statistics tv =
     sbind (sget io_rts) (\<lambda>rts.
     let rttmin = ms_text (tmin rts); rttavg = ms_text (mean_time rts); rttmax = ms_text (tmax rts);
         rttmdev = ms_text (llsqrt (var_time rts))
     in if opt_json rts then on_rts (construct_json_statistics tv rttmin rttavg rttmax rttmdev)
        else emit (''rtt min/avg/max/mdev = '' @ rttmin @ ''/'' @ rttavg @ ''/'' @ rttmax @ ''/'' @ rttmdev @ '' ms''))"

definition counts_text :: "(real \<Rightarrow> string) \<Rightarrow> timespec \<Rightarrow> ping_rts \<Rightarrow> string" where
  "counts_text fmt_g tv rts =
     ''--- '' @ hostname rts @ '' ping statistics ---'' @ [CHR 0x0A]
     @ int_dec (ntransmitted rts) @ '' packets transmitted, '' @ int_dec (nreceived rts) @ '' received''
     @ (if nrepeats rts \<noteq> 0 then '', +'' @ int_dec (nrepeats rts) @ '' duplicates'' else [])
     @ (if nchecksum rts \<noteq> 0 then '', +'' @ int_dec (nchecksum rts) @ '' corrupted'' else [])
     @ (if nerrors rts \<noteq> 0 then '', +'' @ int_dec (nerrors rts) @ '' errors'' else [])
     @ (if ntransmitted rts \<noteq> 0
        then '', '' @ fmt_g (of_int (ntransmitted rts - nreceived rts) * 100 / of_int (ntransmitted rts)) @ ''% packet loss''
             @ '', time '' @ int_dec (elapsed_ms tv) @ ''ms''
        else [])
     @ [CHR 0x0A]"

definition flood_report :: "timespec \<Rightarrow> bool \<Rightarrow> unit pio" where
  "flood_report tv comma =
     sbind (sget io_rts) (\<lambda>rts.
     if nreceived rts \<noteq> 0 \<and> (interval rts = 0 \<or> opt_flood rts \<or> opt_adaptive rts) \<and> ntransmitted rts > 1
     then let ipg = to_int32 (cdiv (1000000 * tv_sec tv + cdiv (tv_nsec tv) 1000) (ntransmitted rts - 1));
              ipgout = ms_text ipg;
              ewmaout = int_dec (uint (rtt rts div 8000)) @ ''.'' @ dec_part 3 (uint (rtt rts div 8 mod 1000))
          in sbind (if opt_json rts then sret ()
                    else emit ((if comma then '', '' else []) @ ''ipg/ewma '' @ ipgout @ ''/'' @ ewmaout @ '' ms'')) (\<lambda>_.
             on_rts (construct_json_statistics_flood ipgout ewmaout))
     else sret ())"

definition ping_print_finish :: "(real \<Rightarrow> string) \<Rightarrow> unit pio" where
  "ping_print_finish fmt_g =
     sbind (sget io_rts) (\<lambda>rts.
     let tv = tssub (cur_time rts) (start_time rts); stats = (nreceived rts \<noteq> 0 \<and> timing rts)
     in sbind (if opt_json rts then sret () else emit (CHR 0x0A # counts_text fmt_g tv rts)) (\<lambda>_.
        sbind (if stats then ping_print_statistics tv else sret ()) (\<lambda>_.
        sbind (if pipesize rts > 1 \<and> \<not> opt_json rts
               then emit ((if stats then '', '' else []) @ ''pipe '' @ int_dec (pipesize rts)) else sret ()) (\<lambda>_.
        sbind (flood_report tv (stats \<or> pipesize rts > 1 \<and> \<not> opt_json rts)) (\<lambda>_.
        sbind (sget io_rts) (\<lambda>rts.
        if opt_json rts
        then (case print_json_statistics rts of (out, rts') \<Rightarrow> sbind (emit out) (\<lambda>_. put_rts rts'))
        else emit [CHR 0x0A]))))))"

text \<open>The exit status.\<close>

definition finish_status :: "ping_rts \<Rightarrow> int" where
  "finish_status rts = (if nreceived rts = 0 \<or> deadline rts \<noteq> 0 \<and> nreceived rts < npackets rts then 1 else 0)"

definition finish :: "(real \<Rightarrow> string) \<Rightarrow> int pio" where
  "finish fmt_g = sbind (ping_print_finish fmt_g) (\<lambda>_. sget (finish_status \<circ> io_rts))"

text \<open>The line of \<open>SIGQUIT\<close>, on standard error.\<close>

definition status :: "ping_rts \<Rightarrow> string \<times> ping_rts" where
  "status rts =
     (let loss = (if ntransmitted rts \<noteq> 0 then loss_percent rts else 0);
          tavg = trunc (tsum rts / of_int (nreceived rts + nrepeats rts))
      in (CHR 0x0D # int_dec (nreceived rts) @ ''/'' @ int_dec (ntransmitted rts) @ '' packets, '' @ int_dec loss @ ''% loss''
          @ (if nreceived rts \<noteq> 0 \<and> timing rts
             then '', min/avg/ewma/max = '' @ ms_text (tmin rts) @ ''/'' @ ms_text tavg @ ''/''
                  @ int_dec (to_int32 (uint (rtt rts div 8000))) @ ''.'' @ dec_part 3 (to_int32 (uint (rtt rts div 8 mod 1000))) @ ''/''
                  @ ms_text (tmax rts) @ '' ms''
             else [])
          @ [CHR 0x0A],
          rts\<lparr>status_snapshot := False\<rparr>))"

definition str_interval :: "int \<Rightarrow> string" where
  "str_interval iv =
     snprintf_buf 14 (if cmod iv 1000 \<noteq> 0 then int_dec (cdiv iv 1000) @ ''.'' @ pad_zero 3 (int_dec (cmod iv 1000))
                      else int_dec (cdiv iv 1000))"

subsection \<open>Counting replies\<close>

text \<open>The fields that only the counting part of \<open>gather_statistics\<close> touches.\<close>

definition counters :: "ping_rts \<Rightarrow> int \<times> int \<times> int \<times> rcvd_table" where
  "counters rts = (nreceived rts, nrepeats rts, nchecksum rts, rcvd_tbl rts)"

lemma counters_frame [simp]:
  "counters (acknowledge sq rts) = counters rts"
  "counters (update_interval rts) = counters rts"
  "counters (rts\<lparr>confirm := b\<rparr>) = counters rts"
  "counters (rts\<lparr>opt_latency := b\<rparr>) = counters rts"
  by (simp_all add: counters_def acknowledge_def update_interval_def Let_def)

lemma counters_add_trip [simp]: "counters (add_trip t rts) = counters rts"
  by (simp add: add_trip_def Let_def) (simp add: counters_def)

lemma counters_stamp_trip [simp]: "counters (snd (stamp_trip tv now sent rts)) = counters rts"
  by (simp add: stamp_trip_def split: option.split)

definition after_reply :: "timeval \<Rightarrow> reply \<Rightarrow> ping_rts \<Rightarrow> ping_rts" where
  "after_reply now r rts = snd (snd (gather_update now r rts))"

definition timed_part :: "timeval \<Rightarrow> reply \<Rightarrow> ping_rts \<Rightarrow> int \<times> ping_rts" where
  "timed_part now r rts =
     (if timing rts \<and> rp_cc r \<ge> int (8 + TIMEVAL_SIZE)
      then (case stamp_trip (rp_tv r) now (get_timeval (rp_payload r)) rts of
              (t, rts) \<Rightarrow> (t, if rp_csfailed r then rts else add_trip t rts))
      else (0, rts))"

definition acked_part :: "reply \<Rightarrow> ping_rts \<Rightarrow> ping_rts" where
  "acked_part r rts =
     (let rts = rts\<lparr>nreceived := nreceived rts + 1\<rparr>
      in if rp_csfailed r then rts else acknowledge (rp_seq r) rts)"

lemma gather_update_parts:
  "gather_update now r rts =
     (let tp = timed_part now r (acked_part r rts); cr = count_reply (rp_seq r) (rp_csfailed r) (snd tp)
      in (fst tp, fst cr, (snd cr)\<lparr>confirm := confirm_flag (snd cr)\<rparr>))"
  by (simp add: gather_update_def timed_part_def acked_part_def Let_def split: prod.splits)

lemma counters_timed [simp]: "counters (snd (timed_part now r rts)) = counters rts"
  using counters_stamp_trip [of "rp_tv r" now "get_timeval (rp_payload r)" rts]
  by (simp add: timed_part_def case_prod_beta)

lemma counters_acked:
  "counters rts = (n, p, c, tb) \<Longrightarrow> counters (acked_part r rts) = (n + 1, p, c, tb)"
  by (simp add: acked_part_def Let_def) (simp add: counters_def)

lemma counters_count_reply:
  assumes "counters rts = (n, p, c, tb)"
  shows "counters (snd (count_reply sq cs rts))
    = (if cs then (n - 1, p, c + 1, tb) else if rcvd_test sq tb then (n - 1, p + 1, c, tb) else (n, p, c, rcvd_set sq tb))"
  using assms by (simp add: count_reply_def counters_def)

lemma counters_after:
  assumes "counters rts = (n, p, c, tb)"
  shows "counters (after_reply now r rts)
    = (if rp_csfailed r then (n, p, c + 1, tb)
       else if rcvd_test (rp_seq r) tb then (n, p + 1, c, tb) else (n + 1, p, c, rcvd_set (rp_seq r) tb))"
proof -
  have "counters (snd (timed_part now r (acked_part r rts))) = (n + 1, p, c, tb)"
    using counters_acked [OF assms] by simp
  from counters_count_reply [OF this] show ?thesis
    by (simp add: after_reply_def gather_update_parts Let_def)
qed

text \<open>What a reply with a right checksum adds to the times.\<close>

definition trips :: "ping_rts \<Rightarrow> real \<times> real \<times> int \<times> int" where
  "trips rts = (tsum rts, tsum2 rts, tmin rts, tmax rts)"

lemma trips_frame [simp]:
  "trips (acked_part r rts) = trips rts" "trips (snd (count_reply sq cs rts)) = trips rts"
  "trips (rts\<lparr>confirm := b\<rparr>) = trips rts" "trips (update_interval rts) = trips rts"
  "trips (rts\<lparr>rtt := w\<rparr>) = trips rts"
  by (simp_all add: trips_def acked_part_def acknowledge_def count_reply_def update_interval_def Let_def)

lemma trips_add_trip:
  "trips (add_trip t rts) = (tsum rts + of_int t, tsum2 rts + of_int (t * t), min (tmin rts) t, max (tmax rts) t)"
  by (simp add: add_trip_def Let_def) (auto simp: trips_def min_def max_def)

lemma opts_frame [simp]:
  "timing (acked_part r rts) = timing rts" "opt_latency (acked_part r rts) = opt_latency rts"
  "tsum (acked_part r rts) = tsum rts" "tsum2 (acked_part r rts) = tsum2 rts"
  "tmin (acked_part r rts) = tmin rts" "tmax (acked_part r rts) = tmax rts"
  "opt_quiet (acked_part r rts) = opt_quiet rts" "opt_quiet (snd (count_reply sq cs rts)) = opt_quiet rts"
  "opt_quiet (update_interval rts) = opt_quiet rts"
  by (simp_all add: acked_part_def acknowledge_def count_reply_def update_interval_def Let_def)

lemma quiet_add_trip [simp]: "opt_quiet (add_trip t rts) = opt_quiet rts"
  by (simp add: add_trip_def Let_def)

lemma quiet_after_reply [simp]: "opt_quiet (after_reply now r rts) = opt_quiet rts"
  by (simp add: after_reply_def gather_update_parts Let_def timed_part_def stamp_trip_def split: prod.split option.split)

lemma trips_after:
  assumes "timing rts" "rp_cc r \<ge> int (8 + TIMEVAL_SIZE)" "\<not> rp_csfailed r"
    and "trip_time (rp_tv r) (get_timeval (rp_payload r)) = Some t"
  shows "trips (after_reply now r rts) = (tsum rts + of_int t, tsum2 rts + of_int (t * t), min (tmin rts) t, max (tmax rts) t)"
proof -
  have "timed_part now r (acked_part r rts) = (t, add_trip t (acked_part r rts))"
    using assms by (simp add: timed_part_def stamp_trip_def)
  then show ?thesis by (simp add: after_reply_def gather_update_parts Let_def trips_add_trip)
qed

lemma get_timeval_put:
  assumes "- (2 ^ 63) \<le> tvl_sec tv" "tvl_sec tv < 2 ^ 63" "- (2 ^ 63) \<le> tvl_usec tv" "tvl_usec tv < 2 ^ 63"
  shows "get_timeval (put_timeval tv @ ys) = tv"
proof -
  let ?s = "word_of_int (tvl_sec tv) :: 64 word" and ?u = "word_of_int (tvl_usec tv) :: 64 word"
  have "le64_at (put_timeval tv @ ys) 0 = ?s" "le64_at (put_timeval tv @ ys) 8 = ?u"
    using le64_at_le64 [of "[]" ?s "le64 ?u @ ys"] le64_at_le64 [of "le64 ?s" ?u ys]
    by (simp_all add: put_timeval_def le64_def)
  then show ?thesis using assms by (simp add: get_timeval_def signed_of_int signed_take_bit_int_eq_self)
qed

text \<open>A run of replies, and the sequence numbers of the sound ones.\<close>

definition replies_run :: "timeval \<Rightarrow> reply list \<Rightarrow> ping_rts \<Rightarrow> ping_rts" where
  "replies_run now rs rts = fold (after_reply now) rs rts"

definition good_seqs :: "reply list \<Rightarrow> 16 word list" where
  "good_seqs rs = map rp_seq (filter (\<lambda>r. \<not> rp_csfailed r) rs)"

lemma counters_run:
  assumes "counters rts = (n, p, c, tb)" "tbl_inv tb"
  shows "\<exists>tb'. tbl_inv tb' \<and> tbl_abs tb' = tbl_abs tb \<union> set (good_seqs rs)
    \<and> counters (replies_run now rs rts)
      = (n + int (card (set (good_seqs rs) - tbl_abs tb)),
         p + int (length (good_seqs rs)) - int (card (set (good_seqs rs) - tbl_abs tb)),
         c + int (length rs) - int (length (good_seqs rs)), tb')"
  using assms
proof (induction rs arbitrary: rts n p c tb)
  case Nil
  then show ?case by (auto simp: replies_run_def good_seqs_def)
next
  case (Cons r rs)
  note step = counters_after [OF Cons.prems(1), of now r]
  show ?case
  proof (cases "rp_csfailed r")
    case True
    with Cons.IH [of "after_reply now r rts"] step Cons.prems(2) show ?thesis
      by (auto simp: replies_run_def good_seqs_def)
  next
    case good: False
    show ?thesis
    proof (cases "rcvd_test (rp_seq r) tb")
      case True
      then have "rp_seq r \<in> tbl_abs tb" using Cons.prems(2) by (simp add: rcvd.mem_abs)
      then have "set (good_seqs (r # rs)) - tbl_abs tb = set (good_seqs rs) - tbl_abs tb"
        using good by (auto simp: good_seqs_def)
      with \<open>rp_seq r \<in> tbl_abs tb\<close> True good Cons.IH [of "after_reply now r rts"] step Cons.prems(2) show ?thesis
        by (auto simp: replies_run_def good_seqs_def)
    next
      case False
      then have new: "rp_seq r \<notin> tbl_abs tb" using Cons.prems(2) by (simp add: rcvd.mem_abs)
      have "set (good_seqs (r # rs)) - tbl_abs tb
          = insert (rp_seq r) (set (good_seqs rs) - insert (rp_seq r) (tbl_abs tb))"
        using good new by (auto simp: good_seqs_def)
      then have "card (set (good_seqs (r # rs)) - tbl_abs tb)
          = card (set (good_seqs rs) - insert (rp_seq r) (tbl_abs tb)) + 1" by simp
      with False good Cons.IH [of "after_reply now r rts" "n + 1" p c "rcvd_set (rp_seq r) tb"] step Cons.prems(2)
      show ?thesis
        by (auto simp: replies_run_def good_seqs_def rcvd.inv_ins rcvd.abs_ins)
    qed
  qed
qed

text \<open>
C25: However replies arrive, the counters are exact: from an empty table, the number received is the
number of different sequence numbers among the replies with a right checksum, every further one of
them counts as a duplicate and every reply with a wrong checksum as corrupted.
\<close>
theorem ping_reply_counters:
  assumes "rcvd_tbl rts = rcvd_empty" "nreceived rts = 0" "nrepeats rts = 0" "nchecksum rts = 0"
  shows "nreceived (replies_run now rs rts) = int (card (set (good_seqs rs)))
    \<and> nrepeats (replies_run now rs rts) = int (length (good_seqs rs)) - int (card (set (good_seqs rs)))
    \<and> nchecksum (replies_run now rs rts) = int (length rs) - int (length (good_seqs rs))
    \<and> tbl_abs (rcvd_tbl (replies_run now rs rts)) = set (good_seqs rs)"
proof -
  have "counters rts = (0, 0, 0, rcvd_empty)" using assms by (simp add: counters_def)
  from counters_run [OF this rcvd.inv_empty, of rs now] show ?thesis
    by (auto simp: counters_def rcvd.abs_empty)
qed

definition demo_reply :: "16 word \<Rightarrow> bool \<Rightarrow> reply" where
  "demo_reply sq bad = \<lparr>rp_payload = replicate 56 0, rp_cc = 64, rp_seq = sq, rp_hops = 64, rp_csfailed = bad,
     rp_tv = \<lparr>tvl_sec = 0, tvl_usec = 250\<rparr>, rp_from = ''h'', rp_multicast = False, rp_wrong_source = False\<rparr>"

lemma rts_init_counters: "rcvd_tbl rts_init = rcvd_empty" "nreceived rts_init = 0" "nrepeats rts_init = 0" "nchecksum rts_init = 0"
  by (simp_all add: rts_init_def)

theorem ping_reply_counters_witness:
  "nreceived (replies_run \<lparr>tvl_sec = 0, tvl_usec = 0\<rparr>
      [demo_reply 1 False, demo_reply 2 False, demo_reply 1 False, demo_reply 3 True] rts_init) = 2
   \<and> nrepeats (replies_run \<lparr>tvl_sec = 0, tvl_usec = 0\<rparr>
      [demo_reply 1 False, demo_reply 2 False, demo_reply 1 False, demo_reply 3 True] rts_init) = 1"
proof -
  let ?rs = "[demo_reply 1 False, demo_reply 2 False, demo_reply 1 False, demo_reply 3 True]"
  have "good_seqs ?rs = [1, 2, 1]" by (simp add: good_seqs_def demo_reply_def)
  moreover have "card (set [1, 2, 1 :: 16 word]) = 2" by code_simp
  ultimately show ?thesis
    using ping_reply_counters [OF rts_init_counters, of "\<lparr>tvl_sec = 0, tvl_usec = 0\<rparr>" ?rs] by simp
qed

subsection \<open>The integer square root\<close>

lemma le_div_int: "0 < q \<Longrightarrow> m * q \<le> n \<Longrightarrow> (m :: int) \<le> n div q"
  using zdiv_mono1 [of "m * q" n q] by simp

lemma div_less_int: "0 < q \<Longrightarrow> n < m * q \<Longrightarrow> n div q < (m :: int)"
proof -
  assume q: "0 < q" "n < m * q"
  have "q * (n div q) \<le> n" using q by (simp add: minus_mod_eq_mult_div [symmetric])
  also have "n < q * m" using q by (simp only: mult.commute)
  finally show "n div q < m" using q by (simp only: mult_less_cancel_left_pos)
qed

lemma newton_step:
  assumes "0 < s" "s * s \<le> a" "a < (s + 1) * (s + 1)" "s \<le> x"
  shows "s \<le> (x + a div x) div 2" "s < x \<Longrightarrow> (x + a div x) div 2 < (x :: int)"
proof -
  have x: "0 < x" using assms by linarith
  have "x * (2 * s) \<le> x * x + s * s" using zero_le_square [of "x - s"] by (simp add: algebra_simps)
  then have "x * (2 * s - x) \<le> a" using assms(2) by (simp add: algebra_simps)
  then have "2 * s - x \<le> a div x" using x by (intro le_div_int) (simp_all add: mult.commute)
  then show "s \<le> (x + a div x) div 2" by linarith
  assume "s < x"
  then have "(s + 1) * (s + 1) \<le> x * x" using assms(1) by (intro mult_mono) auto
  then have "a < x * x" using assms(3) by linarith
  then have "a div x < x" using x by (intro div_less_int)
  then show "(x + a div x) div 2 < x" by linarith
qed

lemma last_step:
  assumes "0 < s" "s * s \<le> a" "a < (s + 1) * (s + 1)"
  shows "(s + a div s) div 2 = (if a = (s + 1) * (s + 1) - 1 then s + 1 else (s :: int))"
proof -
  obtain k where k: "a = s * s + k" "0 \<le> k" "k \<le> 2 * s"
    using assms that [of "a - s * s"] by (simp add: algebra_simps)
  then have q: "a div s = s + k div s" using assms(1) by simp
  show ?thesis
  proof (cases "k = 2 * s")
    case True
    then show ?thesis using assms(1) k q by (simp add: algebra_simps)
  next
    case False
    then have "k < 2 * s" using k by linarith
    then have "k div s < 2" using assms(1) by (intro div_less_int)
    moreover have "0 \<le> k div s" using k assms(1) by (simp add: pos_imp_zdiv_nonneg_iff)
    ultimately have "(s + a div s) div 2 = s" unfolding q by linarith
    moreover have "a \<noteq> (s + 1) * (s + 1) - 1" using False k by (simp add: algebra_simps)
    ultimately show ?thesis by simp
  qed
qed

lemma llsqrt_loop_root:
  assumes "0 < s" "s * s \<le> a" "a < (s + 1) * (s + 1)" "s \<le> x" "x < prev"
  shows "llsqrt_loop a prev x = (if a = (s + 1) * (s + 1) - 1 then s + 1 else s)"
  using assms(4,5)
proof (induction "nat prev" arbitrary: prev x rule: less_induct)
  case less
  have x: "0 < x" using assms(1) less.prems by linarith
  have a: "0 \<le> a" using order_trans [OF zero_le_square assms(2)] .
  define y where "y = (x + a div x) div 2"
  have "0 \<le> a div x" using a x by (simp add: pos_imp_zdiv_nonneg_iff)
  then have c: "cdiv (x + cdiv a x) 2 = y" using x a by (simp add: y_def cdiv_nonneg)
  have run: "llsqrt_loop a prev x = llsqrt_loop a x y"
    using x less.prems(2) c by (subst llsqrt_loop.simps) simp
  show ?case
  proof (cases "s < x")
    case True
    have "llsqrt_loop a x y = (if a = (s + 1) * (s + 1) - 1 then s + 1 else s)"
      by (rule less.hyps) (use True x less.prems newton_step [OF assms(1-3) less.prems(1)] in \<open>simp_all add: y_def\<close>)
    then show ?thesis by (simp add: run)
  next
    case False
    then have xs: "x = s" using less.prems(1) by simp
    have "\<not> y < x" using newton_step(1) [OF assms(1-3) less.prems(1)] by (simp add: xs y_def)
    then have "llsqrt_loop a x y = y" by (subst llsqrt_loop.simps) simp
    with run have "llsqrt_loop a prev x = y" by (rule trans)
    then have "llsqrt_loop a prev x = (s + a div s) div 2" unfolding y_def xs .
    then show ?thesis by (simp only: last_step [OF assms(1-3)])
  qed
qed

text \<open>
The loop of \<open>llsqrt\<close> ends, and for a positive argument it gives the integer part of the square
root, except one too much exactly for the numbers one below a perfect square.
\<close>
lemma llsqrt_root:
  assumes "0 < a" "a < LONG_MAX" "0 \<le> s" "s * s \<le> a" "a < (s + 1) * (s + 1)"
  shows "llsqrt a = (if a = (s + 1) * (s + 1) - 1 then s + 1 else s)"
proof -
  have s: "0 < s" using assms by (cases "s = 0") auto
  have "s * 1 \<le> s * s" using s by (intro mult_left_mono) auto
  then have "s \<le> a" using assms(4) by simp
  then show ?thesis
    using llsqrt_loop_root [OF s assms(4,5)] assms(1,2) by (simp add: llsqrt_def)
qed


end
