(* ===== verification/C_Loop.thy ===== *)
theory C_Loop
  imports C_Prelude
begin

text \<open>
  Loops whose end depends on what the system answers: an operation that may not return gives
  \<open>None\<close>. A loop is \<open>ountil\<close> over its body, which gives \<open>None\<close> to go round again and \<open>Some a\<close>
  to leave with \<open>a\<close>; errors leave at once. Invariants and termination are proved here once.
\<close>

type_synonym ('s, 'e, 'a) oserr = "'s \<Rightarrow> (('e + 'a) \<times> 's) option"

definition orun :: "('s, 'e, 'a) serr \<Rightarrow> ('s, 'e, 'a) oserr" where
  "orun m s = Some (m s)"

definition obind :: "('s, 'e, 'a) oserr \<Rightarrow> ('a \<Rightarrow> ('s, 'e, 'b) oserr) \<Rightarrow> ('s, 'e, 'b) oserr" where
  "obind m f s =
     (case m s of
        None \<Rightarrow> None
      | Some (Inl e, s') \<Rightarrow> Some (Inl e, s')
      | Some (Inr a, s') \<Rightarrow> f a s')"

partial_function (option) ountil :: "('s, 'e, 'a option) oserr \<Rightarrow> 's \<Rightarrow> (('e + 'a) \<times> 's) option" where
  "ountil m s =
     (case m s of
        None \<Rightarrow> None
      | Some (Inl e, s') \<Rightarrow> Some (Inl e, s')
      | Some (Inr None, s') \<Rightarrow> ountil m s'
      | Some (Inr (Some a), s') \<Rightarrow> Some (Inr a, s'))"

text \<open>A relation between the states before and after that every run that returns keeps.\<close>

definition okeeps :: "('s \<Rightarrow> 's \<Rightarrow> bool) \<Rightarrow> ('s, 'e, 'a) oserr \<Rightarrow> bool" where
  "okeeps R m \<longleftrightarrow> (\<forall>s r s'. m s = Some (r, s') \<longrightarrow> R s s')"

lemma okeepsD: "okeeps R m \<Longrightarrow> m s = Some (r, s') \<Longrightarrow> R s s'"
  by (simp add: okeeps_def)

lemma okeeps_run: "okeeps R (orun m) \<longleftrightarrow> keeps R m"
  unfolding okeeps_def keeps_def orun_def by (metis option.inject prod.collapse snd_conv)

lemma okeeps_bind:
  assumes "transp R" "okeeps R m" "\<And>a. okeeps R (f a)"
  shows "okeeps R (obind m f)"
  unfolding okeeps_def
proof (intro allI impI)
  fix s r s' assume run: "obind m f s = Some (r, s')"
  then obtain x s1 where m: "m s = Some (x, s1)" by (cases "m s") (auto simp: obind_def)
  then have s1: "R s s1" by (rule okeepsD [OF assms(2)])
  show "R s s'"
  proof (cases x)
    case (Inl e)
    then show ?thesis using run m s1 by (simp add: obind_def)
  next
    case (Inr a)
    then have "f a s1 = Some (r, s')" using run m by (simp add: obind_def)
    from okeepsD [OF assms(3) this] s1 show ?thesis using assms(1) by (meson transpD)
  qed
qed

lemma ountil_cases:
  assumes "ountil m s = Some (r, s')"
  obtains (err) e where "m s = Some (Inl e, s')" "r = Inl e"
  | (leave) a where "m s = Some (Inr (Some a), s')" "r = Inr a"
  | (again) s1 where "m s = Some (Inr None, s1)" "ountil m s1 = Some (r, s')"
proof -
  obtain x s1 where m: "m s = Some (x, s1)"
    using assms by (cases "m s") (auto simp: ountil.simps [of m s])
  show thesis
  proof (cases x)
    case (Inl e)
    then show ?thesis using assms m err by (simp add: ountil.simps [of m s])
  next
    case (Inr y)
    then show ?thesis using assms m again leave by (cases y) (simp_all add: ountil.simps [of m s])
  qed
qed

text \<open>Induction over the rounds of a loop that returns.\<close>

lemma ountil_induct:
  assumes "ountil m s = Some (r, s')"
    and err: "\<And>s e s'. m s = Some (Inl e, s') \<Longrightarrow> P s (Inl e) s'"
    and dn: "\<And>s a s'. m s = Some (Inr (Some a), s') \<Longrightarrow> P s (Inr a) s'"
    and again: "\<And>s s1 r s'. m s = Some (Inr None, s1) \<Longrightarrow> ountil m s1 = Some (r, s') \<Longrightarrow> P s1 r s' \<Longrightarrow> P s r s'"
  shows "P s r s'"
proof -
  have "case y of (r, s') \<Rightarrow> ountil m s = Some (r, s') \<and> P s r s'" if "ountil m s = Some y" for s y
  proof (rule ountil.raw_induct [where P = "\<lambda>m' s y. m' = m \<longrightarrow> (case y of (r, s') \<Rightarrow> ountil m s = Some (r, s') \<and> P s r s')",
        THEN mp, OF _ that refl])
    fix f m' s y
    assume IH: "\<And>m' s y. f m' s = Some y \<Longrightarrow> m' = m \<longrightarrow> (case y of (r, s') \<Rightarrow> ountil m s = Some (r, s') \<and> P s r s')"
      and run: "(case m' s of None \<Rightarrow> None | Some (Inl e, s') \<Rightarrow> Some (Inl e, s')
        | Some (Inr None, s') \<Rightarrow> f m' s' | Some (Inr (Some a), s') \<Rightarrow> Some (Inr a, s')) = Some y"
    show "m' = m \<longrightarrow> (case y of (r, s') \<Rightarrow> ountil m s = Some (r, s') \<and> P s r s')"
    proof
      assume m: "m' = m"
      obtain x s1 where x: "m s = Some (x, s1)" using run m by (cases "m s") auto
      show "case y of (r, s') \<Rightarrow> ountil m s = Some (r, s') \<and> P s r s'"
      proof (cases x)
        case (Inl e)
        with x run m have "y = (Inl e, s1)" by simp
        with x Inl show ?thesis using err by (simp add: ountil.simps [of m s])
      next
        case (Inr o1)
        show ?thesis
        proof (cases o1)
          case None
          with x run m Inr IH [of m s1 y] have "case y of (r, s') \<Rightarrow> ountil m s1 = Some (r, s') \<and> P s1 r s'" by simp
          with x Inr None again show ?thesis by (auto simp: ountil.simps [of m s])
        next
          case (Some a)
          with x run m Inr have "y = (Inr a, s1)" by simp
          with x Inr Some show ?thesis using dn by (simp add: ountil.simps [of m s])
        qed
      qed
    qed
  qed
  from this [OF assms(1)] show ?thesis by simp
qed

lemma okeeps_until:
  assumes "transp R" "okeeps R m"
  shows "okeeps R (ountil m)"
  unfolding okeeps_def
proof (intro allI impI)
  fix s r s' assume "ountil m s = Some (r, s')"
  then show "R s s'"
    by (rule ountil_induct [where P = "\<lambda>s _ s'. R s s'"]) (use assms in \<open>blast dest: okeepsD transpD\<close>)+
qed

text \<open>A loop ends when a measure drops with every further round.\<close>

lemma ountil_ends:
  assumes step: "\<And>s. I s \<Longrightarrow> \<exists>x s'. m s = Some (x, s') \<and> (x = Inr None \<longrightarrow> I s' \<and> f s' < (f s :: nat))"
    and "I s"
  shows "\<exists>r s'. ountil m s = Some (r, s')"
  using assms(2)
proof (induction "f s" arbitrary: s rule: less_induct)
  case less
  obtain x s1 where x: "m s = Some (x, s1)" "x = Inr None \<longrightarrow> I s1 \<and> f s1 < f s" using step [OF less.prems] by blast
  show ?case
  proof (cases "x = Inr None")
    case True
    with x less.hyps have "\<exists>r s'. ountil m s1 = Some (r, s')" by blast
    with x True show ?thesis by (simp add: ountil.simps [of m s])
  next
    case False
    with x show ?thesis by (auto simp: ountil.simps [of m s] split: sum.splits option.splits)
  qed
qed

subsection \<open>Weakest preconditions\<close>

text \<open>What has to hold before an operation for \<open>Q\<close> to hold of its result and the state after.\<close>

definition swp :: "('s, 'e, 'a) serr \<Rightarrow> ('e + 'a \<Rightarrow> 's \<Rightarrow> bool) \<Rightarrow> 's \<Rightarrow> bool" where
  "swp m Q s = (case m s of (r, s') \<Rightarrow> Q r s')"

definition swhen :: "bool \<Rightarrow> ('s, 'e, unit) serr \<Rightarrow> ('s, 'e, unit) serr" where
  "swhen b m = (if b then m else sret ())"

named_theorems swp_eq

lemma swp_bind [swp_eq]:
  "swp (sbind m f) Q s = swp m (\<lambda>r s'. case r of Inl e \<Rightarrow> Q (Inl e) s' | Inr a \<Rightarrow> swp (f a) Q s') s"
  by (auto simp: swp_def sbind_def split: prod.splits sum.splits)

lemma swp_sret [swp_eq]: "swp (sret a) Q s = Q (Inr a) s"
  by (simp add: swp_def serr_defs)

lemma swp_sthrow [swp_eq]: "swp (sthrow e) Q s = Q (Inl e) s"
  by (simp add: swp_def serr_defs)

lemma swp_sget [swp_eq]: "swp (sget f) Q s = Q (Inr (f s)) s"
  by (simp add: swp_def serr_defs)

lemma swp_smod [swp_eq]: "swp (smod g) Q s = Q (Inr ()) (g s)"
  by (simp add: swp_def serr_defs)

lemma swp_sguard [swp_eq]: "swp (sguard b e) Q s = (if b then Q (Inr ()) s else Q (Inl e) s)"
  by (simp add: swp_def serr_defs)

lemma swp_swhen [swp_eq]: "swp (swhen b m) Q s = (if b then swp m Q s else Q (Inr ()) s)"
  by (simp add: swp_def serr_defs swhen_def)

lemma swp_if [swp_eq]: "swp (if b then m else n) Q s = (if b then swp m Q s else swp n Q s)"
  by simp

lemma swp_keeps: "keeps R m \<Longrightarrow> (\<And>r s'. R s s' \<Longrightarrow> Q r s') \<Longrightarrow> swp m Q s"
  by (auto simp: swp_def keeps_def split: prod.splits) (metis snd_conv)

lemma swp_mono: "swp m P s \<Longrightarrow> (\<And>r s'. P r s' \<Longrightarrow> Q r s') \<Longrightarrow> swp m Q s"
  by (auto simp: swp_def split: prod.splits)

lemma keeps_swp: "keeps R m \<longleftrightarrow> (\<forall>s. swp m (\<lambda>_ s'. R s s') s)"
  by (simp add: swp_def keeps_def case_prod_beta)

lemma swpI: "swp m Q s \<Longrightarrow> m s = (r, s') \<Longrightarrow> Q r s'"
  by (simp add: swp_def)

lemma keeps_swhen: "reflp R \<Longrightarrow> keeps R m \<Longrightarrow> keeps R (swhen b m)"
  by (simp add: swhen_def keeps_pure)

end
