(* ===== verification/Ping_Loop.thy ===== *)
theory Ping_Loop
  imports Ping_Stats C_Loop
begin

text \<open>
  \<open>ping_common.c\<close>: sending on schedule, the end of a run, the set-up and the main loop. The kernel is
  a state of any type with one function per system call; signals are delivered where the flags they
  set are read. The static variables of the functions are fields of the state. A run ends early with
  an exit status, with \<open>abort\<close>, or with undefined behaviour. Diagnostics on standard error are left
  out; with JSON output the code prints them on standard output, which is modelled.
\<close>

subsection \<open>The system\<close>

datatype ping_stop = Ping_Exit int | Ping_Abort | Ping_Json json_err | Ping_Out_Of_Bounds

datatype af = AF_UNSPEC | AF_INET | AF_INET6

datatype socktype = SOCK_DGRAM | SOCK_RAW

text \<open>
  What \<open>recvmsg\<close> gives: the sender, the whole buffer, of which the first \<open>cc\<close> octets were received,
  and the control messages; returned options come with the length field of their control message and
  the octets from its data to the end of the control buffer.
\<close>

datatype cmsg = Cmsg_Timestamp timeval | Cmsg_Ttl int | Cmsg_Retopts int bytes | Cmsg_Hoplimit int | Cmsg_Other

record recvd =
  rm_from :: bytes
  rm_buf :: bytes
  rm_cc :: int
  rm_cmsgs :: "cmsg list"

datatype ee_origin = SO_EE_ORIGIN_LOCAL | SO_EE_ORIGIN_ICMP | SO_EE_ORIGIN_ICMP6 | SO_EE_OTHER

record ext_err =
  ee_origin :: ee_origin
  ee_errno :: int
  ee_type :: int
  ee_code :: int
  ee_info :: int
  ee_offender :: bytes

record err_msg =
  em_data :: bytes
  em_target :: bytes
  em_err :: "ext_err option"

datatype sockopt =
  SO_DEBUG | SO_DONTROUTE | SO_TIMESTAMP | SO_MARK int | SO_SNDTIMEO timeval | SO_RCVTIMEO timeval
| SO_SNDBUF int | SO_RCVBUF int | SO_BROADCAST | SO_BINDTODEVICE string | SO_ATTACH_FILTER "16 word"
| ICMP_FILTER "nat list" | IP_MTU_DISCOVER int | IP_RECVERR | IP_RECVTTL | IP_RETOPTS | IP_OPTIONS bytes
| IP_TOS int | IP_MULTICAST_IF int | IP_MULTICAST_LOOP | IP_MULTICAST_TTL int | IP_TTL int
| SO_ATTACH_FILTER6 "16 word" | ICMP6_FILTER nat | IPV6_MTU_DISCOVER int | IPV6_RECVERR | IPV6_CHECKSUM int
| IPV6_TCLASS int | IPV6_PKTINFO int | IPV6_MULTICAST_LOOP | IPV6_MULTICAST_HOPS int | IPV6_UNICAST_HOPS int
| IPV6_RECVHOPLIMIT | IPV6_2292HOPLIMIT | IPV6_FLOWINFO_SEND

record 'k ping_sys =
  sy_clock :: "'k \<Rightarrow> timespec \<times> 'k"
  sy_now :: "'k \<Rightarrow> timeval \<times> 'k"
  sy_signals :: "'k \<Rightarrow> (bool \<times> bool) \<times> 'k"
  sy_setitimer :: "int \<Rightarrow> int \<Rightarrow> 'k \<Rightarrow> 'k"
  sy_poll :: "int \<Rightarrow> 'k \<Rightarrow> (int \<times> bool \<times> bool) \<times> 'k"
  sy_recvmsg :: "bool \<Rightarrow> 'k \<Rightarrow> (int + recvd) \<times> 'k"
  sy_errqueue :: "'k \<Rightarrow> (int + err_msg) \<times> 'k"
  sy_siocgstamp :: "'k \<Rightarrow> timeval option \<times> 'k"
  sy_sendto :: "bytes \<Rightarrow> 'k \<Rightarrow> (int + int) \<times> 'k"
  sy_setsockopt :: "sockopt \<Rightarrow> 'k \<Rightarrow> int option \<times> 'k"
  sy_rcvbuf :: "'k \<Rightarrow> int option"
  sy_columns :: "'k \<Rightarrow> int option"
  sy_pid :: int
  sy_hz :: int
  sy_strerror :: "int \<Rightarrow> string"
  sy_getnameinfo :: "bytes \<Rightarrow> bool \<Rightarrow> 'k \<Rightarrow> string \<times> 'k"

record 'k pst =
  ps_io :: ping_io
  ps_errno :: int
  ps_oom_count :: int
  ps_tokens :: int
  ps_waittime :: int
  ps_polling :: bool
  ps_recv_error :: bool
  ps_last_addr :: "(bytes \<times> string) option"
  ps_old_rr :: bytes
  ps_filtered :: bool
  ps_filtered6 :: bool
  ps_nonce :: "bytes \<times> int"
  ps_scope_id :: "32 word"
  ps_kern :: 'k

type_synonym ('k, 'a) pm = "('k pst, ping_stop, 'a) serr"
type_synonym ('k, 'a) opm = "('k pst, ping_stop, 'a) oserr"

definition rts_of :: "'k pst \<Rightarrow> ping_rts" where
  "rts_of s = io_rts (ps_io s)"

definition mod_rts :: "(ping_rts \<Rightarrow> ping_rts) \<Rightarrow> ('k, unit) pm" where
  "mod_rts f = smod (\<lambda>s. s\<lparr>ps_io := (ps_io s)\<lparr>io_rts := f (io_rts (ps_io s))\<rparr>\<rparr>)"

definition on_io :: "'a pio \<Rightarrow> ('k, 'a) pm" where
  "on_io m s =
     (case m (ps_io s) of
        (Inl e, i) \<Rightarrow> (Inl (Ping_Json e), s\<lparr>ps_io := i\<rparr>)
      | (Inr a, i) \<Rightarrow> (Inr a, s\<lparr>ps_io := i\<rparr>))"

definition syscall :: "('k \<Rightarrow> 'a \<times> 'k) \<Rightarrow> ('k, 'a) pm" where
  "syscall f s = (case f (ps_kern s) of (a, k) \<Rightarrow> (Inr a, s\<lparr>ps_kern := k\<rparr>))"

abbreviation puts :: "string \<Rightarrow> ('k, unit) pm" where
  "puts t \<equiv> on_io (emit t)"

abbreviation ENOMEM :: int where "ENOMEM \<equiv> 12"
abbreviation EINTR :: int where "EINTR \<equiv> 4"
abbreviation EAGAIN :: int where "EAGAIN \<equiv> 11"
abbreviation EINVAL :: int where "EINVAL \<equiv> 22"
abbreviation EMSGSIZE :: int where "EMSGSIZE \<equiv> 90"
abbreviation ENOBUFS :: int where "ENOBUFS \<equiv> 105"
abbreviation PING_ERROR_MAX :: nat where "PING_ERROR_MAX \<equiv> 300"

definition die :: "int \<Rightarrow> ('k, 'a) pm" where
  "die st = sthrow (Ping_Exit st)"

text \<open>\<open>ping_error\<close> of \<open>ping_output.c\<close>.\<close>

definition ping_error :: "'k ping_sys \<Rightarrow> int \<Rightarrow> int \<Rightarrow> string \<Rightarrow> ('k, unit) pm" where
  "ping_error sy st errnum msg =
     sbind (sget rts_of) (\<lambda>rts.
     if opt_json rts
     then sbind (on_io (\<lambda>i. case construct_json_error (sy_strerror sy) errnum (Some (snprintf_buf PING_ERROR_MAX msg)) (io_rts i) of
                              Inl e \<Rightarrow> (Inl e, i)
                            | Inr (out, r) \<Rightarrow> (Inr (), i\<lparr>io_rts := r, io_out := io_out i @ out\<rparr>))) (\<lambda>_.
          sguard (\<not> st > 0) (Ping_Exit st))
     else sguard (st = 0) (Ping_Exit st))"

definition timestamp :: "'k ping_sys \<Rightarrow> ('k, unit) pm" where
  "timestamp sy =
     sbind (sget rts_of) (\<lambda>rts.
     if opt_ptimeofday rts then sbind (syscall (sy_now sy)) (\<lambda>now. on_io (print_timestamp now)) else sret ())"

text \<open>\<open>sigexit\<close> and \<open>sigstatus\<close>, run for the signals that are pending.\<close>

definition deliver :: "'k ping_sys \<Rightarrow> ('k, unit) pm" where
  "deliver sy =
     sbind (syscall (sy_signals sy)) (\<lambda>(int_alrm, quit).
     mod_rts (\<lambda>rts. rts\<lparr>exiting := exiting rts \<or> int_alrm, status_snapshot := status_snapshot rts \<or> quit\<rparr>))"

subsection \<open>Protocol functions\<close>

record 'k ping_func_set =
  send_probe :: "('k, int) pm"
  receive_error_msg :: "('k, int) pm"
  parse_reply :: "recvd \<Rightarrow> timeval \<Rightarrow> ('k, bool) pm"
  install_filter :: "('k, unit) pm"
  ping_print_data_bytes :: "('k, unit) pm"
  ping_source :: "('k, string) pm"
  ping_target :: "('k, string) pm"

subsection \<open>Filling the packet\<close>

definition isxdigit :: "char \<Rightarrow> bool" where
  "isxdigit c \<longleftrightarrow> (case digit_val c of Some d \<Rightarrow> d < 16 | None \<Rightarrow> False)"

definition xval :: "char \<Rightarrow> byte" where
  "xval c = (case digit_val c of Some d \<Rightarrow> of_nat d | None \<Rightarrow> 0)"

text \<open>The sixteen \<open>%2x\<close> conversions of \<open>sscanf\<close> on hexadecimal digits.\<close>

fun scan_pat :: "nat \<Rightarrow> string \<Rightarrow> bytes" where
  "scan_pat (Suc n) (c # d # r) = (16 * xval c + xval d) # scan_pat n r"
| "scan_pat (Suc n) [c] = [xval c]"
| "scan_pat _ _ = []"

function fill_loop :: "bytes \<Rightarrow> nat \<Rightarrow> nat \<Rightarrow> bytes \<Rightarrow> bytes" where
  "fill_loop pat lastk kk bp =
     (if pat \<noteq> [] \<and> kk \<le> lastk then fill_loop pat lastk (kk + length pat) (take kk bp @ pat @ drop (kk + length pat) bp)
      else bp)"
  by pat_completeness auto
termination
  by (relation "measure (\<lambda>(pat, lastk, kk, _). Suc lastk - kk)") (auto simp: neq_Nil_conv)

declare fill_loop.simps [simp del]

definition fill :: "'k ping_sys \<Rightarrow> string \<Rightarrow> ('k, unit) pm" where
  "fill sy patp =
     sbind (swhen (\<not> list_all isxdigit patp)
              (ping_error sy 2 0 (''patterns must be specified as hex digits: '' @ dropWhile isxdigit patp))) (\<lambda>_.
     let pat = scan_pat 16 patp; ii = length pat
     in sbind (mod_rts (\<lambda>rts. let out = outpack rts
                              in rts\<lparr>outpack := take 8 out @ fill_loop pat (length out - (8 + ii)) 0 (drop 8 out)\<rparr>)) (\<lambda>_.
        sbind (sget rts_of) (\<lambda>rts.
        swhen (\<not> opt_quiet rts)
          (puts (''PATTERN: 0x'' @ concat (map (\<lambda>b. pad_zero 2 (hex_text (unat b))) (take ii (drop 8 (outpack rts)))) @ [CHR 0x0A])))))"

subsection \<open>Sending on schedule\<close>

text \<open>
  The token bucket of \<open>pinger\<close>: either the milliseconds to wait, or the tokens left and the new time.
\<close>

definition take_token :: "timespec \<Rightarrow> int \<Rightarrow> ping_rts \<Rightarrow> int + int \<times> ping_rts" where
  "take_token tv tokens rts =
     (let cur = cur_time rts
      in if tv_sec cur = 0 \<and> tv_nsec cur = 0
         then Inr (interval rts * (preload rts - 1), rts\<lparr>cur_time := tv\<rparr>)
         else let ntokens = (tv_sec tv - tv_sec cur) * 1000 + cdiv (tv_nsec tv - tv_nsec cur) 1000000
              in if interval rts = 0 \<and> ntokens < MIN_INTERVAL_MS \<and> in_flight rts \<ge> preload rts
                 then Inl (MIN_INTERVAL_MS - ntokens)
                 else let ntokens = min (interval rts * preload rts) (ntokens + tokens)
                      in if ntokens < interval rts then Inl (interval rts - ntokens)
                         else Inr (ntokens - interval rts, rts\<lparr>cur_time := tv\<rparr>))"

definition report_outstanding :: "'k ping_sys \<Rightarrow> ping_rts \<Rightarrow> ('k, unit) pm" where
  "report_outstanding sy rts =
     swhen (opt_outstanding rts \<and> ntransmitted rts > 0 \<and> \<not> rcvd_test (nt16 rts) (rcvd_tbl rts))
       (sbind (timestamp sy) (\<lambda>_.
        puts (''no answer yet for icmp_seq='' @ int_dec (ntransmitted rts mod int MAX_DUP_CHK) @ [CHR 0x0A])))"

text \<open>Up to the label \<open>resend\<close>: a value to return, or none.\<close>

definition pinger_gate :: "'k ping_sys \<Rightarrow> ('k, int option) pm" where
  "pinger_gate sy =
     sbind (deliver sy) (\<lambda>_.
     sbind (sget rts_of) (\<lambda>rts.
     if exiting rts \<or> npackets rts \<noteq> 0 \<and> ntransmitted rts \<ge> npackets rts \<and> deadline rts = 0
     then sret (Some 1000)
     else
       sbind (syscall (sy_clock sy)) (\<lambda>tv.
       sbind (sget ps_tokens) (\<lambda>tokens.
       case take_token tv tokens rts of
         Inl wait \<Rightarrow> sret (Some wait)
       | Inr (tokens, rts) \<Rightarrow>
           sbind (smod (\<lambda>s. s\<lparr>ps_tokens := tokens\<rparr>)) (\<lambda>_.
           sbind (mod_rts (\<lambda>_. rts)) (\<lambda>_.
           sbind (report_outstanding sy rts) (\<lambda>_.
           sret None)))))))"

definition hard_local_error :: "'k ping_sys \<Rightarrow> int \<Rightarrow> ('k, int option) pm" where
  "hard_local_error sy i =
     sbind (mod_rts advance_ntransmitted) (\<lambda>_.
     sbind (sget rts_of) (\<lambda>rts.
     sbind (swhen (i = 0 \<and> \<not> opt_quiet rts)
              (if opt_flood rts then puts ''E''
               else sbind (sget ps_errno) (\<lambda>en. ping_error sy 0 en ''sendmsg''))) (\<lambda>_.
     sbind (smod (\<lambda>s. s\<lparr>ps_tokens := 0\<rparr>)) (\<lambda>_.
     sret (Some (SCHINT (interval rts)))))))"

definition no_buffers :: "'k ping_sys \<Rightarrow> ('k, int option) pm" where
  "no_buffers sy =
     sbind (smod (\<lambda>s. s\<lparr>ps_tokens := 0\<rparr>)) (\<lambda>_.
     sbind (mod_rts (\<lambda>rts.
       let rts = rts\<lparr>rtt_addend := rtt_addend rts + (if rtt rts < 8 * 50000 then uint (rtt rts div 8) else 50000)\<rparr>
       in if opt_adaptive rts then update_interval rts else rts)) (\<lambda>_.
     sbind (sget rts_of) (\<lambda>rts.
     let nores = min 500 (SCHINT (cdiv (interval rts) 2))
     in sbind (smod (\<lambda>s. s\<lparr>ps_oom_count := ps_oom_count s + 1\<rparr>)) (\<lambda>_.
        sbind (sget ps_oom_count) (\<lambda>oom.
        if (oom * nores) mod 2 ^ 32 < lingertime rts div 1000 then sret (Some nores)
        else hard_local_error sy 0)))))"

text \<open>From the label \<open>resend\<close>: a value to return, or none to send again.\<close>

definition pinger_try :: "'k ping_sys \<Rightarrow> 'k ping_func_set \<Rightarrow> ('k, int option) pm" where
  "pinger_try sy fset =
     sbind (send_probe fset) (\<lambda>i.
     if i = 0 then
       sbind (smod (\<lambda>s. s\<lparr>ps_oom_count := 0\<rparr>)) (\<lambda>_.
       sbind (mod_rts advance_ntransmitted) (\<lambda>_.
       sbind (sget rts_of) (\<lambda>rts.
       sbind (swhen (\<not> opt_quiet rts \<and> opt_flood rts
                     \<and> (preload rts < screen_width rts \<and> pipesize rts < screen_width rts \<or> in_flight rts < screen_width rts))
                (puts ''.'')) (\<lambda>_.
       sget (\<lambda>s. Some (interval rts - ps_tokens s))))))
     else if i > 0 then sthrow Ping_Abort
     else
       sbind (sget ps_errno) (\<lambda>en.
       if en = ENOBUFS \<or> en = ENOMEM then no_buffers sy
       else if en = EAGAIN then
         sbind (smod (\<lambda>s. s\<lparr>ps_tokens := ps_tokens s + interval (rts_of s)\<rparr>)) (\<lambda>_. sret (Some MIN_INTERVAL_MS))
       else if en = EMSGSIZE then
         sbind (mod_rts (\<lambda>rts. rts\<lparr>nerrors := nerrors rts + 1\<rparr>)) (\<lambda>_. hard_local_error sy 0)
       else
         sbind (receive_error_msg fset) (\<lambda>i.
         if i > 0 then hard_local_error sy 0
         else
           sbind (sget (\<lambda>s. i = 0 \<and> confirm_flag (rts_of s) \<and> ps_errno s = EINVAL)) (\<lambda>old.
           sbind (swhen old (sbind (mod_rts (\<lambda>rts. rts\<lparr>confirm_flag := False\<rparr>)) (\<lambda>_. smod (\<lambda>s. s\<lparr>ps_errno := 0\<rparr>)))) (\<lambda>_.
           sbind (sget ps_errno) (\<lambda>en. if en = 0 then sret None else hard_local_error sy i))))))"

definition pinger :: "'k ping_sys \<Rightarrow> 'k ping_func_set \<Rightarrow> ('k, int) opm" where
  "pinger sy fset =
     obind (orun (pinger_gate sy)) (\<lambda>r.
     case r of Some next \<Rightarrow> orun (sret next) | None \<Rightarrow> ountil (orun (pinger_try sy fset)))"

subsection \<open>The end of a run\<close>

text \<open>\<open>schedule_exit\<close> with \<open>__schedule_exit\<close>; \<open>unsigned long\<close> values are below \<open>2 ^ 64\<close>.\<close>

definition wait_time :: "ping_rts \<Rightarrow> int" where
  "wait_time rts =
     (if nreceived rts \<noteq> 0
      then let w = 2 * tmax rts mod 2 ^ 64
           in if w < 1000 * (interval rts mod 2 ^ 64) mod 2 ^ 64 then 1000 * interval rts mod 2 ^ 64 else w
      else lingertime rts)"

definition schedule_exit :: "'k ping_sys \<Rightarrow> int \<Rightarrow> ('k, int) pm" where
  "schedule_exit sy next =
     sbind (sget rts_of) (\<lambda>rts.
     sbind (sget ps_waittime) (\<lambda>waited.
     if \<not> (npackets rts \<noteq> 0 \<and> ntransmitted rts \<ge> npackets rts \<and> deadline rts = 0) \<or> waited \<noteq> 0
     then sret next
     else
       let w = wait_time rts
       in sbind (smod (\<lambda>s. s\<lparr>ps_waittime := w, ps_kern := sy_setitimer sy (w div 1000000) (w mod 1000000) (ps_kern s)\<rparr>)) (\<lambda>_.
          sret (if next < 0 \<or> next < w div 1000 then to_int32 (w div 1000) else next))))"

subsection \<open>Set-up\<close>

definition setopt :: "'k ping_sys \<Rightarrow> sockopt \<Rightarrow> ('k, int option) pm" where
  "setopt sy opt =
     sbind (syscall (sy_setsockopt sy opt)) (\<lambda>r.
     sbind (case r of None \<Rightarrow> sret () | Some en \<Rightarrow> smod (\<lambda>s. s\<lparr>ps_errno := en\<rparr>)) (\<lambda>_. sret r))"

definition sock_setbufs :: "'k ping_sys \<Rightarrow> int \<Rightarrow> ('k, unit) pm" where
  "sock_setbufs sy alloc =
     sbind (mod_rts (\<lambda>rts. if sndbuf rts = 0 then rts\<lparr>sndbuf := alloc\<rparr> else rts)) (\<lambda>_.
     sbind (sget rts_of) (\<lambda>rts.
     sbind (setopt sy (SO_SNDBUF (sndbuf rts))) (\<lambda>_.
     let rcvbuf = (if alloc > cdiv INT_MAX (preload rts) then INT_MAX else alloc * preload rts);
         hold = (if rcvbuf < 65536 then 65536 else rcvbuf)
     in sbind (setopt sy (SO_RCVBUF hold)) (\<lambda>_.
        sbind (sget (sy_rcvbuf sy \<circ> ps_kern)) (\<lambda>got.
        swhen (case got of Some h \<Rightarrow> h < rcvbuf | None \<Rightarrow> False)
          (ping_error sy 0 0 ''WARNING: probably, rcvbuf is not enough to hold preload''))))))"

abbreviation (input) EPERM :: int where "EPERM \<equiv> 1"

definition sock_setmark :: "'k ping_sys \<Rightarrow> ('k, unit) pm" where
  "sock_setmark sy =
     sbind (sget rts_of) (\<lambda>rts.
     swhen (opt_mark rts)
       (sbind (setopt sy (SO_MARK (mark rts))) (\<lambda>r.
        case r of
          None \<Rightarrow> sret ()
        | Some en \<Rightarrow>
            sbind (ping_error sy 0 en (''WARNING: failed to set mark: '' @ int_dec (mark rts))) (\<lambda>_.
            sbind (swhen (en = EPERM)
                     (ping_error sy 0 0 ''=> missing cap_net_admin+p or cap_net_raw+p (since Linux 5.17) capability?'')) (\<lambda>_.
            mod_rts (\<lambda>rts. rts\<lparr>opt_mark := False\<rparr>))))))"

text \<open>The parameter checks of \<open>setup\<close>.\<close>

definition check_rate :: "'k ping_sys \<Rightarrow> ('k, unit) pm" where
  "check_rate sy =
     sbind (mod_rts (\<lambda>rts. if opt_flood rts \<and> \<not> opt_interval rts then rts\<lparr>interval := 0\<rparr> else rts)) (\<lambda>_.
     sbind (sget rts_of) (\<lambda>rts.
     sbind (swhen (uid rts \<noteq> 0 \<and> interval rts < MIN_USER_INTERVAL_MS)
              (ping_error sy 2 0 (''cannot flood, minimal interval for user must be >= '' @ int_dec MIN_USER_INTERVAL_MS
                 @ '' ms, use -i '' @ str_interval MIN_USER_INTERVAL_MS @ '' (or higher)''))) (\<lambda>_.
     swhen (interval rts \<ge> cdiv INT_MAX (preload rts))
       (ping_error sy 2 0 (''illegal preload and/or interval: '' @ int_dec (interval rts))))))"

definition fill_default :: "ping_rts \<Rightarrow> ping_rts" where
  "fill_default rts =
     (if opt_pingfilled rts then rts
      else let n = nat (datalen rts)
           in rts\<lparr>outpack := take 8 (outpack rts) @ map of_nat [0..<n] @ drop (8 + n) (outpack rts)\<rparr>)"

definition htons :: "int \<Rightarrow> int" where
  "htons v = ntohs16 (word_of_int v)"

definition ping_setup :: "'k ping_sys \<Rightarrow> socktype \<Rightarrow> ('k, unit) pm" where
  "ping_setup sy sock =
     sbind (check_rate sy) (\<lambda>_.
     sbind (sget rts_of) (\<lambda>rts.
     sbind (swhen (opt_so_debug rts) (sbind (setopt sy SO_DEBUG) (\<lambda>_. sret ()))) (\<lambda>_.
     sbind (swhen (opt_so_dontroute rts) (sbind (setopt sy SO_DONTROUTE) (\<lambda>_. sret ()))) (\<lambda>_.
     sbind (swhen (\<not> opt_latency rts)
              (sbind (setopt sy SO_TIMESTAMP) (\<lambda>r.
               swhen (r \<noteq> None) (ping_error sy 0 0 ''Warning: no SO_TIMESTAMP support, falling back to SIOCGSTAMP'')))) (\<lambda>_.
     sbind (sock_setmark sy) (\<lambda>_.
     sbind (setopt sy (SO_SNDTIMEO
              (if interval rts < 1000 then \<lparr>tvl_sec = 0, tvl_usec = 1000 * SCHINT (interval rts)\<rparr>
               else \<lparr>tvl_sec = 1, tvl_usec = 0\<rparr>))) (\<lambda>_.
     sbind (setopt sy (SO_RCVTIMEO
              \<lparr>tvl_sec = cdiv (SCHINT (interval rts)) 1000, tvl_usec = 1000 * cmod (SCHINT (interval rts)) 1000\<rparr>)) (\<lambda>r.
     sbind (mod_rts (\<lambda>rts. let rts = (if r \<noteq> None then rts\<lparr>opt_flood_poll := True\<rparr> else rts);
                               rts = fill_default rts
                           in if sock = SOCK_RAW \<and> ident rts = - 1
                              then rts\<lparr>ident := htons (sy_pid sy mod 65536)\<rparr> else rts)) (\<lambda>_.
     sbind (syscall (sy_clock sy)) (\<lambda>t.
     sbind (mod_rts (\<lambda>rts. rts\<lparr>start_time := t\<rparr>)) (\<lambda>_.
     sbind (swhen (deadline rts \<noteq> 0) (smod (\<lambda>s. s\<lparr>ps_kern := sy_setitimer sy (deadline rts) 0 (ps_kern s)\<rparr>))) (\<lambda>_.
     sbind (sget (sy_columns sy \<circ> ps_kern)) (\<lambda>cols.
     case cols of
       Some c \<Rightarrow> swhen (c > 0) (mod_rts (\<lambda>rts. rts\<lparr>screen_width := c\<rparr>))
     | None \<Rightarrow> sret ())))))))))))))"

subsection \<open>The main loop\<close>

text \<open>The probes that are due.\<close>

definition send_due :: "'k ping_sys \<Rightarrow> 'k ping_func_set \<Rightarrow> ('k, int) opm" where
  "send_due sy fset =
     ountil (obind (pinger sy fset) (\<lambda>next. obind (orun (schedule_exit sy next)) (\<lambda>next.
       orun (sret (if next \<le> 0 then None else Some next)))))"

text \<open>
  Waiting: \<open>None\<close> is \<open>continue\<close>, otherwise whether \<open>recvmsg\<close> is not to block and whether the poll
  reported an error.
\<close>

definition short_wait :: "int \<Rightarrow> int \<Rightarrow> bool" where
  "short_wait hz next \<longleftrightarrow> (if 1000 mod hz = 0 then next \<le> 1000 div hz else next < INT_MAX div hz \<and> next * hz \<le> 1000)"

definition wait_input :: "'k ping_sys \<Rightarrow> int \<Rightarrow> ('k, (bool \<times> bool) option) pm" where
  "wait_input sy next =
     sbind (sget rts_of) (\<lambda>rts.
     if opt_adaptive rts \<or> opt_flood_poll rts \<or> next < SCHINT (interval rts)
     then
       let short = short_wait (sy_hz sy) next; expected = in_flight rts \<noteq> 0;
           polling = (short \<and> \<not> expected);
           next = (if short then if expected then MIN_INTERVAL_MS else 0 else next)
       in if \<not> polling \<and> (opt_adaptive rts \<or> opt_flood_poll rts \<or> interval rts \<noteq> 0)
          then sbind (syscall (sy_poll sy next)) (\<lambda>(n, pollin, pollerr).
               sret (if n < 1 \<or> \<not> (pollin \<or> pollerr) then None else Some (True, pollerr)))
          else sret (Some (polling, False))
     else sret (Some (False, False)))"

text \<open>The time of arrival: the last time stamp among the control messages, the one of the socket, or now.\<close>

definition recv_stamp :: "cmsg list \<Rightarrow> timeval option" where
  "recv_stamp cs = fold (\<lambda>c t. case c of Cmsg_Timestamp tv \<Rightarrow> Some tv | _ \<Rightarrow> t) cs None"

definition recv_time :: "'k ping_sys \<Rightarrow> recvd \<Rightarrow> ('k, timeval) pm" where
  "recv_time sy msg =
     sbind (sget rts_of) (\<lambda>rts.
     if opt_latency rts then syscall (sy_now sy)
     else case recv_stamp (rm_cmsgs msg) of
            Some tv \<Rightarrow> sret tv
          | None \<Rightarrow> sbind (syscall (sy_siocgstamp sy)) (\<lambda>t.
                    case t of Some tv \<Rightarrow> sret tv | None \<Rightarrow> syscall (sy_now sy)))"

definition recv_tail :: "'k ping_func_set \<Rightarrow> socktype \<Rightarrow> bool \<Rightarrow> ('k, unit option) pm" where
  "recv_tail fset sock not_ours =
     sbind (swhen (not_ours \<and> sock = SOCK_RAW) (install_filter fset)) (\<lambda>_.
     sget (\<lambda>s. if in_flight (rts_of s) = 0 then Some () else None))"

definition recv_round :: "'k ping_sys \<Rightarrow> 'k ping_func_set \<Rightarrow> socktype \<Rightarrow> ('k, unit option) pm" where
  "recv_round sy fset sock =
     sbind (sget ps_polling) (\<lambda>polling.
     sbind (syscall (sy_recvmsg sy polling)) (\<lambda>r.
     sbind (smod (\<lambda>s. s\<lparr>ps_polling := True\<rparr>)) (\<lambda>_.
     case r of
       Inl en \<Rightarrow>
         sbind (smod (\<lambda>s. s\<lparr>ps_errno := en\<rparr>)) (\<lambda>_.
         sbind (sget ps_recv_error) (\<lambda>recv_error.
         if en = EAGAIN \<and> \<not> recv_error \<or> en = EINTR then sret (Some ())
         else
           sbind (smod (\<lambda>s. s\<lparr>ps_recv_error := False\<rparr>)) (\<lambda>_.
           sbind (receive_error_msg fset) (\<lambda>k.
           if k \<noteq> 0 then recv_tail fset sock False
           else
             sbind (sget ps_errno) (\<lambda>en.
             if en \<noteq> 0 then sbind (ping_error sy 0 en ''recvmsg'') (\<lambda>_. sret (Some ()))
             else recv_tail fset sock True)))))
     | Inr msg \<Rightarrow>
         sbind (recv_time sy msg) (\<lambda>tv.
         sbind (parse_reply fset msg tv) (\<lambda>not_ours.
         sbind (on_io (\<lambda>i. case print_json_packet (io_rts i) of
                            (out, r) \<Rightarrow> (Inr (), i\<lparr>io_rts := r, io_out := io_out i @ out\<rparr>))) (\<lambda>_.
         recv_tail fset sock not_ours))))))"

definition loop_done :: "ping_rts \<Rightarrow> bool" where
  "loop_done rts \<longleftrightarrow> exiting rts \<or> npackets rts \<noteq> 0 \<and> nreceived rts + nerrors rts \<ge> npackets rts
     \<or> deadline rts \<noteq> 0 \<and> nerrors rts \<noteq> 0"

definition loop_round :: "'k ping_sys \<Rightarrow> 'k ping_func_set \<Rightarrow> socktype \<Rightarrow> ('k, unit option) opm" where
  "loop_round sy fset sock =
     obind (orun (deliver sy)) (\<lambda>_.
     obind (orun (sget rts_of)) (\<lambda>rts.
     if loop_done rts then orun (sret (Some ()))
     else
       obind (orun (mod_rts (\<lambda>rts. if status_snapshot rts then snd (status rts) else rts))) (\<lambda>_.
       obind (send_due sy fset) (\<lambda>next.
       obind (orun (wait_input sy next)) (\<lambda>w.
       case w of
         None \<Rightarrow> orun (sret None)
       | Some (polling, recv_error) \<Rightarrow>
           obind (orun (smod (\<lambda>s. s\<lparr>ps_polling := polling, ps_recv_error := recv_error\<rparr>))) (\<lambda>_.
           obind (ountil (orun (recv_round sy fset sock))) (\<lambda>_. orun (sret None))))))))"

definition main_loop :: "'k ping_sys \<Rightarrow> (real \<Rightarrow> string) \<Rightarrow> 'k ping_func_set \<Rightarrow> socktype \<Rightarrow> ('k, int) opm" where
  "main_loop sy fmt_g fset sock =
     obind (ountil (loop_round sy fset sock)) (\<lambda>_. orun (on_io (finish fmt_g)))"

definition is_ours :: "ping_rts \<Rightarrow> socktype \<Rightarrow> 16 word \<Rightarrow> bool" where
  "is_ours rts sock i \<longleftrightarrow> sock = SOCK_DGRAM \<or> uint i = ident rts"

subsection \<open>The rate of sending\<close>

text \<open>The part of the state the schedule depends on; most operations do not touch it.\<close>

definition sched :: "'k pst \<Rightarrow> int \<times> int \<times> int \<times> timespec \<times> bool \<times> int" where
  "sched s = (interval (rts_of s), preload (rts_of s), ntransmitted (rts_of s), cur_time (rts_of s),
     opt_adaptive (rts_of s), ps_tokens s)"

definition sched_rts :: "ping_rts \<Rightarrow> int \<times> int \<times> int \<times> timespec \<times> bool" where
  "sched_rts rts = (interval rts, preload rts, ntransmitted rts, cur_time rts, opt_adaptive rts)"

abbreviation same_sched :: "'k pst \<Rightarrow> 'k pst \<Rightarrow> bool" where
  "same_sched s s' \<equiv> sched s' = sched s"

lemma same_sched_rel: "reflp same_sched" "transp same_sched"
  by (auto simp: reflp_def transp_def)

lemma sched_simps [simp]:
  "sched (s\<lparr>ps_errno := a\<rparr>) = sched s" "sched (s\<lparr>ps_oom_count := b\<rparr>) = sched s"
  "sched (s\<lparr>ps_kern := k\<rparr>) = sched s" "sched (s\<lparr>ps_polling := c\<rparr>) = sched s"
  "sched (s\<lparr>ps_recv_error := c\<rparr>) = sched s" "sched (s\<lparr>ps_last_addr := d\<rparr>) = sched s"
  "sched (s\<lparr>ps_old_rr := f\<rparr>) = sched s" "sched (s\<lparr>ps_filtered := c\<rparr>) = sched s"
  "sched (s\<lparr>ps_waittime := b\<rparr>) = sched s" "sched (s\<lparr>ps_filtered6 := c\<rparr>) = sched s"
  "sched (s\<lparr>ps_nonce := n\<rparr>) = sched s" "sched (s\<lparr>ps_scope_id := i\<rparr>) = sched s"
  by (simp_all add: sched_def rts_of_def)

lemma keeps_syscall [simp]: "keeps same_sched (syscall f)"
  by (auto simp: keeps_def syscall_def split: prod.split)

text \<open>A printing operation keeps the schedule when it keeps it in the run state.\<close>

abbreviation same_rts :: "ping_io \<Rightarrow> ping_io \<Rightarrow> bool" where
  "same_rts i i' \<equiv> sched_rts (io_rts i') = sched_rts (io_rts i)"

lemma sched_io: "sched_rts (io_rts i) = sched_rts (io_rts (ps_io s)) \<Longrightarrow> sched (s\<lparr>ps_io := i\<rparr>) = sched s"
  by (simp add: sched_def rts_of_def sched_rts_def)

lemma keeps_on_io: "keeps same_rts m \<Longrightarrow> keeps same_sched (on_io m)"
  unfolding keeps_def on_io_def
  by (auto split: prod.splits sum.splits intro!: sched_io) (metis snd_conv)+

lemma keeps_mod_rts: "(\<And>r. sched_rts (f r) = sched_rts r) \<Longrightarrow> keeps same_sched (mod_rts f)"
  by (auto simp: keeps_def mod_rts_def serr_defs intro!: sched_io)

lemma keeps_emit [simp]: "keeps same_rts (emit t)"
  by (simp add: keeps_def emit_def serr_defs)

lemma same_rts_rel: "reflp same_rts" "transp same_rts"
  by (auto simp: reflp_def transp_def)

lemma keeps_print_timestamp [simp]: "keeps same_rts (print_timestamp now)"
  unfolding print_timestamp_def
  by (intro keeps_bind same_rts_rel keeps_pure) (simp add: keeps_pure same_rts_rel)

lemma construct_json_sched: "construct_json k v rts = Inr rts' \<Longrightarrow> sched_rts rts' = sched_rts rts"
  by (auto simp: construct_json_def sched_rts_def split: if_splits sum.splits)

lemma print_json_packet_sched: "sched_rts (snd (print_json_packet rts)) = sched_rts rts"
  by (simp add: print_json_packet_def sched_rts_def split: prod.split)

lemma construct_json_error_sched:
  assumes "construct_json_error se n msg rts = Inr (out, rts')"
  shows "sched_rts rts' = sched_rts rts"
proof -
  obtain k v r where r: "construct_json k v rts = Inr r" "print_json_packet r = (out, rts')"
    using assms unfolding construct_json_error_def by (simp split: if_split_asm sum.split_asm)
  have "sched_rts rts' = sched_rts r" using print_json_packet_sched [of r] r(2) by simp
  with construct_json_sched [OF r(1)] show ?thesis by simp
qed

lemma keeps_json_error: "keeps same_rts
    (\<lambda>i. case construct_json_error se n msg (io_rts i) of
           Inl e \<Rightarrow> (Inl e, i) | Inr (out, r) \<Rightarrow> (Inr (), i\<lparr>io_rts := r, io_out := io_out i @ out\<rparr>))"
  by (auto simp: keeps_def split: sum.split dest: construct_json_error_sched)

lemma keeps_ping_error [simp]: "keeps same_sched (ping_error sy st n msg)"
  unfolding ping_error_def
  by (intro keeps_bind same_sched_rel keeps_pure)
     (simp add: keeps_bind same_sched_rel keeps_pure keeps_on_io keeps_json_error)

lemma keeps_timestamp [simp]: "keeps same_sched (timestamp sy)"
  unfolding timestamp_def
  by (intro keeps_bind same_sched_rel keeps_pure)
     (auto intro!: keeps_bind same_sched_rel keeps_pure keeps_on_io)

lemma keeps_deliver [simp]: "keeps same_sched (deliver sy)"
  unfolding deliver_def
  by (intro keeps_bind same_sched_rel keeps_syscall)
     (auto intro!: keeps_mod_rts simp: sched_rts_def split: prod.split)

text \<open>
  A token is paid for by the time since the last one. The milliseconds are a sum of two quotients that
  are rounded towards zero, which can add up to 999999 nanoseconds.
\<close>

lemma cdiv_upper: "cdiv x 1000000 * 1000000 \<le> x + 999999"
proof -
  have "x div 1000000 * 1000000 \<le> x" by (simp add: minus_mod_eq_div_mult [symmetric])
  moreover have "- x < (- x) div 1000000 * 1000000 + 1000000"
    using pos_mod_bound [of 1000000 "- x"] by (simp add: minus_mod_eq_div_mult [symmetric])
  ultimately show ?thesis by (cases "x \<ge> 0") (simp_all add: cdiv_def sgn_if)
qed

lemma take_token_paid:
  assumes "take_token tv tok rts = Inr (tok', rts')" "ts_ns (cur_time rts) \<noteq> 0" "0 < interval rts"
  shows "rts' = rts\<lparr>cur_time := tv\<rparr>" "0 \<le> tok'" "tok' + interval rts \<le> interval rts * preload rts"
    "(tok' + interval rts) * 1000000 \<le> tok * 1000000 + (ts_ns tv - ts_ns (cur_time rts)) + 999999"
proof -
  define n where "n = (tv_sec tv - tv_sec (cur_time rts)) * 1000 + cdiv (tv_nsec tv - tv_nsec (cur_time rts)) 1000000"
  have run: "tok' = min (interval rts * preload rts) (n + tok) - interval rts" "rts' = rts\<lparr>cur_time := tv\<rparr>"
    "interval rts \<le> min (interval rts * preload rts) (n + tok)"
    using assms by (auto simp: take_token_def Let_def n_def ts_ns_def not_less simp del: min_less_iff_conj min.bounded_iff split: if_split_asm)
  show "rts' = rts\<lparr>cur_time := tv\<rparr>" by (rule run)
  show "0 \<le> tok'" "tok' + interval rts \<le> interval rts * preload rts" using run by linarith+
  have "tok' + interval rts \<le> n + tok" using run(1) by simp
  have "n * 1000000 \<le> ts_ns tv - ts_ns (cur_time rts) + 999999"
    using cdiv_upper [of "tv_nsec tv - tv_nsec (cur_time rts)"] by (simp add: n_def ts_ns_def algebra_simps)
  then show "(tok' + interval rts) * 1000000 \<le> tok * 1000000 + (ts_ns tv - ts_ns (cur_time rts)) + 999999"
    using mult_right_mono [OF \<open>tok' + interval rts \<le> n + tok\<close>, of 1000000] by (simp add: algebra_simps)
qed

text \<open>What the schedule has given out: the requests counted and the tokens left.\<close>

definition spent :: "'k pst \<Rightarrow> int" where
  "spent s = ntransmitted (rts_of s) * interval (rts_of s) + ps_tokens s"

definition now_ns :: "'k pst \<Rightarrow> int" where
  "now_ns s = ts_ns (cur_time (rts_of s))"

text \<open>A full bucket holds \<open>preload\<close> intervals; the schedule is fixed unless the run is adaptive.\<close>

definition bucket :: "int \<Rightarrow> int \<Rightarrow> 'k pst \<Rightarrow> bool" where
  "bucket iv pl s \<longleftrightarrow> interval (rts_of s) = iv \<and> preload (rts_of s) = pl \<and> \<not> opt_adaptive (rts_of s)
     \<and> 0 < iv \<and> now_ns s \<noteq> 0 \<and> 0 \<le> ps_tokens s \<and> ps_tokens s \<le> iv * pl"

lemma sched_eqD:
  assumes "sched s' = sched s"
  shows "interval (rts_of s') = interval (rts_of s)" "preload (rts_of s') = preload (rts_of s)"
    "ntransmitted (rts_of s') = ntransmitted (rts_of s)" "cur_time (rts_of s') = cur_time (rts_of s)"
    "opt_adaptive (rts_of s') = opt_adaptive (rts_of s)" "ps_tokens s' = ps_tokens s"
  using assms by (simp_all add: sched_def)

lemma bucket_cong: "sched s' = sched s \<Longrightarrow> bucket iv pl s' = bucket iv pl s"
  "sched s' = sched s \<Longrightarrow> spent s' = spent s" "sched s' = sched s \<Longrightarrow> now_ns s' = now_ns s"
  by (simp_all add: bucket_def spent_def now_ns_def sched_def)

lemma rts_of_simps [simp]:
  "rts_of (s\<lparr>ps_tokens := t\<rparr>) = rts_of s" "rts_of (s\<lparr>ps_errno := a\<rparr>) = rts_of s"
  "rts_of (s\<lparr>ps_oom_count := a\<rparr>) = rts_of s" "rts_of (s\<lparr>ps_kern := k\<rparr>) = rts_of s"
  "rts_of (s\<lparr>ps_waittime := a\<rparr>) = rts_of s" "rts_of (s\<lparr>ps_polling := b\<rparr>) = rts_of s"
  "rts_of (s\<lparr>ps_recv_error := b\<rparr>) = rts_of s" "rts_of (s\<lparr>ps_io := i\<rparr>) = io_rts i"
  by (simp_all add: rts_of_def)

lemma swp_mod_rts [swp_eq]:
  "swp (mod_rts f) Q s = Q (Inr ()) (s\<lparr>ps_io := (ps_io s)\<lparr>io_rts := f (rts_of s)\<rparr>\<rparr>)"
  by (simp add: mod_rts_def swp_smod rts_of_def)

lemma swp_syscall [swp_eq]: "swp (syscall f) Q s = (case f (ps_kern s) of (a, k) \<Rightarrow> Q (Inr a) (s\<lparr>ps_kern := k\<rparr>))"
  by (simp add: swp_def syscall_def split: prod.split)

lemma keeps_report_outstanding [simp]: "keeps same_sched (report_outstanding sy rts)"
  unfolding report_outstanding_def
  by (intro keeps_swhen keeps_bind same_sched_rel keeps_timestamp keeps_on_io keeps_emit)

text \<open>A call that passes the gate has paid for a token, the others leave the schedule alone.\<close>

definition token_taken :: "'k ping_sys \<Rightarrow> 'k pst \<Rightarrow> 'k pst \<Rightarrow> bool" where
  "token_taken sy s s' \<longleftrightarrow>
     (\<exists>k tok rts0 rts. sched_rts rts0 = sched_rts (rts_of s)
        \<and> take_token (fst (sy_clock sy k)) (ps_tokens s) rts0 = Inr (tok, rts)
        \<and> sched_rts (rts_of s') = sched_rts rts \<and> ps_tokens s' = tok)"

lemma sched_iff: "sched s' = sched s \<longleftrightarrow> sched_rts (rts_of s') = sched_rts (rts_of s) \<and> ps_tokens s' = ps_tokens s"
  by (auto simp: sched_def sched_rts_def)

lemma pinger_gate_sched:
  "swp (pinger_gate sy) (\<lambda>r s'.
     case r of Inl _ \<Rightarrow> True | Inr (Some _) \<Rightarrow> sched s' = sched s | Inr None \<Rightarrow> token_taken sy s s') s"
  unfolding pinger_gate_def swp_bind
proof (rule swp_keeps [OF keeps_deliver], goal_cases)
  case (1 x s1)
  have "swp (report_outstanding sy rts) (\<lambda>r s'. r = Inr () \<longrightarrow> token_taken sy s s')
      (s1\<lparr>ps_kern := k, ps_tokens := tok, ps_io := (ps_io s1)\<lparr>io_rts := rts\<rparr>\<rparr>)"
    if "take_token tv (ps_tokens s1) (rts_of s1) = Inr (tok, rts)" "sy_clock sy (ps_kern s1) = (tv, k)" for tv tok rts k
  proof (rule swp_keeps [OF keeps_report_outstanding], intro impI)
    fix s' assume "same_sched (s1\<lparr>ps_kern := k, ps_tokens := tok, ps_io := (ps_io s1)\<lparr>io_rts := rts\<rparr>\<rparr>) s'"
    then have "sched_rts (rts_of s') = sched_rts rts" "ps_tokens s' = tok" by (simp_all add: sched_iff)
    moreover have "take_token (fst (sy_clock sy (ps_kern s1))) (ps_tokens s) (rts_of s1) = Inr (tok, rts)"
      using that 1 by (simp add: sched_iff)
    ultimately show "token_taken sy s s'" using 1 unfolding token_taken_def sched_iff by blast
  qed
  with 1 show ?case
    by (auto simp: swp_eq split: sum.split prod.split)
qed

lemma pinger_gate_cost:
  assumes "bucket iv pl s" "\<And>k. ts_ns (fst (sy_clock sy k)) \<noteq> 0" "pinger_gate sy s = (Inr None, s')"
  shows "bucket iv pl s'" "ps_tokens s' + iv \<le> iv * pl"
    "(spent s' + iv) * 1000000 \<le> spent s * 1000000 + (now_ns s' - now_ns s) + 999999"
proof -
  obtain k tok rts0 rts where r: "sched_rts rts0 = sched_rts (rts_of s)"
    "take_token (fst (sy_clock sy k)) (ps_tokens s) rts0 = Inr (tok, rts)"
    "sched_rts (rts_of s') = sched_rts rts" "ps_tokens s' = tok"
    using swpI [OF pinger_gate_sched assms(3)] by (auto simp: token_taken_def)
  have b: "interval rts0 = iv" "preload rts0 = pl" "\<not> opt_adaptive rts0" "0 < iv"
    "ts_ns (cur_time rts0) \<noteq> 0" "ntransmitted rts0 = ntransmitted (rts_of s)" "ts_ns (cur_time rts0) = now_ns s"
    using assms(1) r(1) by (simp_all add: bucket_def now_ns_def sched_rts_def)
  note paid = take_token_paid [OF r(2) b(5)]
  have s': "interval (rts_of s') = iv" "preload (rts_of s') = pl" "\<not> opt_adaptive (rts_of s')"
    "now_ns s' = ts_ns (fst (sy_clock sy k))" "ntransmitted (rts_of s') = ntransmitted (rts_of s)"
    using r(3) paid(1) b by (simp_all add: sched_rts_def now_ns_def)
  have p: "0 \<le> tok" "tok + iv \<le> iv * pl"
    "(tok + iv) * 1000000 \<le> ps_tokens s * 1000000 + (now_ns s' - now_ns s) + 999999"
    using paid(2-4) b s'(4) by simp_all
  show "ps_tokens s' + iv \<le> iv * pl" using p(2) r(4) by simp
  show "bucket iv pl s'" using s' p b(4) assms(2) r(4) by (simp add: bucket_def)
  have "spent s' + iv = ntransmitted (rts_of s) * iv + (tok + iv)"
    "spent s = ntransmitted (rts_of s) * iv + ps_tokens s"
    using s' r(4) assms(1) by (simp_all add: spent_def bucket_def)
  with p(3) show "(spent s' + iv) * 1000000 \<le> spent s * 1000000 + (now_ns s' - now_ns s) + 999999"
    by (simp add: algebra_simps)
qed

text \<open>
  Sending uses up at most the token, and asking again for it leaves everything as it is. What the
  protocol functions promise for this is the locale; both protocols meet it.
\<close>

definition try_effect :: "int \<Rightarrow> int \<Rightarrow> 'k pst \<Rightarrow> int option \<Rightarrow> 'k pst \<Rightarrow> bool" where
  "try_effect iv pl s r s' \<longleftrightarrow>
     (if r = None then sched s' = sched s
      else bucket iv pl s' \<and> now_ns s' = now_ns s \<and> spent s' \<le> spent s + iv)"

abbreviation on_Inr :: "('a \<Rightarrow> 's \<Rightarrow> bool) \<Rightarrow> 'e + 'a \<Rightarrow> 's \<Rightarrow> bool" where
  "on_Inr P \<equiv> \<lambda>r s'. case r of Inl _ \<Rightarrow> True | Inr a \<Rightarrow> P a s'"

lemma advance_sched [simp]:
  "interval (advance_ntransmitted rts) = interval rts" "preload (advance_ntransmitted rts) = preload rts"
  "ntransmitted (advance_ntransmitted rts) = ntransmitted rts + 1" "cur_time (advance_ntransmitted rts) = cur_time rts"
  "opt_adaptive (advance_ntransmitted rts) = opt_adaptive rts"
  by (simp_all add: advance_ntransmitted_def Let_def)

lemma bucket_advance:
  assumes "bucket iv pl s" "0 \<le> tok" "tok \<le> ps_tokens s"
    and "sched s' = sched (s\<lparr>ps_io := (ps_io s)\<lparr>io_rts := advance_ntransmitted (rts_of s)\<rparr>, ps_tokens := tok\<rparr>)"
  shows "bucket iv pl s'" "now_ns s' = now_ns s" "spent s' \<le> spent s + iv"
  using assms by (simp_all add: bucket_def now_ns_def spent_def sched_def algebra_simps)

lemma hard_local_error_effect:
  assumes "bucket iv pl s"
  shows "swp (hard_local_error sy i) (on_Inr (\<lambda>r s'. r \<noteq> None \<and> try_effect iv pl s r s')) s"
proof -
  let ?s = "s\<lparr>ps_io := (ps_io s)\<lparr>io_rts := advance_ntransmitted (rts_of s)\<rparr>\<rparr>"
  have k: "keeps same_sched (swhen b (if c then puts ''E'' else sbind (sget ps_errno) (\<lambda>en. ping_error sy 0 en t)))" for b c t
    by (intro keeps_swhen same_sched_rel) (simp add: keeps_on_io keeps_bind same_sched_rel keeps_pure)
  have "try_effect iv pl s (Some w) (s'\<lparr>ps_tokens := 0\<rparr>)" if "sched s' = sched ?s" for s' w
  proof -
    have "sched (s'\<lparr>ps_tokens := 0\<rparr>) = sched (?s\<lparr>ps_tokens := 0\<rparr>)" using that by (simp add: sched_iff)
    from bucket_advance [OF assms _ _ this] assms show ?thesis by (simp add: try_effect_def bucket_def)
  qed
  then show ?thesis
    unfolding hard_local_error_def
    by (simp add: swp_bind swp_mod_rts swp_sget swp_smod swp_sret swp_keeps [OF k] split: sum.split)
qed

lemma hard_local_error_after:
  assumes "bucket iv pl s1" "now_ns s1 = now_ns s" "spent s1 \<le> spent s"
  shows "swp (hard_local_error sy i) (on_Inr (try_effect iv pl s)) s1"
  by (rule swp_mono [OF hard_local_error_effect [OF assms(1)]])
     (use assms in \<open>auto simp: try_effect_def split: sum.split_asm\<close>)

lemma no_buffers_effect:
  assumes "bucket iv pl s"
  shows "swp (no_buffers sy) (on_Inr (try_effect iv pl s)) s"
proof -
  have ad: "\<not> opt_adaptive (rts_of s)" using assms by (simp add: bucket_def)
  define s1 where "s1 a = s\<lparr>ps_tokens := 0, ps_io := (ps_io s)\<lparr>io_rts := (rts_of s)\<lparr>rtt_addend := a\<rparr>\<rparr>,
      ps_oom_count := ps_oom_count s + 1\<rparr>" for a
  have sc: "sched (s1 a) = sched (s\<lparr>ps_tokens := 0\<rparr>)" for a by (simp add: s1_def sched_def rts_of_def)
  have b: "bucket iv pl (s1 a)" "now_ns (s1 a) = now_ns s" "spent (s1 a) \<le> spent s" for a
    using sc [of a] assms by (simp_all add: bucket_def now_ns_def spent_def sched_def)
  have fin: "try_effect iv pl s (Some w) (s1 a)" for w a
    using b [of a] assms by (simp add: try_effect_def bucket_def)
  have err: "swp (hard_local_error sy 0) (on_Inr (try_effect iv pl s)) (s1 a)" for a
    by (rule hard_local_error_after [OF b])
  from fin err ad show ?thesis
    unfolding no_buffers_def
    by (simp add: swp_bind swp_mod_rts swp_sget swp_smod swp_sret Let_def s1_def [symmetric])
qed

text \<open>
  A run as the schedule sees it: calls of \<open>pinger\<close> and, in between, anything that leaves the
  schedule alone. The number counts the calls that were given a token.
\<close>

inductive ping_run :: "'k ping_sys \<Rightarrow> 'k ping_func_set \<Rightarrow> 'k pst \<Rightarrow> nat \<Rightarrow> 'k pst \<Rightarrow> bool"
  for sy :: "'k ping_sys" and fset :: "'k ping_func_set" and s :: "'k pst" where
  start: "ping_run sy fset s 0 s"
| call: "ping_run sy fset s p s1 \<Longrightarrow> pinger sy fset s1 = Some (Inr w, s2)
    \<Longrightarrow> ping_run sy fset s (p + (if fst (pinger_gate sy s1) = Inr None then 1 else 0)) s2"
| other: "ping_run sy fset s p s1 \<Longrightarrow> sched s2 = sched s1 \<Longrightarrow> ping_run sy fset s p s2"

locale ping_protocol =
  fixes fset :: "'k ping_func_set"
  assumes send_probe_sched: "keeps same_sched (send_probe fset)"
    and receive_error_msg_sched: "keeps same_sched (receive_error_msg fset)"
begin

lemma after_error_msg:
  assumes "bucket iv pl s"
  shows "swp (sbind (receive_error_msg fset) (\<lambda>i.
         if i > 0 then hard_local_error sy 0
         else
           sbind (sget (\<lambda>s. i = 0 \<and> confirm_flag (rts_of s) \<and> ps_errno s = EINVAL)) (\<lambda>old.
           sbind (swhen old (sbind (mod_rts (\<lambda>rts. rts\<lparr>confirm_flag := False\<rparr>)) (\<lambda>_. smod (\<lambda>s. s\<lparr>ps_errno := 0\<rparr>)))) (\<lambda>_.
           sbind (sget ps_errno) (\<lambda>en. if en = 0 then sret None else hard_local_error sy i)))))
    (on_Inr (try_effect iv pl s)) s"
  unfolding swp_bind
proof (rule swp_keeps [OF receive_error_msg_sched], goal_cases)
  case (1 r s1)
  have c: "sched (s1\<lparr>ps_io := (ps_io s1)\<lparr>io_rts := (rts_of s1)\<lparr>confirm_flag := False\<rparr>\<rparr>, ps_errno := 0\<rparr>) = sched s"
    using 1 by (simp add: sched_iff sched_rts_def)
  have h: "swp (hard_local_error sy i) (on_Inr (try_effect iv pl s)) s'" if "sched s' = sched s" for s' i
    using that assms bucket_cong [OF that] by (intro hard_local_error_after) simp_all
  from 1 c h show ?case
    by (auto simp: swp_eq try_effect_def split: sum.split)
qed

lemma try_cost:
  assumes "bucket iv pl s" "ps_tokens s + iv \<le> iv * pl"
  shows "swp (pinger_try sy fset) (on_Inr (try_effect iv pl s)) s"
  unfolding pinger_try_def swp_bind [of "send_probe fset"]
proof (rule swp_keeps [OF send_probe_sched], goal_cases)
  case (1 r s1)
  have b: "bucket iv pl s1" "now_ns s1 = now_ns s" "spent s1 = spent s" using 1 assms(1) bucket_cong by metis+
  then have te: "try_effect iv pl s1 = try_effect iv pl s" using 1 by (intro ext) (simp add: try_effect_def)
  have nb: "swp (no_buffers sy) (on_Inr (try_effect iv pl s)) s1"
    using no_buffers_effect [OF b(1), of sy] by (simp only: te)
  note em = after_error_msg [OF b(1), of sy, unfolded te]
  have again: "try_effect iv pl s (Some w) (s1\<lparr>ps_tokens := ps_tokens s1 + interval (rts_of s1)\<rparr>)" for w
    using b assms 1 by (simp add: try_effect_def bucket_def now_ns_def spent_def sched_iff)
  have size: "swp (hard_local_error sy 0) (on_Inr (try_effect iv pl s))
      (s1\<lparr>ps_io := (ps_io s1)\<lparr>io_rts := (rts_of s1)\<lparr>nerrors := nerrors (rts_of s1) + 1\<rparr>\<rparr>\<rparr>)"
    by (rule hard_local_error_after) (use b in \<open>simp_all add: bucket_def now_ns_def spent_def rts_of_def\<close>)
  have sent: "try_effect iv pl s (Some w) s2"
    if "sched s2 = sched (s1\<lparr>ps_io := (ps_io s1)\<lparr>io_rts := advance_ntransmitted (rts_of s1)\<rparr>\<rparr>)" for s2 w
  proof -
    have "sched s2 = sched (s1\<lparr>ps_io := (ps_io s1)\<lparr>io_rts := advance_ntransmitted (rts_of s1)\<rparr>, ps_tokens := ps_tokens s1\<rparr>)"
      using that by (simp add: sched_iff)
    from bucket_advance [OF b(1) _ _ this] b show ?thesis by (simp add: try_effect_def bucket_def)
  qed
  have dot: "swp (swhen c (puts ''.'')) (\<lambda>r s'. r = Inr () \<longrightarrow> try_effect iv pl s (Some (w s')) s')
      (s1\<lparr>ps_oom_count := 0, ps_io := (ps_io s1)\<lparr>io_rts := advance_ntransmitted (rts_of s1)\<rparr>\<rparr>)" for c w
    by (rule swp_keeps [OF keeps_swhen [OF same_sched_rel(1) keeps_on_io [OF keeps_emit]]])
       (auto intro!: sent simp: sched_iff)
  show ?case
    using nb em again size dot
    by (auto simp: swp_bind [of "sget g" for g] swp_bind [of "smod g" for g] swp_bind [of "mod_rts g" for g]
        swp_bind [of "swhen g h" for g h] swp_sret swp_sget swp_smod swp_sthrow swp_mod_rts split: sum.split)
qed

lemma resend_cost:
  assumes "ountil (orun (pinger_try sy fset)) s = Some (r, s')" "bucket iv pl s" "ps_tokens s + iv \<le> iv * pl" "r = Inr w"
  shows "bucket iv pl s' \<and> now_ns s' = now_ns s \<and> spent s' \<le> spent s + iv"
proof -
  have "bucket iv pl s \<longrightarrow> ps_tokens s + iv \<le> iv * pl \<longrightarrow> r = Inr w
      \<longrightarrow> bucket iv pl s' \<and> now_ns s' = now_ns s \<and> spent s' \<le> spent s + iv"
    using assms(1)
  proof (rule ountil_induct [where P = "\<lambda>s r s'. bucket iv pl s \<longrightarrow> ps_tokens s + iv \<le> iv * pl \<longrightarrow> r = Inr w
      \<longrightarrow> bucket iv pl s' \<and> now_ns s' = now_ns s \<and> spent s' \<le> spent s + iv"], goal_cases)
    case (2 s a s')
    then show ?case using swpI [OF try_cost] by (fastforce simp: orun_def try_effect_def)
  next
    case (3 s s1 r s')
    then have "bucket iv pl s \<longrightarrow> ps_tokens s + iv \<le> iv * pl \<longrightarrow> sched s1 = sched s"
      using swpI [OF try_cost] by (fastforce simp: orun_def try_effect_def)
    with 3(3) show ?case using bucket_cong [of s1 s] by (auto simp: sched_iff)
  qed simp
  with assms show ?thesis by blast
qed

lemma pinger_cost:
  assumes "bucket iv pl s" "\<And>k. ts_ns (fst (sy_clock sy k)) \<noteq> 0" "pinger sy fset s = Some (Inr w, s')"
  shows "bucket iv pl s' \<and> spent s' * 1000000 \<le> spent s * 1000000 + (now_ns s' - now_ns s)
      + (if fst (pinger_gate sy s) = Inr None then 999999 else 0)"
proof -
  obtain g s1 where g: "pinger_gate sy s = (Inr g, s1)"
    using assms(3) by (auto simp: pinger_def obind_def orun_def split: prod.splits sum.splits)
  show ?thesis
  proof (cases g)
    case (Some v)
    then have "s' = s1" "sched s1 = sched s"
      using assms(3) g swpI [OF pinger_gate_sched g] by (auto simp: pinger_def obind_def orun_def serr_defs)
    then show ?thesis using assms(1) bucket_cong [of s1 s] Some g by simp
  next
    case None
    note cost = pinger_gate_cost [OF assms(1,2) g [unfolded None]]
    have "ountil (orun (pinger_try sy fset)) s1 = Some (Inr w, s')"
      using assms(3) g None by (simp add: pinger_def obind_def orun_def)
    from resend_cost [OF this cost(1,2) refl] cost(3) None g show ?thesis by simp
  qed
qed

text \<open>The limit on the rate, over any part of a run.\<close>

lemma run_cost:
  assumes "ping_run sy fset s p s'" "bucket iv pl s" "\<And>k. ts_ns (fst (sy_clock sy k)) \<noteq> 0"
  shows "bucket iv pl s' \<and> spent s' * 1000000 \<le> spent s * 1000000 + (now_ns s' - now_ns s) + int p * 999999"
  using assms(1)
proof induction
  case (call p s1 w s2)
  from pinger_cost [OF conjunct1 [OF call.IH] assms(3) call.hyps(2)] call.IH show ?case by auto
next
  case (other p s1 s2)
  then show ?case using bucket_cong [of s2 s1] by simp
qed (use assms in simp)

lemma rate_limit:
  assumes "ping_run sy fset s p s'" "bucket iv pl s" "\<And>k. ts_ns (fst (sy_clock sy k)) \<noteq> 0"
  shows "(ntransmitted (rts_of s') - ntransmitted (rts_of s)) * (iv * 1000000)
    \<le> pl * (iv * 1000000) + (now_ns s' - now_ns s) + int p * 999999"
proof -
  have r: "bucket iv pl s'" "spent s' * 1000000 \<le> spent s * 1000000 + (now_ns s' - now_ns s) + int p * 999999"
    using run_cost [OF assms] by simp_all
  then have "ntransmitted (rts_of s') * (iv * 1000000) \<le> spent s' * 1000000"
    by (simp add: spent_def bucket_def algebra_simps)
  moreover have "spent s * 1000000 \<le> ntransmitted (rts_of s) * (iv * 1000000) + pl * (iv * 1000000)"
    using assms(2) by (simp add: spent_def bucket_def algebra_simps)
  ultimately show ?thesis using r(2) by (simp only: left_diff_distrib)
qed

end

subsection \<open>The pattern\<close>

definition rounds :: "nat \<Rightarrow> nat \<Rightarrow> nat \<Rightarrow> nat" where
  "rounds n lastk kk = (if kk \<le> lastk then (lastk - kk) div n + 1 else 0)"

lemma rounds_step: "0 < n \<Longrightarrow> kk \<le> lastk \<Longrightarrow> rounds n lastk kk = Suc (rounds n lastk (kk + n))"
  by (auto simp: rounds_def div_if le_diff_conv2 add.commute)

lemma fill_loop_rounds:
  assumes "pat \<noteq> []" "lastk + length pat \<le> length bp"
  shows "fill_loop pat lastk kk bp
    = take kk bp @ concat (replicate (rounds (length pat) lastk kk) pat) @ drop (kk + rounds (length pat) lastk kk * length pat) bp"
  using assms
proof (induction pat lastk kk bp rule: fill_loop.induct)
  case (1 pat lastk kk bp)
  show ?case
  proof (cases "kk \<le> lastk")
    case True
    let ?bp = "take kk bp @ pat @ drop (kk + length pat) bp"
    have l: "length (take kk bp) = kk" "lastk + length pat \<le> length ?bp" using True "1.prems" by auto
    have t: "take (kk + length pat) ?bp = take kk bp @ pat" using l(1) by simp
    have d: "drop (kk + length pat + m) ?bp = drop (kk + length pat + m) bp" for m
    proof -
      have "drop (kk + length pat + m) ?bp = drop m (drop (kk + length pat) bp)"
        using drop_append [of "kk + length pat + m" "take kk bp @ pat" "drop (kk + length pat) bp"] l(1) by simp
      then show ?thesis by (simp add: add.commute)
    qed
    have "fill_loop pat lastk kk bp = fill_loop pat lastk (kk + length pat) ?bp"
      using True "1.prems" by (subst fill_loop.simps) simp
    also have "\<dots> = (take kk bp @ pat) @ concat (replicate (rounds (length pat) lastk (kk + length pat)) pat)
        @ drop (kk + length pat + rounds (length pat) lastk (kk + length pat) * length pat) bp"
      using "1.IH" True "1.prems" l(2) by (simp only: t d simp_thms)
    finally show ?thesis using True "1.prems" by (simp add: rounds_step ac_simps)
  next
    case False
    then show ?thesis by (subst fill_loop.simps) (simp add: rounds_def)
  qed
qed

text \<open>
  Filling stays inside the packet and repeats the pattern over all of it, up to a rest shorter than
  the pattern.
\<close>

lemma fill_pattern:
  assumes "pat \<noteq> []" "length pat \<le> 16" "length out = MAXPACKET"
  defines "n \<equiv> (MAXPACKET - 8) div length pat"
  shows "fill_loop pat (length out - (8 + length pat)) 0 (drop 8 out)
    = concat (replicate n pat) @ drop (8 + n * length pat) out"
proof -
  have "rounds (length pat) (length out - (8 + length pat)) 0 = n"
  proof -
    have "(MAXPACKET - 8) div length pat = (MAXPACKET - 8 - length pat) div length pat + 1"
      using assms(1,2) by (subst div_if) (auto simp: not_less)
    then show ?thesis using assms(3) by (simp add: rounds_def n_def)
  qed
  moreover have "length out - (8 + length pat) + length pat \<le> length (drop 8 out)" using assms(2,3) by simp
  ultimately show ?thesis using fill_loop_rounds [OF assms(1), of "length out - (8 + length pat)" "drop 8 out" 0]
    by (simp add: add.commute)
qed

subsection \<open>A system for examples\<close>

text \<open>A system in which the time stands still and every request goes out.\<close>

definition demo_sys :: "unit ping_sys" where
  "demo_sys = \<lparr>sy_clock = Pair \<lparr>tv_sec = 7, tv_nsec = 0\<rparr>, sy_now = Pair \<lparr>tvl_sec = 7, tvl_usec = 0\<rparr>,
     sy_signals = Pair (False, False), sy_setitimer = (\<lambda>_ _. id), sy_poll = (\<lambda>_. Pair (0, False, False)),
     sy_recvmsg = (\<lambda>_. Pair (Inl EAGAIN)), sy_errqueue = Pair (Inl EAGAIN), sy_siocgstamp = Pair None,
     sy_sendto = (\<lambda>p. Pair (Inr (int (length p)))), sy_setsockopt = (\<lambda>_. Pair None), sy_rcvbuf = (\<lambda>_. None),
     sy_columns = (\<lambda>_. None), sy_pid = 1, sy_hz = 100, sy_strerror = (\<lambda>_. []),
     sy_getnameinfo = (\<lambda>_ _. Pair ''h'')\<rparr>"

definition demo_pst :: "ping_rts \<Rightarrow> unit pst" where
  "demo_pst rts = \<lparr>ps_io = \<lparr>io_rts = rts, io_out = []\<rparr>, ps_errno = 0, ps_oom_count = 0, ps_tokens = 0, ps_waittime = 0,
     ps_polling = False, ps_recv_error = False, ps_last_addr = None, ps_old_rr = [], ps_filtered = False,
     ps_filtered6 = False, ps_nonce = ([], - 1), ps_scope_id = 0, ps_kern = ()\<rparr>"

end
