(* ===== verification/Ping4.thy ===== *)
theory Ping4
  imports Ping_Loop
begin

text \<open>
  \<open>ping.c\<close>: the IPv4 side of \<open>ping\<close>. Pointers into a packet are offsets into the buffer; a read
  outside of it ends the run with \<open>Ping_Out_Of_Bounds\<close>. Addresses are their value in host order, socket
  addresses are octets. A signal that arrives during a name look-up is not modelled.
\<close>

abbreviation MAXIPLEN :: nat where "MAXIPLEN \<equiv> 60"
abbreviation MAXICMPLEN :: nat where "MAXICMPLEN \<equiv> 76"
abbreviation NROUTES :: nat where "NROUTES \<equiv> 9"

subsection \<open>Reading a packet\<close>

definition octet :: "bytes \<Rightarrow> nat \<Rightarrow> ('k, nat) pm" where
  "octet bs i = sopt Ping_Out_Of_Bounds (if i < length bs then Some (unat (bs ! i)) else None)"

definition word16 :: "bytes \<Rightarrow> nat \<Rightarrow> ('k, 16 word) pm" where
  "word16 bs i = sopt Ping_Out_Of_Bounds (if i + 1 < length bs then Some (le16_at bs i) else None)"

definition net16 :: "bytes \<Rightarrow> nat \<Rightarrow> ('k, 16 word) pm" where
  "net16 bs i = sopt Ping_Out_Of_Bounds (if i + 1 < length bs then Some (be16_at bs i) else None)"

definition net32 :: "bytes \<Rightarrow> nat \<Rightarrow> ('k, 32 word) pm" where
  "net32 bs i = sopt Ping_Out_Of_Bounds (if i + 3 < length bs then Some (be32_at bs i) else None)"

subsection \<open>Addresses\<close>

definition inet_ntoa :: "32 word \<Rightarrow> string" where
  "inet_ntoa a = nat_dec (unat (drop_bit 24 a)) @ ''.'' @ nat_dec (unat (drop_bit 16 a AND 0xff)) @ ''.''
     @ nat_dec (unat (drop_bit 8 a AND 0xff)) @ ''.'' @ nat_dec (unat (a AND 0xff))"

definition sockaddr_in :: "32 word \<Rightarrow> bytes" where
  "sockaddr_in a = [2, 0, 0, 0] @ be32 a @ replicate 8 0"

text \<open>\<open>_pr_addr\<close> with its static buffer.\<close>

definition pr_addr_fresh :: "'k ping_sys \<Rightarrow> bool \<Rightarrow> bytes \<Rightarrow> ('k, string) pm" where
  "pr_addr_fresh sy resolve_name sa =
     sbind (syscall (sy_getnameinfo sy sa True)) (\<lambda>address.
     sbind (sget rts_of) (\<lambda>rts.
     sbind (if \<not> exiting rts \<and> resolve_name \<and> (opt_force_lookup rts \<or> \<not> opt_numeric rts)
            then syscall (sy_getnameinfo sy sa False) else sret []) (\<lambda>name.
     let t = snprintf_buf 4096 (if name \<noteq> [] \<and> name \<noteq> address then name @ '' ('' @ address @ '')'' else address)
     in sbind (smod (\<lambda>s. s\<lparr>ps_last_addr := Some (sa, t)\<rparr>)) (\<lambda>_. sret t))))"

definition pr_addr_as :: "'k ping_sys \<Rightarrow> bool \<Rightarrow> bytes \<Rightarrow> ('k, string) pm" where
  "pr_addr_as sy resolve_name sa =
     sbind (sget ps_last_addr) (\<lambda>cached.
     case cached of
       Some (l, t) \<Rightarrow> if l = sa then sret t else pr_addr_fresh sy resolve_name sa
     | None \<Rightarrow> pr_addr_fresh sy resolve_name sa)"

definition pr_addr :: "'k ping_sys \<Rightarrow> bytes \<Rightarrow> ('k, string) pm" where
  "pr_addr sy = pr_addr_as sy True"

definition pr_raw_addr :: "'k ping_sys \<Rightarrow> bytes \<Rightarrow> ('k, string) pm" where
  "pr_raw_addr sy = pr_addr_as sy False"

subsection \<open>IP options\<close>

abbreviation IPOPT_EOL :: nat where "IPOPT_EOL \<equiv> 0"
abbreviation (input) IPOPT_NOP :: nat where "IPOPT_NOP \<equiv> 1"
abbreviation IPOPT_RR :: nat where "IPOPT_RR \<equiv> 7"
abbreviation IPOPT_TS :: nat where "IPOPT_TS \<equiv> 68"
abbreviation IPOPT_LSRR :: nat where "IPOPT_LSRR \<equiv> 131"
abbreviation IPOPT_SSRR :: nat where "IPOPT_SSRR \<equiv> 137"
abbreviation IPOPT_MINOFF :: nat where "IPOPT_MINOFF \<equiv> 4"
abbreviation MAX_IPOPTLEN :: nat where "MAX_IPOPTLEN \<equiv> 40"
abbreviation nl :: string where "nl \<equiv> [CHR 0x0A]"
abbreviation tab :: string where "tab \<equiv> [CHR 0x09]"

definition print_hop_addr :: "'k ping_sys \<Rightarrow> bytes \<Rightarrow> nat \<Rightarrow> ('k, unit) pm" where
  "print_hop_addr sy bs p =
     sbind (net32 bs p) (\<lambda>a.
     if a = 0 then puts (tab @ ''0.0.0.0'')
     else sbind (pr_addr sy (sockaddr_in a)) (\<lambda>t. puts (tab @ t)))"

fun addr_lines :: "'k ping_sys \<Rightarrow> bytes \<Rightarrow> nat \<Rightarrow> nat \<Rightarrow> ('k, unit) pm" where
  "addr_lines sy bs 0 p = sret ()"
| "addr_lines sy bs (Suc n) p =
     sbind (print_hop_addr sy bs p) (\<lambda>_. sbind (puts nl) (\<lambda>_. addr_lines sy bs n (p + 4)))"

text \<open>\<open>opt\<close> is the offset of the option. The loop runs while \<open>j > IPOPT_MINOFF\<close>, in steps of four.\<close>

definition pr_srr :: "'k ping_sys \<Rightarrow> bytes \<Rightarrow> nat \<Rightarrow> nat \<Rightarrow> ('k, unit) pm" where
  "pr_srr sy bs opt kind =
     sbind (puts (nl @ (if kind = IPOPT_SSRR then ''S'' else ''L'') @ ''SRR: '')) (\<lambda>_.
     sbind (octet bs (opt + 1)) (\<lambda>j.
     swhen (j > IPOPT_MINOFF) (addr_lines sy bs ((j - IPOPT_MINOFF + 3) div 4) (opt + 2))))"

definition pr_rr :: "'k ping_sys \<Rightarrow> bytes \<Rightarrow> nat \<Rightarrow> ('k, unit) pm" where
  "pr_rr sy bs opt =
     sbind (octet bs (opt + 1)) (\<lambda>j.
     sbind (octet bs (opt + 2)) (\<lambda>ptr.
     let i = min ptr j - IPOPT_MINOFF
     in swhen (min ptr j > IPOPT_MINOFF)
          (sbind (sguard (opt + 2 + i \<le> length bs \<and> i \<le> MAX_IPOPTLEN) Ping_Out_Of_Bounds) (\<lambda>_.
           let rr = take i (drop (opt + 2) bs)
           in sbind (sget (\<lambda>s. ps_old_rr s = rr \<and> \<not> opt_flood (rts_of s))) (\<lambda>same.
              if same then puts (tab @ ''(same route)'')
              else
                sbind (smod (\<lambda>s. s\<lparr>ps_old_rr := rr\<rparr>)) (\<lambda>_.
                sbind (puts (nl @ ''RR: '')) (\<lambda>_.
                addr_lines sy bs ((i + 3) div 4) (opt + 3))))))))"

text \<open>The lines of a timestamp option; \<open>i\<close> counts the octets left and bounds the number of rounds.\<close>

definition time_line :: "int \<Rightarrow> int \<Rightarrow> 32 word \<Rightarrow> string \<times> int \<times> int" where
  "time_line stdtime nonstdtime l =
     (let v = uint l AND 0x7fffffff
      in if l AND 0x80000000 \<noteq> 0
         then (if nonstdtime = 0 then tab @ int_dec v @ '' absolute not-standard''
               else tab @ int_dec (v - nonstdtime) @ '' not-standard'', stdtime, v)
         else (if stdtime = 0 then tab @ int_dec (uint l) @ '' absolute''
               else tab @ int_dec (uint l - stdtime), to_int32 (uint l), nonstdtime))"

fun ts_lines :: "'k ping_sys \<Rightarrow> bytes \<Rightarrow> bool \<Rightarrow> nat \<Rightarrow> int \<Rightarrow> nat \<Rightarrow> int \<Rightarrow> int \<Rightarrow> ('k, unit) pm" where
  "ts_lines sy bs addrs 0 i p stdtime nonstdtime = sret ()"
| "ts_lines sy bs addrs (Suc n) i p stdtime nonstdtime =
     sbind (swhen addrs (print_hop_addr sy bs p)) (\<lambda>_.
     let i' = (if addrs then i - 4 else i); p' = (if addrs then p + 4 else p)
     in if addrs \<and> i' \<le> 0 then sret ()
        else
          sbind (net32 bs p') (\<lambda>l.
          case time_line stdtime nonstdtime l of (t, stdtime', nonstdtime') \<Rightarrow>
          sbind (puts (t @ nl)) (\<lambda>_.
          if i' - 4 \<le> 0 then sret () else ts_lines sy bs addrs n (i' - 4) (p' + 4) stdtime' nonstdtime')))"

definition pr_ts :: "'k ping_sys \<Rightarrow> bytes \<Rightarrow> nat \<Rightarrow> ('k, unit) pm" where
  "pr_ts sy bs opt =
     sbind (octet bs (opt + 1)) (\<lambda>j.
     sbind (octet bs (opt + 2)) (\<lambda>ptr.
     let i = int (min ptr j) - 5
     in swhen (i > 0)
          (sbind (octet bs (opt + 3)) (\<lambda>flags.
           sbind (puts (nl @ ''TS: '')) (\<lambda>_.
           sbind (ts_lines sy bs (flags mod 16 \<noteq> 0) (nat i) i (opt + 4) 0 0) (\<lambda>_.
           swhen (flags div 16 \<noteq> 0) (puts (''Unrecorded hops: '' @ nat_dec (flags div 16) @ nl))))))))"

text \<open>Every round takes at least one octet, so the number of rounds is bounded by \<open>totlen\<close>.\<close>

fun pr_options_loop :: "'k ping_sys \<Rightarrow> bytes \<Rightarrow> nat \<Rightarrow> nat \<Rightarrow> nat \<Rightarrow> ('k, unit) pm" where
  "pr_options_loop sy bs 0 totlen opt = sret ()"
| "pr_options_loop sy bs (Suc n) totlen opt =
     (if totlen = 0 then sret ()
      else
        sbind (octet bs opt) (\<lambda>kind.
        if kind = IPOPT_EOL then sret ()
        else if kind = IPOPT_NOP
        then sbind (puts (nl @ ''NOP'')) (\<lambda>_. pr_options_loop sy bs n (totlen - 1) (opt + 1))
        else
          sbind (octet bs (opt + 1)) (\<lambda>olen.
          if olen < 2 \<or> olen > totlen then sret ()
          else
            sbind (if kind = IPOPT_SSRR \<or> kind = IPOPT_LSRR then pr_srr sy bs opt kind
                   else if kind = IPOPT_RR then pr_rr sy bs opt
                   else if kind = IPOPT_TS then pr_ts sy bs opt
                   else puts (nl @ ''unknown option '' @ hex_text kind)) (\<lambda>_.
            pr_options_loop sy bs n (totlen - olen) (opt + olen)))))"

definition pr_options :: "'k ping_sys \<Rightarrow> bytes \<Rightarrow> nat \<Rightarrow> nat \<Rightarrow> ('k, unit) pm" where
  "pr_options sy bs opt totlen = pr_options_loop sy bs totlen totlen opt"

text \<open>The header is printed from its octets as the machine reads them, without changing the byte order.\<close>

definition pr_iph :: "'k ping_sys \<Rightarrow> bytes \<Rightarrow> nat \<Rightarrow> ('k, unit) pm" where
  "pr_iph sy bs ip =
     sbind (octet bs ip) (\<lambda>vihl. sbind (octet bs (ip + 1)) (\<lambda>tos.
     sbind (word16 bs (ip + 2)) (\<lambda>tot_len. sbind (word16 bs (ip + 4)) (\<lambda>ident.
     sbind (word16 bs (ip + 6)) (\<lambda>frag_off. sbind (octet bs (ip + 8)) (\<lambda>ttl.
     sbind (octet bs (ip + 9)) (\<lambda>prot. sbind (word16 bs (ip + 10)) (\<lambda>check.
     sbind (net32 bs (ip + 12)) (\<lambda>saddr. sbind (net32 bs (ip + 16)) (\<lambda>daddr.
     let h = \<lambda>n v. pad_zero n (hex_text v)
     in sbind (puts (''Vr HL TOS  Len   ID Flg  off TTL Pro  cks      Src      Dst Data'' @ nl
               @ '' '' @ h 1 (vihl div 16) @ ''  '' @ h 1 (vihl mod 16) @ ''  '' @ h 2 tos @ '' '' @ h 4 (unat tot_len)
               @ '' '' @ h 4 (unat ident)
               @ ''   '' @ h 1 (unat (drop_bit 13 (frag_off AND 0xe000))) @ '' '' @ h 4 (unat (frag_off AND 0x1fff))
               @ ''  '' @ h 2 ttl @ ''  '' @ h 2 prot @ '' '' @ h 4 (unat check)
               @ '' '' @ inet_ntoa saddr @ '' '' @ '' '' @ inet_ntoa daddr @ '' '' @ nl)) (\<lambda>_.
        pr_options sy bs (ip + 20) (4 * (vihl mod 16) - 20))))))))))))"

subsection \<open>ICMP messages\<close>

abbreviation ICMP_ECHOREPLY :: nat where "ICMP_ECHOREPLY \<equiv> 0"
abbreviation ICMP_DEST_UNREACH :: nat where "ICMP_DEST_UNREACH \<equiv> 3"
abbreviation ICMP_SOURCE_QUENCH :: nat where "ICMP_SOURCE_QUENCH \<equiv> 4"
abbreviation ICMP_REDIRECT :: nat where "ICMP_REDIRECT \<equiv> 5"
abbreviation ICMP_ECHO :: nat where "ICMP_ECHO \<equiv> 8"
abbreviation ICMP_TIME_EXCEEDED :: nat where "ICMP_TIME_EXCEEDED \<equiv> 11"
abbreviation ICMP_PARAMETERPROB :: nat where "ICMP_PARAMETERPROB \<equiv> 12"

definition unreach_text :: "nat \<Rightarrow> int \<Rightarrow> string" where
  "unreach_text code info =
     (case map_of [(0, ''Destination Net Unreachable''), (1, ''Destination Host Unreachable''),
                   (2, ''Destination Protocol Unreachable''), (3, ''Destination Port Unreachable''),
                   (4, ''Frag needed and DF set (mtu = '' @ int_dec (info mod 2 ^ 32) @ '')''),
                   (5, ''Source Route Failed''), (6, ''Destination Net Unknown''), (7, ''Destination Host Unknown''),
                   (8, ''Source Host Isolated''), (9, ''Destination Net Prohibited''),
                   (10, ''Destination Host Prohibited''), (11, ''Destination Net Unreachable for Type of Service''),
                   (12, ''Destination Host Unreachable for Type of Service''), (13, ''Packet filtered''),
                   (14, ''Precedence Violation''), (15, ''Precedence Cutoff'')] code of
        Some t \<Rightarrow> t
      | None \<Rightarrow> ''Dest Unreachable, Bad Code: '' @ nat_dec code) @ nl"

definition redirect_text :: "nat \<Rightarrow> string" where
  "redirect_text code =
     (case map_of [(0, ''Redirect Network''), (1, ''Redirect Host''), (2, ''Redirect Type of Service and Network''),
                   (3, ''Redirect Type of Service and Host'')] code of
        Some t \<Rightarrow> t
      | None \<Rightarrow> ''Redirect, Bad Code: '' @ nat_dec code)"

definition exceeded_text :: "nat \<Rightarrow> string" where
  "exceeded_text code =
     (if code = 0 then ''Time to live exceeded''
      else if code = 1 then ''Frag reassembly time exceeded''
      else ''Time exceeded, Bad Code: '' @ nat_dec code) @ nl"

text \<open>
  \<open>pr_icmph\<close>: \<open>icp\<close> is the packet with the offset of its ICMP header, when there is one; the quoted
  IP header behind it is printed in verbose mode.
\<close>

definition quoted_iph :: "'k ping_sys \<Rightarrow> (bytes \<times> nat) option \<Rightarrow> ('k, unit) pm" where
  "quoted_iph sy icp =
     sbind (sget rts_of) (\<lambda>rts.
     case icp of
       Some (bs, p) \<Rightarrow> swhen (opt_verbose rts) (pr_iph sy bs (p + 8))
     | None \<Rightarrow> sret ())"

definition pr_icmph :: "'k ping_sys \<Rightarrow> nat \<Rightarrow> nat \<Rightarrow> int \<Rightarrow> (bytes \<times> nat) option \<Rightarrow> ('k, unit) pm" where
  "pr_icmph sy type code info icp =
     (if type = ICMP_ECHOREPLY then puts (''Echo Reply'' @ nl)
      else if type = ICMP_DEST_UNREACH then sbind (puts (unreach_text code info)) (\<lambda>_. quoted_iph sy icp)
      else if type = ICMP_SOURCE_QUENCH then sbind (puts (''Source Quench'' @ nl)) (\<lambda>_. quoted_iph sy icp)
      else if type = ICMP_REDIRECT then
        sbind (puts (redirect_text code)) (\<lambda>_.
        sbind (case icp of Some (bs, p) \<Rightarrow> net32 bs (p + 4) | None \<Rightarrow> sret (word_of_int info)) (\<lambda>gw.
        sbind (pr_addr sy (sockaddr_in gw)) (\<lambda>t.
        sbind (puts (''(New nexthop: '' @ t @ '')'' @ nl)) (\<lambda>_.
        quoted_iph sy icp))))
      else if type = ICMP_ECHO then puts (''Echo Request'' @ nl)
      else if type = ICMP_TIME_EXCEEDED then sbind (puts (exceeded_text code)) (\<lambda>_. quoted_iph sy icp)
      else if type = ICMP_PARAMETERPROB then
        sbind (case icp of Some (bs, p) \<Rightarrow> sbind (octet bs (p + 4)) (\<lambda>v. sret (int v)) | None \<Rightarrow> sret (info mod 2 ^ 32)) (\<lambda>ptr.
        sbind (puts (''Parameter problem: pointer = '' @ int_dec ptr @ nl)) (\<lambda>_. quoted_iph sy icp))
      else if type = 13 then puts (''Timestamp'' @ nl)
      else if type = 14 then puts (''Timestamp Reply'' @ nl)
      else if type = 15 then puts (''Information Request'' @ nl)
      else if type = 16 then puts (''Information Reply'' @ nl)
      else if type = 17 then puts (''Address Mask Request'' @ nl)
      else if type = 18 then puts (''Address Mask Reply'' @ nl)
      else puts (''Bad ICMP type: '' @ nat_dec type @ nl))"

definition icmp_filter_bits :: "nat list" where
  "icmp_filter_bits = [ICMP_SOURCE_QUENCH, ICMP_REDIRECT, ICMP_ECHOREPLY]"

subsection \<open>The error queue\<close>

definition ping4_local_error :: "'k ping_sys \<Rightarrow> ext_err \<Rightarrow> ('k, int) pm" where
  "ping4_local_error sy e =
     sbind (sget rts_of) (\<lambda>rts.
     if opt_quiet rts then sret (- 1)
     else
       sbind (if opt_flood rts then puts ''E''
              else if ee_errno e \<noteq> EMSGSIZE then sret ()
              else ping_error sy 0 0 (''local error: message too long, mtu='' @ int_dec (ee_info e))) (\<lambda>_.
       sbind (mod_rts (\<lambda>rts. rts\<lparr>nerrors := nerrors rts + 1\<rparr>)) (\<lambda>_.
       sret (- 1))))"

definition ping4_net_error :: "'k ping_sys \<Rightarrow> socktype \<Rightarrow> ext_err \<Rightarrow> 16 word \<Rightarrow> ('k, int) pm" where
  "ping4_net_error sy sock e sq =
     sbind (mod_rts (acknowledge sq)) (\<lambda>_.
     sbind (swhen (sock = SOCK_RAW)
              (sbind (setopt sy (ICMP_FILTER icmp_filter_bits)) (\<lambda>r.
               case r of Some en \<Rightarrow> ping_error sy 2 en ''setsockopt(ICMP_FILTER)'' | None \<Rightarrow> sret ()))) (\<lambda>_.
     sbind (mod_rts (\<lambda>rts. rts\<lparr>nerrors := nerrors rts + 1\<rparr>)) (\<lambda>_.
     sbind (sget rts_of) (\<lambda>rts.
     if opt_quiet rts then sret 1
     else if opt_flood rts then sbind (puts [CHR 0x08, CHR ''E'']) (\<lambda>_. sret 1)
     else
       sbind (timestamp sy) (\<lambda>_.
       sbind (pr_addr sy (ee_offender e)) (\<lambda>t.
       sbind (on_io (ping_print_error_packet t (uint sq))) (\<lambda>_.
       sbind (pr_icmph sy (nat (ee_type e)) (nat (ee_code e)) (ee_info e) None) (\<lambda>_.
       sret 1))))))))"

definition ping4_receive_error_msg :: "'k ping_sys \<Rightarrow> socktype \<Rightarrow> ('k, int) pm" where
  "ping4_receive_error_msg sy sock =
     sbind (sget ps_errno) (\<lambda>saved_errno.
     sbind (syscall (sy_errqueue sy)) (\<lambda>r.
     case r of
       Inl en \<Rightarrow> sret (if en = EAGAIN \<or> en = EINTR then - 1 else 0)
     | Inr m \<Rightarrow>
         (case em_err m of
            None \<Rightarrow> sthrow Ping_Abort
          | Some e \<Rightarrow>
              if ee_origin e = SO_EE_ORIGIN_LOCAL
              then sbind (ping4_local_error sy e) (\<lambda>v. sbind (smod (\<lambda>s. s\<lparr>ps_errno := saved_errno\<rparr>)) (\<lambda>_. sret v))
              else if ee_origin e = SO_EE_ORIGIN_ICMP
              then
                sbind (sget rts_of) (\<lambda>rts.
                if length (em_data m) < 8 \<or> be32_at (em_target m) 4 \<noteq> whereto rts
                   \<or> unat (em_data m ! 0) \<noteq> ICMP_ECHO \<or> \<not> is_ours rts sock (le16_at (em_data m) 4)
                then sbind (smod (\<lambda>s. s\<lparr>ps_errno := 0\<rparr>)) (\<lambda>_. sret 0)
                else sbind (ping4_net_error sy sock e (be16_at (em_data m) 6)) (\<lambda>v.
                     sbind (smod (\<lambda>s. s\<lparr>ps_errno := saved_errno\<rparr>)) (\<lambda>_. sret v)))
              else sret 0)))"

subsection \<open>Sending\<close>

definition put_at :: "nat \<Rightarrow> bytes \<Rightarrow> bytes \<Rightarrow> bytes" where
  "put_at p xs bs = take p bs @ xs @ drop (p + length xs) bs"

text \<open>The header of an echo request with a zero checksum.\<close>

definition echo_header :: "16 word \<Rightarrow> 16 word \<Rightarrow> bytes" where
  "echo_header i sq = [of_nat ICMP_ECHO, 0, 0, 0] @ le16 i @ be16 sq"

definition ping4_probe :: "timeval \<Rightarrow> ping_rts \<Rightarrow> ping_rts" where
  "ping4_probe now rts =
     (let sq = nt16 rts + 1; cc = nat (datalen rts) + 8;
          out = put_at 0 (echo_header (word_of_int (ident rts)) sq) (outpack rts);
          out = (if timing rts then put_at 8 (if opt_latency rts then put_timeval now else replicate TIMEVAL_SIZE 0) out else out);
          ck = ping_in_cksum (take cc out) 0;
          out = put_at 2 (le16 ck) out;
          out = (if timing rts \<and> \<not> opt_latency rts
                 then put_at 2 (le16 (ping_in_cksum (put_timeval now) (NOT ck))) (put_at 8 (put_timeval now) out)
                 else out)
      in rts\<lparr>outpack := out, rcvd_tbl := rcvd_clear sq (rcvd_tbl rts)\<rparr>)"

definition ping4_send_probe :: "'k ping_sys \<Rightarrow> ('k, int) pm" where
  "ping4_send_probe sy =
     sbind (sget rts_of) (\<lambda>rts.
     sbind (if timing rts then syscall (sy_now sy) else sret \<lparr>tvl_sec = 0, tvl_usec = 0\<rparr>) (\<lambda>now.
     sbind (mod_rts (ping4_probe now)) (\<lambda>_.
     sbind (sget rts_of) (\<lambda>rts.
     sbind (syscall (sy_sendto sy (take (nat (datalen rts) + 8) (outpack rts)))) (\<lambda>r.
     case r of
       Inl en \<Rightarrow> sbind (smod (\<lambda>s. s\<lparr>ps_errno := en\<rparr>)) (\<lambda>_. sret (- 1))
     | Inr i \<Rightarrow> sret (if i = datalen rts + 8 then 0 else i))))))"

subsection \<open>Receiving\<close>

text \<open>The time to live and the options that come as control messages.\<close>

definition ctl_ttl :: "cmsg list \<Rightarrow> int" where
  "ctl_ttl cs = fold (\<lambda>c t. case c of Cmsg_Ttl v \<Rightarrow> v | _ \<Rightarrow> t) cs 0"

definition ctl_opts :: "bytes \<Rightarrow> cmsg list \<Rightarrow> int \<times> bytes" where
  "ctl_opts buf cs = fold (\<lambda>c o1. case c of Cmsg_Retopts l bs \<Rightarrow> (l, bs) | _ \<Rightarrow> o1) cs (0, buf)"

definition echo_reply :: "recvd \<Rightarrow> timeval \<Rightarrow> ping_rts \<Rightarrow> nat \<Rightarrow> int \<Rightarrow> int \<Rightarrow> bool \<Rightarrow> string \<Rightarrow> reply" where
  "echo_reply msg tv rts hlen cc reply_ttl csfailed from =
     \<lparr>rp_payload = drop (hlen + 8) (rm_buf msg), rp_cc = cc, rp_seq = be16_at (rm_buf msg) (hlen + 6), rp_hops = reply_ttl,
      rp_csfailed = csfailed, rp_tv = tv, rp_from = from, rp_multicast = multicast rts,
      rp_wrong_source = (\<not> broadcast_pings rts \<and> \<not> multicast rts \<and> be32_at (rm_from msg) 4 \<noteq> whereto rts)\<rparr>"

definition pr_echo_reply :: "16 word \<Rightarrow> unit pio" where
  "pr_echo_reply sq = ping_print_uint '' icmp_seq='' [] ''seq'' (uint sq)"

text \<open>A redirect, a source quench or an error message that quotes a packet.\<close>

definition parse_quoting :: "'k ping_sys \<Rightarrow> socktype \<Rightarrow> recvd \<Rightarrow> nat \<Rightarrow> int \<Rightarrow> bool \<Rightarrow> nat \<Rightarrow> ('k, bool) pm" where
  "parse_quoting sy sock msg hlen cc csfailed type =
     (let buf = rm_buf msg; iph = hlen + 8
      in sbind (octet buf iph) (\<lambda>vihl.
         let icp1 = iph + 4 * (vihl mod 16)
         in if cc < 8 + 20 + 8 \<or> cc < 8 + 4 * int (vihl mod 16) + 8 then sret True
            else
              sbind (octet buf icp1) (\<lambda>type1.
              sbind (net32 buf (iph + 16)) (\<lambda>daddr.
              sbind (word16 buf (icp1 + 4)) (\<lambda>id1.
              sbind (net16 buf (icp1 + 6)) (\<lambda>seq1.
              sbind (sget rts_of) (\<lambda>rts.
              if type1 \<noteq> ICMP_ECHO \<or> daddr \<noteq> whereto rts \<or> \<not> is_ours rts sock id1 then sret True
              else if type \<noteq> ICMP_REDIRECT \<and> type \<noteq> ICMP_SOURCE_QUENCH
              then sbind (mod_rts (acknowledge seq1)) (\<lambda>_. sret False)
              else if opt_quiet rts \<or> opt_flood rts then sret True
              else
                sbind (timestamp sy) (\<lambda>_.
                sbind (pr_addr sy (rm_from msg)) (\<lambda>t.
                sbind (puts (''From '' @ t @ '': icmp_seq='' @ nat_dec (unat seq1) @ '' ''
                             @ (if csfailed then ''(BAD CHECKSUM)'' else []))) (\<lambda>_.
                sbind (octet buf (hlen + 1)) (\<lambda>code.
                sbind (net32 buf (hlen + 4)) (\<lambda>gw.
                sbind (pr_icmph sy type code (uint gw) (Some (buf, hlen))) (\<lambda>_.
                sret True)))))))))))))"

text \<open>Any other message is reported to a privileged user in verbose mode.\<close>

definition parse_other :: "'k ping_sys \<Rightarrow> recvd \<Rightarrow> nat \<Rightarrow> bool \<Rightarrow> nat \<Rightarrow> ('k, bool) pm" where
  "parse_other sy msg hlen csfailed type =
     (let buf = rm_buf msg
      in sbind (sget rts_of) (\<lambda>rts.
         if opt_flood rts \<and> \<not> (opt_verbose rts \<or> opt_quiet rts)
         then sbind (puts (if csfailed then ''!EC'' else ''!E'')) (\<lambda>_. sret False)
         else if \<not> opt_verbose rts \<or> uid rts \<noteq> 0 then sret False
         else
           sbind (swhen (opt_ptimeofday rts) (sbind (syscall (sy_now sy)) (\<lambda>now.
                  puts (int_dec (tvl_sec now) @ ''.'' @ pad_zero 6 (int_dec (tvl_usec now)) @ '' '')))) (\<lambda>_.
           sbind (pr_addr sy (rm_from msg)) (\<lambda>t.
           sbind (puts (''From '' @ t @ '': '')) (\<lambda>_.
           if csfailed then sbind (puts (''(BAD CHECKSUM)'' @ nl)) (\<lambda>_. sret False)
           else
             sbind (octet buf (hlen + 1)) (\<lambda>code.
             sbind (net32 buf (hlen + 4)) (\<lambda>gw.
             sbind (pr_icmph sy type code (uint gw) (Some (buf, hlen))) (\<lambda>_.
             sret False))))))))"

text \<open>The ICMP part: \<open>opts\<close> and \<open>olen\<close> are the options, with the octets behind them.\<close>

definition parse_icmp ::
  "'k ping_sys \<Rightarrow> socktype \<Rightarrow> recvd \<Rightarrow> timeval \<Rightarrow> nat \<Rightarrow> int \<Rightarrow> bytes \<Rightarrow> nat \<Rightarrow> nat \<Rightarrow> ('k, bool) pm" where
  "parse_icmp sy sock msg tv hlen reply_ttl opts opt olen =
     (let buf = rm_buf msg; cc = rm_cc msg - int hlen;
          csfailed = (ping_in_cksum (take (nat cc) (drop hlen buf)) 0 \<noteq> 0)
      in sbind (octet buf hlen) (\<lambda>type.
         if type = ICMP_ECHOREPLY
         then
           sbind (word16 buf (hlen + 4)) (\<lambda>i.
           sbind (net16 buf (hlen + 6)) (\<lambda>sq.
           sbind (sget rts_of) (\<lambda>rts.
           if \<not> is_ours rts sock i then sret True
           else
             sbind (pr_addr sy (rm_from msg)) (\<lambda>from.
             sbind (syscall (sy_now sy)) (\<lambda>now.
             sbind (on_io (gather_statistics (Some (pr_echo_reply sq)) now
                      (echo_reply msg tv rts hlen cc reply_ttl csfailed from))) (\<lambda>stop.
             if stop then sret False
             else
               sbind (sget rts_of) (\<lambda>rts.
               sbind (swhen (opt_audible rts) (puts [CHR 0x07])) (\<lambda>_.
               sbind (swhen (\<not> opt_flood rts)
                        (sbind (pr_options sy opts opt olen) (\<lambda>_. swhen (\<not> opt_json rts) (puts nl)))) (\<lambda>_.
               sret False)))))))))
         else if type = ICMP_ECHO then sret True
         else if type \<in> {ICMP_SOURCE_QUENCH, ICMP_REDIRECT, ICMP_DEST_UNREACH, ICMP_TIME_EXCEEDED, ICMP_PARAMETERPROB}
         then parse_quoting sy sock msg hlen cc csfailed type
         else parse_other sy msg hlen csfailed type))"

definition ping4_parse_reply :: "'k ping_sys \<Rightarrow> socktype \<Rightarrow> recvd \<Rightarrow> timeval \<Rightarrow> ('k, bool) pm" where
  "ping4_parse_reply sy sock msg tv =
     (if sock = SOCK_RAW
      then
        sbind (octet (rm_buf msg) 0) (\<lambda>vihl.
        let hlen = 4 * (vihl mod 16)
        in if rm_cc msg < int hlen + 8 \<or> vihl mod 16 < 5
           then
             sbind (sget rts_of) (\<lambda>rts.
             sbind (swhen (opt_verbose rts)
                      (sbind (pr_addr sy (rm_from msg)) (\<lambda>t.
                       ping_error sy 0 0 (''packet too short ('' @ int_dec (rm_cc msg) @ '' bytes) from '' @ t)))) (\<lambda>_.
             sret True))
           else
             sbind (octet (rm_buf msg) 8) (\<lambda>ttl.
             parse_icmp sy sock msg tv hlen (int ttl) (rm_buf msg) 20 (hlen - 20)))
      else case ctl_opts (rm_buf msg) (rm_cmsgs msg) of
             (olen, opts) \<Rightarrow> parse_icmp sy sock msg tv 0 (ctl_ttl (rm_cmsgs msg)) opts 0 (nat olen))"

definition ping4_install_filter :: "'k ping_sys \<Rightarrow> ('k, unit) pm" where
  "ping4_install_filter sy =
     sbind (sget ps_filtered) (\<lambda>once.
     swhen (\<not> once)
       (sbind (smod (\<lambda>s. s\<lparr>ps_filtered := True\<rparr>)) (\<lambda>_.
        sbind (sget rts_of) (\<lambda>rts.
        sbind (setopt sy (SO_ATTACH_FILTER (word_of_int (htons (ident rts))))) (\<lambda>r.
        case r of
          None \<Rightarrow> sret ()
        | Some en \<Rightarrow> ping_error sy 0 en ''WARNING: failed to install socket filter'')))))"

definition ping4_data_bytes :: "ping_rts \<Rightarrow> int" where
  "ping4_data_bytes rts = datalen rts + 8 + optlen rts + 20"

definition ping4_print_data_bytes :: "('k, unit) pm" where
  "ping4_print_data_bytes =
     sbind (sget rts_of) (\<lambda>rts. puts (int_dec (datalen rts) @ ''('' @ int_dec (ping4_data_bytes rts) @ '') bytes of data.'' @ nl))"

definition ping4_source :: "('k, string) pm" where
  "ping4_source = sget (\<lambda>s. inet_ntoa (source_addr (rts_of s)))"

definition ping4_target :: "('k, string) pm" where
  "ping4_target = sget (\<lambda>s. inet_ntoa (whereto (rts_of s)))"

definition ping4_func_set :: "'k ping_sys \<Rightarrow> socktype \<Rightarrow> 'k ping_func_set" where
  "ping4_func_set sy sock =
     \<lparr>send_probe = ping4_send_probe sy, receive_error_msg = ping4_receive_error_msg sy sock,
      parse_reply = ping4_parse_reply sy sock, install_filter = ping4_install_filter sy,
      ping_print_data_bytes = ping4_print_data_bytes, ping_source = ping4_source, ping_target = ping4_target\<rparr>"

subsection \<open>The schedule is left alone\<close>

lemmas sched_intros = keeps_bind [OF same_sched_rel(2)] keeps_pure [OF same_sched_rel(1)]
  keeps_swhen [OF same_sched_rel(1)] keeps_sopt [OF same_sched_rel(1)] keeps_on_io [OF keeps_emit] keeps_syscall
  keeps_ping_error keeps_timestamp

lemma keeps_reads [simp]:
  "keeps same_sched (octet bs i)" "keeps same_sched (word16 bs i)" "keeps same_sched (net16 bs i)" "keeps same_sched (net32 bs i)"
  by (simp_all add: octet_def word16_def net16_def net32_def sched_intros)

lemma keeps_setopt [simp]: "keeps same_sched (setopt sy opt)"
  unfolding setopt_def
  by (intro sched_intros) (auto intro!: sched_intros keeps_smod split: option.split)

lemma keeps_pr_addr [simp]: "keeps same_sched (pr_addr sy sa)"
  unfolding pr_addr_def pr_addr_as_def pr_addr_fresh_def Let_def
  by (auto intro!: sched_intros keeps_smod split: option.split)

lemma keeps_print_hop_addr [simp]: "keeps same_sched (print_hop_addr sy bs p)"
  unfolding print_hop_addr_def by (auto intro!: sched_intros)

lemma keeps_addr_lines [simp]: "keeps same_sched (addr_lines sy bs n p)"
  by (induction sy bs n p rule: addr_lines.induct) (auto intro!: sched_intros)

lemma keeps_ts_lines [simp]: "keeps same_sched (ts_lines sy bs addrs n i p a b)"
  by (induction n arbitrary: i p a b) (auto intro!: sched_intros simp: Let_def split: prod.split)

lemma keeps_pr_options_loop [simp]: "keeps same_sched (pr_options_loop sy bs n totlen opt)"
  by (induction n arbitrary: totlen opt)
     (auto intro!: sched_intros keeps_smod simp: pr_srr_def pr_rr_def pr_ts_def Let_def)

lemma keeps_pr_icmph [simp]: "keeps same_sched (pr_icmph sy type code info icp)"
  unfolding pr_icmph_def quoted_iph_def pr_iph_def pr_options_def Let_def
  by (auto intro!: sched_intros split: option.split)

lemma rts_sched [simp]:
  "sched_rts (acknowledge sq rts) = sched_rts rts" "sched_rts (rts\<lparr>nerrors := n\<rparr>) = sched_rts rts"
  by (simp_all add: acknowledge_def sched_rts_def Let_def)

lemma keeps_ping_print_error_packet: "keeps same_rts (ping_print_error_packet t sq)"
  unfolding ping_print_error_packet_def
  by (intro keeps_bind same_rts_rel keeps_pure) (simp add: keeps_pure same_rts_rel)

lemma keeps_ping4_receive_error_msg: "keeps same_sched (ping4_receive_error_msg sy sock)"
  unfolding ping4_receive_error_msg_def ping4_local_error_def ping4_net_error_def
  by (auto intro!: sched_intros keeps_smod keeps_mod_rts keeps_on_io keeps_ping_print_error_packet
      split: sum.split option.split)

lemma ping4_probe_sched [simp]: "sched_rts (ping4_probe now rts) = sched_rts rts"
  by (simp add: ping4_probe_def sched_rts_def Let_def)

lemma keeps_ping4_send_probe: "keeps same_sched (ping4_send_probe sy)"
  unfolding ping4_send_probe_def
  by (auto intro!: sched_intros keeps_smod keeps_mod_rts split: sum.split)

interpretation ping4: ping_protocol "ping4_func_set sy sock" for sy sock
  by unfold_locales (simp_all add: ping4_func_set_def keeps_ping4_send_probe keeps_ping4_receive_error_msg)

subsection \<open>Requests\<close>

lemma put_at_length [simp]: "p + length xs \<le> length bs \<Longrightarrow> length (put_at p xs bs) = length bs"
  by (simp add: put_at_def)

lemma length_words [simp]: "length (le16 w) = 2" "length (be16 w) = 2" "length (le64 v) = 8" "length (put_timeval t) = 16"
  by (simp_all add: le16_def be16_def le64_def put_timeval_def)

lemma length_echo_header [simp]: "length (echo_header i sq) = 8"
  by (simp add: echo_header_def)

text \<open>The request as it is on the wire.\<close>

definition echo_body :: "timeval \<Rightarrow> ping_rts \<Rightarrow> bytes" where
  "echo_body now rts =
     (if timing rts then put_timeval now @ take (nat (datalen rts) - 16) (drop 24 (outpack rts))
      else take (nat (datalen rts)) (drop 8 (outpack rts)))"

definition request_octets :: "timeval \<Rightarrow> ping_rts \<Rightarrow> 16 word \<Rightarrow> bytes" where
  "request_octets now rts ck =
     [of_nat ICMP_ECHO, 0] @ le16 ck @ le16 (word_of_int (ident rts)) @ be16 (nt16 rts + 1) @ echo_body now rts"

definition probe_ok :: "ping_rts \<Rightarrow> bool" where
  "probe_ok rts \<longleftrightarrow> length (outpack rts) = MAXPACKET \<and> 0 \<le> datalen rts \<and> datalen rts \<le> 65507
     \<and> (timing rts \<longrightarrow> datalen rts \<ge> int TIMEVAL_SIZE)"

lemma put_at_append: "length xs = p \<Longrightarrow> put_at p ys (xs @ zs) = xs @ ys @ drop (length ys) zs"
  by (simp add: put_at_def)

lemma take_behind: "length xs = p \<Longrightarrow> take (n + p) (xs @ ys) = xs @ take n ys"
  by simp

lemma echo_header_ck: "echo_header i sq = [of_nat ICMP_ECHO, 0] @ le16 0 @ le16 i @ be16 sq"
  by (simp add: echo_header_def le16_def)

lemma put_checksum:
  "put_at 2 (le16 c) ([a, b] @ le16 c0 @ r) = [a, b] @ le16 c @ r"
  using put_at_append [of "[a, b]" 2 "le16 c" "le16 c0 @ r"] by simp

lemma outpack_probe:
  assumes "probe_ok rts"
  shows "\<exists>ck. outpack (ping4_probe now rts)
      = [of_nat ICMP_ECHO, 0] @ le16 ck @ le16 (word_of_int (ident rts)) @ be16 (nt16 rts + 1)
        @ (if timing rts then put_timeval now @ drop 24 (outpack rts) else drop 8 (outpack rts))
    \<and> ck = ping_in_cksum (request_octets now rts 0) 0"
proof -
  let ?i = "word_of_int (ident rts) :: 16 word" and ?sq = "nt16 rts + 1" and ?n = "nat (datalen rts)"
  let ?h = "echo_header ?i ?sq" and ?d = "drop 8 (outpack rts)"
  let ?hd = "[of_nat ICMP_ECHO, 0] @ le16 0 @ le16 ?i @ be16 ?sq"
  have len: "length (outpack rts) = 65535" "?n \<le> 65507" using assms by (simp_all add: probe_ok_def nat_le_iff)
  have o0: "put_at 0 ?h (outpack rts) = ?hd @ ?d" by (simp add: put_at_def echo_header_ck)
  have body: "put_at 8 xs (?hd @ zs) = ?hd @ xs @ drop (length xs) zs" for xs zs by (rule put_at_append) simp
  have hdr: "put_at 2 (le16 c) (?hd @ r) = [of_nat ICMP_ECHO, 0] @ le16 c @ le16 ?i @ be16 ?sq @ r" for c r
    using put_checksum [of c "of_nat ICMP_ECHO" 0 0 "le16 ?i @ be16 ?sq @ r"] by (simp only: append_assoc)
  have req: "request_octets now rts c = [of_nat ICMP_ECHO, 0] @ le16 c @ le16 ?i @ be16 ?sq @ echo_body now rts" for c
    by (simp add: request_octets_def)
  show ?thesis
  proof (cases "timing rts")
    case False
    have "take (?n + 8) (?hd @ ?d) = request_octets now rts 0"
      using False take_behind [of ?hd 8 ?n ?d] by (simp only: req echo_body_def) simp
    then show ?thesis using False by (simp only: ping4_probe_def Let_def o0 hdr if_False simp_thms) simp
  next
    case True
    then have n: "16 \<le> ?n" using assms by (simp add: probe_ok_def le_nat_iff)
    let ?r = "drop 24 (outpack rts)"
    have b: "put_at 8 xs (?hd @ ?d) = ?hd @ xs @ ?r" if "length xs = 16" for xs using that by (simp only: body) simp
    have tk: "take (?n + 8) (?hd @ xs @ ?r) = ?hd @ xs @ take (?n - 16) ?r" if "length xs = 16" for xs
      using that n take_behind [of ?hd 8 ?n "xs @ ?r"] by simp
    have rq: "?hd @ put_timeval now @ take (?n - 16) ?r = request_octets now rts 0"
      using True by (simp add: req echo_body_def)
    show ?thesis
    proof (cases "opt_latency rts")
      case lat: True
      show ?thesis
        using True lat by (simp only: ping4_probe_def Let_def o0 b length_words tk rq hdr if_True simp_thms) simp
    next
      case lat: False
      let ?ck = "ping_in_cksum (?hd @ replicate 16 0 @ take (?n - 16) ?r) 0"
      have "ping_fits (?hd @ put_timeval now @ take (?n - 16) ?r)" using len n by (simp add: ping_fits_def)
      from ping_cksum_update [OF _ _ this]
      have upd: "ping_in_cksum (put_timeval now) (NOT ?ck) = ping_in_cksum (request_octets now rts 0) 0"
        by (simp only: rq length_words) simp
      have b2: "put_at 8 (put_timeval now) ([of_nat ICMP_ECHO, 0] @ le16 c @ le16 ?i @ be16 ?sq @ replicate 16 0 @ ?r)
          = [of_nat ICMP_ECHO, 0] @ le16 c @ le16 ?i @ be16 ?sq @ put_timeval now @ ?r" for c
        using put_at_append [of "[of_nat ICMP_ECHO, 0] @ le16 c @ le16 ?i @ be16 ?sq" 8 "put_timeval now" "replicate 16 0 @ ?r"]
        by simp
      have b3: "put_at 2 (le16 c) ([of_nat ICMP_ECHO, 0] @ le16 c0 @ z) = [of_nat ICMP_ECHO, 0] @ le16 c @ z" for c c0 z
        by (rule put_checksum)
      show ?thesis
        using True lat
        by (simp only: ping4_probe_def Let_def o0 b length_replicate tk hdr b2 b3 upd if_True if_False simp_thms) simp
    qed
  qed
qed

lemma probe_request:
  assumes "probe_ok rts"
  shows "take (nat (datalen rts) + 8) (outpack (ping4_probe now rts))
    = request_octets now rts (ping_in_cksum (request_octets now rts 0) 0)"
proof -
  obtain ck where ck: "outpack (ping4_probe now rts)
      = [of_nat ICMP_ECHO, 0] @ le16 ck @ le16 (word_of_int (ident rts)) @ be16 (nt16 rts + 1)
        @ (if timing rts then put_timeval now @ drop 24 (outpack rts) else drop 8 (outpack rts))"
    "ck = ping_in_cksum (request_octets now rts 0) 0"
    using outpack_probe [OF assms] by blast
  let ?hd = "[of_nat ICMP_ECHO, 0] @ le16 ck @ le16 (word_of_int (ident rts)) @ be16 (nt16 rts + 1)"
  have n: "timing rts \<Longrightarrow> 16 \<le> nat (datalen rts)" using assms by (simp add: probe_ok_def le_nat_iff)
  have "take (nat (datalen rts) + 8) (?hd @ z) = ?hd @ take (nat (datalen rts)) z" for z
    by (rule take_behind) simp
  moreover have "take (nat (datalen rts)) (if timing rts then put_timeval now @ drop 24 (outpack rts) else drop 8 (outpack rts))
      = echo_body now rts" using n by (simp add: echo_body_def)
  ultimately have "take (nat (datalen rts) + 8) (outpack (ping4_probe now rts)) = ?hd @ echo_body now rts"
    unfolding ck(1) by (simp only: append_assoc [symmetric])
  also have "\<dots> = request_octets now rts ck" by (simp only: request_octets_def append_assoc)
  finally show ?thesis by (simp only: ck(2))
qed

lemma request_length: "probe_ok rts \<Longrightarrow> length (request_octets now rts ck) = nat (datalen rts) + 8"
  by (auto simp: request_octets_def echo_body_def probe_ok_def min_def nat_le_iff le_nat_iff)

lemma probe_request_checksum:
  assumes "probe_ok rts"
  shows "ping_in_cksum (request_octets now rts (ping_in_cksum (request_octets now rts 0) 0)) 0 = 0"
proof -
  let ?post = "le16 (word_of_int (ident rts)) @ be16 (nt16 rts + 1) @ echo_body now rts"
  have r: "request_octets now rts c = [of_nat ICMP_ECHO, 0] @ le16 c @ ?post" for c by (simp add: request_octets_def)
  have z: "le16 0 = [0, 0]" by (simp add: le16_def)
  have "ping_fits (request_octets now rts c)" for c
    using request_length [OF assms, of now c] assms by (simp add: ping_fits_def probe_ok_def nat_le_iff)
  then have "ping_fits ([of_nat ICMP_ECHO, 0] @ [0, 0] @ ?post)"
    "ping_fits ([of_nat ICMP_ECHO, 0] @ le16 (ping_in_cksum ([of_nat ICMP_ECHO, 0] @ [0, 0] @ ?post) 0) @ ?post)"
    unfolding r by (metis z)+
  from pg.verify [OF _ this] show ?thesis unfolding r z by simp
qed

text \<open>
Every request that \<open>ping4_send_probe\<close> hands to the kernel has the length the user asked for, is
an echo request with the identifier of the run and the number of the request, carries the time and
the data, and has a right checksum, although the checksum is first taken over a packet without the
time and then updated; and the table forgets an older answer with the same sequence number.
\<close>
lemma ping4_request:
  fixes now :: timeval
  assumes "length (outpack rts) = MAXPACKET" "0 \<le> datalen rts" "datalen rts \<le> 65507"
    and "timing rts \<longrightarrow> int TIMEVAL_SIZE \<le> datalen rts"
  defines "pkt \<equiv> take (nat (datalen rts) + 8) (outpack (ping4_probe now rts))"
  shows "pkt = [8, 0] @ le16 (ping_in_cksum ([8, 0, 0, 0] @ drop 4 pkt) 0)
      @ le16 (word_of_int (ident rts)) @ be16 (word_of_int (ntransmitted rts + 1)) @ echo_body now rts
    \<and> length pkt = nat (datalen rts) + 8 \<and> ping_in_cksum pkt 0 = 0
    \<and> rcvd_tbl (ping4_probe now rts) = rcvd_clear (word_of_int (ntransmitted rts + 1)) (rcvd_tbl rts)"
proof -
  have ok: "probe_ok rts" using assms by (simp add: probe_ok_def)
  have sq: "nt16 rts + 1 = word_of_int (ntransmitted rts + 1)" by (simp add: nt16_def)
  have p: "pkt = request_octets now rts (ping_in_cksum (request_octets now rts 0) 0)"
    unfolding pkt_def by (rule probe_request [OF ok])
  have z: "request_octets now rts 0 = [8, 0, 0, 0] @ drop 4 (request_octets now rts c)" for c
    by (simp add: request_octets_def le16_def numeral_eq_Suc)
  have "pkt = [8, 0] @ le16 (ping_in_cksum ([8, 0, 0, 0] @ drop 4 pkt) 0)
      @ le16 (word_of_int (ident rts)) @ be16 (word_of_int (ntransmitted rts + 1)) @ echo_body now rts"
    unfolding p z [symmetric] by (simp only: request_octets_def sq) simp
  moreover have "length pkt = nat (datalen rts) + 8" unfolding p by (rule request_length [OF ok])
  moreover have "ping_in_cksum pkt 0 = 0" unfolding p by (rule probe_request_checksum [OF ok])
  moreover have "rcvd_tbl (ping4_probe now rts) = rcvd_clear (word_of_int (ntransmitted rts + 1)) (rcvd_tbl rts)"
    by (simp add: ping4_probe_def Let_def sq)
  ultimately show ?thesis by blast
qed

subsection \<open>No read outside the packet\<close>

definition safe :: "('k, 'a) pm \<Rightarrow> bool" where
  "safe m \<longleftrightarrow> (\<forall>s. fst (m s) \<noteq> Inl Ping_Out_Of_Bounds)"

lemma safe_bind: "safe m \<Longrightarrow> (\<And>a. safe (f a)) \<Longrightarrow> safe (sbind m f)"
  unfolding safe_def sbind_def by (auto split: prod.splits sum.splits) (metis fst_conv)+

lemma safe_basic:
  "safe (sret a)" "safe (sget f)" "safe (smod g)" "safe (syscall h)" "safe (mod_rts u)" "safe (on_io m)"
  "e \<noteq> Ping_Out_Of_Bounds \<Longrightarrow> safe (sthrow e)" "b \<or> e \<noteq> Ping_Out_Of_Bounds \<Longrightarrow> safe (sguard b e)"
  by (auto simp: safe_def serr_defs syscall_def mod_rts_def on_io_def split: prod.split sum.split)

lemma safe_swhen: "(b \<Longrightarrow> safe m) \<Longrightarrow> safe (swhen b m)"
  by (simp add: swhen_def safe_basic)

lemma safe_read:
  "i < length bs \<Longrightarrow> safe (sbind (octet bs i) f) \<longleftrightarrow> safe (f (unat (bs ! i)))"
  "i + 1 < length bs \<Longrightarrow> safe (sbind (word16 bs i) g) \<longleftrightarrow> safe (g (le16_at bs i))"
  "i + 1 < length bs \<Longrightarrow> safe (sbind (net16 bs i) g) \<longleftrightarrow> safe (g (be16_at bs i))"
  "i + 3 < length bs \<Longrightarrow> safe (sbind (net32 bs i) h) \<longleftrightarrow> safe (h (be32_at bs i))"
  by (simp_all add: octet_def word16_def net16_def net32_def sopt_def sbind_def serr_defs safe_def)

lemma safe_read_only:
  "i < length bs \<Longrightarrow> safe (octet bs i)" "i + 1 < length bs \<Longrightarrow> safe (word16 bs i)"
  "i + 1 < length bs \<Longrightarrow> safe (net16 bs i)" "i + 3 < length bs \<Longrightarrow> safe (net32 bs i)"
  by (simp_all add: octet_def word16_def net16_def net32_def sopt_def safe_basic)

lemmas safe_intros = safe_bind safe_basic safe_swhen

lemma safe_ping_error [simp]: "safe (ping_error sy st n msg)"
  unfolding ping_error_def by (auto intro!: safe_intros)

lemma safe_timestamp [simp]: "safe (timestamp sy)"
  unfolding timestamp_def by (auto intro!: safe_intros)

lemma safe_pr_addr [simp]: "safe (pr_addr sy sa)"
  unfolding pr_addr_def pr_addr_as_def pr_addr_fresh_def Let_def by (auto intro!: safe_intros split: option.split)

lemma safe_print_hop_addr: "p + 3 < length bs \<Longrightarrow> safe (print_hop_addr sy bs p)"
  unfolding print_hop_addr_def by (auto intro!: safe_intros safe_read_only)

lemma safe_addr_lines: "p + 4 * n \<le> length bs \<Longrightarrow> safe (addr_lines sy bs n p)"
  by (induction n arbitrary: p) (auto intro!: safe_intros safe_print_hop_addr)

lemma safe_ts_lines:
  "0 < i \<Longrightarrow> int p + (i + 3) div 4 * 4 \<le> int (length bs) \<Longrightarrow> safe (ts_lines sy bs addrs n i p a b)"
proof (induction n arbitrary: addrs i p a b)
  case (Suc n)
  have d: "(i - 5) div 4 = (i + 3) div 4 - 2" "(i - 1) div 4 = (i + 3) div 4 - 1" by presburger+
  have "1 \<le> (i + 3) div 4" using Suc.prems(1) by (simp add: le_div_int)
  then have h: "p + 3 < length bs" using Suc.prems(2) by linarith
  have "\<not> i - 4 \<le> 0 \<Longrightarrow> 2 \<le> (i + 3) div 4" by linarith
  then have h': "\<not> i - 4 \<le> 0 \<Longrightarrow> p + 4 + 3 < length bs" using Suc.prems(2) by linarith
  show ?case
    using h h' Suc.prems
    by (auto intro!: safe_intros safe_read_only safe_print_hop_addr Suc.IH simp: safe_read Let_def d split: prod.split)
qed (simp add: safe_basic)

lemma safe_options:
  "opt + totlen + 3 \<le> length bs \<Longrightarrow> totlen \<le> MAX_IPOPTLEN \<Longrightarrow> safe (pr_options_loop sy bs n totlen opt)"
proof (induction n arbitrary: totlen opt)
  case (Suc n)
  show ?case
  proof (cases "totlen = 0")
    case False
    let ?kind = "unat (bs ! opt)" and ?olen = "unat (bs ! (opt + 1))"
    have len: "opt + 1 < length bs" "opt + 2 < length bs" "opt + 3 < length bs" using False Suc.prems by simp_all
    have srr: "safe (pr_srr sy bs opt k)" if "?olen \<le> totlen" for k
      unfolding pr_srr_def
      by (rule safe_bind [OF safe_basic(6)])
         (use that Suc.prems(1) len in \<open>auto simp: safe_read intro!: safe_swhen safe_addr_lines\<close>)
    have rr: "safe (pr_rr sy bs opt)" if "?olen \<le> totlen"
      unfolding pr_rr_def Let_def safe_read(1) [OF len(1)] safe_read(1) [OF len(2)]
      by (use that Suc.prems in \<open>auto intro!: safe_intros safe_addr_lines\<close>)
    have ts: "safe (pr_ts sy bs opt)" if "?olen \<le> totlen"
      unfolding pr_ts_def Let_def safe_read(1) [OF len(1)] safe_read(1) [OF len(2)] safe_read(1) [OF len(3)]
      by (use that Suc.prems in \<open>auto intro!: safe_intros safe_read_only safe_ts_lines\<close>)
    have rest: "safe (pr_options_loop sy bs n (totlen - 1) (opt + 1))"
      "?olen \<le> totlen \<Longrightarrow> safe (pr_options_loop sy bs n (totlen - ?olen) (opt + ?olen))"
      using Suc.prems False by (auto intro!: Suc.IH)
    have "opt < length bs" using len by simp
    with False len show ?thesis
      by (auto simp: safe_read not_less intro!: safe_intros srr rr ts rest [simplified])
  qed (simp add: safe_basic)
qed (simp add: safe_basic)

lemma safe_pr_iph:
  assumes "ip + 20 \<le> length bs" "ip + 4 * (unat (bs ! ip) mod 16) + 3 \<le> length bs"
  shows "safe (pr_iph sy bs ip)"
proof -
  have "4 * (unat (bs ! ip) mod 16) \<le> 60" by (simp add: less_Suc_eq_le [symmetric])
  then have "ip + 20 + (4 * (unat (bs ! ip) mod 16) - 20) + 3 \<le> length bs \<or> 4 * (unat (bs ! ip) mod 16) - 20 = 0"
    "4 * (unat (bs ! ip) mod 16) - 20 \<le> MAX_IPOPTLEN" using assms by auto
  then have "safe (pr_options sy bs (ip + 20) (4 * (unat (bs ! ip) mod 16) - 20))"
    unfolding pr_options_def by (elim disjE) (simp_all add: safe_options safe_basic)
  with assms(1) show ?thesis unfolding pr_iph_def Let_def by (auto simp: safe_read intro!: safe_intros)
qed

lemma safe_pr_icmph:
  assumes "p + 8 \<le> length bs" and "type \<in> {3, 4, 5, 11, 12} \<Longrightarrow> safe (pr_iph sy bs (p + 8))"
  shows "safe (pr_icmph sy type code info (Some (bs, p)))"
  using assms unfolding pr_icmph_def quoted_iph_def by (auto intro!: safe_intros safe_read_only)

lemma safe_parse_quoting:
  assumes "0 \<le> cc" "int hlen + cc \<le> int (length (rm_buf msg))" "hlen + 8 < length (rm_buf msg)"
  shows "safe (parse_quoting sy sock msg hlen cc csfailed type)"
proof -
  let ?buf = "rm_buf msg" and ?n = "4 * (unat (rm_buf msg ! (hlen + 8)) mod 16)"
  show ?thesis
  proof (cases "cc < 8 + 20 + 8 \<or> cc < 8 + int ?n + 8")
    case True
    then show ?thesis using assms(3) unfolding parse_quoting_def by (auto simp: safe_read safe_basic Let_def)
  next
    case False
    then have l: "hlen + 36 \<le> length ?buf" "hlen + 8 + ?n + 8 \<le> length ?buf" using assms(2) by linarith+
    have "safe (pr_iph sy ?buf (hlen + 8))" using l by (intro safe_pr_iph) simp_all
    then have "safe (pr_icmph sy type c i (Some (?buf, hlen)))" for c i using l by (intro safe_pr_icmph) simp_all
    with False l show ?thesis
      unfolding parse_quoting_def by (auto simp: safe_read Let_def intro!: safe_intros safe_read_only)
  qed
qed

lemma safe_parse_other:
  assumes "hlen + 8 \<le> length (rm_buf msg)" "type \<notin> {3, 4, 5, 11, 12}"
  shows "safe (parse_other sy msg hlen csfailed type)"
  using assms unfolding parse_other_def Let_def
  by (auto intro!: safe_intros safe_read_only safe_pr_icmph)

lemma safe_parse_icmp:
  assumes "int hlen + 8 \<le> rm_cc msg" "rm_cc msg \<le> int (length (rm_buf msg))" "20 \<le> hlen" "hlen \<le> 60"
    "68 < length (rm_buf msg)"
  shows "safe (parse_icmp sy sock msg tv hlen t (rm_buf msg) 20 (hlen - 20))"
proof -
  let ?buf = "rm_buf msg"
  have l: "hlen + 8 \<le> length ?buf" "hlen + 8 < length ?buf" using assms by linarith+
  have o: "safe (pr_options sy ?buf 20 (hlen - 20))"
    unfolding pr_options_def using assms l by (intro safe_options) simp_all
  have q: "safe (parse_quoting sy sock msg hlen (rm_cc msg - int hlen) c ty)" for c ty
    using assms l by (intro safe_parse_quoting) simp_all
  have r: "safe (parse_other sy msg hlen c ty)" if "ty \<notin> {3, 4, 5, 11, 12}" for c ty
    using l that by (intro safe_parse_other)
  from l show ?thesis
    unfolding parse_icmp_def Let_def by (auto simp: safe_read intro!: safe_intros safe_read_only o q r)
qed


subsection \<open>Replies\<close>

definition tv_us :: "timeval \<Rightarrow> int" where
  "tv_us tv = tvl_sec tv * 1000000 + tvl_usec tv"

definition tv_ok :: "timeval \<Rightarrow> bool" where
  "tv_ok tv \<longleftrightarrow> 0 \<le> tvl_usec tv \<and> tvl_usec tv < 1000000 \<and> - (2 ^ 63) \<le> tvl_sec tv \<and> tvl_sec tv < 2 ^ 63"

lemma trip_time_exact:
  assumes "tv_ok tv" "tv_ok sent" "tv_us sent \<le> tv_us tv" "tv_us tv - tv_us sent < 2147 * 1000000"
  shows "trip_time tv sent = Some (tv_us tv - tv_us sent)"
proof -
  have u: "0 \<le> tvl_usec tv" "tvl_usec tv < 1000000" "0 \<le> tvl_usec sent" "tvl_usec sent < 1000000"
    "tvl_sec sent * 1000000 + tvl_usec sent \<le> tvl_sec tv * 1000000 + tvl_usec tv"
    "tvl_sec tv * 1000000 + tvl_usec tv - (tvl_sec sent * 1000000 + tvl_usec sent) < 2147 * 1000000"
    using assms by (simp_all add: tv_ok_def tv_us_def)
  show ?thesis
  proof (cases "tvl_usec tv < tvl_usec sent")
    case True
    then have "\<not> tvl_sec tv - 1 - tvl_sec sent > 2147" "\<not> tvl_sec tv - 1 - tvl_sec sent < 0" using u by linarith+
    with True u show ?thesis by (simp add: trip_time_def tvsub_def Let_def tv_us_def)
  next
    case False
    then have "\<not> tvl_sec tv - tvl_sec sent > 2147" "\<not> tvl_sec tv - tvl_sec sent < 0" using u by linarith+
    with False u show ?thesis by (simp add: trip_time_def tvsub_def Let_def tv_us_def)
  qed
qed

lemma swp_pr_addr:
  "(\<And>t s'. ps_io s' = ps_io s \<Longrightarrow> Q (Inr t) s') \<Longrightarrow> swp (pr_addr sy sa) Q s"
  unfolding pr_addr_def pr_addr_as_def pr_addr_fresh_def Let_def
  by (auto simp: swp_eq split: option.split prod.split)

lemma gather_statistics_quiet:
  assumes "opt_quiet (io_rts i)"
  shows "gather_statistics p now r i = (Inr True, i\<lparr>io_rts := after_reply now r (io_rts i)\<rparr>)"
proof -
  obtain t d rts' where g: "gather_update now r (io_rts i) = (t, d, rts')" by (cases "gather_update now r (io_rts i)")
  then have "rts' = after_reply now r (io_rts i)" by (simp add: after_reply_def)
  then show ?thesis using assms g by (simp add: gather_statistics_def sbind_def put_rts_def serr_defs)
qed

text \<open>An echo reply with our identifier, in quiet mode.\<close>

lemma parse_icmp_reply:
  assumes "hlen + 8 \<le> length (rm_buf msg)" "rm_buf msg ! hlen = 0" "is_ours (rts_of s) sock (le16_at (rm_buf msg) (hlen + 4))"
    and "opt_quiet (rts_of s)"
  shows "swp (parse_icmp sy sock msg tv hlen t opts opt olen) (\<lambda>r s'. r = Inr False \<and>
      (\<exists>now from. rts_of s' = after_reply now (echo_reply msg tv (rts_of s) hlen (rm_cc msg - int hlen) t
         (ping_in_cksum (take (nat (rm_cc msg - int hlen)) (drop hlen (rm_buf msg))) 0 \<noteq> 0) from) (rts_of s))) s"
proof -
  have l: "hlen < length (rm_buf msg)" "hlen + 4 + 1 < length (rm_buf msg)" "hlen + 6 + 1 < length (rm_buf msg)"
    using assms(1) by linarith+
  show ?thesis
    unfolding parse_icmp_def Let_def octet_def word16_def net16_def sopt_def if_P [OF l(1)] if_P [OF l(2)] if_P [OF l(3)]
    by (simp add: swp_bind swp_sret swp_sget assms(2,3), rule swp_pr_addr)
       (use assms(4) in \<open>auto simp: swp_eq swp_def [of "on_io m" for m] on_io_def gather_statistics_quiet rts_of_def split: prod.split\<close>)
qed

text \<open>What stands before the ICMP message: the IP header on a raw socket, nothing on the other kind.\<close>

definition hdr_ok :: "socktype \<Rightarrow> bytes \<Rightarrow> bool" where
  "hdr_ok sock hdr \<longleftrightarrow>
     (if sock = SOCK_RAW then 20 \<le> length hdr \<and> length hdr = 4 * (unat (hdr ! 0) mod 16) else hdr = [])"

lemma parse_reply_icmp:
  assumes "hdr_ok sock hdr" "rm_buf msg = hdr @ body" "int (length hdr) + 8 \<le> rm_cc msg"
  obtains t opts opt olen
  where "ping4_parse_reply sy sock msg tv s = parse_icmp sy sock msg tv (length hdr) t opts opt olen s"
proof (cases sock)
  case SOCK_DGRAM
  obtain olen opts where o: "ctl_opts (rm_buf msg) (rm_cmsgs msg) = (olen, opts)" by (cases "ctl_opts (rm_buf msg) (rm_cmsgs msg)")
  then show ?thesis using that assms SOCK_DGRAM by (simp add: ping4_parse_reply_def hdr_ok_def)
next
  case SOCK_RAW
  then have h: "20 \<le> length hdr" "length hdr = 4 * (unat (hdr ! 0) mod 16)" using assms(1) by (simp_all add: hdr_ok_def)
  then have b: "0 < length (rm_buf msg)" "8 < length (rm_buf msg)" "rm_buf msg ! 0 = hdr ! 0"
    using assms(2) by (auto simp: nth_append)
  have "\<not> (rm_cc msg < int (4 * (unat (hdr ! 0) mod 16)) + 8 \<or> unat (hdr ! 0) mod 16 < 5)"
    using assms(3) h by linarith
  then have "ping4_parse_reply sy sock msg tv s
      = parse_icmp sy sock msg tv (length hdr) (uint (rm_buf msg ! 8)) (rm_buf msg) 20 (length hdr - 20) s"
    unfolding ping4_parse_reply_def octet_def sopt_def if_P [OF b(1)] if_P [OF b(2)] Let_def
    using SOCK_RAW b(3) h(2) by (simp add: sbind_def serr_defs)
  then show ?thesis by (rule that)
qed

text \<open>The fields of an echoed request in the buffer.\<close>

lemma reply_fields:
  assumes "buf = hdr @ [0, 0] @ le16 ck @ le16 i @ be16 sq @ body"
  shows "buf ! length hdr = 0" "le16_at buf (length hdr + 4) = i" "be16_at buf (length hdr + 6) = sq"
    "drop (length hdr + 8) buf = body" "drop (length hdr) buf = [0, 0] @ le16 ck @ le16 i @ be16 sq @ body"
    "length buf = length hdr + 8 + length body"
proof -
  show "le16_at buf (length hdr + 4) = i"
    using le16_at_le16 [of "hdr @ [0, 0] @ le16 ck" i "be16 sq @ body"] by (simp add: assms)
  show "be16_at buf (length hdr + 6) = sq"
    using be16_at_be16 [of "hdr @ [0, 0] @ le16 ck @ le16 i" sq body] by (simp add: assms)
qed (simp_all add: assms nth_append)


text \<open>A reply to another process leaves everything as it is.\<close>

lemma ping4_foreign_reply:
  assumes "hdr_ok SOCK_RAW hdr" "rm_buf msg = hdr @ [0, c] @ le16 ck @ le16 i @ rest" "2 \<le> length rest"
    and "int (length hdr) + 8 \<le> rm_cc msg" "uint i \<noteq> ident (rts_of s)"
  shows "ping4_parse_reply sy SOCK_RAW msg tv s = (Inr True, s)"
proof -
  have l: "length hdr < length (rm_buf msg)" "length hdr + 4 + 1 < length (rm_buf msg)" "length hdr + 6 + 1 < length (rm_buf msg)"
    using assms(2,3) by simp_all
  have f: "rm_buf msg ! length hdr = 0" "le16_at (rm_buf msg) (length hdr + 4) = i"
    using le16_at_le16 [of "hdr @ [0, c] @ le16 ck" i rest] by (simp_all add: assms(2) nth_append)
  obtain t opts opt olen where "ping4_parse_reply sy SOCK_RAW msg tv s = parse_icmp sy SOCK_RAW msg tv (length hdr) t opts opt olen s"
    by (rule parse_reply_icmp [OF assms(1,2,4)])
  also have "\<dots> = (Inr True, s)"
    unfolding parse_icmp_def Let_def octet_def word16_def net16_def sopt_def if_P [OF l(1)] if_P [OF l(2)] if_P [OF l(3)]
    using assms(5) by (simp add: sbind_def serr_defs f is_ours_def)
  finally show ?thesis .
qed

subsection \<open>Examples\<close>

definition demo_rts :: ping_rts where
  "demo_rts = rts_init\<lparr>timing := True, ident := 5, opt_quiet := True, cur_time := \<lparr>tv_sec = 6, tv_nsec = 0\<rparr>\<rparr>"

lemma demo_rts_simps:
  "length (outpack demo_rts) = MAXPACKET" "datalen demo_rts = 56" "timing demo_rts" "ident demo_rts = 5"
  "opt_quiet demo_rts" "interval demo_rts = 1000" "preload demo_rts = 1" "\<not> opt_adaptive demo_rts"
  "cur_time demo_rts = \<lparr>tv_sec = 6, tv_nsec = 0\<rparr>" "ntransmitted demo_rts = 0" "\<not> exiting demo_rts" "npackets demo_rts = 0"
  "\<not> opt_outstanding demo_rts" "length (rcvd_tbl demo_rts) = 1024" "nreceived demo_rts = 0" "rcvd_tbl demo_rts = rcvd_empty"
  by (simp_all add: demo_rts_def rts_init_def rcvd_empty_def)



lemma demo_gate:
  "pinger_gate demo_sys (demo_pst demo_rts) = (Inr None, demo_pst (demo_rts\<lparr>cur_time := \<lparr>tv_sec = 7, tv_nsec = 0\<rparr>\<rparr>))"
  by (simp add: pinger_gate_def deliver_def syscall_def mod_rts_def sbind_def serr_defs rts_of_def demo_pst_def demo_sys_def
      demo_rts_simps take_token_def Let_def report_outstanding_def swhen_def cdiv_def)

lemma demo_try:
  assumes "probe_ok rts" "datalen rts = 56" "timing rts" "opt_quiet rts"
  shows "\<exists>w s'. ountil (orun (pinger_try demo_sys (ping4_func_set demo_sys sock))) (demo_pst rts) = Some (Inr w, s')
    \<and> ntransmitted (rts_of s') = ntransmitted rts + 1 \<and> cur_time (rts_of s') = cur_time rts"
proof -
  let ?r = "ping4_probe \<lparr>tvl_sec = 7, tvl_usec = 0\<rparr> rts"
  have "length (take (nat (datalen rts) + 8) (outpack ?r)) = nat (datalen rts) + 8"
    unfolding probe_request [OF assms(1)] by (rule request_length [OF assms(1)])
  then have l: "min (length (outpack ?r)) 64 = 64" by (simp add: assms(2))
  have r: "datalen ?r = 56" "opt_quiet ?r" "ntransmitted ?r = ntransmitted rts" "cur_time ?r = cur_time rts"
    "opt_quiet (advance_ntransmitted ?r)"
    using assms by (simp_all add: ping4_probe_def advance_ntransmitted_def Let_def)
  show ?thesis
    by (subst ountil.simps)
       (simp add: orun_def pinger_try_def ping4_func_set_def ping4_send_probe_def syscall_def mod_rts_def sbind_def serr_defs
         rts_of_def demo_pst_def demo_sys_def swhen_def l r assms)
qed


end
