(* ===== verification/Node_Info.thy ===== *)
theory Node_Info
  imports Ping_Loop Md5
begin

text \<open>
  \<open>node_info.c\<close>: the node information queries of \<open>ping -6 -N\<close>: the options that choose query and subject,
  and the nonces that tie a reply to a request. The build keeps no table of nonces; it derives them
  from a secret with MD5 and caches the digest of the last sequence number in two static variables, fields of
  the state here. Name resolution, the IDN library (the identity in a build without it) and the
  resolver's \<open>dn_comp\<close> are parameters; allocation succeeds.
\<close>

record 'k ni_sys =
  nis_getaddrinfo :: "string \<Rightarrow> af \<Rightarrow> 'k \<Rightarrow> (int + bytes list) \<times> 'k"
  nis_idn :: "string \<Rightarrow> int + string"
  nis_dn_comp :: "string \<Rightarrow> nat \<Rightarrow> bytes option"

abbreviation IPUTILS_NI_QTYPE_DNSNAME :: int where "IPUTILS_NI_QTYPE_DNSNAME \<equiv> 2"
abbreviation IPUTILS_NI_QTYPE_IPV6ADDR :: int where "IPUTILS_NI_QTYPE_IPV6ADDR \<equiv> 3"
abbreviation IPUTILS_NI_QTYPE_IPV4ADDR :: int where "IPUTILS_NI_QTYPE_IPV4ADDR \<equiv> 4"
abbreviation (input) NI_NONCE_SIZE :: nat where "NI_NONCE_SIZE \<equiv> 8"
abbreviation (input) IFNAMSIZ :: nat where "IFNAMSIZ \<equiv> 16"

abbreviation ni_of :: "'k pst \<Rightarrow> ping_ni" where
  "ni_of s \<equiv> ni (rts_of s)"

definition mod_ni :: "(ping_ni \<Rightarrow> ping_ni) \<Rightarrow> ('k, unit) pm" where
  "mod_ni f = mod_rts (\<lambda>rts. rts\<lparr>ni := f (ni rts)\<rparr>)"

definition niquery_is_enabled :: "ping_ni \<Rightarrow> bool" where
  "niquery_is_enabled n \<longleftrightarrow> ni_query n \<ge> 0"

subsection \<open>Nonces\<close>

text \<open>The secret is a \<open>struct timeval\<close> and a process number; the four octets of padding stay as they are.\<close>

definition niquery_init_nonce :: "'k ping_sys \<Rightarrow> ('k, unit) pm" where
  "niquery_init_nonce sy =
     sbind (syscall (sy_now sy)) (\<lambda>now.
     mod_ni (\<lambda>n. n\<lparr>ni_secret := put_timeval now @ le_bytes (word_of_int (sy_pid sy)) @ drop 20 (ni_secret n)\<rparr>))"

text \<open>With \<open>filling\<close> the nonce with the digest filled in, otherwise the sequence number or -1.\<close>

definition nonce_digest :: "bytes \<Rightarrow> bytes \<Rightarrow> bytes" where
  "nonce_digest secret sq =
     iputils_MD5Final (iputils_MD5Update (iputils_MD5Update (iputils_MD5Init md5_any) secret) sq)"

definition niquery_nonce :: "bytes \<Rightarrow> bool \<Rightarrow> ('k, bytes + int) pm" where
  "niquery_nonce nonce filling =
     sbind (sget (\<lambda>s. (ps_nonce s, ni_of s))) (\<lambda>((digest, sq), n).
     let v = uint (le16_at nonce 0);
         digest = (if filling \<or> sq \<noteq> v \<or> sq = - 1 then nonce_digest (ni_secret n) (take 2 nonce) else digest)
     in sbind (smod (\<lambda>s. s\<lparr>ps_nonce := (digest, v)\<rparr>)) (\<lambda>_.
        sret (if filling then Inl (take 2 nonce @ take (NI_NONCE_SIZE - 2) digest)
              else Inr (if take (NI_NONCE_SIZE - 2) (drop 2 nonce) \<noteq> take (NI_NONCE_SIZE - 2) digest then - 1
                        else uint (be16_at nonce 0)))))"

definition niquery_fill_nonce :: "16 word \<Rightarrow> ('k, bytes) pm" where
  "niquery_fill_nonce sq =
     sbind (niquery_nonce (be16 sq @ replicate 6 0) True) (\<lambda>r. sret (case r of Inl nonce \<Rightarrow> nonce | Inr _ \<Rightarrow> []))"

definition niquery_check_nonce :: "bytes \<Rightarrow> ('k, int) pm" where
  "niquery_check_nonce nonce =
     sbind (niquery_nonce nonce False) (\<lambda>r. sret (case r of Inl _ \<Rightarrow> 0 | Inr v \<Rightarrow> v))"

subsection \<open>Options\<close>

text \<open>The handlers; the value is whether they return 0.\<close>

definition niquery_set_qtype :: "int \<Rightarrow> ('k, bool) pm" where
  "niquery_set_qtype type =
     sbind (sget ni_of) (\<lambda>n.
     if niquery_is_enabled n \<and> ni_query n \<noteq> type
     then sbind (puts (''Qtype conflict'' @ [CHR 0x0A])) (\<lambda>_. sret False)
     else sbind (mod_ni (\<lambda>n. n\<lparr>ni_query := type\<rparr>)) (\<lambda>_. sret True))"

definition niquery_option_name_handler :: "('k, bool) pm" where
  "niquery_option_name_handler = niquery_set_qtype IPUTILS_NI_QTYPE_DNSNAME"

definition niquery_option_ipv6_handler :: "('k, bool) pm" where
  "niquery_option_ipv6_handler = niquery_set_qtype IPUTILS_NI_QTYPE_IPV6ADDR"

definition niquery_option_ipv6_flag_handler :: "int \<Rightarrow> ('k, bool) pm" where
  "niquery_option_ipv6_flag_handler data =
     sbind (niquery_set_qtype IPUTILS_NI_QTYPE_IPV6ADDR) (\<lambda>ok.
     if \<not> ok then sret False
     else sbind (mod_ni (\<lambda>n. n\<lparr>ni_flag := ni_flag n OR data\<rparr>)) (\<lambda>_. sret True))"

definition niquery_option_ipv4_handler :: "('k, bool) pm" where
  "niquery_option_ipv4_handler = niquery_set_qtype IPUTILS_NI_QTYPE_IPV4ADDR"

definition niquery_option_ipv4_flag_handler :: "int \<Rightarrow> ('k, bool) pm" where
  "niquery_option_ipv4_flag_handler data =
     sbind (niquery_set_qtype IPUTILS_NI_QTYPE_IPV4ADDR) (\<lambda>ok.
     if \<not> ok then sret False
     else sbind (mod_ni (\<lambda>n. n\<lparr>ni_flag := ni_flag n OR data\<rparr>)) (\<lambda>_. sret True))"

definition niquery_is_subject_valid :: "ping_ni \<Rightarrow> bool" where
  "niquery_is_subject_valid n \<longleftrightarrow> ni_subject_type n \<ge> 0 \<and> ni_subject n \<noteq> None"

definition niquery_set_subject_type :: "int \<Rightarrow> ('k, bool) pm" where
  "niquery_set_subject_type type =
     sbind (sget ni_of) (\<lambda>n.
     if niquery_is_subject_valid n \<and> ni_subject_type n \<noteq> type
     then sbind (puts (''Subject type conflict'' @ [CHR 0x0A])) (\<lambda>_. sret False)
     else sbind (mod_ni (\<lambda>n. n\<lparr>ni_subject_type := type\<rparr>)) (\<lambda>_. sret True))"

definition niquery_option_subject_addr_handler :: "'k ni_sys \<Rightarrow> int \<Rightarrow> string \<Rightarrow> ('k, bool) pm" where
  "niquery_option_subject_addr_handler nsy data arg =
     sbind (niquery_set_subject_type data) (\<lambda>ok.
     if \<not> ok then sret False
     else
       sbind (if data = NI_SUBJ_IPV6 then sret (16, AF_INET6)
              else if data = NI_SUBJ_IPV4 then sret (4, AF_INET)
              else sthrow Ping_Out_Of_Bounds) (\<lambda>(len, family).
       sbind (mod_ni (\<lambda>n. n\<lparr>ni_subject_type := data, ni_subject_len := int len\<rparr>)) (\<lambda>_.
       sbind (syscall (nis_getaddrinfo nsy arg family)) (\<lambda>r.
       case r of
         Inl _ \<Rightarrow> sret False
       | Inr [] \<Rightarrow> sret True
       | Inr (a # _) \<Rightarrow> sbind (mod_ni (\<lambda>n. n\<lparr>ni_subject := Some (Subject_Data (take len a))\<rparr>)) (\<lambda>_. sret True)))))"

definition lower_char :: "char \<Rightarrow> char" where
  "lower_char c = (let v = of_char c :: nat in if 65 \<le> v \<and> v \<le> 90 then char_of (v + 32) else c)"

text \<open>The multicast group of a name in wire format, and the interface behind a \<open>%\<close>.\<close>

definition ni_group_text :: "bytes \<Rightarrow> string option \<Rightarrow> string" where
  "ni_group_text enc scope =
     (let digest = iputils_MD5Final (iputils_MD5Update (iputils_MD5Init md5_any) (take (unat (enc ! 0)) enc));
          h = (\<lambda>i. pad_zero 2 (hex_text (unat (digest ! i))))
      in ''ff02::2:'' @ h 0 @ h 1 @ '':'' @ h 2 @ h 3 @ (case scope of Some sc \<Rightarrow> ''%'' @ sc | None \<Rightarrow> []))"

definition niquery_option_subject_name_handler :: "'k ni_sys \<Rightarrow> int \<Rightarrow> string \<Rightarrow> ('k, bool) pm" where
  "niquery_option_subject_name_handler nsy data name =
     sbind (niquery_set_subject_type NI_SUBJ_FQDN) (\<lambda>ok.
     if \<not> ok then sret False
     else
       (case nis_idn nsy name of
          Inl _ \<Rightarrow> die 2
        | Inr idn \<Rightarrow>
            let host = takeWhile (\<lambda>c. c \<noteq> CHR ''%'') idn;
                scope = (case strchr idn (CHR ''%'') of Some p \<Rightarrow> Some (tl p) | None \<Rightarrow> None);
                fqdn = (if data = 0 then if CHR ''.'' \<in> set host then 1 else - 1 else data);
                buflen = length host + 3 + 1
            in sbind (swhen (case scope of Some sc \<Rightarrow> length sc \<ge> IFNAMSIZ | None \<Rightarrow> False) (die 2)) (\<lambda>_.
               (case nis_dn_comp nsy (map lower_char host) buflen of
                  None \<Rightarrow> die 2
                | Some enc \<Rightarrow>
                    sbind (swhen (length enc \<ge> buflen) (die 2)) (\<lambda>_.
                    sbind (sguard (enc \<noteq> [] \<and> unat (enc ! 0) \<le> length enc) Ping_Out_Of_Bounds) (\<lambda>_.
                    let group = ni_group_text enc scope
                    in sbind (sguard (length group < 46 + 1 + IFNAMSIZ) Ping_Out_Of_Bounds) (\<lambda>_.
                       sbind (mod_ni (\<lambda>n. n\<lparr>ni_group := Some group,
                                ni_subject := Some (Subject_Data (if fqdn < 0 then enc @ [0] else enc)),
                                ni_subject_len := int (length enc) + (if fqdn < 0 then 1 else 0)\<rparr>)) (\<lambda>_.
                       sret True))))))))"

definition ni_help_text :: string where
  "ni_help_text = concat (map (\<lambda>l. l @ [CHR 0x0A])
     [''ping -6 -N <nodeinfo opt>'', ''Help:'', ''  help'', ''Query:'', ''  name'', ''  ipv6'', ''  ipv6-all'',
      ''  ipv6-compatible'', ''  ipv6-global'', ''  ipv6-linklocal'', ''  ipv6-sitelocal'', ''  ipv4'', ''  ipv4-all'',
      ''Subject:'', ''  subject-ipv6=addr'', ''  subject-ipv4=addr'', ''  subject-name=name'', ''  subject-fqdn=name''])"

definition niquery_option_help_handler :: "nat \<Rightarrow> ('k, bool) pm" where
  "niquery_option_help_handler index =
     (if index \<noteq> 0 then sbind (puts ni_help_text) (\<lambda>_. die 0) else die 2)"

datatype ni_handler =
  NI_Name | NI_Ipv6 | NI_Ipv6_Flag | NI_Ipv4 | NI_Ipv4_Flag | NI_Subject_Addr | NI_Subject_Name | NI_Help

record niquery_option =
  no_name :: string
  no_has_arg :: bool
  no_data :: int
  no_handler :: ni_handler

text \<open>The flags are stored in network order: \<open>0x0002\<close> is \<open>0x0200\<close> to a little-endian machine.\<close>

definition niquery_options :: "niquery_option list" where
  "niquery_options =
     map (\<lambda>(n, a, d, h). \<lparr>no_name = n, no_has_arg = a, no_data = d, no_handler = h\<rparr>)
       [(''name'', False, 0, NI_Name), (''fqdn'', False, 0, NI_Name), (''ipv6'', False, 0, NI_Ipv6),
        (''ipv6-all'', False, 0x0200, NI_Ipv6_Flag), (''ipv6-compatible'', False, 0x0400, NI_Ipv6_Flag),
        (''ipv6-linklocal'', False, 0x0800, NI_Ipv6_Flag), (''ipv6-sitelocal'', False, 0x1000, NI_Ipv6_Flag),
        (''ipv6-global'', False, 0x2000, NI_Ipv6_Flag), (''ipv4'', False, 0, NI_Ipv4),
        (''ipv4-all'', False, 0x0200, NI_Ipv4_Flag), (''subject-ipv6'', True, NI_SUBJ_IPV6, NI_Subject_Addr),
        (''subject-ipv4'', True, NI_SUBJ_IPV4, NI_Subject_Addr), (''subject-name'', True, 0, NI_Subject_Name),
        (''subject-fqdn'', True, - 1, NI_Subject_Name), (''help'', False, 0, NI_Help)]"

definition run_handler :: "'k ni_sys \<Rightarrow> nat \<Rightarrow> niquery_option \<Rightarrow> string \<Rightarrow> ('k, bool) pm" where
  "run_handler nsy i p arg =
     (case no_handler p of
        NI_Name \<Rightarrow> niquery_option_name_handler
      | NI_Ipv6 \<Rightarrow> niquery_option_ipv6_handler
      | NI_Ipv6_Flag \<Rightarrow> niquery_option_ipv6_flag_handler (no_data p)
      | NI_Ipv4 \<Rightarrow> niquery_option_ipv4_handler
      | NI_Ipv4_Flag \<Rightarrow> niquery_option_ipv4_flag_handler (no_data p)
      | NI_Subject_Addr \<Rightarrow> niquery_option_subject_addr_handler nsy (no_data p) arg
      | NI_Subject_Name \<Rightarrow> niquery_option_subject_name_handler nsy (no_data p) arg
      | NI_Help \<Rightarrow> niquery_option_help_handler i)"

text \<open>What the option takes from the text: \<open>None\<close> when it is not the one meant.\<close>

definition option_arg :: "niquery_option \<Rightarrow> string \<Rightarrow> string option" where
  "option_arg p opt_arg =
     (if \<not> has_prefix (no_name p) opt_arg then None
      else let rest = drop (length (no_name p)) opt_arg
           in if \<not> no_has_arg p then if rest = [] then Some [] else None
              else case rest of c # r \<Rightarrow> if c = CHR ''='' then Some r else None | [] \<Rightarrow> None)"

fun niquery_options_from :: "'k ni_sys \<Rightarrow> string \<Rightarrow> nat \<Rightarrow> niquery_option list \<Rightarrow> ('k, bool) pm" where
  "niquery_options_from nsy opt_arg i [] = niquery_option_help_handler 0"
| "niquery_options_from nsy opt_arg i (p # ps) =
     (case option_arg p opt_arg of
        None \<Rightarrow> niquery_options_from nsy opt_arg (i + 1) ps
      | Some arg \<Rightarrow>
          sbind (run_handler nsy i p arg) (\<lambda>ok.
          if ok then sret True else niquery_options_from nsy opt_arg (i + 1) ps))"

definition niquery_option_handler :: "'k ni_sys \<Rightarrow> string \<Rightarrow> ('k, bool) pm" where
  "niquery_option_handler nsy opt_arg = niquery_options_from nsy opt_arg 0 niquery_options"

text \<open>The digest of the group covers the length octet and not the last character of the first label.\<close>

lemma ni_group_last_char:
  assumes "Suc (length l) < 256"
  shows "ni_group_text (of_nat (Suc (length l)) # l @ [c] @ r) scope = ni_group_text (of_nat (Suc (length l)) # l @ [d] @ r') scope"
proof -
  have "unat (of_nat (Suc (length l)) :: byte) = Suc (length l)" using assms by (simp add: unsigned_of_nat take_bit_eq_mod del: of_nat_Suc)
  then show ?thesis by (simp add: ni_group_text_def Let_def)
qed

subsection \<open>A reply is tied to a request\<close>

text \<open>The nonce of a request: its number and six octets of the MD5 of the secret and the number.\<close>

definition nonce_of :: "bytes \<Rightarrow> 16 word \<Rightarrow> bytes" where
  "nonce_of secret sq = be16 sq @ take 6 (md5_digest (secret @ be16 sq))"

lemma nonce_digest_md5: "length secret < 2 ^ 32 \<Longrightarrow> length sq < 2 ^ 32 \<Longrightarrow> nonce_digest secret sq = md5_digest (secret @ sq)"
  unfolding nonce_digest_def
  using md5_final_holds [OF md5_update_holds [OF md5_update_holds [OF md5_init_holds]], of md5_any secret sq]
  by (simp add: md5_any_def)

lemma two_octets: "length xs = 2 \<Longrightarrow> xs = [xs ! 0, xs ! 1]"
  by (cases xs; cases "tl xs") auto

lemma not_bit_octet: "\<not> bit (a :: byte) (8 + n)"
  using bit_imp_le_length [of a "8 + n"] by auto

lemma le16_of_octets: "le16 (le16_at [a, b] 0) = [a, b]"
  unfolding le16_def le16_at_def by (auto intro!: bit_word_eqI simp: bit_simps not_bit_octet)

lemma be16_of_octets: "be16 (be16_at [a, b] 0) = [a, b]"
  unfolding be16_def be16_at_def by (auto intro!: bit_word_eqI simp: bit_simps not_bit_octet)

lemma octets_at: "le16_at (take 2 bs) 0 = le16_at bs 0" "be16_at (take 2 bs) 0 = be16_at bs 0"
  by (simp_all add: le16_at_def be16_at_def)

lemma le16_take: "2 \<le> length bs \<Longrightarrow> le16 (le16_at bs 0) = take 2 bs"
  by (metis le16_of_octets length_take min.absorb2 octets_at(1) two_octets)

lemma be16_take: "2 \<le> length bs \<Longrightarrow> be16 (be16_at bs 0) = take 2 bs"
  by (metis be16_of_octets length_take min.absorb2 octets_at(2) two_octets)

text \<open>The cached digest is the one of the cached number.\<close>

definition nonce_cache_ok :: "bytes \<Rightarrow> 'k pst \<Rightarrow> bool" where
  "nonce_cache_ok secret s \<longleftrightarrow> ni_secret (ni_of s) = secret \<and>
     (snd (ps_nonce s) = - 1 \<or> fst (ps_nonce s) = nonce_digest secret (le16 (word_of_int (snd (ps_nonce s)))))"

lemma niquery_nonce_result:
  assumes "nonce_cache_ok secret s" "2 \<le> length nonce"
  shows "\<exists>s'. niquery_nonce nonce filling s
      = (Inr (if filling then Inl (take 2 nonce @ take 6 (nonce_digest secret (take 2 nonce)))
              else Inr (if take 6 (drop 2 nonce) \<noteq> take 6 (nonce_digest secret (take 2 nonce)) then - 1
                        else uint (be16_at nonce 0))), s')
    \<and> nonce_cache_ok secret s' \<and> rts_of s' = rts_of s"
proof -
  obtain digest sq where c: "ps_nonce s = (digest, sq)" by (cases "ps_nonce s")
  have "(if filling \<or> sq \<noteq> uint (le16_at nonce 0) \<or> sq = - 1 then nonce_digest secret (take 2 nonce) else digest)
      = nonce_digest secret (take 2 nonce)"
    using assms by (auto simp: nonce_cache_ok_def c le16_take)
  note d = this
  have sec: "ni_secret (ni_of s) = secret" using assms(1) by (simp add: nonce_cache_ok_def)
  let ?s = "s\<lparr>ps_nonce := (nonce_digest secret (take 2 nonce), uint (le16_at nonce 0))\<rparr>"
  have "niquery_nonce nonce filling s
      = (Inr (if filling then Inl (take 2 nonce @ take 6 (nonce_digest secret (take 2 nonce)))
              else Inr (if take 6 (drop 2 nonce) \<noteq> take 6 (nonce_digest secret (take 2 nonce)) then - 1
                        else uint (be16_at nonce 0))), ?s)"
    by (simp only: niquery_nonce_def sbind_def serr_defs Let_def c prod.case sum.case sec d) simp
  moreover have "nonce_cache_ok secret ?s" "rts_of ?s = rts_of s"
    using sec le16_take [OF assms(2)] by (simp_all add: nonce_cache_ok_def rts_of_def)
  ultimately show ?thesis by blast
qed

lemma niquery_fill_nonce_result:
  assumes "nonce_cache_ok secret s" "length secret < 2 ^ 32"
  shows "\<exists>s'. niquery_fill_nonce sq s = (Inr (nonce_of secret sq), s') \<and> nonce_cache_ok secret s' \<and> rts_of s' = rts_of s"
proof -
  have "take 2 (be16 sq @ replicate 6 0) = be16 sq" by (simp add: be16_def)
  then show ?thesis
    using niquery_nonce_result [OF assms(1), of "be16 sq @ replicate 6 0" True] assms(2)
    by (auto simp: niquery_fill_nonce_def sbind_def serr_defs nonce_of_def nonce_digest_md5 be16_def)
qed

lemma nonce_of_iff:
  assumes "length nonce = 8"
  shows "(\<exists>q. nonce = nonce_of secret q) \<longleftrightarrow> drop 2 nonce = take 6 (md5_digest (secret @ take 2 nonce))"
proof
  assume "\<exists>q. nonce = nonce_of secret q"
  then obtain q where n: "nonce = nonce_of secret q" by blast
  then have "take 2 nonce = be16 q" "drop 2 nonce = take 6 (md5_digest (secret @ be16 q))"
    by (simp_all add: nonce_of_def be16_def)
  then show "drop 2 nonce = take 6 (md5_digest (secret @ take 2 nonce))" by simp
next
  assume "drop 2 nonce = take 6 (md5_digest (secret @ take 2 nonce))"
  then have "nonce = nonce_of secret (be16_at nonce 0)"
    using be16_take [of nonce] append_take_drop_id [of 2 nonce] assms by (simp add: nonce_of_def)
  then show "\<exists>q. nonce = nonce_of secret q" by blast
qed

lemma niquery_check_nonce_result:
  assumes "nonce_cache_ok secret s" "length secret < 2 ^ 32" "length nonce = 8"
  shows "\<exists>s'. niquery_check_nonce nonce s
      = (Inr (if \<exists>q. nonce = nonce_of secret q then uint (be16_at nonce 0) else - 1), s')
    \<and> nonce_cache_ok secret s' \<and> rts_of s' = rts_of s"
proof -
  have "take 6 (drop 2 nonce) = drop 2 nonce" using assms(3) by simp
  then show ?thesis
    using niquery_nonce_result [OF assms(1), of nonce False] assms(2,3)
    by (auto simp: niquery_check_nonce_def sbind_def serr_defs nonce_of_iff nonce_digest_md5)
qed

lemma init_nonce_secret:
  "ni_secret (ni_of (snd (niquery_init_nonce sy s)))
     = put_timeval (fst (sy_now sy (ps_kern s))) @ le_bytes (word_of_int (sy_pid sy)) @ drop 20 (ni_secret (ni_of s))"
  "ps_nonce (snd (niquery_init_nonce sy s)) = ps_nonce s"
  by (simp_all add: niquery_init_nonce_def sbind_def syscall_def mod_ni_def mod_rts_def serr_defs rts_of_def split: prod.split)

text \<open>Requests and replies in any order.\<close>

datatype ni_event = NI_Request "16 word" | NI_Reply bytes

fun ni_events :: "ni_event list \<Rightarrow> 'k pst \<Rightarrow> 'k pst" where
  "ni_events [] s = s"
| "ni_events (NI_Request q # es) s = ni_events es (snd (niquery_fill_nonce q s))"
| "ni_events (NI_Reply n # es) s = ni_events es (snd (niquery_check_nonce n s))"

lemma ni_events_cache:
  assumes "length secret < 2 ^ 32"
  shows "nonce_cache_ok secret s \<Longrightarrow> \<forall>n. NI_Reply n \<in> set es \<longrightarrow> length n = 8 \<Longrightarrow> nonce_cache_ok secret (ni_events es s)"
proof (induction es s rule: ni_events.induct)
  case (2 q es s)
  then show ?case using niquery_fill_nonce_result [OF 2(2) assms, of q] by auto
next
  case (3 n es s)
  then show ?case using niquery_check_nonce_result [OF 3(2) assms, of n] by auto
qed simp

text \<open>
C36: After \<open>niquery_init_nonce\<close>, and whatever requests and replies come in between in any order, a
request carries the nonce of its number, the number and six octets of an MD5 over a secret, and a nonce of
eight octets is accepted with its number exactly when it is the nonce of some request; the cached digest
of the last number never lets a wrong one pass or a right one fail.
\<close>
theorem niquery_nonce_exact:
  assumes "snd (ps_nonce s) = - 1" "length (ni_secret (ni_of s)) = 24" "length nonce = NI_NONCE_SIZE"
    and "\<forall>n. NI_Reply n \<in> set es \<longrightarrow> length n = NI_NONCE_SIZE"
    and "s0 = snd (niquery_init_nonce sy s)" "s1 = ni_events es s0"
  shows "fst (niquery_fill_nonce q s1) = Inr (nonce_of (ni_secret (ni_of s0)) q)
    \<and> fst (niquery_check_nonce nonce s1)
        = Inr (if \<exists>q. nonce = nonce_of (ni_secret (ni_of s0)) q then uint (be16_at nonce 0) else - 1)"
proof -
  let ?sec = "ni_secret (ni_of s0)"
  have len: "length ?sec < 2 ^ 32"
    by (simp add: assms(2,5) init_nonce_secret put_timeval_def le64_def le_bytes_def)
  have "snd (ps_nonce s0) = - 1" by (simp add: assms(1,5) init_nonce_secret)
  then have "nonce_cache_ok ?sec s0" by (simp add: nonce_cache_ok_def)
  from ni_events_cache [OF len this assms(4)] have "nonce_cache_ok ?sec s1" by (simp add: assms(6))
  from niquery_fill_nonce_result [OF this len, of q] niquery_check_nonce_result [OF this len assms(3)] show ?thesis
    by (auto simp del: split_paired_Ex)
qed

lemma demo_ni: "ni_of (demo_pst rts_init) = ni_init" "ps_nonce (demo_pst r) = ([], - 1)" "ps_kern (demo_pst r) = ()"
  by (simp_all add: demo_pst_def rts_of_def rts_init_def)

theorem niquery_nonce_exact_witness:
  "\<exists>s1. fst (niquery_fill_nonce 7 s1) = Inr (nonce_of (put_timeval \<lparr>tvl_sec = 7, tvl_usec = 0\<rparr> @ [1, 0, 0, 0] @ [0, 0, 0, 0]) 7)
    \<and> s1 = ni_events [NI_Request 6, NI_Reply (replicate 8 1)] (snd (niquery_init_nonce demo_sys (demo_pst rts_init)))"
proof -
  define s0 where "s0 = snd (niquery_init_nonce demo_sys (demo_pst rts_init))"
  have "sy_now demo_sys () = (\<lparr>tvl_sec = 7, tvl_usec = 0\<rparr>, ())" "sy_pid demo_sys = 1" by (simp_all add: demo_sys_def)
  moreover have "le_bytes (word_of_int 1) = [1, 0, 0, 0]" "drop 20 (replicate 24 0) = [0, 0, 0, 0 :: byte]" by code_simp+
  ultimately have sec: "ni_secret (ni_of s0) = put_timeval \<lparr>tvl_sec = 7, tvl_usec = 0\<rparr> @ [1, 0, 0, 0] @ [0, 0, 0, 0]"
    unfolding s0_def init_nonce_secret by (simp only: demo_ni ni_init_def ping_ni.simps fst_conv)
  have "fst (niquery_fill_nonce 7 (ni_events [NI_Request 6, NI_Reply (replicate 8 1)] s0))
      = Inr (nonce_of (ni_secret (ni_of s0)) 7)"
    by (rule niquery_nonce_exact [of "demo_pst rts_init" "replicate 8 1" _ s0 demo_sys _ 7, OF _ _ _ _ s0_def refl, THEN conjunct1])
       (simp_all add: demo_ni ni_init_def)
  from this [unfolded sec] show ?thesis unfolding s0_def by blast
qed

subsection \<open>The options\<close>

text \<open>The queries an option stands for.\<close>

definition ni_queries :: "(string \<times> int \<times> int) list" where
  "ni_queries =
     [(''name'', 2, 0), (''fqdn'', 2, 0), (''ipv6'', 3, 0), (''ipv6-all'', 3, 0x0200), (''ipv6-compatible'', 3, 0x0400),
      (''ipv6-linklocal'', 3, 0x0800), (''ipv6-sitelocal'', 3, 0x1000), (''ipv6-global'', 3, 0x2000),
      (''ipv4'', 4, 0), (''ipv4-all'', 4, 0x0200)]"

definition ni_with_arg :: "string list" where
  "ni_with_arg = [''subject-ipv6='', ''subject-ipv4='', ''subject-name='', ''subject-fqdn='']"

lemmas handler_defs = niquery_option_name_handler_def niquery_option_ipv6_handler_def niquery_option_ipv6_flag_handler_def
  niquery_option_ipv4_handler_def niquery_option_ipv4_flag_handler_def niquery_set_qtype_def
  niquery_is_enabled_def mod_ni_def mod_rts_def sbind_def serr_defs on_io_def emit_def

lemma option_arg_tables:
  "list_all (\<lambda>(a, _). list_all (\<lambda>p. option_arg p a = (if no_name p = a then Some [] else None)) niquery_options) ni_queries"
  "list_all (\<lambda>p. no_has_arg p = (no_name p @ ''='' \<in> set ni_with_arg)
     \<and> (\<not> no_has_arg p \<longrightarrow> no_name p \<in> insert ''help'' (set (map fst ni_queries)))) niquery_options"
  "distinct (map no_name niquery_options)"
  by code_simp+

lemma option_arg_query:
  assumes "map_of ni_queries arg = Some (q, f)" "p \<in> set niquery_options"
  shows "option_arg p arg = (if no_name p = arg then Some [] else None)"
  using option_arg_tables(1) map_of_SomeD [OF assms(1)] assms(2) by (auto simp: list_all_iff)

lemma options_from_none:
  "\<forall>p\<in>set ps. option_arg p arg = None \<Longrightarrow> niquery_options_from nsy arg i ps = die 2"
  by (induction ps arbitrary: i) (simp_all add: niquery_option_help_handler_def)

lemma options_from_one:
  "\<forall>p\<in>set ps. option_arg p arg = (if no_name p = arg then Some x else None) \<Longrightarrow> distinct (map no_name ps) \<Longrightarrow> p \<in> set ps
   \<Longrightarrow> no_name p = arg \<Longrightarrow> \<exists>j. niquery_options_from nsy arg i ps = sbind (run_handler nsy j p x) (\<lambda>ok. if ok then sret True else die 2)"
proof (induction ps arbitrary: i)
  case (Cons a ps)
  show ?case
  proof (cases "a = p")
    case True
    then have "\<forall>b\<in>set ps. option_arg b arg = None" using Cons.prems by (auto simp: image_iff)
    from options_from_none [OF this, of nsy] show ?thesis using True Cons.prems by (auto intro!: exI [of _ i] cong: if_cong)
  next
    case False
    then have "option_arg a arg = None" using Cons.prems by (auto simp: image_iff)
    with Cons False show ?thesis by simp
  qed
qed simp

text \<open>The state with the query set, and the state after the message about a conflict.\<close>

definition with_query :: "int \<Rightarrow> int \<Rightarrow> 'k pst \<Rightarrow> 'k pst" where
  "with_query q f s = snd (mod_ni (\<lambda>n. n\<lparr>ni_query := q, ni_flag := ni_flag n OR f\<rparr>) s)"

definition with_output :: "string \<Rightarrow> 'k pst \<Rightarrow> 'k pst" where
  "with_output t s = snd (puts t s)"

lemma query_handler:
  assumes "map_of ni_queries arg = Some (q, f)"
  obtains p where "p \<in> set niquery_options" "no_name p = arg"
    "\<And>nsy j x s. run_handler nsy j p x s =
       (if ni_query (ni_of s) < 0 \<or> ni_query (ni_of s) = q then (Inr True, with_query q f s)
        else (Inr False, with_output (''Qtype conflict'' @ [CHR 0x0A]) s))"
proof -
  have "\<exists>p\<in>set niquery_options. no_name p = arg \<and>
    (\<forall>nsy j x s. run_handler nsy j p x s =
       (if ni_query (ni_of s) < 0 \<or> ni_query (ni_of s) = q then (Inr True, with_query q f s)
        else (Inr False, with_output (''Qtype conflict'' @ [CHR 0x0A]) s)))"
    using map_of_SomeD [OF assms] unfolding ni_queries_def
    by (elim set_ConsD [elim_format] disjE)
       (auto simp: niquery_options_def run_handler_def handler_defs with_query_def with_output_def rts_of_def)
  then show thesis using that by blast
qed

lemma niquery_query:
  assumes "map_of ni_queries arg = Some (q, f)"
  shows "niquery_option_handler nsy arg s =
    (if ni_query (ni_of s) < 0 \<or> ni_query (ni_of s) = q then (Inr True, with_query q f s)
     else (Inl (Ping_Exit 2), with_output (''Qtype conflict'' @ [CHR 0x0A]) s))"
proof -
  obtain p where p: "p \<in> set niquery_options" "no_name p = arg" and
    h: "\<And>j. run_handler nsy j p [] s =
       (if ni_query (ni_of s) < 0 \<or> ni_query (ni_of s) = q then (Inr True, with_query q f s)
        else (Inr False, with_output (''Qtype conflict'' @ [CHR 0x0A]) s))"
    by (rule query_handler [OF assms]) blast
  obtain j where "niquery_option_handler nsy arg = sbind (run_handler nsy j p []) (\<lambda>ok. if ok then sret True else die 2)"
    using options_from_one [of niquery_options arg "[]" p nsy 0] option_arg_query [OF assms] option_arg_tables(3) p
    by (auto simp: niquery_option_handler_def)
  then show ?thesis by (simp add: sbind_def h die_def serr_defs)
qed

lemma option_arg_Some: "option_arg p arg = Some x \<Longrightarrow> arg = no_name p @ (if no_has_arg p then ''='' @ x else [])"
  by (auto simp: option_arg_def has_prefix_def Let_def split: if_splits list.splits) (metis append_take_drop_id)+

lemma option_arg_unknown:
  assumes "map_of ni_queries arg = None" "arg \<noteq> ''help''" "\<forall>t\<in>set ni_with_arg. \<not> has_prefix t arg" "p \<in> set niquery_options"
  shows "option_arg p arg = None"
proof -
  have t: "no_has_arg p \<longleftrightarrow> no_name p @ ''='' \<in> set ni_with_arg"
    "\<not> no_has_arg p \<longrightarrow> no_name p \<in> insert ''help'' (set (map fst ni_queries))"
    using option_arg_tables(2) assms(4) by (auto simp: list_all_iff)
  have n: "arg \<notin> insert ''help'' (set (map fst ni_queries))" using assms(1,2) by (simp add: map_of_eq_None_iff)
  show ?thesis
  proof (rule ccontr)
    assume "option_arg p arg \<noteq> None"
    then obtain x where "option_arg p arg = Some x" by blast
    from option_arg_Some [OF this] have "\<not> no_has_arg p \<and> arg = no_name p \<or> no_has_arg p \<and> has_prefix (no_name p @ ''='') arg"
      by (cases "no_has_arg p") (simp_all add: has_prefix_def)
    then show False using t n assms(3) by auto
  qed
qed

text \<open>
C37: The \<open>-N\<close> option, on every text that is not a subject or a request for help: the ten query names, and
only these, are accepted, each setting its query type and adding its flag; a second query of another
type is refused with a message and exit status 2, one of the same type adds its flags; anything else ends
the program with status 2 and changes nothing.
\<close>
theorem niquery_option_queries:
  assumes "arg \<noteq> ''help''" "\<forall>t\<in>set ni_with_arg. \<not> has_prefix t arg"
  shows "niquery_option_handler nsy arg s =
    (case map_of ni_queries arg of
       Some (q, f) \<Rightarrow>
         if ni_query (ni_of s) < 0 \<or> ni_query (ni_of s) = q then (Inr True, with_query q f s)
         else (Inl (Ping_Exit 2), with_output (''Qtype conflict'' @ [CHR 0x0A]) s)
     | None \<Rightarrow> (Inl (Ping_Exit 2), s))"
proof (cases "map_of ni_queries arg")
  case None
  then have "\<forall>p\<in>set niquery_options. option_arg p arg = None" using option_arg_unknown [OF _ assms] by blast
  from options_from_none [OF this, of nsy] None show ?thesis by (simp add: niquery_option_handler_def die_def serr_defs)
next
  case (Some x)
  then show ?thesis using niquery_query [of arg "fst x" "snd x" nsy s] by (simp split: prod.split)
qed

text \<open>A resolver for names of one label.\<close>

definition demo_ni_sys :: "unit ni_sys" where
  "demo_ni_sys = \<lparr>nis_getaddrinfo = (\<lambda>_ _. Pair (Inl 1)), nis_idn = Inr,
     nis_dn_comp = (\<lambda>h n. if length h + 3 \<le> n then Some (of_nat (length h) # bytes_of_string h @ [0]) else None)\<rparr>"

theorem niquery_option_queries_witness:
  "niquery_option_handler demo_ni_sys ''ipv6-global'' (demo_pst rts_init) = (Inr True, with_query 3 0x2000 (demo_pst rts_init))"
proof -
  have "map_of ni_queries ''ipv6-global'' = Some (3, 0x2000)" "''ipv6-global'' \<noteq> ''help''"
    "\<forall>t\<in>set ni_with_arg. \<not> has_prefix t ''ipv6-global''" by code_simp+
  with niquery_option_queries [of "''ipv6-global''" demo_ni_sys "demo_pst rts_init"] show ?thesis by (simp add: demo_ni ni_init_def)
qed

end
