(* ===== verification/C_Safety.thy ===== *)
theory C_Safety
  imports C_Loop
begin

text \<open>
  Invariants of operations that may fail: \<open>E\<close> are the errors that may happen, \<open>I\<close> holds of the state
  before and after. The rules follow the structure of the operations, loops included.
\<close>

definition sinv :: "('e \<Rightarrow> bool) \<Rightarrow> ('s \<Rightarrow> bool) \<Rightarrow> ('s, 'e, 'a) serr \<Rightarrow> bool" where
  "sinv E I m \<longleftrightarrow> (\<forall>s. I s \<longrightarrow> swp m (\<lambda>r s'. case r of Inl e \<Rightarrow> E e | Inr _ \<Rightarrow> I s') s)"

definition oinv :: "('e \<Rightarrow> bool) \<Rightarrow> ('s \<Rightarrow> bool) \<Rightarrow> ('s, 'e, 'a) oserr \<Rightarrow> bool" where
  "oinv E I m \<longleftrightarrow> (\<forall>s r s'. I s \<longrightarrow> m s = Some (r, s') \<longrightarrow> (case r of Inl e \<Rightarrow> E e | Inr _ \<Rightarrow> I s'))"

lemma sinvI: "(\<And>s. I s \<Longrightarrow> swp m (\<lambda>r s'. case r of Inl e \<Rightarrow> E e | Inr _ \<Rightarrow> I s') s) \<Longrightarrow> sinv E I m"
  unfolding sinv_def by blast

lemma sinvD: "sinv E I m \<Longrightarrow> I s \<Longrightarrow> m s = (Inr a, s') \<Longrightarrow> I s'"
  by (force simp: sinv_def swp_def)

lemma sinv_error: "sinv E I m \<Longrightarrow> I s \<Longrightarrow> m s = (Inl e, s') \<Longrightarrow> E e"
  by (force simp: sinv_def swp_def)

lemma oinvD: "oinv E I m \<Longrightarrow> I s \<Longrightarrow> m s = Some (r, s') \<Longrightarrow> (case r of Inl e \<Rightarrow> E e | Inr _ \<Rightarrow> I s')"
  unfolding oinv_def by blast

lemma sinv_bind:
  assumes "sinv E I m" "\<And>a. sinv E I (f a)"
  shows "sinv E I (sbind m f)"
proof (rule sinvI)
  fix s assume "I s"
  with assms(1) have "swp m (\<lambda>r s'. case r of Inl e \<Rightarrow> E e | Inr _ \<Rightarrow> I s') s" by (simp add: sinv_def)
  then show "swp (sbind m f) (\<lambda>r s'. case r of Inl e \<Rightarrow> E e | Inr _ \<Rightarrow> I s') s"
    unfolding swp_bind
  proof (rule swp_mono, goal_cases)
    case (1 r s')
    with assms(2) show ?case by (cases r) (simp_all add: sinv_def)
  qed
qed

lemma sinv_sret [simp]: "sinv E I (sret a)"
  by (simp add: sinv_def swp_eq)

lemma sinv_sget [simp]: "sinv E I (sget f)"
  by (simp add: sinv_def swp_eq)

lemma sinv_sthrow [simp]: "sinv E I (sthrow e) \<longleftrightarrow> (\<exists>s. I s) \<longrightarrow> E e"
  by (auto simp: sinv_def swp_eq)

lemma sinv_smod: "(\<And>s. I s \<Longrightarrow> I (f s)) \<Longrightarrow> sinv E I (smod f)"
  by (simp add: sinv_def swp_eq)

lemma sinv_swhen: "(b \<Longrightarrow> sinv E I m) \<Longrightarrow> sinv E I (swhen b m)"
  by (simp add: swhen_def)

lemma sinv_if: "(b \<Longrightarrow> sinv E I m) \<Longrightarrow> (\<not> b \<Longrightarrow> sinv E I n) \<Longrightarrow> sinv E I (if b then m else n)"
  by simp

lemma sinv_option: "(c = None \<Longrightarrow> sinv E I m) \<Longrightarrow> (\<And>a. c = Some a \<Longrightarrow> sinv E I (n a)) \<Longrightarrow> sinv E I (case_option m n c)"
  by (cases c) simp_all

lemma sinv_sum: "(\<And>a. c = Inl a \<Longrightarrow> sinv E I (m a)) \<Longrightarrow> (\<And>a. c = Inr a \<Longrightarrow> sinv E I (n a)) \<Longrightarrow> sinv E I (case_sum m n c)"
  by (cases c) simp_all

lemma sinv_prod: "(\<And>a b. c = (a, b) \<Longrightarrow> sinv E I (m a b)) \<Longrightarrow> sinv E I (case_prod m c)"
  by (cases c) simp

lemma sinv_let: "sinv E I (f a) \<Longrightarrow> sinv E I (Let a f)"
  by simp

lemmas sinv_intros = sinv_bind sinv_sret sinv_sget sinv_swhen sinv_if sinv_option sinv_sum sinv_prod sinv_let

lemma oinv_run: "sinv E I m \<Longrightarrow> oinv E I (orun m)"
  by (auto simp: oinv_def sinv_def orun_def swp_def)

lemma oinv_bind:
  assumes "oinv E I m" "\<And>a. oinv E I (f a)"
  shows "oinv E I (obind m f)"
  unfolding oinv_def
proof (intro allI impI)
  fix s r s' assume s: "I s" and run: "obind m f s = Some (r, s')"
  then obtain x s1 where m: "m s = Some (x, s1)" by (cases "m s") (auto simp: obind_def)
  note x = oinvD [OF assms(1) s m]
  show "case r of Inl e \<Rightarrow> E e | Inr _ \<Rightarrow> I s'"
  proof (cases x)
    case (Inl e)
    with run m x show ?thesis by (auto simp: obind_def)
  next
    case (Inr a)
    then have "f a s1 = Some (r, s')" using run m by (simp add: obind_def)
    from oinvD [OF assms(2) _ this] x Inr show ?thesis by simp
  qed
qed

lemma oinv_if: "(b \<Longrightarrow> oinv E I m) \<Longrightarrow> (\<not> b \<Longrightarrow> oinv E I n) \<Longrightarrow> oinv E I (if b then m else n)"
  by simp

text \<open>A guard that the invariant implies.\<close>

lemma oinv_guard:
  assumes "\<And>s. I s \<Longrightarrow> c s" "\<And>s. I s \<Longrightarrow> oinv E I (f s)"
  shows "oinv E I (obind (orun (sget id)) (\<lambda>s. obind (orun (sguard (c s) e)) (\<lambda>_. f s)))"
  unfolding oinv_def
proof (intro allI impI)
  fix s r s' assume s: "I s" and run: "obind (orun (sget id)) (\<lambda>s. obind (orun (sguard (c s) e)) (\<lambda>_. f s)) s = Some (r, s')"
  then have "f s s = Some (r, s')" using assms(1) [OF s] by (simp add: obind_def orun_def serr_defs)
  from oinvD [OF assms(2) [OF s] s this] show "case r of Inl e \<Rightarrow> E e | Inr _ \<Rightarrow> I s'" .
qed

lemma oinv_until:
  assumes "oinv E I m"
  shows "oinv E I (ountil m)"
  unfolding oinv_def
proof (intro allI impI)
  fix s r s' assume "I s" and run: "ountil m s = Some (r, s')"
  from run have "I s \<longrightarrow> (case r of Inl e \<Rightarrow> E e | Inr _ \<Rightarrow> I s')"
    by (rule ountil_induct [where P = "\<lambda>s r s'. I s \<longrightarrow> (case r of Inl e \<Rightarrow> E e | Inr _ \<Rightarrow> I s')"])
       (use oinvD [OF assms] in fastforce)+
  with \<open>I s\<close> show "case r of Inl e \<Rightarrow> E e | Inr _ \<Rightarrow> I s'" by blast
qed

lemmas oinv_intros = oinv_bind oinv_if oinv_run

subsection \<open>From one condition to another\<close>

definition sends :: "('s \<Rightarrow> bool) \<Rightarrow> ('s, 'e, 'a) serr \<Rightarrow> ('a \<Rightarrow> 's \<Rightarrow> bool) \<Rightarrow> bool" where
  "sends P m Q \<longleftrightarrow> (\<forall>s a s'. P s \<longrightarrow> m s = (Inr a, s') \<longrightarrow> Q a s')"

lemma sendsD: "sends P m Q \<Longrightarrow> P s \<Longrightarrow> m s = (Inr a, s') \<Longrightarrow> Q a s'"
  unfolding sends_def by blast

lemma sends_bind: "sends P m R \<Longrightarrow> (\<And>a. sends (R a) (f a) Q) \<Longrightarrow> sends P (sbind m f) Q"
  unfolding sends_def sbind_Inr_iff by blast

lemma sends_inv: "sinv (\<lambda>_. True) I m \<Longrightarrow> sends I m (\<lambda>_. I)"
  unfolding sends_def by (blast dest: sinvD)

lemma sends_mono: "sends P m Q \<Longrightarrow> (\<And>s. P' s \<Longrightarrow> P s) \<Longrightarrow> (\<And>a s. Q a s \<Longrightarrow> Q' a s) \<Longrightarrow> sends P' m Q'"
  unfolding sends_def by blast

lemma sends_swhen: "(b \<Longrightarrow> sends P m (\<lambda>_. Q)) \<Longrightarrow> (\<And>s. \<not> b \<Longrightarrow> P s \<Longrightarrow> Q s) \<Longrightarrow> sends P (swhen b m) (\<lambda>_. Q)"
  by (cases b) (auto simp: swhen_def sends_def serr_defs)

lemma sends_smod: "(\<And>s. P s \<Longrightarrow> Q (f s)) \<Longrightarrow> sends P (smod f) (\<lambda>_. Q)"
  by (auto simp: sends_def serr_defs)

lemma sends_sget: "(\<And>s. P s \<Longrightarrow> Q (f s) s) \<Longrightarrow> sends P (sget f) Q"
  by (auto simp: sends_def serr_defs)

lemma sends_sret: "(\<And>s. P s \<Longrightarrow> Q a s) \<Longrightarrow> sends P (sret a) Q"
  by (auto simp: sends_def serr_defs)

lemma sends_sthrow [simp]: "sends P (sthrow e) Q"
  by (simp add: sends_def serr_defs)

lemma sends_if: "(b \<Longrightarrow> sends P m Q) \<Longrightarrow> (\<not> b \<Longrightarrow> sends P n Q) \<Longrightarrow> sends P (if b then m else n) Q"
  by simp

lemma sinv_sends: "sends I m (\<lambda>_. I) \<Longrightarrow> sinv (\<lambda>_. True) I m"
  by (auto simp: sinv_def swp_def sends_def split: prod.split sum.split)

text \<open>An operation that never fails, before another one.\<close>

lemma swp_total_bind:
  assumes "sinv (\<lambda>_. False) I m" "I s" "\<And>a s'. I s' \<Longrightarrow> swp (f a) Q s'"
  shows "swp (sbind m f) Q s"
  unfolding swp_bind
proof (rule swp_mono)
  show "swp m (\<lambda>r s'. case r of Inl e \<Rightarrow> False | Inr _ \<Rightarrow> I s') s" using assms(1,2) by (simp add: sinv_def)
qed (use assms(3) in \<open>auto split: sum.splits\<close>)

text \<open>A loop that never ends.\<close>

lemma ountil_diverges:
  assumes "\<And>s. I s \<Longrightarrow> \<exists>s'. m s = Some (Inr None, s') \<and> I s'" "I s"
  shows "ountil m s = None"
proof (cases "ountil m s")
  case (Some y)
  obtain r s' where "ountil m s = Some (r, s')" using Some by (cases y) simp
  then have "\<not> I s"
    by (rule ountil_induct [where P = "\<lambda>s _ _. \<not> I s"]) (use assms(1) in fastforce)+
  with assms(2) show ?thesis by contradiction
qed simp

end
