(* ===== verification/Ping6.thy ===== *)
theory Ping6
  imports Ping4 Node_Info C_Safety
begin

text \<open>
  \<open>ping6_common.c\<close>: the IPv6 side of \<open>ping\<close>, with the node information queries. A packet is read through
  the whole buffer it was received in; a read outside of it ends the run. \<open>dn_expand\<close> of the resolver and
  the text of an IPv6 address are parameters: the first gives the number of octets a name takes and the name.
\<close>

record 'k ping6_sys =
  s6_send :: "sockaddr_in6 \<Rightarrow> bool \<Rightarrow> bytes option \<Rightarrow> bytes \<Rightarrow> 'k \<Rightarrow> (int + int) \<times> 'k"
  s6_dn_expand :: "bytes \<Rightarrow> nat \<Rightarrow> (nat \<times> string) option"
  s6_ntop6 :: "bytes \<Rightarrow> string"

abbreviation ICMP6_DST_UNREACH :: nat where "ICMP6_DST_UNREACH \<equiv> 1"
abbreviation ICMP6_PACKET_TOO_BIG :: nat where "ICMP6_PACKET_TOO_BIG \<equiv> 2"
abbreviation (input) ICMP6_TIME_EXCEEDED :: nat where "ICMP6_TIME_EXCEEDED \<equiv> 3"
abbreviation (input) ICMP6_PARAM_PROB :: nat where "ICMP6_PARAM_PROB \<equiv> 4"
abbreviation ICMP6_ECHO_REQUEST :: nat where "ICMP6_ECHO_REQUEST \<equiv> 128"
abbreviation ICMP6_ECHO_REPLY :: nat where "ICMP6_ECHO_REPLY \<equiv> 129"
abbreviation IPUTILS_NI_ICMP6_QUERY :: nat where "IPUTILS_NI_ICMP6_QUERY \<equiv> 139"
abbreviation IPUTILS_NI_ICMP6_REPLY :: nat where "IPUTILS_NI_ICMP6_REPLY \<equiv> 140"
abbreviation NEXTHDR_FRAGMENT :: nat where "NEXTHDR_FRAGMENT \<equiv> 44"
abbreviation IPPROTO_ICMPV6 :: nat where "IPPROTO_ICMPV6 \<equiv> 58"
abbreviation NI_HDR_SIZE :: nat where "NI_HDR_SIZE \<equiv> 16"

definition bswap32 :: "32 word \<Rightarrow> 32 word" where
  "bswap32 w = be32_at (rev (be32 w)) 0"

definition sockaddr6_octets :: "sockaddr_in6 \<Rightarrow> bytes" where
  "sockaddr6_octets sa =
     le16 (of_nat (sin6_family sa)) @ le16 (sin6_port sa) @ le_bytes (sin6_flowinfo sa) @ sin6_addr sa @ le_bytes (sin6_scope_id sa)"

text \<open>The address inside a \<open>struct sockaddr_in6\<close>.\<close>

definition addr6_of :: "bytes \<Rightarrow> bytes" where
  "addr6_of sa = take 16 (drop 8 sa)"

subsection \<open>Messages\<close>

definition unreach6_text :: "nat \<Rightarrow> string" where
  "unreach6_text code =
     (case map_of [(0, ''No route''), (1, ''Administratively prohibited''), (2, ''Beyond scope of source address''),
                   (3, ''Address unreachable''), (4, ''Port unreachable''), (5, ''Source address failed ingress/egress policy''),
                   (6, ''Reject route to destination'')] code of
        Some t \<Rightarrow> t
      | None \<Rightarrow> ''Unknown code '' @ nat_dec code)"

definition print_icmp :: "nat \<Rightarrow> nat \<Rightarrow> int \<Rightarrow> string" where
  "print_icmp type code info =
     (let u = int_dec (info mod 2 ^ 32)
      in if type = ICMP6_DST_UNREACH then ''Destination unreachable: '' @ unreach6_text code
         else if type = ICMP6_PACKET_TOO_BIG then ''Packet too big: mtu='' @ u @ (if code \<noteq> 0 then '', code='' @ nat_dec code else [])
         else if type = ICMP6_TIME_EXCEEDED then
           ''Time exceeded: '' @ (if code = 0 then ''Hop limit'' else if code = 1 then ''Defragmentation failure''
                                  else ''code '' @ nat_dec code)
         else if type = ICMP6_PARAM_PROB then
           ''Parameter problem: '' @ (if code = 0 then ''Wrong header field '' else if code = 1 then ''Unknown header ''
                                      else if code = 2 then ''Unknown option '' else ''code '' @ nat_dec code @ '' '') @ ''at '' @ u
         else if type = ICMP6_ECHO_REQUEST then ''Echo request''
         else if type = ICMP6_ECHO_REPLY then ''Echo reply''
         else if type = 130 then ''MLD Query''
         else if type = 131 then ''MLD Report''
         else if type = 132 then ''MLD Reduction''
         else ''unknown icmp type: '' @ nat_dec type)"

subsection \<open>The error queue\<close>

definition ping6_local_error :: "('k, int) pm" where
  "ping6_local_error =
     sbind (sget rts_of) (\<lambda>rts.
     if opt_quiet rts then sret (- 1)
     else
       sbind (swhen (opt_flood rts) (puts ''E'')) (\<lambda>_.
       sbind (mod_rts (\<lambda>rts. rts\<lparr>nerrors := nerrors rts + 1\<rparr>)) (\<lambda>_.
       sret (- 1))))"

definition ping6_net_error :: "'k ping_sys \<Rightarrow> ext_err \<Rightarrow> 16 word \<Rightarrow> ('k, int) pm" where
  "ping6_net_error sy e sq =
     sbind (mod_rts (\<lambda>rts. rts\<lparr>nerrors := nerrors rts + 1\<rparr>)) (\<lambda>_.
     sbind (sget rts_of) (\<lambda>rts.
     if opt_quiet rts then sret 1
     else if opt_flood rts then sbind (puts [CHR 0x08, CHR ''E'']) (\<lambda>_. sret 1)
     else
       sbind (timestamp sy) (\<lambda>_.
       sbind (pr_addr sy (ee_offender e)) (\<lambda>t.
       sbind (on_io (ping_print_error_packet t (uint sq))) (\<lambda>_.
       sbind (puts (print_icmp (nat (ee_type e)) (nat (ee_code e)) (ee_info e) @ nl)) (\<lambda>_.
       sret 1))))))"

definition ping6_receive_error_msg :: "'k ping_sys \<Rightarrow> socktype \<Rightarrow> ('k, int) pm" where
  "ping6_receive_error_msg sy sock =
     sbind (sget ps_errno) (\<lambda>saved_errno.
     sbind (syscall (sy_errqueue sy)) (\<lambda>r.
     case r of
       Inl en \<Rightarrow> sret (if en = EAGAIN \<or> en = EINTR then - 1 else 0)
     | Inr m \<Rightarrow>
         (case em_err m of
            None \<Rightarrow> sthrow Ping_Abort
          | Some e \<Rightarrow>
              if ee_origin e = SO_EE_ORIGIN_LOCAL
              then sbind ping6_local_error (\<lambda>v. sbind (smod (\<lambda>s. s\<lparr>ps_errno := saved_errno\<rparr>)) (\<lambda>_. sret v))
              else if ee_origin e = SO_EE_ORIGIN_ICMP6
              then
                sbind (sget rts_of) (\<lambda>rts.
                if length (em_data m) < 8 \<or> addr6_of (em_target m) \<noteq> sin6_addr (whereto6 rts)
                   \<or> unat (em_data m ! 0) \<noteq> ICMP6_ECHO_REQUEST \<or> \<not> is_ours rts sock (le16_at (em_data m) 4)
                then sbind (smod (\<lambda>s. s\<lparr>ps_errno := 0\<rparr>)) (\<lambda>_. sret 0)
                else sbind (ping6_net_error sy e (be16_at (em_data m) 6)) (\<lambda>v.
                     sbind (smod (\<lambda>s. s\<lparr>ps_errno := saved_errno\<rparr>)) (\<lambda>_. sret v)))
              else sret 0)))"

subsection \<open>Sending\<close>

definition echo6_header :: "16 word \<Rightarrow> 16 word \<Rightarrow> bytes" where
  "echo6_header i sq = [of_nat ICMP6_ECHO_REQUEST, 0, 0, 0] @ le16 i @ be16 sq"

definition build_echo :: "'k ping_sys \<Rightarrow> ('k, int) pm" where
  "build_echo sy =
     sbind (mod_rts (\<lambda>rts. rts\<lparr>outpack := put_at 0 (echo6_header (word_of_int (ident rts)) (nt16 rts + 1)) (outpack rts)\<rparr>)) (\<lambda>_.
     sbind (sget rts_of) (\<lambda>rts.
     sbind (swhen (timing rts) (sbind (syscall (sy_now sy)) (\<lambda>now.
              mod_rts (\<lambda>rts. rts\<lparr>outpack := put_at 8 (put_timeval now) (outpack rts)\<rparr>)))) (\<lambda>_.
     sret (datalen rts + 8))))"

text \<open>The octets of the subject, of which \<open>subject_len\<close> are copied.\<close>

definition subject_octets :: "ping_rts \<Rightarrow> bytes option" where
  "subject_octets rts =
     (case ni_subject (ni rts) of
        None \<Rightarrow> None
      | Some Subject_Whereto6 \<Rightarrow> Some (sin6_addr (whereto6 rts))
      | Some (Subject_Data d) \<Rightarrow> Some d)"

definition ni_header :: "ping_ni \<Rightarrow> bytes \<Rightarrow> bytes" where
  "ni_header n nonce =
     [of_nat IPUTILS_NI_ICMP6_QUERY, word_of_int (ni_subject_type n), 0, 0] @ be16 (word_of_int (ni_query n))
       @ le16 (word_of_int (ni_flag n)) @ nonce"

definition build_niquery :: "('k, int) pm" where
  "build_niquery =
     sbind (mod_rts (\<lambda>rts. rts\<lparr>datalen := 0\<rparr>)) (\<lambda>_.
     sbind (sget (\<lambda>s. nt16 (rts_of s) + 1)) (\<lambda>sq.
     sbind (niquery_fill_nonce sq) (\<lambda>nonce.
     sbind (sget rts_of) (\<lambda>rts.
     let len = nat (ni_subject_len (ni rts))
     in sbind (sopt Ping_Out_Of_Bounds (subject_octets rts)) (\<lambda>d.
        sbind (sguard (len \<le> length d \<and> NI_HDR_SIZE + len \<le> MAXPACKET) Ping_Out_Of_Bounds) (\<lambda>_.
        sbind (mod_rts (\<lambda>rts. rts\<lparr>outpack := put_at 0 (ni_header (ni rts) nonce @ take len d) (outpack rts)\<rparr>)) (\<lambda>_.
        sret (int NI_HDR_SIZE + ni_subject_len (ni rts)))))))))"

definition ping6_send_probe :: "'k ping_sys \<Rightarrow> 'k ping6_sys \<Rightarrow> ('k, int) pm" where
  "ping6_send_probe sy s6 =
     sbind (mod_rts (\<lambda>rts. rts\<lparr>rcvd_tbl := rcvd_clear (nt16 rts + 1) (rcvd_tbl rts)\<rparr>)) (\<lambda>_.
     sbind (sget rts_of) (\<lambda>rts.
     sbind (if niquery_is_enabled (ni rts) then build_niquery else build_echo sy) (\<lambda>len.
     sbind (sget rts_of) (\<lambda>rts.
     sbind (syscall (s6_send s6 (whereto6 rts) (confirm rts)
              (if cmsglen rts = 0 then None else Some (take (cmsglen rts) (cmsgbuf rts))) (take (nat len) (outpack rts)))) (\<lambda>r.
     sbind (mod_rts (\<lambda>rts. rts\<lparr>confirm := False\<rparr>)) (\<lambda>_.
     case r of
       Inl en \<Rightarrow> sbind (smod (\<lambda>s. s\<lparr>ps_errno := en\<rparr>)) (\<lambda>_. sret (- 1))
     | Inr cc \<Rightarrow> sret (if cc = len then 0 else cc)))))))"

subsection \<open>Printing a reply\<close>

definition pr_echo_reply6 :: "16 word \<Rightarrow> unit pio" where
  "pr_echo_reply6 sq = ping_print_uint '' icmp_seq='' [] ''seq'' (uint sq)"

fun oct_text :: "nat \<Rightarrow> string" where
  "oct_text n = (if n < 8 then [digit_char n] else oct_text (n div 8) @ [digit_char (n mod 8)])"

declare oct_text.simps [simp del]

text \<open>\<open>char\<close> is signed: a character above 127 is printed as a negative number.\<close>

definition putchar_safe :: "char \<Rightarrow> string" where
  "putchar_safe c =
     (let v = of_char c :: nat
      in if 32 \<le> v \<and> v \<le> 126 then [c]
         else CHR 0x5C # pad_zero 3 (oct_text (if v < 128 then v else 2 ^ 32 - 256 + v)))"

definition ping_print_error_parse :: "string \<Rightarrow> unit pio" where
  "ping_print_error_parse reason =
     sbind (sget io_rts) (\<lambda>rts.
     if opt_json rts then on_rts (construct_json ''error'' (PING_JSON_STR reason))
     else emit ('' parse error ('' @ reason @ '')''))"

definition ping_print_error_qtype :: "nat \<Rightarrow> unit pio" where
  "ping_print_error_qtype v =
     sbind (sget io_rts) (\<lambda>rts.
     if opt_json rts then on_rts (construct_json ''error'' (PING_JSON_STR ''unknown qtype''))
     else emit ('' unknown qtype(0x'' @ pad_zero 2 (hex_text v) @ '')''))"

text \<open>
  The names: \<open>h\<close> is the message behind the header up to its end and \<open>p\<close> an offset in it. A name that
  takes no octets would be read for ever; the counter is larger than the number of names that fit.
\<close>

fun ni_names :: "(bytes \<Rightarrow> nat \<Rightarrow> (nat \<times> string) option) \<Rightarrow> bytes \<Rightarrow> nat \<Rightarrow> nat \<Rightarrow> bool \<Rightarrow> unit pio" where
  "ni_names dnx h 0 p continued = sthrow Print_No_Progress"
| "ni_names dnx h (Suc n) p continued =
     (if p \<ge> length h then sret ()
      else
        sbind (emit (if continued then '','' else [])) (\<lambda>_.
        case dnx h p of
          None \<Rightarrow> ping_print_error_parse ''truncated''
        | Some (ret, buf) \<Rightarrow>
            let fqdn = \<not> (p + ret < length h \<and> h ! (p + ret) = 0)
            in sbind (emit ('' '' @ concat (map putchar_safe buf) @ (if fqdn then ''.'' else []))) (\<lambda>_.
               ni_names dnx h n (p + ret + (if fqdn then 0 else 1)) True)))"

definition pr_niquery_reply_name :: "(bytes \<Rightarrow> nat \<Rightarrow> (nat \<times> string) option) \<Rightarrow> bytes \<Rightarrow> int \<Rightarrow> unit pio" where
  "pr_niquery_reply_name dnx nih len =
     (if len - int (NI_HDR_SIZE + 4) < 0 then ping_print_error_parse ''too short''
      else
        sbind (sguard (nat len \<le> length nih) Print_Out_Of_Bounds) (\<lambda>_.
        let h = take (nat len - NI_HDR_SIZE) (drop NI_HDR_SIZE nih)
        in ni_names dnx h (length h + 1) 4 False))"

text \<open>The addresses, each behind four octets of a time to live.\<close>

function ni_addrs :: "(bytes \<Rightarrow> string) \<Rightarrow> nat \<Rightarrow> bytes \<Rightarrow> bool \<Rightarrow> unit pio" where
  "ni_addrs ntop aflen bs continued =
     (if bs = [] then sret ()
      else
        sbind (emit (if continued then '','' else [])) (\<lambda>_.
        if length bs < 4 + aflen then ping_print_error_parse ''truncated''
        else
          sbind (emit ('' '' @ ntop (take aflen (drop 4 bs)))) (\<lambda>_.
          ni_addrs ntop aflen (drop (4 + aflen) bs) True)))"
  by pat_completeness auto
termination by (relation "measure (\<lambda>(_, _, bs, _). length bs)") auto

declare ni_addrs.simps [simp del]

text \<open>Both truncation flags are the same bit of the flags, which are in network order.\<close>

definition pr_niquery_reply_addr :: "(bytes \<Rightarrow> string) \<Rightarrow> bytes \<Rightarrow> int \<Rightarrow> unit pio" where
  "pr_niquery_reply_addr ntop6 nih len =
     sbind (sguard (7 < length nih) Print_Out_Of_Bounds) (\<lambda>_.
     let qtype = int (unat (be16_at nih 4)); truncated = (be16_at nih 6 AND 1 \<noteq> 0);
         bs = take (nat len - NI_HDR_SIZE) (drop NI_HDR_SIZE nih)
     in if len < 0 then ping_print_error_parse ''too short''
        else
          sbind (sguard (nat len \<le> length nih) Print_Out_Of_Bounds) (\<lambda>_.
          sbind (if qtype = IPUTILS_NI_QTYPE_IPV4ADDR then ni_addrs (\<lambda>a. inet_ntoa (be32_at a 0)) 4 bs False
                 else ni_addrs ntop6 16 bs False) (\<lambda>_.
          if truncated then ping_print_truncated else sret ())))"

text \<open>The code is a single octet and printed after \<open>ntohs\<close>.\<close>

definition pr_niquery_reply ::
  "(bytes \<Rightarrow> nat \<Rightarrow> (nat \<times> string) option) \<Rightarrow> (bytes \<Rightarrow> string) \<Rightarrow> bytes \<Rightarrow> int \<Rightarrow> unit pio" where
  "pr_niquery_reply dnx ntop6 nih len =
     sbind (sguard (9 < length nih) Print_Out_Of_Bounds) (\<lambda>_.
     let code = unat (nih ! 1); qtype = int (unat (be16_at nih 4))
     in sbind (if code = 0
               then if qtype = IPUTILS_NI_QTYPE_DNSNAME then pr_niquery_reply_name dnx nih len
                    else if qtype = IPUTILS_NI_QTYPE_IPV4ADDR \<or> qtype = IPUTILS_NI_QTYPE_IPV6ADDR
                    then pr_niquery_reply_addr ntop6 nih len
                    else ping_print_error_qtype (nat qtype)
               else if code = 1 then emit '' refused''
               else if code = 2 then emit '' unknown''
               else emit ('' unknown code('' @ pad_zero 2 (hex_text (256 * code)) @ '')'')) (\<lambda>_.
        emit (''; seq='' @ nat_dec (unat (be16_at nih 8)) @ '';'')))"

subsection \<open>Receiving\<close>

definition ctl_hops :: "cmsg list \<Rightarrow> int" where
  "ctl_hops cs = fold (\<lambda>c h. case c of Cmsg_Hoplimit v \<Rightarrow> v | _ \<Rightarrow> h) cs (- 1)"

definition reply6 :: "recvd \<Rightarrow> timeval \<Rightarrow> ping_rts \<Rightarrow> 16 word \<Rightarrow> string \<Rightarrow> bool \<Rightarrow> reply" where
  "reply6 msg tv rts sq from wrong_source =
     \<lparr>rp_payload = drop 8 (rm_buf msg), rp_cc = rm_cc msg, rp_seq = sq, rp_hops = ctl_hops (rm_cmsgs msg), rp_csfailed = False,
      rp_tv = tv, rp_from = from, rp_multicast = multicast rts, rp_wrong_source = wrong_source\<rparr>"

text \<open>The end of a line: \<open>False\<close> is the return value 0.\<close>

definition reply6_tail :: "('k, bool) pm" where
  "reply6_tail =
     sbind (sget rts_of) (\<lambda>rts.
     sbind (swhen (opt_audible rts) (puts [CHR 0x07])) (\<lambda>_.
     sbind (swhen (\<not> opt_flood rts \<and> \<not> opt_json rts) (puts nl)) (\<lambda>_.
     sret False)))"

definition count_reply6 :: "'k ping_sys \<Rightarrow> unit pio \<Rightarrow> recvd \<Rightarrow> timeval \<Rightarrow> 16 word \<Rightarrow> bool \<Rightarrow> ('k, bool) pm" where
  "count_reply6 sy pr msg tv sq wrong_source =
     sbind (pr_addr sy (rm_from msg)) (\<lambda>from.
     sbind (syscall (sy_now sy)) (\<lambda>now.
     sbind (sget rts_of) (\<lambda>rts.
     sbind (on_io (gather_statistics (Some pr) now (reply6 msg tv rts sq from wrong_source))) (\<lambda>stop.
     if stop then sret False else reply6_tail))))"

text \<open>A message that quotes a packet; \<open>icmph1\<close> is the offset of the quoted message behind the IPv6 header.\<close>

definition parse_quoted6 :: "'k ping_sys \<Rightarrow> socktype \<Rightarrow> recvd \<Rightarrow> nat \<Rightarrow> nat \<Rightarrow> nat \<Rightarrow> ('k, bool) pm" where
  "parse_quoted6 sy sock msg type nexthdr icmph1 =
     (let buf = rm_buf msg
      in sbind (sget rts_of) (\<lambda>rts.
         if nexthdr = IPPROTO_ICMPV6
         then
           sbind (octet buf icmph1) (\<lambda>type1.
           sbind (word16 buf (icmph1 + 4)) (\<lambda>id1.
           sbind (net16 buf (icmph1 + 6)) (\<lambda>seq1.
           if type1 \<noteq> ICMP6_ECHO_REQUEST \<or> \<not> is_ours rts sock id1 then sret True
           else sbind (mod_rts (acknowledge seq1)) (\<lambda>_. sret False))))
         else if \<not> opt_verbose rts \<or> uid rts \<noteq> 0 then sret True
         else
           sbind (timestamp sy) (\<lambda>_.
           sbind (pr_addr sy (rm_from msg)) (\<lambda>t.
           sbind (octet buf 1) (\<lambda>code.
           sbind (net32 buf 4) (\<lambda>mtu.
           sbind (puts (''From '' @ t @ '': '' @ print_icmp type code (uint mtu))) (\<lambda>_.
           reply6_tail)))))))"

definition parse_quoting6 :: "'k ping_sys \<Rightarrow> socktype \<Rightarrow> recvd \<Rightarrow> nat \<Rightarrow> ('k, bool) pm" where
  "parse_quoting6 sy sock msg type =
     (let buf = rm_buf msg
      in if rm_cc msg < 8 + 40 + 8 then sret True
         else
           sbind (sguard (48 \<le> length buf) Ping_Out_Of_Bounds) (\<lambda>_.
           sbind (sget rts_of) (\<lambda>rts.
           if take 16 (drop 32 buf) \<noteq> sin6_addr (whereto6 rts) then sret True
           else
             sbind (octet buf 14) (\<lambda>nxt.
             if nxt = NEXTHDR_FRAGMENT then sbind (octet buf 48) (\<lambda>nexthdr. parse_quoted6 sy sock msg type nexthdr 56)
             else parse_quoted6 sy sock msg type nxt 48))))"

definition ping6_parse_reply :: "'k ping_sys \<Rightarrow> 'k ping6_sys \<Rightarrow> socktype \<Rightarrow> recvd \<Rightarrow> timeval \<Rightarrow> ('k, bool) pm" where
  "ping6_parse_reply sy s6 sock msg tv =
     (let buf = rm_buf msg
      in if rm_cc msg < 8
         then
           sbind (sget rts_of) (\<lambda>rts.
           sbind (swhen (opt_verbose rts) (ping_error sy 0 0 (''packet too short: '' @ int_dec (rm_cc msg) @ '' bytes''))) (\<lambda>_.
           sret True))
         else
           sbind (octet buf 0) (\<lambda>type.
           if type = ICMP6_ECHO_REPLY
           then
             sbind (word16 buf 4) (\<lambda>i.
             sbind (net16 buf 6) (\<lambda>sq.
             sbind (sget rts_of) (\<lambda>rts.
             if \<not> is_ours rts sock i then sret True
             else count_reply6 sy (pr_echo_reply6 sq) msg tv sq
                    (\<not> multicast rts \<and> \<not> subnet_router_anycast rts \<and> addr6_of (rm_from msg) \<noteq> sin6_addr (whereto6 rts)))))
           else if type = IPUTILS_NI_ICMP6_REPLY
           then
             sbind (sguard (NI_HDR_SIZE \<le> length buf) Ping_Out_Of_Bounds) (\<lambda>_.
             sbind (niquery_check_nonce (take 8 (drop 8 buf))) (\<lambda>sq.
             if sq < 0 then sret True
             else count_reply6 sy (pr_niquery_reply (s6_dn_expand s6) (s6_ntop6 s6) buf (rm_cc msg)) msg tv (word_of_int sq) False))
           else parse_quoting6 sy sock msg type))"

definition ping6_install_filter :: "'k ping_sys \<Rightarrow> ('k, unit) pm" where
  "ping6_install_filter sy =
     sbind (sget ps_filtered6) (\<lambda>once.
     swhen (\<not> once)
       (sbind (smod (\<lambda>s. s\<lparr>ps_filtered6 := True\<rparr>)) (\<lambda>_.
        sbind (sget rts_of) (\<lambda>rts.
        sbind (setopt sy (SO_ATTACH_FILTER6 (word_of_int (htons (ident rts))))) (\<lambda>_. sret ())))))"

definition ping6_print_data_bytes :: "('k, unit) pm" where
  "ping6_print_data_bytes = sbind (sget rts_of) (\<lambda>rts. puts (int_dec (datalen rts) @ '' data bytes'' @ nl))"

definition ping6_source :: "'k ping_sys \<Rightarrow> ('k, string) pm" where
  "ping6_source sy = sbind (sget rts_of) (\<lambda>rts. pr_addr sy (sockaddr6_octets (source6 rts)))"

definition ping6_target :: "'k ping_sys \<Rightarrow> ('k, string) pm" where
  "ping6_target sy = sbind (sget rts_of) (\<lambda>rts. pr_raw_addr sy (sockaddr6_octets (whereto6 rts)))"

definition ping6_func_set :: "'k ping_sys \<Rightarrow> 'k ping6_sys \<Rightarrow> socktype \<Rightarrow> 'k ping_func_set" where
  "ping6_func_set sy s6 sock =
     \<lparr>send_probe = ping6_send_probe sy s6, receive_error_msg = ping6_receive_error_msg sy sock,
      parse_reply = ping6_parse_reply sy s6 sock, install_filter = ping6_install_filter sy,
      ping_print_data_bytes = ping6_print_data_bytes, ping_source = ping6_source sy, ping_target = ping6_target sy\<rparr>"

subsection \<open>The schedule is left alone\<close>

lemma keeps_niquery_nonce [simp]: "keeps same_sched (niquery_nonce nonce b)"
  unfolding niquery_nonce_def Let_def by (auto intro!: sched_intros keeps_smod split: prod.split)

lemma keeps_niquery_fill_nonce [simp]: "keeps same_sched (niquery_fill_nonce sq)"
  unfolding niquery_fill_nonce_def by (intro sched_intros) simp

lemma keeps_build_niquery: "keeps same_sched build_niquery"
  unfolding build_niquery_def Let_def by (auto intro!: sched_intros keeps_mod_rts simp: sched_rts_def)

lemma keeps_build_echo: "keeps same_sched (build_echo sy)"
  unfolding build_echo_def by (auto intro!: sched_intros keeps_mod_rts simp: sched_rts_def)

lemma keeps_ping6_send_probe: "keeps same_sched (ping6_send_probe sy s6)"
  unfolding ping6_send_probe_def
  by (auto intro!: sched_intros keeps_smod keeps_mod_rts keeps_build_niquery keeps_build_echo simp: sched_rts_def split: sum.split)

lemma keeps_ping6_receive_error_msg: "keeps same_sched (ping6_receive_error_msg sy sock)"
  unfolding ping6_receive_error_msg_def ping6_local_error_def ping6_net_error_def
  by (auto intro!: sched_intros keeps_smod keeps_mod_rts keeps_on_io keeps_ping_print_error_packet
      split: sum.split option.split)

interpretation ping6: ping_protocol "ping6_func_set sy s6 sock" for sy s6 sock
  by unfold_locales (simp_all add: ping6_func_set_def keeps_ping6_send_probe keeps_ping6_receive_error_msg)



subsection \<open>No read outside the packet, and every reply is printed\<close>

definition clean :: "json_err \<Rightarrow> bool" where
  "clean e \<longleftrightarrow> e \<noteq> Print_Out_Of_Bounds \<and> e \<noteq> Print_No_Progress"

definition jclean :: "('a \<Rightarrow> json_err + 'b) \<Rightarrow> bool" where
  "jclean f \<longleftrightarrow> (\<forall>b e. f b = Inl e \<longrightarrow> clean e)"

lemma jclean_append [simp]: "jclean (json_append t)"
  by (auto simp: jclean_def json_append_def clean_def Let_def)

lemma jclean_jseq: "jclean f \<Longrightarrow> jclean g \<Longrightarrow> jclean (jseq f g)"
  by (auto simp: jclean_def jseq_def split: sum.splits)

lemma jclean_array [simp]: "jclean (json_array_loop ap cont)"
proof (induction ap arbitrary: cont)
  case (Cons a ap)
  have "jclean (jseq (if cont then json_continue else Inr) (jseq (json_append (dq @ v @ dq)) (json_array_loop ap True)))" for v
    by (intro jclean_jseq) (auto simp: Cons json_continue_def jclean_def [of Inr])
  then show ?case by (cases a) (simp_all add: jclean_def)
qed (simp add: jclean_def clean_def)

lemma jclean_construct: "jclean (construct_json key v)"
proof -
  have "jclean json_open"
    using jclean_append [of "'', ''"]
    by (auto simp: jclean_def json_open_def json_continue_def json_start_object_def clean_def split: if_splits)
  moreover have "jclean (json_value key v)"
    by (cases v) (auto simp: json_kv_str_def json_kv_int_def json_kv_uint_def json_kv_array_def json_end_array_def intro!: jclean_jseq)
  ultimately have "jclean (jseq json_open (json_value key v))" by (rule jclean_jseq)
  then show ?thesis by (auto simp: jclean_def construct_json_def split: if_splits sum.splits)
qed

abbreviation tidy :: "'a pio \<Rightarrow> bool" where
  "tidy \<equiv> sinv clean (\<lambda>_. True)"

lemma tidy_emit [simp]: "tidy (emit t)"
  unfolding emit_def by (rule sinv_smod) simp

lemma tidy_on_rts: "jclean f \<Longrightarrow> tidy (on_rts f)"
  by (auto simp: sinv_def swp_def on_rts_def jclean_def split: sum.split)

lemma tidy_guard: "b \<Longrightarrow> tidy (sguard b e)"
  by (simp add: sguard_def)

lemmas tidy_intros = sinv_intros tidy_emit tidy_on_rts jclean_construct tidy_guard

lemma tidy_prints [simp]:
  "tidy (ping_print_int a b c i)" "tidy (ping_print_uint a b c i)" "tidy (ping_print_str a b c t)" "tidy ping_print_truncated"
  "tidy (ping_print_error_parse t)" "tidy (ping_print_error_qtype n)" "tidy (print_timestamp now)" "tidy (put_rts r)"
  unfolding ping_print_int_def ping_print_uint_def ping_print_str_def ping_print_truncated_def ping_print_error_parse_def
    ping_print_error_qtype_def print_timestamp_def put_rts_def
  by (auto intro!: tidy_intros sinv_smod)

lemma tidy_gather: "tidy p \<Longrightarrow> tidy (gather_statistics (Some p) now r)"
  unfolding gather_statistics_def print_reply_def by (auto intro!: tidy_intros)

text \<open>What the resolver promises: a name takes at least one octet and lies within the message.\<close>

definition dn_expand_ok :: "(bytes \<Rightarrow> nat \<Rightarrow> (nat \<times> string) option) \<Rightarrow> bool" where
  "dn_expand_ok dnx \<longleftrightarrow> (\<forall>h p n t. dnx h p = Some (n, t) \<longrightarrow> 0 < n \<and> p + n \<le> length h)"

lemma tidy_ni_names:
  assumes "dn_expand_ok dnx"
  shows "length h - p < n \<Longrightarrow> tidy (ni_names dnx h n p cont)"
proof (induction n arbitrary: p cont)
  case (Suc n)
  have "length h - (p + k) < n" "length h - (p + k + 1) < n" if "dnx h p = Some (k, t)" "p < length h" for k t
  proof -
    have "0 < k" using assms that(1) by (auto simp: dn_expand_ok_def)
    then show "length h - (p + k) < n" "length h - (p + k + 1) < n" using that(2) Suc.prems by linarith+
  qed
  then show ?case by (auto intro!: tidy_intros Suc.IH simp: Let_def)
qed simp

lemma tidy_ni_addrs: "tidy (ni_addrs ntop aflen bs cont)"
proof (induction ntop aflen bs cont rule: ni_addrs.induct)
  case (1 ntop aflen bs cont)
  then show ?case by (subst ni_addrs.simps) (auto intro!: tidy_intros)
qed

lemma tidy_pr_niquery_reply:
  assumes "dn_expand_ok dnx" "len \<le> int (length nih)" "9 < length nih"
  shows "tidy (pr_niquery_reply dnx ntop6 nih len)"
  using assms unfolding pr_niquery_reply_def pr_niquery_reply_name_def pr_niquery_reply_addr_def Let_def
  by (auto intro!: tidy_intros tidy_ni_names tidy_ni_addrs)

abbreviation sound :: "('k, 'a) pm \<Rightarrow> bool" where
  "sound \<equiv> sinv (\<lambda>e. e \<noteq> Ping_Out_Of_Bounds \<and> (\<forall>j. e = Ping_Json j \<longrightarrow> clean j)) (\<lambda>_. True)"

lemma sound_basic [simp]:
  "sound (syscall c)" "sound (mod_rts f)" "sound (smod g)" "sound (sguard b (Ping_Exit n))" "sound (die n)"
  by (auto simp: sinv_def swp_def syscall_def mod_rts_def serr_defs die_def split: prod.split)

lemma sound_on_io: "tidy m \<Longrightarrow> sound (on_io m)"
  by (auto simp: sinv_def swp_def on_io_def split: prod.splits sum.splits)

lemma sound_puts [simp]: "sound (puts t)"
  by (rule sound_on_io) simp

lemma sound_read:
  "i < length bs \<Longrightarrow> sound (octet bs i)" "i + 1 < length bs \<Longrightarrow> sound (word16 bs i)"
  "i + 1 < length bs \<Longrightarrow> sound (net16 bs i)" "i + 3 < length bs \<Longrightarrow> sound (net32 bs i)"
  "b \<Longrightarrow> sound (sguard b e)"
  by (simp_all add: octet_def word16_def net16_def net32_def sopt_def sguard_def)

lemmas sound_intros = sinv_intros sound_on_io sound_read

lemma tidy_json_error: "tidy (\<lambda>i. case construct_json_error st n m (io_rts i) of
    Inl e \<Rightarrow> (Inl e, i) | Inr (out, r) \<Rightarrow> (Inr (), i\<lparr>io_rts := r, io_out := io_out i @ out\<rparr>))"
  using jclean_construct
  by (auto simp: sinv_def swp_def construct_json_error_def jclean_def clean_def split: sum.splits if_splits option.splits prod.splits)

lemma sound_ping_error [simp]: "sound (ping_error sy st n msg)"
  unfolding ping_error_def by (auto intro!: sinv_intros sound_on_io tidy_json_error)

lemma sound_timestamp [simp]: "sound (timestamp sy)"
  unfolding timestamp_def by (auto intro!: sound_intros)

lemma sound_pr_addr [simp]: "sound (pr_addr sy sa)"
  unfolding pr_addr_def pr_addr_as_def pr_addr_fresh_def Let_def by (auto intro!: sound_intros)

lemma sound_tail [simp]: "sound reply6_tail"
  unfolding reply6_tail_def by (auto intro!: sound_intros)

lemma sound_count_reply6: "tidy p \<Longrightarrow> sound (count_reply6 sy p msg tv sq w)"
  unfolding count_reply6_def by (auto intro!: sound_intros tidy_gather)

lemma sound_check_nonce [simp]: "sound (niquery_check_nonce n)"
  unfolding niquery_check_nonce_def niquery_nonce_def Let_def by (auto intro!: sound_intros)

lemma sound_parse_quoted6: "64 \<le> length (rm_buf msg) \<Longrightarrow> p \<le> 56 \<Longrightarrow> sound (parse_quoted6 sy sock msg type n p)"
  unfolding parse_quoted6_def Let_def by (auto intro!: sound_intros)

lemma sound_parse_quoting6: "64 \<le> length (rm_buf msg) \<Longrightarrow> sound (parse_quoting6 sy sock msg type)"
  unfolding parse_quoting6_def Let_def by (auto intro!: sound_intros sound_parse_quoted6)


definition demo_s6 :: "unit ping6_sys" where
  "demo_s6 = \<lparr>s6_send = (\<lambda>_ _ _ p. Pair (Inr (int (length p)))),
     s6_dn_expand = (\<lambda>h p. if p < length h \<and> p + unat (h ! p) + 2 \<le> length h
        then Some (unat (h ! p) + 2, map char_of_byte (take (unat (h ! p)) (drop (p + 1) h))) else None),
     s6_ntop6 = (\<lambda>_. ''::'')\<rparr>"


subsection \<open>Node information queries\<close>

lemma count_reply6_quiet:
  assumes "opt_quiet (rts_of s)"
  shows "swp (count_reply6 sy p msg tv sq w) (\<lambda>r s'. r = Inr False \<and>
    (\<exists>now from. rts_of s' = after_reply now (reply6 msg tv (rts_of s) sq from w) (rts_of s))) s"
  unfolding count_reply6_def
  by (simp add: swp_bind, rule swp_pr_addr)
     (use assms in \<open>auto simp: swp_eq swp_def [of "on_io m" for m] on_io_def gather_statistics_quiet rts_of_def split: prod.split\<close>)

text \<open>The counters after a reply with the number \<open>sq\<close>.\<close>

definition counted :: "16 word \<Rightarrow> ping_rts \<Rightarrow> ping_rts \<Rightarrow> bool" where
  "counted sq r r' \<longleftrightarrow> rcvd_test sq (rcvd_tbl r') \<and> nchecksum r' = nchecksum r \<and>
     (if rcvd_test sq (rcvd_tbl r) then nreceived r' = nreceived r \<and> nrepeats r' = nrepeats r + 1
      else nreceived r' = nreceived r + 1 \<and> nrepeats r' = nrepeats r)"

lemma counted_after_reply:
  assumes "length (rcvd_tbl r) = 1024" "\<not> rp_csfailed p"
  shows "counted (rp_seq p) r (after_reply now p r)"
proof -
  have "counters (after_reply now p r) = (if rcvd_test (rp_seq p) (rcvd_tbl r) then (nreceived r, nrepeats r + 1, nchecksum r, rcvd_tbl r)
      else (nreceived r + 1, nrepeats r, nchecksum r, rcvd_set (rp_seq p) (rcvd_tbl r)))"
    using counters_after [of r "nreceived r" "nrepeats r" "nchecksum r" "rcvd_tbl r" now p] assms(2) by (simp add: counters_def)
  then show ?thesis
    using rcvd.mem_after(1) [of "rcvd_tbl r" "rp_seq p" "rp_seq p"] assms(1)
    by (auto simp: tbl_inv_def counted_def counters_def split: if_splits)
qed

lemma ni_reply_quiet:
  assumes "nonce_cache_ok secret s" "length secret < 2 ^ 32" "8 \<le> rm_cc msg" "16 \<le> length (rm_buf msg)"
    and "rm_buf msg ! 0 = 140" "opt_quiet (rts_of s)" "length (rcvd_tbl (rts_of s)) = 1024"
  shows "\<exists>s'. if \<exists>q. take 8 (drop 8 (rm_buf msg)) = nonce_of secret q
    then ping6_parse_reply sy s6 sock msg tv s = (Inr False, s') \<and> counted (be16_at (rm_buf msg) 8) (rts_of s) (rts_of s')
    else ping6_parse_reply sy s6 sock msg tv s = (Inr True, s') \<and> rts_of s' = rts_of s"
proof -
  let ?n = "take 8 (drop 8 (rm_buf msg))"
  have l: "0 < length (rm_buf msg)" "length ?n = 8" using assms(4) by (simp_all del: length_greater_0_conv)
  have b: "be16_at ?n 0 = be16_at (rm_buf msg) 8" using assms(4) by (simp add: be16_at_def)
  obtain s1 where c: "niquery_check_nonce ?n s
      = (Inr (if \<exists>q. ?n = nonce_of secret q then uint (be16_at (rm_buf msg) 8) else - 1), s1)" "rts_of s1 = rts_of s"
    using niquery_check_nonce_result [OF assms(1,2) l(2)] unfolding b by blast
  have step: "ping6_parse_reply sy s6 sock msg tv s =
    (if \<exists>q. ?n = nonce_of secret q
     then count_reply6 sy (pr_niquery_reply (s6_dn_expand s6) (s6_ntop6 s6) (rm_buf msg) (rm_cc msg)) msg tv
            (be16_at (rm_buf msg) 8) False s1
     else (Inr True, s1))"
    using assms(3,4,5) l(1) c(1) by (simp add: ping6_parse_reply_def Let_def octet_def sopt_def sbind_def serr_defs)
  have cr: "counted sq (rts_of s) (after_reply now (reply6 msg tv r sq from False) (rts_of s))" for sq now r "from"
    using counted_after_reply [OF assms(7), of "reply6 msg tv r sq from False" now] by (simp add: reply6_def)
  show ?thesis
  proof (cases "\<exists>q. ?n = nonce_of secret q")
    case True
    have "swp (count_reply6 sy (pr_niquery_reply (s6_dn_expand s6) (s6_ntop6 s6) (rm_buf msg) (rm_cc msg)) msg tv
            (be16_at (rm_buf msg) 8) False) (\<lambda>r s'. r = Inr False \<and> counted (be16_at (rm_buf msg) 8) (rts_of s) (rts_of s')) s1"
      by (rule swp_mono [OF count_reply6_quiet])
         (use assms(6) c(2) cr in auto)
    then show ?thesis using step True by (auto simp: swp_def split: prod.splits)
  next
    case False
    then show ?thesis using step c(2) by auto
  qed
qed

text \<open>What a query puts into the packet.\<close>

lemma ni_header_length: "length nonce = 8 \<Longrightarrow> length (ni_header n nonce) = 16"
  by (simp add: ni_header_def)

lemma nonce_of_length: "length (nonce_of secret q) = 8"
proof -
  have "length (md5_digest m) = 16" for m by (simp add: md5_digest_def split: prod.split)
  then show ?thesis by (simp add: nonce_of_def)
qed

lemma swp_fill_nonce:
  assumes "nonce_cache_ok secret s" "length secret < 2 ^ 32"
    and "\<And>s'. nonce_cache_ok secret s' \<Longrightarrow> rts_of s' = rts_of s \<Longrightarrow> Q (Inr (nonce_of secret q)) s'"
  shows "swp (niquery_fill_nonce q) Q s"
  using niquery_fill_nonce_result [OF assms(1,2), of q] assms(3) by (auto simp: swp_def)

lemma nonce_cache_io: "nonce_cache_ok secret s \<Longrightarrow> ni_secret (ni (io_rts i)) = secret \<Longrightarrow> nonce_cache_ok secret (s\<lparr>ps_io := i\<rparr>)"
  by (simp add: nonce_cache_ok_def)

lemma build_niquery_packet:
  assumes "nonce_cache_ok secret s" "length secret < 2 ^ 32" "subject_octets (rts_of s) = Some d"
    and "ni_subject_len (ni_of s) = int (length d)" "length d \<le> 65519"
  shows "swp build_niquery (\<lambda>r s'. r = Inr (int (16 + length d)) \<and> nonce_cache_ok secret s' \<and> rcvd_tbl (rts_of s') = rcvd_tbl (rts_of s)
    \<and> opt_quiet (rts_of s') = opt_quiet (rts_of s) \<and> nreceived (rts_of s') = nreceived (rts_of s)
    \<and> outpack (rts_of s') = put_at 0 (ni_header (ni_of s) (nonce_of secret (nt16 (rts_of s) + 1)) @ d) (outpack (rts_of s))) s"
proof -
  have sec: "ni_secret (ni_of s) = secret" using assms(1) by (simp add: nonce_cache_ok_def)
  have sub: "subject_octets ((rts_of s)\<lparr>datalen := 0\<rparr>) = Some d" using assms(3) by (auto simp: subject_octets_def split: option.splits ni_subject.splits)
  have nt: "nt16 ((rts_of s)\<lparr>datalen := 0\<rparr>) = nt16 (rts_of s)" by (simp add: nt16_def)
  show ?thesis
    unfolding build_niquery_def Let_def
    by (simp add: swp_eq, rule swp_fill_nonce [where secret = secret], rule nonce_cache_io [OF assms(1)])
       (use sec assms(2) sub assms(4,5) in \<open>auto simp: rts_of_def [symmetric] swp_eq sopt_def nt intro!: nonce_cache_io\<close>)
qed

lemma ping6_ni_probe:
  assumes "nonce_cache_ok secret s" "length secret < 2 ^ 32" "niquery_is_enabled (ni_of s)"
    and "subject_octets (rts_of s) = Some d" "ni_subject_len (ni_of s) = int (length d)" "length d \<le> 65519"
  shows "swp (ping6_send_probe sy s6) (\<lambda>r s'. (\<exists>v. r = Inr v) \<and> nonce_cache_ok secret s' \<and> nreceived (rts_of s') = nreceived (rts_of s) \<and> opt_quiet (rts_of s') = opt_quiet (rts_of s)
    \<and> rcvd_tbl (rts_of s') = rcvd_clear (nt16 (rts_of s) + 1) (rcvd_tbl (rts_of s))
    \<and> outpack (rts_of s') = put_at 0 (ni_header (ni_of s) (nonce_of secret (nt16 (rts_of s) + 1)) @ d) (outpack (rts_of s))) s"
proof -
  let ?r = "(rts_of s)\<lparr>rcvd_tbl := rcvd_clear (nt16 (rts_of s) + 1) (rcvd_tbl (rts_of s))\<rparr>"
  let ?s = "s\<lparr>ps_io := (ps_io s)\<lparr>io_rts := ?r\<rparr>\<rparr>"
  have sec: "ni_secret (ni_of s) = secret" using assms(1) by (simp add: nonce_cache_ok_def)
  have c: "nonce_cache_ok secret ?s" by (rule nonce_cache_io [OF assms(1)]) (simp add: sec)
  have sub: "subject_octets (rts_of ?s) = Some d"
    using assms(4) by (auto simp: subject_octets_def split: option.splits ni_subject.splits)
  have nt: "nt16 ?r = nt16 (rts_of s)" by (simp add: nt16_def)
  show ?thesis
    unfolding ping6_send_probe_def
    by (simp add: swp_eq assms(3) rts_of_def [symmetric])
       (rule swp_mono [OF build_niquery_packet [OF c assms(2) sub]],
        use assms(5,6) in \<open>auto simp: swp_eq nt nonce_cache_ok_def split: prod.split sum.split\<close>)
qed


definition demo_ni_rts :: ping_rts where
  "demo_ni_rts = demo_rts\<lparr>ni := ni_init\<lparr>ni_query := 2, ni_subject := Some Subject_Whereto6, ni_subject_len := 16, ni_subject_type := 0\<rparr>\<rparr>"


end
