(* ===== verification/Ping_Main.thy ===== *)
theory Ping_Main
  imports Ping6 Getopt
begin

text \<open>
  \<open>ping.c\<close>: \<open>ping4_run\<close> and \<open>main\<close>. Name resolution, sockets and interfaces are functions on the state
  of the kernel; \<open>strtod\<close>, \<open>inet_aton\<close> and \<open>inet_pton\<close> are parameters; the first of these gives a finite number for
  what \<open>fpclassify\<close> calls normal or zero. The calls on the IPv6 socket are a second system, and
  \<open>ping6_run\<close> of the theory \<open>Ping6_Run\<close> is an argument of \<open>ping_main\<close>. Capabilities and locales have no
  effect on what is modelled; messages on standard error are left out, their exit status is kept.
\<close>

subsection \<open>The system calls of the set-up\<close>

record addrinfo =
  ai_family :: af
  ai_addr :: "32 word"
  ai_addr6 :: sockaddr_in6
  ai_canonname :: "string option"

record 'k ping_net =
  nt_aton :: "string \<Rightarrow> 32 word option"
  nt_pton4 :: "string \<Rightarrow> 32 word option"
  nt_pton6 :: "string \<Rightarrow> bytes option"
  nt_strtod :: "string \<Rightarrow> cdouble \<times> string \<times> bool"
  nt_ni :: "'k ni_sys"
  nt_getaddrinfo :: "string \<Rightarrow> af \<Rightarrow> 'k \<Rightarrow> (int + addrinfo list) \<times> 'k"
  nt_socket :: "af \<Rightarrow> socktype \<Rightarrow> 'k \<Rightarrow> int option \<times> 'k"
  nt_probe_socket :: "'k \<Rightarrow> int option \<times> 'k"
  nt_probe_opt :: "sockopt \<Rightarrow> 'k \<Rightarrow> int option \<times> 'k"
  nt_probe_connect :: "32 word \<Rightarrow> 'k \<Rightarrow> int option \<times> 'k"
  nt_getsockname :: "'k \<Rightarrow> (int + 32 word) \<times> 'k"
  nt_getifaddrs :: "'k \<Rightarrow> (int + (string \<times> 32 word) list) \<times> 'k"
  nt_ifindex :: "string \<Rightarrow> 'k \<Rightarrow> int option \<times> 'k"
  nt_bind :: "32 word \<Rightarrow> int \<Rightarrow> 'k \<Rightarrow> int option \<times> 'k"
  nt_connect :: "32 word \<Rightarrow> 'k \<Rightarrow> int option \<times> 'k"

text \<open>A system call whose failure is fatal.\<close>

definition must :: "('k \<Rightarrow> int option \<times> 'k) \<Rightarrow> ('k, unit) pm" where
  "must f = sbind (syscall f) (\<lambda>r. swhen (r \<noteq> None) (die 2))"

definition may :: "('k \<Rightarrow> int option \<times> 'k) \<Rightarrow> ('k, unit) pm" where
  "may f = sbind (syscall f) (\<lambda>_. sret ())"

abbreviation EACCES :: int where "EACCES \<equiv> 13"
abbreviation EAFNOSUPPORT :: int where "EAFNOSUPPORT \<equiv> 97"
abbreviation EPROTONOSUPPORT :: int where "EPROTONOSUPPORT \<equiv> 93"
abbreviation EHOSTUNREACH :: int where "EHOSTUNREACH \<equiv> 113"
abbreviation ENETUNREACH :: int where "ENETUNREACH \<equiv> 101"
abbreviation ICMP_MAX_DATALEN :: int where "ICMP_MAX_DATALEN \<equiv> 65507"
abbreviation ICMPV6_MAX_DATALEN :: int where "ICMPV6_MAX_DATALEN \<equiv> 65527"
abbreviation IDENTIFIER_MAX :: int where "IDENTIFIER_MAX \<equiv> 65535"
abbreviation TOS_MAX :: int where "TOS_MAX \<equiv> 255"
abbreviation UINT_MAX :: int where "UINT_MAX \<equiv> 4294967295"
abbreviation IPOPT_TS_TSONLY :: int where "IPOPT_TS_TSONLY \<equiv> 0"
abbreviation (input) IPOPT_TS_TSANDADDR :: int where "IPOPT_TS_TSANDADDR \<equiv> 1"
abbreviation IPOPT_TS_PRESPEC :: int where "IPOPT_TS_PRESPEC \<equiv> 3"
abbreviation IP_PMTUDISC_DO :: int where "IP_PMTUDISC_DO \<equiv> 2"
abbreviation MIN_MULTICAST_USER_INTERVAL_MS :: int where "MIN_MULTICAST_USER_INTERVAL_MS \<equiv> 1000"

subsection \<open>Sockets\<close>

definition get_ipv4_optlen :: "ping_rts \<Rightarrow> int" where
  "get_ipv4_optlen rts = (if opt_rroute rts \<or> opt_timestamp rts \<or> opt_sourceroute rts then 40 else 0)"

text \<open>Whether there is a socket, and the type that was tried last.\<close>

definition create_socket :: "'k ping_net \<Rightarrow> af \<Rightarrow> socktype \<Rightarrow> bool \<Rightarrow> ('k, bool \<times> socktype) pm" where
  "create_socket nt family socktype requisite =
     sbind (if socktype = SOCK_DGRAM then syscall (nt_socket nt family SOCK_DGRAM) else sret (Some 0)) (\<lambda>r.
     let fallback = (case r of
                       Some en \<Rightarrow> en = EAFNOSUPPORT \<and> family = AF_INET \<or> en = EPROTONOSUPPORT \<or> en = EACCES
                     | None \<Rightarrow> False)
     in sbind (if socktype = SOCK_RAW \<or> fallback
               then sbind (syscall (nt_socket nt family SOCK_RAW)) (\<lambda>r. sret (r, SOCK_RAW))
               else sret (r, socktype)) (\<lambda>(r, socktype).
        if r = None then sret (True, socktype)
        else if requisite then die 2
        else sret (False, socktype)))"

definition ping_strtod :: "'k ping_net \<Rightarrow> string \<Rightarrow> ('k, real) pm" where
  "ping_strtod nt str =
     (if str = [] then die 2
      else case nt_strtod nt str of
             (Fin num, _, _) \<Rightarrow> sret num
           | _ \<Rightarrow> die 2)"

subsection \<open>Numbers\<close>

definition hex_prefix :: "string \<Rightarrow> bool" where
  "hex_prefix str \<longleftrightarrow> has_prefix ''0x'' str \<or> has_prefix ''0X'' str"

definition parseflow :: "string \<Rightarrow> ('k, int) pm" where
  "parseflow str =
     (case (if hex_prefix str then strtoul 16 (drop 2 str) else strtoul 10 str) of
        (v, rest, _) \<Rightarrow>
          let val = to_int32 v mod 2 ^ 64
          in if rest \<noteq> [] then die 2
             else if val AND NOT 0xfffff \<noteq> 0 then die 2
             else sret (to_int32 val))"

definition parsetos :: "string \<Rightarrow> ('k, int) pm" where
  "parsetos str =
     (case (if hex_prefix str then strtol 16 (drop 2 str) else strtol 10 str) of
        (v, rest, _) \<Rightarrow>
          if rest \<noteq> [] then die 2
          else if to_int32 v > TOS_MAX then die 2
          else sret (to_int32 v))"

definition number :: "num_error + int \<Rightarrow> ('k, int) pm" where
  "number r = (case r of Inl _ \<Rightarrow> die 1 | Inr v \<Rightarrow> sret v)"

subsection \<open>ping4_run\<close>

definition IN_MULTICAST :: "32 word \<Rightarrow> bool" where
  "IN_MULTICAST a \<longleftrightarrow> a AND 0xf0000000 = 0xe0000000"

text \<open>\<open>bind_to_device\<close> on a socket whose options \<open>opt\<close> sets.\<close>

definition bind_to_device ::
  "'k ping_net \<Rightarrow> (sockopt \<Rightarrow> 'k \<Rightarrow> int option \<times> 'k) \<Rightarrow> string \<Rightarrow> 32 word \<Rightarrow> ('k, unit) pm" where
  "bind_to_device nt opt dev addr =
     sbind (syscall (opt (SO_BINDTODEVICE dev))) (\<lambda>r.
     swhen (r \<noteq> None)
       (if IN_MULTICAST addr
        then sbind (syscall (nt_ifindex nt (take 15 dev))) (\<lambda>i.
             case i of None \<Rightarrow> die 2 | Some i \<Rightarrow> must (opt (IP_MULTICAST_IF i)))
        else die 2))"

text \<open>The number of operands.\<close>

definition check_operands :: "nat \<Rightarrow> ('k, unit) pm" where
  "check_operands argc =
     sbind (sget rts_of) (\<lambda>rts.
     swhen (argc > 1)
       (if opt_rroute rts then die 2
        else if opt_timestamp rts
        then swhen (ts_type rts \<noteq> IPOPT_TS_PRESPEC \<or> argc > 5) (die 2)
        else sbind (swhen (argc > 10) (die 2)) (\<lambda>_. mod_rts (\<lambda>rts. rts\<lparr>opt_sourceroute := True\<rparr>))))"

abbreviation NI_MAXHOST :: nat where "NI_MAXHOST \<equiv> 1025"

text \<open>The array \<open>route\<close> has ten entries; \<open>nroute\<close> is not reset when the function is called again.\<close>

definition add_route :: "('k, unit) pm" where
  "add_route =
     sbind (sget rts_of) (\<lambda>rts.
     sbind (sguard (length (route rts) < 10) Ping_Out_Of_Bounds) (\<lambda>_.
     mod_rts (\<lambda>rts. rts\<lparr>route := route rts @ [whereto rts]\<rparr>)))"

fun resolve_targets :: "'k ping_net \<Rightarrow> addrinfo \<Rightarrow> string list \<Rightarrow> ('k, unit) pm" where
  "resolve_targets nt ai [] = sret ()"
| "resolve_targets nt ai (target # rest) =
     sbind (case nt_aton nt target of
              Some a \<Rightarrow> mod_rts (\<lambda>rts. let rts = rts\<lparr>whereto := a, hostname := target\<rparr>
                                        in if rest = [] then rts\<lparr>opt_numeric := True\<rparr> else rts)
            | None \<Rightarrow>
                sbind (if rest = [] then sret ai
                       else sbind (syscall (nt_getaddrinfo nt target AF_INET)) (\<lambda>r.
                            case r of Inr (a # _) \<Rightarrow> sret a | _ \<Rightarrow> die 2)) (\<lambda>a.
                mod_rts (\<lambda>rts. rts\<lparr>whereto := ai_addr a,
                  hostname := take (NI_MAXHOST - 1) (case ai_canonname a of Some c \<Rightarrow> c | None \<Rightarrow> target)\<rparr>))) (\<lambda>_.
     sbind (swhen (rest \<noteq> []) add_route) (\<lambda>_.
     resolve_targets nt ai rest))"

text \<open>
  The source address, asked from a probe socket: \<open>None\<close> is the return value -1, otherwise the address
  the probe was connected to.
\<close>

definition probe_source :: "'k ping_sys \<Rightarrow> 'k ping_net \<Rightarrow> bool \<Rightarrow> ('k, 32 word option) pm" where
  "probe_source sy nt has_next =
     sbind (must (nt_probe_socket nt)) (\<lambda>_.
     sbind (sget rts_of) (\<lambda>rts.
     sbind (case device rts of
              None \<Rightarrow> sret ()
            | Some dev \<Rightarrow> sbind (bind_to_device nt (nt_probe_opt nt) dev (whereto rts)) (\<lambda>_.
                           bind_to_device nt (sy_setsockopt sy) dev (whereto rts))) (\<lambda>_.
     sbind (swhen (settos rts \<noteq> 0) (may (nt_probe_opt nt (IP_TOS (settos rts))))) (\<lambda>_.
     sbind (sock_setmark (sy\<lparr>sy_setsockopt := nt_probe_opt nt\<rparr>)) (\<lambda>_.
     let dst = (case route rts of a # _ \<Rightarrow> a | [] \<Rightarrow> whereto rts)
     in sbind (syscall (nt_probe_connect nt dst)) (\<lambda>r.
        sbind (case r of
                 None \<Rightarrow> sret True
               | Some en \<Rightarrow>
                   if en = EACCES
                   then if broadcast_pings rts
                        then sbind (must (nt_probe_opt nt SO_BROADCAST)) (\<lambda>_.
                             sbind (must (nt_probe_connect nt dst)) (\<lambda>_. sret True))
                        else die 2
                   else if (en = EHOSTUNREACH \<or> en = ENETUNREACH) \<and> has_next then sret False
                   else die 2) (\<lambda>connected.
        if \<not> connected then sret None
        else
          sbind (syscall (nt_getsockname nt)) (\<lambda>r.
          case r of
            Inl _ \<Rightarrow> die 2
          | Inr a \<Rightarrow>
              sbind (mod_rts (\<lambda>rts. rts\<lparr>source_addr := a, source_port := 0\<rparr>)) (\<lambda>_.
              sbind (swhen (device rts \<noteq> None)
                       (sbind (syscall (nt_getifaddrs nt)) (\<lambda>r. case r of Inl _ \<Rightarrow> die 2 | Inr _ \<Rightarrow> sret ()))) (\<lambda>_.
              sret (Some dst)))))))))))"

definition choose_source :: "'k ping_sys \<Rightarrow> 'k ping_net \<Rightarrow> bool \<Rightarrow> ('k, 32 word option option) pm" where
  "choose_source sy nt has_next =
     sbind (sget rts_of) (\<lambda>rts.
     if source_addr rts = 0
     then sbind (probe_source sy nt has_next) (\<lambda>r. sret (case r of None \<Rightarrow> None | Some d \<Rightarrow> Some (Some d)))
     else sbind (case device rts of
                   None \<Rightarrow> sret ()
                 | Some dev \<Rightarrow> bind_to_device nt (sy_setsockopt sy) dev (whereto rts)) (\<lambda>_. sret (Some None)))"

text \<open>Multicast and broadcast.\<close>

definition check_multicast :: "('k, unit) pm" where
  "check_multicast =
     sbind (mod_rts (\<lambda>rts. if whereto rts = 0 then rts\<lparr>whereto := source_addr rts\<rparr> else rts)) (\<lambda>_.
     sbind (sget rts_of) (\<lambda>rts.
     swhen (broadcast_pings rts \<or> IN_MULTICAST (whereto rts))
       (sbind (mod_rts (\<lambda>rts. rts\<lparr>multicast := True\<rparr>)) (\<lambda>_.
        sbind (swhen (uid rts \<noteq> 0 \<and> (interval rts < MIN_MULTICAST_USER_INTERVAL_MS
                       \<or> pmtudisc rts \<ge> 0 \<and> pmtudisc rts \<noteq> IP_PMTUDISC_DO)) (die 2)) (\<lambda>_.
        mod_rts (\<lambda>rts. if pmtudisc rts < 0 then rts\<lparr>pmtudisc := IP_PMTUDISC_DO\<rparr> else rts))))))"

text \<open>The IP options: the array \<open>rspace\<close> of forty octets, which the addresses may not leave.\<close>

definition rr_option :: bytes where
  "rr_option = [1, 7, 39, 4] @ replicate 36 0"

definition ts_ip_option :: "int \<Rightarrow> 32 word list \<Rightarrow> bytes" where
  "ts_ip_option ty rt =
     (let n = (if ty = IPOPT_TS_PRESPEC then 4 + length rt * 8 else if ty = IPOPT_TS_TSONLY then 40 else 36)
      in take n ([68, of_nat n, 5, word_of_int ty]
           @ (if ty = IPOPT_TS_PRESPEC then concat (map (\<lambda>a. be32 a @ replicate 4 0) rt) else []) @ replicate 36 0))"

definition srr_ip_option :: "bool \<Rightarrow> 32 word list \<Rightarrow> bytes" where
  "srr_ip_option strict rt = [1, if strict then 137 else 131, of_nat (3 + length rt * 4), 4] @ concat (map be32 rt)"

definition set_ip_options :: "'k ping_sys \<Rightarrow> ('k, unit) pm" where
  "set_ip_options sy =
     sbind (sget rts_of) (\<lambda>rts.
     sbind (swhen (opt_rroute rts) (must (sy_setsockopt sy (IP_OPTIONS rr_option)))) (\<lambda>_.
     sbind (swhen (opt_timestamp rts)
              (sbind (sguard (ts_type rts = IPOPT_TS_PRESPEC \<longrightarrow> 8 * length (route rts) \<le> 36) Ping_Out_Of_Bounds) (\<lambda>_.
               sbind (syscall (sy_setsockopt sy (IP_OPTIONS (ts_ip_option (ts_type rts) (route rts))))) (\<lambda>r.
               swhen (r \<noteq> None)
                 (must (sy_setsockopt sy (IP_OPTIONS ((ts_ip_option (ts_type rts) (route rts))[3 := 2])))))))) (\<lambda>_.
     swhen (opt_sourceroute rts)
       (sbind (sguard (4 * length (route rts) \<le> 36) Ping_Out_Of_Bounds) (\<lambda>_.
        must (sy_setsockopt sy (IP_OPTIONS (srr_ip_option (opt_so_dontroute rts) (route rts)))))))))"

definition set_socket_options :: "'k ping_sys \<Rightarrow> 'k ping_net \<Rightarrow> socktype \<Rightarrow> ('k, unit) pm" where
  "set_socket_options sy nt sock =
     sbind (sget rts_of) (\<lambda>rts.
     sbind (swhen (pmtudisc rts \<ge> 0) (must (sy_setsockopt sy (IP_MTU_DISCOVER (pmtudisc rts))))) (\<lambda>_.
     let set_ident = (ident rts > 0 \<and> sock = SOCK_DGRAM)
     in sbind (mod_rts (\<lambda>rts. if set_ident then rts\<lparr>source_port := ident rts\<rparr> else rts)) (\<lambda>_.
        sbind (sget rts_of) (\<lambda>rts.
        sbind (swhen (opt_strictsource rts \<or> set_ident) (must (nt_bind nt (source_addr rts) (source_port rts)))) (\<lambda>_.
        sbind (swhen (sock = SOCK_RAW) (may (sy_setsockopt sy (ICMP_FILTER
                 [ICMP_SOURCE_QUENCH, ICMP_DEST_UNREACH, ICMP_TIME_EXCEEDED, ICMP_PARAMETERPROB, ICMP_REDIRECT, ICMP_ECHOREPLY])))) (\<lambda>_.
        sbind (may (sy_setsockopt sy IP_RECVERR)) (\<lambda>_.
        swhen (sock = SOCK_DGRAM)
          (sbind (may (sy_setsockopt sy IP_RECVTTL)) (\<lambda>_. may (sy_setsockopt sy IP_RETOPTS))))))))))"

definition set_traffic :: "'k ping_sys \<Rightarrow> ('k, unit) pm" where
  "set_traffic sy =
     sbind (mod_rts (\<lambda>rts. rts\<lparr>optlen := get_ipv4_optlen rts\<rparr>)) (\<lambda>_.
     sbind (sget rts_of) (\<lambda>rts.
     let hold = datalen rts + 8
     in sbind (sock_setbufs sy (hold + cdiv (hold + 511) 512 * (optlen rts + 20 + 16 + 64 + 160))) (\<lambda>_.
        sbind (swhen (broadcast_pings rts) (must (sy_setsockopt sy SO_BROADCAST))) (\<lambda>_.
        sbind (swhen (opt_noloop rts) (must (sy_setsockopt sy IP_MULTICAST_LOOP))) (\<lambda>_.
        sbind (swhen (opt_ttl rts) (sbind (must (sy_setsockopt sy (IP_MULTICAST_TTL (ttl rts)))) (\<lambda>_.
                 must (sy_setsockopt sy (IP_TTL (ttl rts)))))) (\<lambda>_.
        mod_rts (\<lambda>rts. if datalen rts \<ge> int TIMEVAL_SIZE then rts\<lparr>timing := True\<rparr> else rts)))))))"

text \<open>The option \<open>opt_numeric\<close> is set and reset before the source is printed.\<close>

definition ping_print_packet :: "'k ping_func_set \<Rightarrow> ('k, unit) pm" where
  "ping_print_packet fset =
     sbind (sget rts_of) (\<lambda>rts.
     swhen (\<not> opt_json rts)
       (sbind (ping_target fset) (\<lambda>target.
        sbind (puts (''PING '' @ hostname rts @ '' ('' @ target @ '') ''
          @ (if flowlabel rts \<noteq> 0 then '', flow 0x'' @ pad_zero 5 (hex_text (unat (bswap32 (word_of_int (flowlabel rts))))) @ '', '' else []))) (\<lambda>_.
        sbind (swhen (device rts \<noteq> None \<or> opt_strictsource rts)
                 (sbind (ping_source fset) (\<lambda>source.
                  puts (''from '' @ source @ '' '' @ (case device rts of Some d \<Rightarrow> d | None \<Rightarrow> []) @ '': '')))) (\<lambda>_.
        ping_print_data_bytes fset)))))"

text \<open>
  Everything before the main loop: \<open>None\<close> asks for the next address. Connecting the socket uses \<open>dst\<close>,
  which is only set when the source address was looked up.
\<close>

definition ping4_prepare ::
  "'k ping_sys \<Rightarrow> 'k ping_net \<Rightarrow> string list \<Rightarrow> addrinfo \<Rightarrow> bool \<Rightarrow> socktype \<Rightarrow> ('k, unit option) pm" where
  "ping4_prepare sy nt args ai has_next sock =
     sbind (check_operands (length args)) (\<lambda>_.
     sbind (resolve_targets nt ai args) (\<lambda>_.
     sbind (choose_source sy nt has_next) (\<lambda>src.
     case src of
       None \<Rightarrow> sret None
     | Some dst \<Rightarrow>
         sbind check_multicast (\<lambda>_.
         sbind (set_socket_options sy nt sock) (\<lambda>_.
         sbind (set_ip_options sy) (\<lambda>_.
         sbind (set_traffic sy) (\<lambda>_.
         sbind (ping_print_packet (ping4_func_set sy sock)) (\<lambda>_.
         sbind (ping_setup sy sock) (\<lambda>_.
         sbind (sget rts_of) (\<lambda>rts.
         sbind (swhen (opt_connect_sk rts)
                  (case dst of Some d \<Rightarrow> must (nt_connect nt d) | None \<Rightarrow> sthrow Ping_Out_Of_Bounds)) (\<lambda>_.
         sret (Some ()))))))))))))"

definition ping4_run ::
  "'k ping_sys \<Rightarrow> 'k ping_net \<Rightarrow> (real \<Rightarrow> string) \<Rightarrow> string list \<Rightarrow> addrinfo \<Rightarrow> bool \<Rightarrow> socktype \<Rightarrow> ('k, int) opm" where
  "ping4_run sy nt fmt_g args ai has_next sock =
     obind (orun (ping4_prepare sy nt args ai has_next sock)) (\<lambda>r.
     case r of
       None \<Rightarrow> orun (sret (- 1))
     | Some _ \<Rightarrow> main_loop sy fmt_g (ping4_func_set sy sock) sock)"

subsection \<open>The command line\<close>

record main_opts =
  mo_family :: af
  mo_socktype :: socktype
  mo_version :: bool

definition ping_spec :: getopt_spec where
  "ping_spec =
     \<lparr>gs_short = map (\<lambda>c. (c, False)) ''h?4bR63aABCdDfHjLnOqrUvV'' @ map (\<lambda>c. (c, True)) ''TFNceiIlmMpQsStwW'', gs_long = []\<rparr>"

definition set_flag :: "(ping_rts \<Rightarrow> ping_rts) \<Rightarrow> main_opts \<Rightarrow> ('k, main_opts) pm" where
  "set_flag f mo = sbind (mod_rts f) (\<lambda>_. sret mo)"

definition set_num :: "num_error + int \<Rightarrow> (int \<Rightarrow> ping_rts \<Rightarrow> ping_rts) \<Rightarrow> main_opts \<Rightarrow> ('k, main_opts) pm" where
  "set_num r f mo = sbind (number r) (\<lambda>v. set_flag (f v) mo)"

definition set_family :: "af \<Rightarrow> af \<Rightarrow> main_opts \<Rightarrow> ('k, main_opts) pm" where
  "set_family fam other mo = (if mo_family mo = other then die 2 else sret (mo\<lparr>mo_family := fam\<rparr>))"

definition opt_source :: "'k ping_net \<Rightarrow> string \<Rightarrow> main_opts \<Rightarrow> ('k, main_opts) pm" where
  "opt_source nt arg mo =
     (if strchr arg (CHR '':'') \<noteq> None
      then let addr = takeWhile (\<lambda>c. c \<noteq> CHR ''%'') arg
           in sbind (mod_rts (\<lambda>rts. if strchr arg (CHR ''%'') \<noteq> None
                                    then rts\<lparr>device := Some (drop (length addr + 1) arg)\<rparr> else rts)) (\<lambda>_.
              case nt_pton6 nt addr of
                None \<Rightarrow> die 2
              | Some a \<Rightarrow> set_flag (\<lambda>rts. rts\<lparr>source6 := (source6 rts)\<lparr>sin6_addr := a\<rparr>, opt_strictsource := True\<rparr>) mo)
      else case nt_pton4 nt arg of
             Some a \<Rightarrow> set_flag (\<lambda>rts. rts\<lparr>source_addr := a, opt_strictsource := True\<rparr>) mo
           | None \<Rightarrow> set_flag (\<lambda>rts. rts\<lparr>device := Some arg\<rparr>) mo)"

definition opt_ts_type :: "string \<Rightarrow> main_opts \<Rightarrow> ('k, main_opts) pm" where
  "opt_ts_type arg mo =
     sbind (sget rts_of) (\<lambda>rts.
     if opt_rroute rts then die 2
     else case map_of [(''tsonly'', IPOPT_TS_TSONLY), (''tsandaddr'', IPOPT_TS_TSANDADDR), (''tsprespec'', IPOPT_TS_PRESPEC)] arg of
            Some t \<Rightarrow> set_flag (\<lambda>rts. rts\<lparr>opt_timestamp := True, ts_type := t\<rparr>) mo
          | None \<Rightarrow> die 2)"

definition opt_pmtudisc :: "string \<Rightarrow> main_opts \<Rightarrow> ('k, main_opts) pm" where
  "opt_pmtudisc arg mo =
     (case map_of [(''do'', IP_PMTUDISC_DO), (''dont'', 0), (''want'', 1), (''probe'', 3)] arg of
        Some v \<Rightarrow> set_flag (\<lambda>rts. rts\<lparr>pmtudisc := v\<rparr>) mo
      | None \<Rightarrow> die 2)"

definition opt_interval_arg :: "'k ping_net \<Rightarrow> string \<Rightarrow> main_opts \<Rightarrow> ('k, main_opts) pm" where
  "opt_interval_arg nt arg mo =
     sbind (ping_strtod nt arg) (\<lambda>v.
     if v < 0 \<or> v > of_int INT_MAX / 1000 then die 2
     else set_flag (\<lambda>rts. rts\<lparr>interval := trunc (v * 1000), opt_interval := True\<rparr>) mo)"

definition opt_linger :: "'k ping_net \<Rightarrow> string \<Rightarrow> main_opts \<Rightarrow> ('k, main_opts) pm" where
  "opt_linger nt arg mo =
     sbind (ping_strtod nt arg) (\<lambda>v.
     if v < 0 \<or> v > of_int UINT_MAX / 1000000 then die 2
     else set_flag (\<lambda>rts. rts\<lparr>lingertime := trunc (v * 1000000)\<rparr>) mo)"

definition opt_preload :: "string \<Rightarrow> main_opts \<Rightarrow> ('k, main_opts) pm" where
  "opt_preload arg mo =
     sbind (number (strtol_or_err (Some arg) 1 (int MAX_DUP_CHK))) (\<lambda>v.
     sbind (mod_rts (\<lambda>rts. rts\<lparr>preload := v\<rparr>)) (\<lambda>_.
     sbind (sget rts_of) (\<lambda>rts.
     if uid rts \<noteq> 0 \<and> preload rts > 3 then die 2 else sret mo)))"

text \<open>The options without an argument that only set fields.\<close>

definition flag_table :: "(char \<times> (ping_rts \<Rightarrow> ping_rts)) list" where
  "flag_table =
     [(CHR ''3'', \<lambda>rts. rts\<lparr>opt_rtt_precision := True\<rparr>), (CHR ''b'', \<lambda>rts. rts\<lparr>broadcast_pings := True\<rparr>),
      (CHR ''j'', \<lambda>rts. rts\<lparr>opt_json := True\<rparr>), (CHR ''a'', \<lambda>rts. rts\<lparr>opt_audible := True\<rparr>),
      (CHR ''A'', \<lambda>rts. rts\<lparr>opt_adaptive := True\<rparr>), (CHR ''B'', \<lambda>rts. rts\<lparr>opt_strictsource := True\<rparr>),
      (CHR ''C'', \<lambda>rts. rts\<lparr>opt_connect_sk := True\<rparr>), (CHR ''d'', \<lambda>rts. rts\<lparr>opt_so_debug := True\<rparr>),
      (CHR ''D'', \<lambda>rts. rts\<lparr>opt_ptimeofday := True\<rparr>), (CHR ''H'', \<lambda>rts. rts\<lparr>opt_force_lookup := True\<rparr>),
      (CHR ''L'', \<lambda>rts. rts\<lparr>opt_noloop := True\<rparr>),
      (CHR ''n'', \<lambda>rts. rts\<lparr>opt_numeric := True, opt_force_lookup := False\<rparr>),
      (CHR ''O'', \<lambda>rts. rts\<lparr>opt_outstanding := True\<rparr>),
      (CHR ''f'', \<lambda>rts. rts\<lparr>opt_flood := True, opt_numeric := True\<rparr>),
      (CHR ''q'', \<lambda>rts. rts\<lparr>opt_quiet := True\<rparr>), (CHR ''r'', \<lambda>rts. rts\<lparr>opt_so_dontroute := True\<rparr>),
      (CHR ''U'', \<lambda>rts. rts\<lparr>opt_latency := True\<rparr>), (CHR ''v'', \<lambda>rts. rts\<lparr>opt_verbose := True\<rparr>)]"

text \<open>The options with a number in given bounds.\<close>

definition num_table :: "(char \<times> (string \<Rightarrow> num_error + int) \<times> (int \<Rightarrow> ping_rts \<Rightarrow> ping_rts)) list" where
  "num_table =
     [(CHR ''e'', \<lambda>a. strtoul_or_err (Some a) 0 IDENTIFIER_MAX, \<lambda>v rts. rts\<lparr>ident := htons v\<rparr>),
      (CHR ''c'', \<lambda>a. strtol_or_err (Some a) 1 LONG_MAX, \<lambda>v rts. rts\<lparr>npackets := v\<rparr>),
      (CHR ''m'', \<lambda>a. strtoul_or_err (Some a) 0 UINT_MAX, \<lambda>v rts. rts\<lparr>mark := v, opt_mark := True\<rparr>),
      (CHR ''s'', \<lambda>a. strtol_or_err (Some a) 0 INT_MAX, \<lambda>v rts. rts\<lparr>datalen := v\<rparr>),
      (CHR ''S'', \<lambda>a. strtol_or_err (Some a) 1 INT_MAX, \<lambda>v rts. rts\<lparr>sndbuf := v\<rparr>),
      (CHR ''t'', \<lambda>a. strtol_or_err (Some a) 0 255, \<lambda>v rts. rts\<lparr>ttl := v, opt_ttl := True\<rparr>),
      (CHR ''w'', \<lambda>a. strtol_or_err (Some a) 0 INT_MAX, \<lambda>v rts. rts\<lparr>deadline := v\<rparr>)]"

definition arg_opt :: "'k ping_sys \<Rightarrow> 'k ping_net \<Rightarrow> char \<Rightarrow> string \<Rightarrow> main_opts \<Rightarrow> ('k, main_opts) pm" where
  "arg_opt sy nt c arg mo =
     (case map_of num_table c of
        Some (conv, f) \<Rightarrow> set_num (conv arg) f mo
      | None \<Rightarrow>
          if c = CHR ''T'' then opt_ts_type arg mo
          else if c = CHR ''F'' then sbind (parseflow arg) (\<lambda>v. set_flag (\<lambda>rts. rts\<lparr>flowlabel := v, opt_flowinfo := True\<rparr>) mo)
          else if c = CHR ''N'' then 
            sbind (niquery_option_handler (nt_ni nt) arg) (\<lambda>ok. if ok then sret (mo\<lparr>mo_socktype := SOCK_RAW\<rparr>) else die 2)
          else if c = CHR ''i'' then opt_interval_arg nt arg mo
          else if c = CHR ''I'' then opt_source nt arg mo
          else if c = CHR ''l'' then opt_preload arg mo
          else if c = CHR ''M'' then opt_pmtudisc arg mo
          else if c = CHR ''p'' then
            sbind (mod_rts (\<lambda>rts. rts\<lparr>opt_pingfilled := True\<rparr>)) (\<lambda>_. sbind (fill sy arg) (\<lambda>_. sret mo))
          else if c = CHR ''Q'' then sbind (parsetos arg) (\<lambda>v. set_flag (\<lambda>rts. rts\<lparr>settos := v, tclass := v mod 2 ^ 32\<rparr>) mo)
          else if c = CHR ''W'' then opt_linger nt arg mo
          else die 2)"

definition ping_opt :: "'k ping_sys \<Rightarrow> 'k ping_net \<Rightarrow> opt_item \<Rightarrow> main_opts \<Rightarrow> ('k, main_opts) pm" where
  "ping_opt sy nt item mo =
     (case item of (code, arg) \<Rightarrow>
      let c = char_of (nat code)
      in case arg of
           Some a \<Rightarrow> arg_opt sy nt c a mo
         | None \<Rightarrow>
             (case map_of flag_table c of
                Some f \<Rightarrow> set_flag f mo
              | None \<Rightarrow>
                  if c = CHR ''4'' then set_family AF_INET AF_INET6 mo
                  else if c = CHR ''6'' then set_family AF_INET6 AF_INET mo
                  else if c = CHR ''R'' then
                    sbind (sget rts_of) (\<lambda>rts. if opt_timestamp rts then die 2 else set_flag (\<lambda>rts. rts\<lparr>opt_rroute := True\<rparr>) mo)
                  else if c = CHR ''V'' then sret (mo\<lparr>mo_version := True\<rparr>)
                  else die 2))"

fun ping_opts :: "'k ping_sys \<Rightarrow> 'k ping_net \<Rightarrow> opt_item list \<Rightarrow> main_opts \<Rightarrow> ('k, main_opts) pm" where
  "ping_opts sy nt [] mo = sret mo"
| "ping_opts sy nt (it # its) mo = sbind (ping_opt sy nt it mo) (ping_opts sy nt its)"

subsection \<open>main\<close>

definition initial_opts :: "string \<Rightarrow> main_opts" where
  "initial_opts argv0 =
     \<lparr>mo_family = (if argv0 \<noteq> [] \<and> last argv0 = CHR ''4'' then AF_INET
                   else if argv0 \<noteq> [] \<and> last argv0 = CHR ''6'' then AF_INET6 else AF_UNSPEC),
      mo_socktype = SOCK_DGRAM, mo_version = False\<rparr>"

definition max_datalen :: "'k ping_net \<Rightarrow> af \<Rightarrow> string \<Rightarrow> ping_rts \<Rightarrow> int" where
  "max_datalen nt fam target rts =
     (if nt_pton4 nt target \<noteq> None then ICMP_MAX_DATALEN - get_ipv4_optlen rts
      else if nt_pton6 nt target \<noteq> None then ICMPV6_MAX_DATALEN
      else if fam = AF_INET then ICMP_MAX_DATALEN - get_ipv4_optlen rts
      else if fam = AF_INET6 then ICMPV6_MAX_DATALEN
      else max ICMP_MAX_DATALEN ICMPV6_MAX_DATALEN)"

text \<open>From the start of \<open>main\<close> to the name resolution: the operands, the address family and the two sockets.\<close>

definition main_prepare ::
  "'k ping_sys \<Rightarrow> 'k ping_sys \<Rightarrow> 'k ping_net \<Rightarrow> string option \<Rightarrow> string list \<Rightarrow> ('k, string list \<times> af \<times> (bool \<times> socktype) \<times> (bool \<times> socktype)) pm" where
  "main_prepare sy sy6 nt env argv =
     sbind (mod_rts (\<lambda>rts. if env = Some ''0'' then rts\<lparr>opt_numeric := True\<rparr> else rts)) (\<lambda>_.
     case getopt_all ping_spec (tl argv) of (items, args) \<Rightarrow>
     sbind (ping_opts sy nt items (initial_opts (hd argv))) (\<lambda>mo.
     if mo_version mo then die 0
     else if args = [] then die 2
     else
       sbind (sget rts_of) (\<lambda>rts.
       let st = (if ident rts = 0 then SOCK_RAW else mo_socktype mo); fam = mo_family mo
       in sbind (if fam \<noteq> AF_INET6 then create_socket nt AF_INET st (fam = AF_INET) else sret (False, SOCK_DGRAM)) (\<lambda>sock4.
          sbind (if fam \<noteq> AF_INET then create_socket nt AF_INET6 st (\<not> fst sock4) else sret (False, SOCK_DGRAM)) (\<lambda>sock6.
          let fam = (if fam = AF_UNSPEC then if \<not> fst sock4 then AF_INET6 else if \<not> fst sock6 then AF_INET else fam else fam)
          in if datalen rts > max_datalen nt fam (last args) rts then die 1
             else
               sbind (swhen (settos rts \<noteq> 0 \<and> fst sock4) (must (sy_setsockopt sy (IP_TOS (settos rts))))) (\<lambda>_.
               sbind (swhen (tclass rts \<noteq> 0 \<and> fst sock6) (must (sy_setsockopt sy6 (IPV6_TCLASS (tclass rts))))) (\<lambda>_.
               sret (args, fam, sock4, sock6))))))))"

fun ai_loop ::
  "(addrinfo \<Rightarrow> bool \<Rightarrow> ('k, int) opm) \<Rightarrow> (addrinfo \<Rightarrow> bool \<Rightarrow> ('k, int) opm) \<Rightarrow> af \<Rightarrow> addrinfo list \<Rightarrow> ('k, int) opm" where
  "ai_loop run4 run6 fam [] = orun (sret 0)"
| "ai_loop run4 run6 fam (ai # rest) =
     (if fam \<noteq> AF_UNSPEC \<and> fam \<noteq> ai_family ai
      then if rest = [] then orun (die 2) else ai_loop run4 run6 fam rest
      else
        obind (case ai_family ai of
                 AF_INET \<Rightarrow> run4 ai (rest \<noteq> []) | AF_INET6 \<Rightarrow> run6 ai (rest \<noteq> []) | AF_UNSPEC \<Rightarrow> orun (die 2)) (\<lambda>ret.
        if ret \<ge> 0 then orun (sret ret)
        else if rest = [] then orun (sthrow Ping_Abort)
        else ai_loop run4 run6 fam rest))"

text \<open>\<open>run6\<close> is the IPv6 side.\<close>

definition ping_main ::
  "'k ping_sys \<Rightarrow> 'k ping_sys \<Rightarrow> 'k ping_net \<Rightarrow> (real \<Rightarrow> string) \<Rightarrow> (string list \<Rightarrow> socktype \<Rightarrow> addrinfo \<Rightarrow> bool \<Rightarrow> ('k, int) opm)
    \<Rightarrow> string option \<Rightarrow> string list \<Rightarrow> ('k, int) opm" where
  "ping_main sy sy6 nt fmt_g run6 env argv =
     obind (orun (main_prepare sy sy6 nt env argv)) (\<lambda>(args, fam, sock4, sock6).
     obind (orun (syscall (nt_getaddrinfo nt (last args) AF_UNSPEC))) (\<lambda>r.
     case r of
       Inl _ \<Rightarrow> orun (die 2)
     | Inr ais \<Rightarrow>
         ai_loop (\<lambda>ai has_next. ping4_run sy nt fmt_g args ai has_next (snd sock4)) (run6 args (snd sock6)) fam ais))"

end
