(* ===== verification/Ping6_Run.thy ===== *)
theory Ping6_Run
  imports Ping_Main
begin

text \<open>
  \<open>ping6_common.c\<close>: \<open>ping6_run\<close>, and the whole program. The probe socket, interfaces and flow labels are
  functions on the state of the kernel; the static \<open>scope_id\<close> is a field of the state. The control message
  with the interface is laid out in \<open>cmsgbuf\<close> as the machine does it.
\<close>

record 'k ping6_net =
  n6_probe_socket :: "'k \<Rightarrow> int option \<times> 'k"
  n6_probe_opt :: "sockopt \<Rightarrow> 'k \<Rightarrow> int option \<times> 'k"
  n6_probe_connect :: "sockaddr_in6 \<Rightarrow> 'k \<Rightarrow> int option \<times> 'k"
  n6_getsockname :: "'k \<Rightarrow> (int + sockaddr_in6) \<times> 'k"
  n6_getifaddrs :: "'k \<Rightarrow> (int + (string \<times> bytes) list) \<times> 'k"
  n6_ifindex :: "string \<Rightarrow> 'k \<Rightarrow> int \<times> 'k"
  n6_bind :: "sockaddr_in6 \<Rightarrow> 'k \<Rightarrow> int option \<times> 'k"
  n6_flowlabel :: "32 word \<Rightarrow> bytes \<Rightarrow> 'k \<Rightarrow> (int + 32 word) \<times> 'k"

abbreviation (input) IPV6_PMTUDISC_DO :: int where "IPV6_PMTUDISC_DO \<equiv> 2"

definition IN6_IS_ADDR_UNSPECIFIED :: "bytes \<Rightarrow> bool" where
  "IN6_IS_ADDR_UNSPECIFIED a \<longleftrightarrow> a = replicate 16 0"

definition IN6_IS_ADDR_LINKLOCAL :: "bytes \<Rightarrow> bool" where
  "IN6_IS_ADDR_LINKLOCAL a \<longleftrightarrow> a ! 0 = 0xfe \<and> a ! 1 AND 0xc0 = 0x80"

definition IN6_IS_ADDR_MULTICAST :: "bytes \<Rightarrow> bool" where
  "IN6_IS_ADDR_MULTICAST a \<longleftrightarrow> a ! 0 = 0xff"

definition IN6_IS_ADDR_MC_LINKLOCAL :: "bytes \<Rightarrow> bool" where
  "IN6_IS_ADDR_MC_LINKLOCAL a \<longleftrightarrow> IN6_IS_ADDR_MULTICAST a \<and> a ! 1 AND 0xf = 2"

definition link_local :: "bytes \<Rightarrow> bool" where
  "link_local a \<longleftrightarrow> IN6_IS_ADDR_LINKLOCAL a \<or> IN6_IS_ADDR_MC_LINKLOCAL a"

definition if_name2index :: "'k ping6_net \<Rightarrow> string \<Rightarrow> ('k, int) pm" where
  "if_name2index n6 ifname = sbind (syscall (n6_ifindex n6 ifname)) (\<lambda>i. if i = 0 then die 2 else sret i)"

subsection \<open>The target\<close>

text \<open>A query without a subject asks about the destination.\<close>

definition prepare_niquery :: "'k ping_sys \<Rightarrow> ('k, unit) pm" where
  "prepare_niquery sy =
     sbind (sget ni_of) (\<lambda>n.
     swhen (niquery_is_enabled n)
       (sbind (niquery_init_nonce sy) (\<lambda>_.
        swhen (\<not> niquery_is_subject_valid n)
          (mod_ni (\<lambda>n. n\<lparr>ni_subject := Some Subject_Whereto6, ni_subject_len := 16, ni_subject_type := NI_SUBJ_IPV6\<rparr>)))))"

definition choose_target6 :: "string list \<Rightarrow> ('k, string) pm" where
  "choose_target6 args =
     (case args of
        [] \<Rightarrow>
          sbind (sget ni_of) (\<lambda>n.
          if ni_query n < 0 \<and> ni_subject_type n \<noteq> NI_SUBJ_FQDN then die 2
          else sopt Ping_Out_Of_Bounds (ni_group n))
      | [target] \<Rightarrow> sret target
      | _ \<Rightarrow> die 2)"

definition set_target6 :: "addrinfo \<Rightarrow> string \<Rightarrow> ('k, unit) pm" where
  "set_target6 ai target =
     sbind (mod_rts (\<lambda>rts.
       let rts = rts\<lparr>whereto6 := (ai_addr6 ai)\<lparr>sin6_port := word_of_int (htons (int IPPROTO_ICMPV6))\<rparr>\<rparr>
       in if CHR '':'' \<in> set target then rts\<lparr>opt_numeric := True\<rparr> else rts)) (\<lambda>_.
     sbind (sget rts_of) (\<lambda>rts.
     sbind (swhen (IN6_IS_ADDR_UNSPECIFIED (sin6_addr (firsthop rts)))
       (let scope = sin6_scope_id (whereto6 rts)
        in sbind (mod_rts (\<lambda>rts. rts\<lparr>firsthop := (firsthop rts)\<lparr>sin6_addr := sin6_addr (whereto6 rts), sin6_scope_id := scope\<rparr>\<rparr>)) (\<lambda>_.
           sbind (sget ps_scope_id) (\<lambda>scope_id.
           if scope \<noteq> 0 \<and> scope_id \<noteq> 0 \<and> scope \<noteq> scope_id then die 2
           else swhen (scope_id = 0) (smod (\<lambda>s. s\<lparr>ps_scope_id := scope\<rparr>)))))) (\<lambda>_.
     mod_rts (\<lambda>rts. rts\<lparr>hostname := target\<rparr>))))"

subsection \<open>The source\<close>

text \<open>Both sockets are tied to the device.\<close>

definition bind_device6 :: "'k ping_sys \<Rightarrow> 'k ping6_net \<Rightarrow> string \<Rightarrow> ('k, unit) pm" where
  "bind_device6 sy n6 dev =
     sbind (if_name2index n6 dev) (\<lambda>iface.
     sbind (mod_rts (\<lambda>rts. if link_local (sin6_addr (firsthop rts))
                           then rts\<lparr>firsthop := (firsthop rts)\<lparr>sin6_scope_id := word_of_int iface\<rparr>\<rparr> else rts)) (\<lambda>_.
     sbind (must (n6_probe_opt n6 (IPV6_PKTINFO iface))) (\<lambda>_.
     sbind (must (sy_setsockopt sy (IPV6_PKTINFO iface))) (\<lambda>_.
     sbind (must (n6_probe_opt n6 (SO_BINDTODEVICE dev))) (\<lambda>_.
     must (sy_setsockopt sy (SO_BINDTODEVICE dev)))))))"

text \<open>\<open>False\<close> is the return value -1. Without a family the kernel dissolves an association instead.\<close>

definition probe_source6 :: "'k ping_sys \<Rightarrow> 'k ping6_net \<Rightarrow> bool \<Rightarrow> ('k, bool) pm" where
  "probe_source6 sy n6 has_next =
     sbind (must (n6_probe_socket n6)) (\<lambda>_.
     sbind (sget rts_of) (\<lambda>rts.
     sbind (case device rts of None \<Rightarrow> sret () | Some dev \<Rightarrow> bind_device6 sy n6 dev) (\<lambda>_.
     sbind (swhen (tclass rts \<noteq> 0) (must (n6_probe_opt n6 (IPV6_TCLASS (tclass rts))))) (\<lambda>_.
     sbind (mod_rts (\<lambda>rts. if link_local (sin6_addr (firsthop rts)) then rts
                           else rts\<lparr>firsthop := (firsthop rts)\<lparr>sin6_family := PF_INET6\<rparr>\<rparr>)) (\<lambda>_.
     sbind (sock_setmark (sy\<lparr>sy_setsockopt := n6_probe_opt n6\<rparr>)) (\<lambda>_.
     sbind (mod_rts (\<lambda>rts. rts\<lparr>firsthop := (firsthop rts)\<lparr>sin6_port := word_of_int (htons 1025)\<rparr>\<rparr>)) (\<lambda>_.
     sbind (sget rts_of) (\<lambda>rts.
     sbind (syscall (n6_probe_connect n6 (firsthop rts))) (\<lambda>r.
     case r of
       Some en \<Rightarrow> if (en = EHOSTUNREACH \<or> en = ENETUNREACH) \<and> has_next then sret False else die 2
     | None \<Rightarrow>
         sbind (syscall (n6_getsockname n6)) (\<lambda>r.
         case r of
           Inl _ \<Rightarrow> die 2
         | Inr a \<Rightarrow>
             sbind (mod_rts (\<lambda>rts. rts\<lparr>source6 := a\<lparr>sin6_port := 0\<rparr>\<rparr>)) (\<lambda>_.
             sbind (swhen (device rts \<noteq> None)
                      (sbind (syscall (n6_getifaddrs n6)) (\<lambda>r. case r of Inl _ \<Rightarrow> die 2 | Inr _ \<Rightarrow> sret ()))) (\<lambda>_.
             sret True))))))))))))"

definition choose_source6 :: "'k ping_sys \<Rightarrow> 'k ping6_net \<Rightarrow> bool \<Rightarrow> ('k, bool) pm" where
  "choose_source6 sy n6 has_next =
     sbind (sget rts_of) (\<lambda>rts.
     if IN6_IS_ADDR_UNSPECIFIED (sin6_addr (source6 rts)) then probe_source6 sy n6 has_next
     else
       sbind (case device rts of
                Some dev \<Rightarrow>
                  swhen (link_local (sin6_addr (source6 rts)))
                    (sbind (if_name2index n6 dev) (\<lambda>i.
                     mod_rts (\<lambda>rts. rts\<lparr>source6 := (source6 rts)\<lparr>sin6_scope_id := word_of_int i\<rparr>\<rparr>)))
              | None \<Rightarrow> sret ()) (\<lambda>_.
       sret True))"

text \<open>A control message with the interface: \<open>struct cmsghdr\<close> and \<open>struct in6_pktinfo\<close>, in forty octets.\<close>

definition pktinfo_cmsg :: "int \<Rightarrow> bytes" where
  "pktinfo_cmsg i = le64 36 @ le_bytes 41 @ le_bytes 50 @ replicate 16 0 @ le_bytes (word_of_int i)"

definition add_pktinfo :: "'k ping_sys \<Rightarrow> 'k ping6_net \<Rightarrow> ('k, unit) pm" where
  "add_pktinfo sy n6 =
     sbind (sget rts_of) (\<lambda>rts.
     case device rts of
       None \<Rightarrow> sret ()
     | Some dev \<Rightarrow>
         sbind (sguard (cmsglen rts + 36 \<le> 4096) Ping_Out_Of_Bounds) (\<lambda>_.
         sbind (if_name2index n6 dev) (\<lambda>i.
         sbind (mod_rts (\<lambda>rts. rts\<lparr>cmsgbuf := put_at (cmsglen rts) (pktinfo_cmsg i) (cmsgbuf rts), cmsglen := cmsglen rts + 40\<rparr>)) (\<lambda>_.
         swhen (opt_strictsource rts) (must (sy_setsockopt sy (SO_BINDTODEVICE dev)))))))"

subsection \<open>Options of the socket\<close>

definition check_multicast6 :: "('k, unit) pm" where
  "check_multicast6 =
     sbind (sget rts_of) (\<lambda>rts.
     sbind (swhen (IN6_IS_ADDR_MULTICAST (sin6_addr (whereto6 rts)))
       (sbind (mod_rts (\<lambda>rts. rts\<lparr>multicast := True\<rparr>)) (\<lambda>_.
        sbind (swhen (uid rts \<noteq> 0 \<and> (interval rts < MIN_MULTICAST_USER_INTERVAL_MS
                       \<or> pmtudisc rts \<ge> 0 \<and> pmtudisc rts \<noteq> IPV6_PMTUDISC_DO)) (die 2)) (\<lambda>_.
        mod_rts (\<lambda>rts. if pmtudisc rts < 0 then rts\<lparr>pmtudisc := IPV6_PMTUDISC_DO\<rparr> else rts))))) (\<lambda>_.
     mod_rts (\<lambda>rts. rts\<lparr>subnet_router_anycast := list_all (\<lambda>b. b = 0) (drop 8 (sin6_addr (whereto6 rts)))\<rparr>)))"

definition set_socket_options6 :: "'k ping_sys \<Rightarrow> 'k ping6_net \<Rightarrow> socktype \<Rightarrow> ('k, unit) pm" where
  "set_socket_options6 sy n6 sock =
     sbind (sget rts_of) (\<lambda>rts.
     sbind (swhen (pmtudisc rts \<ge> 0) (must (sy_setsockopt sy (IPV6_MTU_DISCOVER (pmtudisc rts))))) (\<lambda>_.
     let set_ident = (ident rts > 0 \<and> sock = SOCK_DGRAM)
     in sbind (mod_rts (\<lambda>rts. if set_ident then rts\<lparr>source6 := (source6 rts)\<lparr>sin6_port := word_of_int (ident rts)\<rparr>\<rparr> else rts)) (\<lambda>_.
        sbind (sget rts_of) (\<lambda>rts.
        sbind (swhen (opt_strictsource rts \<or> set_ident) (must (n6_bind n6 (source6 rts)))) (\<lambda>_.
        sbind (mod_rts (\<lambda>rts. if datalen rts \<ge> int TIMEVAL_SIZE \<and> ni_query (ni rts) < 0 then rts\<lparr>timing := True\<rparr> else rts)) (\<lambda>_.
        sbind (must (sy_setsockopt sy IPV6_RECVERR)) (\<lambda>_.
        let hold = datalen rts + 8
        in sbind (sock_setbufs sy (hold + cdiv (hold + 511) 512 * (40 + 16 + 64 + 160))) (\<lambda>_.
           sbind (swhen (sock = SOCK_RAW)
                    (sbind (may (sy_setsockopt sy (IPV6_CHECKSUM 2))) (\<lambda>_.
                     must (sy_setsockopt sy (ICMP6_FILTER
                       (if niquery_is_enabled (ni rts) then IPUTILS_NI_ICMP6_REPLY else ICMP6_ECHO_REPLY)))))) (\<lambda>_.
           sbind (swhen (opt_noloop rts) (must (sy_setsockopt sy IPV6_MULTICAST_LOOP))) (\<lambda>_.
           sbind (swhen (opt_ttl rts) (sbind (must (sy_setsockopt sy (IPV6_MULTICAST_HOPS (ttl rts)))) (\<lambda>_.
                    must (sy_setsockopt sy (IPV6_UNICAST_HOPS (ttl rts)))))) (\<lambda>_.
           sbind (syscall (sy_setsockopt sy IPV6_RECVHOPLIMIT)) (\<lambda>r.
           swhen (r \<noteq> None) (must (sy_setsockopt sy IPV6_2292HOPLIMIT))))))))))))))"

definition set_flowinfo :: "'k ping_sys \<Rightarrow> 'k ping6_net \<Rightarrow> ('k, unit) pm" where
  "set_flowinfo sy n6 =
     sbind (sget rts_of) (\<lambda>rts.
     swhen (opt_flowinfo rts)
       (sbind (syscall (n6_flowlabel n6 (bswap32 (word_of_int (flowlabel rts) AND 0xfffff)) (sin6_addr (whereto6 rts)))) (\<lambda>r.
        case r of
          Inl _ \<Rightarrow> die 2
        | Inr l \<Rightarrow>
            sbind (mod_rts (\<lambda>rts. rts\<lparr>flowlabel := uint l, whereto6 := (whereto6 rts)\<lparr>sin6_flowinfo := l\<rparr>\<rparr>)) (\<lambda>_.
            must (sy_setsockopt sy IPV6_FLOWINFO_SEND)))))"

subsection \<open>The run\<close>

definition ping6_prepare ::
  "'k ping_sys \<Rightarrow> 'k ping6_sys \<Rightarrow> 'k ping6_net \<Rightarrow> string list \<Rightarrow> addrinfo \<Rightarrow> bool \<Rightarrow> socktype \<Rightarrow> ('k, unit option) pm" where
  "ping6_prepare sy s6 n6 args ai has_next sock =
     sbind (prepare_niquery sy) (\<lambda>_.
     sbind (choose_target6 args) (\<lambda>target.
     sbind (set_target6 ai target) (\<lambda>_.
     sbind (choose_source6 sy n6 has_next) (\<lambda>go_on.
     if \<not> go_on then sret None
     else
       sbind (add_pktinfo sy n6) (\<lambda>_.
       sbind check_multicast6 (\<lambda>_.
       sbind (set_socket_options6 sy n6 sock) (\<lambda>_.
       sbind (set_flowinfo sy n6) (\<lambda>_.
       sbind (ping_print_packet (ping6_func_set sy s6 sock)) (\<lambda>_.
       sbind (ping_setup sy sock) (\<lambda>_.
       sret (Some ())))))))))))"

definition ping6_run ::
  "'k ping_sys \<Rightarrow> 'k ping6_sys \<Rightarrow> 'k ping6_net \<Rightarrow> (real \<Rightarrow> string) \<Rightarrow> string list \<Rightarrow> socktype \<Rightarrow> addrinfo \<Rightarrow> bool \<Rightarrow> ('k, int) opm" where
  "ping6_run sy s6 n6 fmt_g args sock ai has_next =
     obind (orun (ping6_prepare sy s6 n6 args ai has_next sock)) (\<lambda>r.
     case r of
       None \<Rightarrow> orun (sret (- 1))
     | Some _ \<Rightarrow> main_loop sy fmt_g (ping6_func_set sy s6 sock) sock)"

text \<open>The program: \<open>main\<close> with both sides.\<close>

definition ping_program ::
  "'k ping_sys \<Rightarrow> 'k ping_sys \<Rightarrow> 'k ping6_sys \<Rightarrow> 'k ping_net \<Rightarrow> 'k ping6_net \<Rightarrow> (real \<Rightarrow> string) \<Rightarrow> string option \<Rightarrow> string list
    \<Rightarrow> ('k, int) opm" where
  "ping_program sy sy6 s6 nt n6 fmt_g = ping_main sy sy6 nt fmt_g (ping6_run sy6 s6 n6 fmt_g)"

end
