(* ===== verification/Ping_Limits.thy ===== *)
theory Ping_Limits
  imports Ping6_Run
begin

text \<open>
  What the command line and the set-up guarantee to the rest of \<open>ping\<close>: sizes of the buffers, length of
  the data, preload and interval.
\<close>

subsection \<open>Preservation\<close>

text \<open>What an operation keeps of the run state whenever it returns.\<close>

definition invop :: "(ping_rts \<Rightarrow> bool) \<Rightarrow> ('k, 'a) pm \<Rightarrow> bool" where
  "invop P m \<longleftrightarrow> (\<forall>s a s'. P (rts_of s) \<longrightarrow> m s = (Inr a, s') \<longrightarrow> P (rts_of s'))"

lemma invopD: "invop P m \<Longrightarrow> m s = (Inr a, s') \<Longrightarrow> P (rts_of s) \<Longrightarrow> P (rts_of s')"
  unfolding invop_def by blast

lemma invop_bind: "invop P m \<Longrightarrow> (\<And>a. invop P (f a)) \<Longrightarrow> invop P (sbind m f)"
  unfolding invop_def sbind_Inr_iff by blast

lemma invop_pure [simp]: "invop P (sret a)" "invop P (sget g)" "invop P (sthrow e)" "invop P (die n)" "invop P (sguard b e)"
  by (simp_all add: invop_def serr_defs die_def)

lemma invop_syscall [simp]: "invop P (syscall c)"
  by (auto simp: invop_def syscall_def rts_of_def split: prod.splits)

lemma invop_puts [simp]: "invop P (puts t)"
  by (auto simp: invop_def on_io_def emit_def serr_defs rts_of_def)

lemma invop_mod: "(\<And>r. P r \<Longrightarrow> P (f r)) \<Longrightarrow> invop P (mod_rts f)"
  by (auto simp: invop_def mod_rts_def serr_defs rts_of_def)

lemma invop_smod: "(\<And>s. rts_of (g s) = rts_of s) \<Longrightarrow> invop P (smod g)"
  by (auto simp: invop_def serr_defs)

lemma invop_swhen: "(b \<Longrightarrow> invop P m) \<Longrightarrow> invop P (swhen b m)"
  by (simp add: swhen_def)

lemma invop_if: "(b \<Longrightarrow> invop P m) \<Longrightarrow> (\<not> b \<Longrightarrow> invop P n) \<Longrightarrow> invop P (if b then m else n)"
  by simp

lemma invop_option: "(c = None \<Longrightarrow> invop P m) \<Longrightarrow> (\<And>a. c = Some a \<Longrightarrow> invop P (n a)) \<Longrightarrow> invop P (case_option m n c)"
  by (cases c) simp_all

lemma invop_sum: "(\<And>a. c = Inl a \<Longrightarrow> invop P (m a)) \<Longrightarrow> (\<And>a. c = Inr a \<Longrightarrow> invop P (n a)) \<Longrightarrow> invop P (case_sum m n c)"
  by (cases c) simp_all

lemma invop_prod: "(\<And>a b. c = (a, b) \<Longrightarrow> invop P (m a b)) \<Longrightarrow> invop P (case_prod m c)"
  by (cases c) simp

lemma invop_let: "invop P (f a) \<Longrightarrow> invop P (Let a f)"
  by simp

lemmas invop_intros = invop_bind invop_swhen invop_if invop_option invop_sum invop_prod invop_let invop_pure invop_syscall invop_puts

lemma invop_must [simp]: "invop P (must f)"
  unfolding must_def by (intro invop_intros)

lemma invop_may [simp]: "invop P (may f)"
  unfolding may_def by (intro invop_intros)

lemma invop_number [simp]: "invop P (number r)"
  by (simp add: number_def split: sum.split)

subsection \<open>Operations that keep the settings\<close>

definition settings :: "ping_rts \<Rightarrow> bytes \<times> rcvd_table \<times> int \<times> int \<times> int \<times> int \<times> bool" where
  "settings rts = (outpack rts, rcvd_tbl rts, datalen rts, preload rts, uid rts, interval rts, timing rts)"

text \<open>A property of these settings only.\<close>

definition of_settings :: "(ping_rts \<Rightarrow> bool) \<Rightarrow> bool" where
  "of_settings P \<longleftrightarrow> (\<forall>r r'. settings r = settings r' \<longrightarrow> P r = P r')"

lemma of_settingsD: "of_settings P \<Longrightarrow> settings r' = settings r \<Longrightarrow> P r \<Longrightarrow> P r'"
  unfolding of_settings_def by blast

lemma invop_frame: "of_settings P \<Longrightarrow> (\<And>r. settings (f r) = settings r) \<Longrightarrow> invop P (mod_rts f)"
  by (rule invop_mod) (rule of_settingsD)

lemma construct_json_settings: "construct_json k v rts = Inr rts' \<Longrightarrow> settings rts' = settings rts"
  by (auto simp: construct_json_def settings_def split: if_splits sum.splits)

lemma print_json_packet_settings: "settings (snd (print_json_packet rts)) = settings rts"
  by (simp add: print_json_packet_def settings_def split: prod.split)

lemma json_error_settings:
  assumes "construct_json_error se n msg rts = Inr (out, rts')"
  shows "settings rts' = settings rts"
proof -
  obtain k v r where r: "construct_json k v rts = Inr r" "print_json_packet r = (out, rts')"
    using assms unfolding construct_json_error_def by (simp split: if_split_asm sum.split_asm)
  have "settings rts' = settings r" using print_json_packet_settings [of r] r(2) by simp
  with construct_json_settings [OF r(1)] show ?thesis by simp
qed

lemma invop_json_error:
  assumes "of_settings P"
  shows "invop P (on_io (\<lambda>i. case construct_json_error se n msg (io_rts i) of
    Inl e \<Rightarrow> (Inl e, i) | Inr (out, r) \<Rightarrow> (Inr (), i\<lparr>io_rts := r, io_out := io_out i @ out\<rparr>)))"
proof -
  have "P r" if "P (io_rts i)" "construct_json_error se n msg (io_rts i) = Inr (out, r)" for i out r
    using of_settingsD [OF assms json_error_settings [OF that(2)] that(1)] .
  then show ?thesis
    unfolding invop_def on_io_def rts_of_def by (auto split: sum.splits prod.splits)
qed

lemma invop_ping_error: "of_settings P \<Longrightarrow> invop P (ping_error sy st n msg)"
  unfolding ping_error_def by (intro invop_intros invop_json_error)

lemma invop_setopt [simp]: "invop P (setopt sy opt)"
  unfolding setopt_def by (intro invop_intros invop_smod) (simp add: rts_of_def)

lemma invop_sock_setmark: "of_settings P \<Longrightarrow> invop P (sock_setmark sy)"
  unfolding sock_setmark_def
  by (intro invop_intros invop_setopt invop_ping_error invop_frame) (simp_all add: settings_def)

lemma invop_sock_setbufs: "of_settings P \<Longrightarrow> invop P (sock_setbufs sy n)"
  unfolding sock_setbufs_def
  by (intro invop_intros invop_setopt invop_ping_error invop_frame) (simp_all add: settings_def)

lemma invop_create_socket: "invop P (create_socket nt fam st req)"
  unfolding create_socket_def by (intro invop_intros)

lemma invop_bind_to_device [simp]: "invop P (bind_to_device nt opt dev a)"
  unfolding bind_to_device_def by (intro invop_intros invop_must)

lemma invop_check_operands: "of_settings P \<Longrightarrow> invop P (check_operands n)"
  unfolding check_operands_def by (intro invop_intros invop_frame) (simp_all add: settings_def)

lemma invop_add_route: "of_settings P \<Longrightarrow> invop P add_route"
  unfolding add_route_def by (intro invop_intros invop_frame) (simp_all add: settings_def)

lemma invop_resolve_targets: "of_settings P \<Longrightarrow> invop P (resolve_targets nt ai args)"
proof (induction args)
  case (Cons target rest)
  then show ?case
    unfolding resolve_targets.simps
    by (intro invop_intros invop_add_route invop_frame) (simp_all add: settings_def Let_def split: list.split)
qed simp

lemma invop_choose_source: "of_settings P \<Longrightarrow> invop P (choose_source sy nt b)"
  unfolding choose_source_def probe_source_def
  by (intro invop_intros invop_must invop_may invop_bind_to_device invop_sock_setmark invop_frame)
     (simp_all add: settings_def)

lemma invop_check_multicast: "of_settings P \<Longrightarrow> invop P check_multicast"
  unfolding check_multicast_def by (intro invop_intros invop_frame) (simp_all add: settings_def)

lemma invop_set_socket_options: "of_settings P \<Longrightarrow> invop P (set_socket_options sy nt sock)"
  unfolding set_socket_options_def
  by (intro invop_intros invop_must invop_may invop_frame) (simp_all add: settings_def)

lemma invop_set_ip_options [simp]: "invop P (set_ip_options sy)"
  unfolding set_ip_options_def by (intro invop_intros invop_must)

lemma invop_ping_print_packet [simp]: "invop P (ping_print_packet (ping4_func_set sy sock))"
  unfolding ping_print_packet_def ping4_func_set_def ping4_target_def ping4_source_def ping4_print_data_bytes_def
  by (simp, intro invop_intros)

lemma invop_mod_ni: "of_settings P \<Longrightarrow> invop P (mod_ni f)"
  unfolding mod_ni_def by (rule invop_frame) (simp_all add: settings_def)

lemma invop_pr_addr_as [simp]: "invop P (pr_addr_as sy b sa)"
  unfolding pr_addr_as_def pr_addr_fresh_def by (intro invop_intros invop_smod) (simp_all add: rts_of_def)

lemma invop_ping_print_packet6 [simp]: "invop P (ping_print_packet (ping6_func_set sy s6 sock))"
  unfolding ping_print_packet_def ping6_func_set_def ping6_target_def ping6_source_def ping6_print_data_bytes_def
    pr_addr_def pr_raw_addr_def
  by (simp, intro invop_intros invop_pr_addr_as)

lemma invop_if_name2index [simp]: "invop P (if_name2index n6 dev)"
  unfolding if_name2index_def by (intro invop_intros)

lemma invop_prepare_niquery: "of_settings P \<Longrightarrow> invop P (prepare_niquery sy)"
  unfolding prepare_niquery_def niquery_init_nonce_def by (intro invop_intros invop_mod_ni)

lemma invop_choose_target6: "invop P (choose_target6 args)"
  unfolding choose_target6_def sopt_def by (auto split: list.split intro!: invop_intros)

lemma invop_set_target6: "of_settings P \<Longrightarrow> invop P (set_target6 ai target)"
  unfolding set_target6_def by (intro invop_intros invop_smod invop_frame) (simp_all add: settings_def rts_of_def Let_def)

lemma invop_choose_source6: "of_settings P \<Longrightarrow> invop P (choose_source6 sy n6 b)"
  unfolding choose_source6_def probe_source6_def bind_device6_def
  by (intro invop_intros invop_must invop_if_name2index invop_sock_setmark invop_frame) (simp_all add: settings_def)

lemma invop_add_pktinfo: "of_settings P \<Longrightarrow> invop P (add_pktinfo sy n6)"
  unfolding add_pktinfo_def by (intro invop_intros invop_must invop_if_name2index invop_frame) (simp_all add: settings_def)

lemma invop_check_multicast6: "of_settings P \<Longrightarrow> invop P check_multicast6"
  unfolding check_multicast6_def by (intro invop_intros invop_frame) (simp_all add: settings_def)

lemma invop_set_flowinfo: "of_settings P \<Longrightarrow> invop P (set_flowinfo sy n6)"
  unfolding set_flowinfo_def by (intro invop_intros invop_must invop_frame) (simp_all add: settings_def)

subsection \<open>The command line\<close>

definition sizes_ok :: "ping_rts \<Rightarrow> bool" where
  "sizes_ok rts \<longleftrightarrow> length (outpack rts) = MAXPACKET \<and> length (rcvd_tbl rts) = 1024 \<and> 0 \<le> datalen rts
     \<and> 1 \<le> preload rts \<and> (uid rts \<noteq> 0 \<longrightarrow> preload rts \<le> 3) \<and> 0 \<le> interval rts
     \<and> (timing rts \<longrightarrow> int TIMEVAL_SIZE \<le> datalen rts)"

definition unset :: "int \<Rightarrow> ping_rts \<Rightarrow> bool" where
  "unset u rts \<longleftrightarrow> sizes_ok rts \<and> \<not> timing rts \<and> uid rts = u"

lemma of_settings_sizes: "of_settings sizes_ok" "of_settings (unset u)"
  by (simp_all add: of_settings_def settings_def sizes_ok_def unset_def)

lemma length_scan_pat: "length (scan_pat n t) \<le> n"
  by (induction n t rule: scan_pat.induct) simp_all

lemma length_fill_loop:
  assumes "pat = [] \<or> lastk + length pat \<le> length bp"
  shows "length (fill_loop pat lastk kk bp) = length bp"
proof (cases "pat = []")
  case True
  then show ?thesis by (simp add: fill_loop.simps)
next
  case False
  let ?r = "rounds (length pat) lastk kk"
  have "kk + ?r * length pat \<le> max kk (length bp)"
  proof (cases "kk \<le> lastk")
    case True
    have "(lastk - kk) div length pat * length pat \<le> lastk - kk" by simp
    then have "kk + (lastk - kk) div length pat * length pat \<le> lastk" using True by arith
    then show ?thesis using True assms False by (simp add: rounds_def)
  qed (simp add: rounds_def)
  then show ?thesis
    using fill_loop_rounds [OF False, of lastk bp kk] assms False length_greater_0_conv [of pat]
    by (auto simp del: length_greater_0_conv simp: length_concat sum_list_replicate min_def max_def rounds_def split: if_splits)
qed

lemma sizes_fill: "unset u r \<Longrightarrow> unset u (r\<lparr>outpack := take 8 (outpack r)
    @ fill_loop (scan_pat 16 t) (length (outpack r) - (8 + length (scan_pat 16 t))) 0 (drop 8 (outpack r))\<rparr>)"
  using length_scan_pat [of 16 t] by (simp add: unset_def sizes_ok_def length_fill_loop)

lemma invop_fill: "invop (unset u) (fill sy t)"
  unfolding fill_def
  by (intro invop_intros invop_ping_error of_settings_sizes invop_mod) (simp add: Let_def sizes_fill)

lemma invop_set_flag: "(\<And>r. P r \<Longrightarrow> P (f r)) \<Longrightarrow> invop P (set_flag f mo)"
  unfolding set_flag_def by (intro invop_intros invop_mod)

lemma flag_settings: "map_of flag_table c = Some f \<Longrightarrow> settings (f r) = settings r"
  by (auto simp: flag_table_def settings_def split: if_splits)

lemma invop_flag: "map_of flag_table c = Some f \<Longrightarrow> invop (unset u) (set_flag f mo)"
  by (rule invop_set_flag) (rule of_settingsD [OF of_settings_sizes(2) flag_settings])

lemma strtol_or_err_range: "strtol_or_err t mn mx = Inr v \<Longrightarrow> mn \<le> v \<and> v \<le> mx"
  by (auto simp: strtol_or_err_def split: option.splits prod.splits if_splits)

lemma number_bind: "sbind (number r) f = (case r of Inl _ \<Rightarrow> die 1 | Inr v \<Rightarrow> f v)"
  by (cases r) (simp_all add: number_def die_def fun_eq_iff sbind_def sthrow_def sret_def)

lemma num_settings:
  assumes "map_of num_table c = Some (conv, f)"
  shows "(\<forall>v r. settings (f v r) = settings r)
    \<or> (conv = (\<lambda>a. strtol_or_err (Some a) 0 INT_MAX) \<and> f = (\<lambda>v rts. rts\<lparr>datalen := v\<rparr>))"
  using assms unfolding num_table_def map_of.simps fst_conv snd_conv fun_upd_apply
  by (simp add: settings_def split: if_split_asm; fastforce)

lemma num_unset:
  assumes "map_of num_table c = Some (conv, f)" "conv a = Inr v" "unset u r"
  shows "unset u (f v r)"
  using num_settings [OF assms(1)]
proof
  assume "\<forall>v r. settings (f v r) = settings r"
  then show ?thesis using of_settingsD [OF of_settings_sizes(2) _ assms(3)] by simp
next
  assume n: "conv = (\<lambda>a. strtol_or_err (Some a) 0 INT_MAX) \<and> f = (\<lambda>v rts. rts\<lparr>datalen := v\<rparr>)"
  then have "strtol_or_err (Some a) 0 INT_MAX = Inr v" using assms(2) by (simp only: n [THEN conjunct1])
  from strtol_or_err_range [OF this] have "0 \<le> v" ..
  with assms(3) have "unset u (r\<lparr>datalen := v\<rparr>)" unfolding unset_def sizes_ok_def by simp
  then show ?thesis by (simp only: n [THEN conjunct2])
qed

lemma invop_num: "map_of num_table c = Some (conv, f) \<Longrightarrow> invop (unset u) (set_num (conv a) f mo)"
  unfolding set_num_def number_bind
  by (cases "conv a") (auto intro: invop_set_flag dest: num_unset)

lemma invop_frame_flag: "(\<And>r. settings (f r) = settings r) \<Longrightarrow> invop (unset u) (set_flag f mo)"
  by (rule invop_set_flag) (rule of_settingsD [OF of_settings_sizes(2)])

lemma invop_parse [simp]: "invop P (parseflow a)" "invop P (parsetos a)" "invop P (ping_strtod nt a)"
  unfolding parseflow_def parsetos_def ping_strtod_def
  by (auto intro!: invop_intros split: cdouble.split)

lemma invop_set_types: "of_settings P \<Longrightarrow> invop P (niquery_set_qtype q)" "of_settings P \<Longrightarrow> invop P (niquery_set_subject_type q)"
  unfolding niquery_set_qtype_def niquery_set_subject_type_def by (auto intro!: invop_intros invop_mod_ni)

lemma invop_subject_handlers:
  "of_settings P \<Longrightarrow> invop P (niquery_option_subject_addr_handler nsy d a)"
  "of_settings P \<Longrightarrow> invop P (niquery_option_subject_name_handler nsy d a)"
  unfolding niquery_option_subject_addr_handler_def niquery_option_subject_name_handler_def Let_def
  by (auto intro!: invop_intros invop_mod_ni invop_set_types split: list.split)

lemma invop_run_handler: "of_settings P \<Longrightarrow> invop P (run_handler nsy i p a)"
  by (cases "no_handler p")
     (auto simp: run_handler_def niquery_option_name_handler_def niquery_option_ipv6_handler_def
       niquery_option_ipv6_flag_handler_def niquery_option_ipv4_handler_def niquery_option_ipv4_flag_handler_def
       niquery_option_help_handler_def intro!: invop_intros invop_mod_ni invop_set_types invop_subject_handlers)

lemma invop_niquery_option: "of_settings P \<Longrightarrow> invop P (niquery_option_handler nsy arg)"
proof -
  assume P: "of_settings P"
  have "invop P (niquery_options_from nsy arg i ps)" for i ps
    by (induction ps arbitrary: i) (auto simp: niquery_option_help_handler_def intro!: invop_intros invop_run_handler P)
  then show ?thesis by (simp add: niquery_option_handler_def)
qed

lemma invop_opt_ts_type: "invop (unset u) (opt_ts_type a mo)"
  unfolding opt_ts_type_def by (intro invop_intros invop_frame_flag) (simp add: settings_def)

lemma invop_opt_source: "invop (unset u) (opt_source nt a mo)"
  unfolding opt_source_def
  by (intro invop_intros invop_frame_flag invop_frame of_settings_sizes) (simp_all add: settings_def)

lemma invop_opt_pmtudisc: "invop (unset u) (opt_pmtudisc a mo)"
  unfolding opt_pmtudisc_def by (intro invop_intros invop_frame_flag) (simp add: settings_def)

lemma invop_opt_linger: "invop (unset u) (opt_linger nt a mo)"
  unfolding opt_linger_def by (intro invop_intros invop_parse invop_frame_flag) (simp add: settings_def)

lemma invop_opt_interval: "invop (unset u) (opt_interval_arg nt a mo)"
  unfolding opt_interval_arg_def
  by (intro invop_intros invop_parse invop_set_flag) (auto simp: unset_def sizes_ok_def trunc_def)

lemma invop_opt_preload: "invop (unset u) (opt_preload a mo)"
proof -
  have "unset u (r\<lparr>preload := v\<rparr>)" if "unset u r" "strtol_or_err (Some a) 1 (int MAX_DUP_CHK) = Inr v" "\<not> (uid r \<noteq> 0 \<and> v > 3)" for r v
    using strtol_or_err_range [OF that(2)] that(1,3) by (auto simp: unset_def sizes_ok_def)
  then show ?thesis
    unfolding opt_preload_def number_bind invop_def
    by (auto simp: sbind_def serr_defs mod_rts_def rts_of_def die_def split: sum.splits if_splits)
qed

lemma invop_arg_opt: "invop (unset u) (arg_opt sy nt c arg mo)"
  unfolding arg_opt_def
  by (intro invop_intros invop_num invop_opt_ts_type invop_parse invop_opt_interval invop_opt_source invop_opt_preload
      invop_opt_pmtudisc invop_fill invop_opt_linger invop_frame_flag invop_frame invop_niquery_option of_settings_sizes)
     (simp_all add: settings_def)

lemma invop_ping_opt: "invop (unset u) (ping_opt sy nt it mo)"
  unfolding ping_opt_def set_family_def
  by (intro invop_intros invop_arg_opt invop_flag invop_frame_flag) (simp_all add: settings_def)

lemma invop_ping_opts: "invop (unset u) (ping_opts sy nt its mo)"
  by (induction its arbitrary: mo) (simp_all add: invop_bind invop_ping_opt)

lemma max_datalen_le: "max_datalen nt fam t rts \<le> ICMPV6_MAX_DATALEN"
  by (simp add: max_datalen_def get_ipv4_optlen_def)

subsection \<open>From the command line to the main loop\<close>

definition ensures :: "(ping_rts \<Rightarrow> bool) \<Rightarrow> ('k, 'a) pm \<Rightarrow> (ping_rts \<Rightarrow> bool) \<Rightarrow> bool" where
  "ensures P m Q \<longleftrightarrow> (\<forall>s a s'. P (rts_of s) \<longrightarrow> m s = (Inr a, s') \<longrightarrow> Q (rts_of s'))"

lemma ensuresD: "ensures P m Q \<Longrightarrow> m s = (Inr a, s') \<Longrightarrow> P (rts_of s) \<Longrightarrow> Q (rts_of s')"
  unfolding ensures_def by blast

lemma ensures_bind: "ensures P m R \<Longrightarrow> (\<And>a. ensures R (f a) Q) \<Longrightarrow> ensures P (sbind m f) Q"
  unfolding ensures_def sbind_Inr_iff by blast

lemma ensures_sget: "(\<And>r. P r \<Longrightarrow> ensures (\<lambda>x. x = r) (f r) Q) \<Longrightarrow> ensures P (sbind (sget rts_of) f) Q"
  unfolding ensures_def sbind_Inr_iff sget_Inr_iff by blast

lemma ensures_invop: "invop P m \<Longrightarrow> (\<And>r. P r \<Longrightarrow> Q r) \<Longrightarrow> ensures P m Q"
  unfolding ensures_def invop_def by blast

lemma ensures_pure: "(\<And>r. P r \<Longrightarrow> Q r) \<Longrightarrow> ensures P (sret a) Q" "ensures P (die n) Q"
  by (simp_all add: ensures_def serr_defs die_def)

lemma ensures_if: "(b \<Longrightarrow> ensures P m Q) \<Longrightarrow> (\<not> b \<Longrightarrow> ensures P n Q) \<Longrightarrow> ensures P (if b then m else n) Q"
  by simp

lemma ensures_frame: "(\<And>P. invop P m) \<Longrightarrow> (\<And>a. ensures P (f a) Q) \<Longrightarrow> ensures P (sbind m f) Q"
  by (rule ensures_bind [OF ensures_invop])

lemma invop_conj: "invop P m \<Longrightarrow> invop Q m \<Longrightarrow> invop (\<lambda>r. P r \<and> Q r) m"
  unfolding invop_def by blast

definition ready :: "int \<Rightarrow> ping_rts \<Rightarrow> bool" where
  "ready u rts \<longleftrightarrow> sizes_ok rts \<and> datalen rts \<le> ICMPV6_MAX_DATALEN \<and> uid rts = u"

lemma of_settings_ready: "of_settings (ready u)"
  by (simp add: of_settings_def settings_def sizes_ok_def ready_def)

lemma main_prepare_ready: "ensures (unset u) (main_prepare sy sy6 nt env argv) (ready u)"
proof -
  have start: "invop (unset u) (mod_rts (\<lambda>rts. if env = Some ''0'' then rts\<lparr>opt_numeric := True\<rparr> else rts))"
    by (rule invop_frame [OF of_settings_sizes(2)]) (simp add: settings_def)
  have ok: "ready u r" if "unset u r" "\<not> datalen r > max_datalen nt fam t r" for r fam t
    using that max_datalen_le [of nt fam t r] by (simp add: ready_def unset_def)
  have sock: "invop P (if b then create_socket nt fam st req else sret z)" for P b fam st req z
    by (simp add: invop_create_socket)
  show ?thesis
    unfolding main_prepare_def Let_def split_beta
    by (rule ensures_bind [OF ensures_invop [OF start]], assumption,
        rule ensures_bind [OF ensures_invop [OF invop_ping_opts]], assumption,
        intro ensures_if ensures_pure ensures_sget ensures_frame sock invop_swhen invop_must)
       (auto intro: ok)
qed

text \<open>The bounds that the schedule relies on.\<close>

definition rate_ok :: "ping_rts \<Rightarrow> bool" where
  "rate_ok rts \<longleftrightarrow> (uid rts \<noteq> 0 \<longrightarrow> MIN_USER_INTERVAL_MS \<le> interval rts) \<and> interval rts < cdiv INT_MAX (preload rts)"

definition bounded :: "int \<Rightarrow> ping_rts \<Rightarrow> bool" where
  "bounded u rts \<longleftrightarrow> ready u rts \<and> rate_ok rts"

lemma of_settings_bounded: "of_settings (bounded u)"
  by (simp add: of_settings_def settings_def sizes_ok_def ready_def bounded_def rate_ok_def)

lemma ensures_fatal: "ensures P (ping_error sy 2 n t) Q"
  by (auto simp: ensures_def ping_error_def sbind_Inr_iff sguard_Inr_iff sget_Inr_iff split: if_splits)

lemma ensures_unless: "(\<And>r. P r \<Longrightarrow> \<not> b \<Longrightarrow> Q r) \<Longrightarrow> ensures P (swhen b (ping_error sy 2 n t)) Q"
  by (cases b) (simp_all add: swhen_def ensures_fatal ensures_pure)

lemma check_rate_bounded: "ensures (ready u) (check_rate sy) (bounded u)"
proof -
  have fl: "invop (ready u) (mod_rts (\<lambda>rts. if opt_flood rts \<and> \<not> opt_interval rts then rts\<lparr>interval := 0\<rparr> else rts))"
    by (rule invop_mod) (simp add: ready_def sizes_ok_def)
  have "ensures (\<lambda>x. x = r) (sbind (swhen (uid r \<noteq> 0 \<and> interval r < MIN_USER_INTERVAL_MS) (ping_error sy 2 0 t))
      (\<lambda>_. swhen (cdiv INT_MAX (preload r) \<le> interval r) (ping_error sy 2 0 t'))) (bounded u)" if "ready u r" for r t t'
    by (rule ensures_bind [OF ensures_unless [where Q = "\<lambda>x. x = r \<and> (uid r \<noteq> 0 \<longrightarrow> MIN_USER_INTERVAL_MS \<le> interval r)"]
          ensures_unless]) (use that in \<open>auto simp: bounded_def rate_ok_def\<close>)
  then show ?thesis
    unfolding check_rate_def
    by (intro ensures_bind [OF ensures_invop [OF fl]] ensures_sget)
qed

lemma bounded_fill_default: "bounded u r \<Longrightarrow> bounded u (fill_default r)"
  by (auto simp: bounded_def ready_def sizes_ok_def rate_ok_def fill_default_def Let_def)

lemma bounded_late:
  assumes "bounded u r"
  shows "bounded u (let rts = (if b then r\<lparr>opt_flood_poll := True\<rparr> else r); rts = fill_default rts
                    in if c rts then rts\<lparr>ident := i\<rparr> else rts)"
proof -
  have "bounded u (if b then r\<lparr>opt_flood_poll := True\<rparr> else r)"
    by (rule of_settingsD [OF of_settings_bounded _ assms]) (simp add: settings_def)
  from bounded_fill_default [OF this] show ?thesis
    unfolding Let_def by (rule of_settingsD [OF of_settings_bounded, rotated]) (simp add: settings_def)
qed

lemma invop_late: "invop (bounded u) (mod_rts (\<lambda>rts. let rts = (if b then rts\<lparr>opt_flood_poll := True\<rparr> else rts);
      rts = fill_default rts in if c rts then rts\<lparr>ident := i\<rparr> else rts))"
  by (rule invop_mod) (rule bounded_late)

lemma ping_setup_bounded: "ensures (ready u) (ping_setup sy sock) (bounded u)"
  unfolding ping_setup_def
  by (rule ensures_bind [OF check_rate_bounded], rule ensures_invop,
      intro invop_intros invop_setopt invop_sock_setmark invop_ping_error invop_late invop_frame invop_smod of_settings_bounded)
     (simp_all add: settings_def rts_of_def)

lemma invop_set_traffic: "invop (ready u) (set_traffic sy)"
  unfolding set_traffic_def
  by (intro invop_intros invop_sock_setbufs invop_must of_settings_ready invop_mod)
     (auto simp: ready_def sizes_ok_def)

lemma ensures_option: "(c = None \<Longrightarrow> ensures P m Q) \<Longrightarrow> (\<And>a. c = Some a \<Longrightarrow> ensures P (n a) Q) \<Longrightarrow> ensures P (case_option m n c) Q"
  by (cases c) simp_all

lemma ping4_prepare_bounded:
  assumes "ping4_prepare sy nt args ai has_next sock s = (Inr r, s')" "ready u (rts_of s)"
  shows "if r = None then ready u (rts_of s') else bounded u (rts_of s')"
proof -
  define rest where "rest dst =
         sbind check_multicast (\<lambda>_.
         sbind (set_socket_options sy nt sock) (\<lambda>_.
         sbind (set_ip_options sy) (\<lambda>_.
         sbind (set_traffic sy) (\<lambda>_.
         sbind (ping_print_packet (ping4_func_set sy sock)) (\<lambda>_.
         sbind (ping_setup sy sock) (\<lambda>_.
         sbind (sget rts_of) (\<lambda>rts.
         sbind (swhen (opt_connect_sk rts)
                  (case dst of Some d \<Rightarrow> must (nt_connect nt d) | None \<Rightarrow> sthrow Ping_Out_Of_Bounds)) (\<lambda>_.
         sret (Some ())))))))))" for dst
  have fr: "ensures (ready u) m (ready u)" if "invop (ready u) m" for m :: "('a, unit) pm"
    using that by (rule ensures_invop)
  have e: "ensures (ready u) (rest dst) (bounded u)" for dst
    unfolding rest_def
    by (intro ensures_bind [OF fr [OF invop_check_multicast]] ensures_bind [OF fr [OF invop_set_socket_options]]
        ensures_bind [OF fr [OF invop_set_ip_options]] ensures_bind [OF fr [OF invop_set_traffic]]
        ensures_bind [OF fr [OF invop_ping_print_packet]] ensures_bind [OF ping_setup_bounded] of_settings_ready)
       (rule ensures_invop, intro invop_intros invop_must, assumption)
  have "ping4_prepare sy nt args ai has_next sock =
      sbind (check_operands (length args)) (\<lambda>_. sbind (resolve_targets nt ai args) (\<lambda>_.
      sbind (choose_source sy nt has_next) (\<lambda>src. case src of None \<Rightarrow> sret None | Some dst \<Rightarrow> rest dst)))"
    unfolding ping4_prepare_def rest_def ..
  then obtain s1 s2 s3 src where s: "check_operands (length args) s = (Inr (), s1)"
      "resolve_targets nt ai args s1 = (Inr (), s2)" "choose_source sy nt has_next s2 = (Inr src, s3)"
      and c: "(case src of None \<Rightarrow> sret None | Some dst \<Rightarrow> rest dst) s3 = (Inr r, s')"
    using assms(1) by (auto simp: sbind_Inr_iff)
  have r: "ready u (rts_of s3)"
    using assms(2) s(1) [THEN invopD [OF invop_check_operands [OF of_settings_ready]]]
      s(2) [THEN invopD [OF invop_resolve_targets [OF of_settings_ready]]]
      s(3) [THEN invopD [OF invop_choose_source [OF of_settings_ready]]] by blast
  have "r \<noteq> None" if "rest dst s3 = (Inr r, s')" for dst using that unfolding rest_def by (auto simp: sbind_Inr_iff sret_Inr_iff)
  then show ?thesis using c r ensuresD [OF e _ r] by (cases src) (auto simp: sret_Inr_iff)
qed

lemma invop_set_socket_options6: "invop (ready u) (set_socket_options6 sy n6 sock)"
  unfolding set_socket_options6_def
  by (intro invop_intros invop_must invop_may invop_sock_setbufs of_settings_ready invop_mod)
     (auto simp: ready_def sizes_ok_def)

lemma ping6_prepare_bounded:
  assumes "ping6_prepare sy s6 n6 args ai has_next sock s = (Inr r, s')" "ready u (rts_of s)"
  shows "if r = None then ready u (rts_of s') else bounded u (rts_of s')"
proof -
  define rest where "rest =
       sbind (add_pktinfo sy n6) (\<lambda>_. sbind check_multicast6 (\<lambda>_. sbind (set_socket_options6 sy n6 sock) (\<lambda>_.
       sbind (set_flowinfo sy n6) (\<lambda>_. sbind (ping_print_packet (ping6_func_set sy s6 sock)) (\<lambda>_.
       sbind (ping_setup sy sock) (\<lambda>_. sret (Some ())))))))"
  have fr: "ensures (ready u) m (ready u)" if "invop (ready u) m" for m :: "('a, unit) pm"
    using that by (rule ensures_invop)
  have e: "ensures (ready u) rest (bounded u)"
    unfolding rest_def
    by (intro ensures_bind [OF fr [OF invop_add_pktinfo]] ensures_bind [OF fr [OF invop_check_multicast6]]
        ensures_bind [OF fr [OF invop_set_socket_options6]] ensures_bind [OF fr [OF invop_set_flowinfo]]
        ensures_bind [OF fr [OF invop_ping_print_packet6]] ensures_bind [OF ping_setup_bounded] of_settings_ready)
       (rule ensures_invop, intro invop_intros)
  obtain t s1 s2 s3 s4 go where st: "prepare_niquery sy s = (Inr (), s1)" "choose_target6 args s1 = (Inr t, s2)"
      "set_target6 ai t s2 = (Inr (), s3)" "choose_source6 sy n6 has_next s3 = (Inr go, s4)"
      and c: "(if \<not> go then sret None else rest) s4 = (Inr r, s')"
    using assms(1) unfolding ping6_prepare_def rest_def by (auto simp: sbind_Inr_iff)
  have r: "ready u (rts_of s4)"
    using assms(2) st(1) [THEN invopD [OF invop_prepare_niquery [OF of_settings_ready]]]
      st(2) [THEN invopD [OF invop_choose_target6]] st(3) [THEN invopD [OF invop_set_target6 [OF of_settings_ready]]]
      st(4) [THEN invopD [OF invop_choose_source6 [OF of_settings_ready]]] by blast
  have "r \<noteq> None" if "rest s4 = (Inr r, s')" using that unfolding rest_def by (auto simp: sbind_Inr_iff sret_Inr_iff)
  then show ?thesis using c r ensuresD [OF e _ r] by (auto simp: sret_Inr_iff split: if_splits)
qed

lemma bounded_product:
  assumes "bounded u r"
  shows "interval r * preload r \<le> INT_MAX"
proof -
  have p: "1 \<le> preload r" "interval r < cdiv INT_MAX (preload r)"
    using assms by (simp_all add: bounded_def ready_def sizes_ok_def rate_ok_def)
  then have "interval r \<le> INT_MAX div preload r" using cdiv_nonneg [of INT_MAX "preload r"] by linarith
  then have "interval r * preload r \<le> INT_MAX div preload r * preload r" using p(1) by (simp add: mult_right_mono)
  also have "\<dots> \<le> INT_MAX"
    using p(1) div_mult_mod_eq [of INT_MAX "preload r"] pos_mod_sign [of "preload r" INT_MAX] by linarith
  finally show ?thesis .
qed

text \<open>Addresses for which there was no route and the next one was tried.\<close>

inductive tries for sy sy6 s6 nt n6 args where
  start: "tries sy sy6 s6 nt n6 args s s"
| next4: "tries sy sy6 s6 nt n6 args s s1 \<Longrightarrow> ping4_prepare sy nt args ai has_next sock s1 = (Inr None, s2)
    \<Longrightarrow> tries sy sy6 s6 nt n6 args s s2"
| next6: "tries sy sy6 s6 nt n6 args s s1 \<Longrightarrow> ping6_prepare sy6 s6 n6 args ai has_next sock s1 = (Inr None, s2)
    \<Longrightarrow> tries sy sy6 s6 nt n6 args s s2"

lemma tries_ready: "tries sy sy6 s6 nt n6 args s s' \<Longrightarrow> ready u (rts_of s) \<Longrightarrow> ready u (rts_of s')"
  by (induction rule: tries.induct) (use ping4_prepare_bounded ping6_prepare_bounded in fastforce)+

text \<open>
C28: Whatever the command line and the environment, and however many addresses were tried before, when
\<open>ping\<close> enters its main loop with IPv4 or with IPv6 the buffers have their sizes, the data fits the packet,
a time stamp is only used when the data has room for it, the product of interval and preload, from
which the tokens are computed, does not overflow an \<open>int\<close>, and a user other than root is held to three
preloaded packets and an interval of at least two milliseconds.
\<close>
theorem ping_main_limits:
  assumes "rts_of s = rts_init\<lparr>uid := u\<rparr>" "main_prepare sy sy6 nt env argv s = (Inr r, s0)"
    and "tries sy sy6 s6 nt n6 args s0 s1"
    and "ping4_prepare sy nt args ai has_next sock s1 = (Inr (Some ()), s2)
      \<or> ping6_prepare sy6 s6 n6 args ai has_next sock s1 = (Inr (Some ()), s2)"
  shows "length (outpack (rts_of s2)) = MAXPACKET \<and> length (rcvd_tbl (rts_of s2)) = 1024
    \<and> 0 \<le> datalen (rts_of s2) \<and> datalen (rts_of s2) + 8 \<le> int MAXPACKET
    \<and> (timing (rts_of s2) \<longrightarrow> int TIMEVAL_SIZE \<le> datalen (rts_of s2))
    \<and> 1 \<le> preload (rts_of s2) \<and> 0 \<le> interval (rts_of s2) \<and> interval (rts_of s2) * preload (rts_of s2) \<le> INT_MAX
    \<and> (u \<noteq> 0 \<longrightarrow> preload (rts_of s2) \<le> 3 \<and> MIN_USER_INTERVAL_MS \<le> interval (rts_of s2))"
proof -
  have "unset u (rts_of s)"
    unfolding assms(1) by (simp add: unset_def sizes_ok_def rts_init_def rcvd_empty_def)
  from tries_ready [OF assms(3) ensuresD [OF main_prepare_ready assms(2) this]] have "ready u (rts_of s1)" .
  then have b: "bounded u (rts_of s2)"
    using assms(4) ping4_prepare_bounded [of sy nt args ai has_next sock s1 "Some ()" s2 u]
      ping6_prepare_bounded [of sy6 s6 n6 args ai has_next sock s1 "Some ()" s2 u] by auto
  from bounded_product [OF this] b show ?thesis
    by (simp add: bounded_def ready_def sizes_ok_def rate_ok_def)
qed

definition demo_net :: "unit ping_net" where
  "demo_net = \<lparr>nt_aton = (\<lambda>_. Some 0x7f000001), nt_pton4 = (\<lambda>_. Some 0x7f000001), nt_pton6 = (\<lambda>_. None),
     nt_strtod = (\<lambda>_. (Fin 1, [], False)), nt_ni = demo_ni_sys, nt_getaddrinfo = (\<lambda>_ _. Pair (Inl 1)),
     nt_socket = (\<lambda>fam _. Pair (if fam = AF_INET then None else Some EAFNOSUPPORT)), nt_probe_socket = Pair None,
     nt_probe_opt = (\<lambda>_. Pair None), nt_probe_connect = (\<lambda>_. Pair None), nt_getsockname = Pair (Inr 0x7f000001),
     nt_getifaddrs = Pair (Inr []), nt_ifindex = (\<lambda>_. Pair (Some 1)), nt_bind = (\<lambda>_ _. Pair None),
     nt_connect = (\<lambda>_. Pair None)\<rparr>"

lemma demo_init_simps:
  "datalen rts_init = 56" "settos rts_init = 0" "ident rts_init = - 1" "opt_rroute rts_init = False"
  "opt_timestamp rts_init = False" "opt_sourceroute rts_init = False" "device rts_init = None" "opt_mark rts_init = False"
  "route rts_init = []" "source_addr rts_init = 0" "broadcast_pings rts_init = False" "pmtudisc rts_init = - 1"
  "opt_strictsource rts_init = False" "preload rts_init = 1" "sndbuf rts_init = 0" "opt_noloop rts_init = False"
  "opt_ttl rts_init = False" "opt_json rts_init = False" "opt_flood rts_init = False" "interval rts_init = 1000"
  "opt_so_debug rts_init = False" "opt_so_dontroute rts_init = False" "opt_latency rts_init = False" "deadline rts_init = 0"
  "opt_connect_sk rts_init = False" "uid rts_init = 0" "flowlabel rts_init = 0"
  by (simp_all add: rts_init_def)

lemma demo_argv: "getopt_all ping_spec [''127.0.0.1''] = ([], [''127.0.0.1''])"
  by code_simp

lemma demo_main_prepare:
  "main_prepare demo_sys demo_sys demo_net None [''ping'', ''127.0.0.1''] (demo_pst (rts_init\<lparr>uid := 7\<rparr>))
     = (Inr ([''127.0.0.1''], AF_INET, (True, SOCK_DGRAM), (False, SOCK_DGRAM)), demo_pst (rts_init\<lparr>uid := 7\<rparr>))"
  by (simp add: main_prepare_def demo_argv initial_opts_def create_socket_def mod_rts_def sbind_def serr_defs rts_of_def
      demo_pst_def demo_net_def demo_init_simps max_datalen_def get_ipv4_optlen_def swhen_def syscall_def Let_def)

lemma demo_ping4_prepare:
  "fst (ping4_prepare demo_sys demo_net [''127.0.0.1''] \<lparr>ai_family = AF_INET, ai_addr = 1, ai_addr6 = zero_sockaddr_in6, ai_canonname = None\<rparr> False SOCK_DGRAM
     (demo_pst (rts_init\<lparr>uid := 7\<rparr>))) = Inr (Some ())"
  by (simp add: ping4_prepare_def check_operands_def choose_source_def probe_source_def check_multicast_def set_socket_options_def
      set_ip_options_def set_traffic_def ping_print_packet_def ping4_func_set_def ping4_target_def ping4_print_data_bytes_def ping_setup_def check_rate_def sock_setmark_def sock_setbufs_def
      setopt_def must_def may_def mod_rts_def sbind_def serr_defs rts_of_def demo_pst_def demo_net_def demo_sys_def
      demo_init_simps get_ipv4_optlen_def swhen_def syscall_def Let_def IN_MULTICAST_def on_io_def emit_def cdiv_def fill_default_def)

theorem ping_main_limits_witness:
  "\<exists>s2. ping4_prepare demo_sys demo_net [''127.0.0.1''] \<lparr>ai_family = AF_INET, ai_addr = 1, ai_addr6 = zero_sockaddr_in6, ai_canonname = None\<rparr> False SOCK_DGRAM
     (demo_pst (rts_init\<lparr>uid := 7\<rparr>)) = (Inr (Some ()), s2) \<and> interval (rts_of s2) * preload (rts_of s2) \<le> INT_MAX
     \<and> datalen (rts_of s2) + 8 \<le> int MAXPACKET"
proof -
  obtain s2 where r: "ping4_prepare demo_sys demo_net [''127.0.0.1''] \<lparr>ai_family = AF_INET, ai_addr = 1, ai_addr6 = zero_sockaddr_in6, ai_canonname = None\<rparr>
      False SOCK_DGRAM (demo_pst (rts_init\<lparr>uid := 7\<rparr>)) = (Inr (Some ()), s2)"
    using demo_ping4_prepare by (metis prod.collapse)
  from ping_main_limits [OF _ demo_main_prepare tries.start disjI1 [OF r]] r show ?thesis by (simp add: demo_pst_def rts_of_def)
qed

subsection \<open>Gateways and several addresses\<close>

text \<open>What \<open>resolve_targets\<close> does with numeric operands: every gateway is added to the route.\<close>

lemma resolve_numeric:
  assumes "\<forall>t \<in> set args. nt_aton nt t \<noteq> None" "args \<noteq> []" "length (route (rts_of s)) \<le> 10"
  shows "(if length (route (rts_of s)) + length args - 1 \<le> 10
          then \<exists>s'. resolve_targets nt ai args s = (Inr (), s')
            \<and> route (rts_of s') = route (rts_of s) @ map (the \<circ> nt_aton nt) (butlast args)
          else fst (resolve_targets nt ai args s) = Inl Ping_Out_Of_Bounds)"
  using assms
proof (induction args arbitrary: s)
  case (Cons t rest)
  obtain a where a: "nt_aton nt t = Some a" using Cons.prems(1) by auto
  show ?case
  proof (cases "rest = []")
    case True
    then show ?thesis
      using a Cons.prems(3) by (simp add: sbind_def mod_rts_def serr_defs rts_of_def Let_def swhen_def)
  next
    case False
    define s2 where "s2 = s\<lparr>ps_io := (ps_io s)\<lparr>io_rts := (rts_of s)\<lparr>whereto := a, hostname := t,
      route := route (rts_of s) @ [a]\<rparr>\<rparr>\<rparr>"
    have step: "fst (resolve_targets nt ai (t # rest) s) = (if length (route (rts_of s)) < 10
          then fst (resolve_targets nt ai rest s2) else Inl Ping_Out_Of_Bounds)"
      "length (route (rts_of s)) < 10 \<Longrightarrow> resolve_targets nt ai (t # rest) s = resolve_targets nt ai rest s2"
      using a False by (simp_all add: sbind_def mod_rts_def serr_defs rts_of_def Let_def swhen_def add_route_def s2_def)
    have r: "route (rts_of s2) = route (rts_of s) @ [a]" by (simp add: rts_of_def s2_def)
    show ?thesis
    proof (cases "length (route (rts_of s)) < 10")
      case True
      then show ?thesis using Cons.IH [of s2] Cons.prems False a r step(2) by (auto simp del: resolve_targets.simps)
    next
      case nf: False
      then have "\<not> length (route (rts_of s)) + length (t # rest) - 1 \<le> 10" using False by (cases rest) auto
      then show ?thesis using step(1) nf by (simp only: if_False)
    qed
  qed
qed simp



end
