(* ===== verification/Tracepath.thy ===== *)
theory Tracepath
  imports Ping_Main Btools C_Safety
begin

text \<open>
  \<open>tracepath.c\<close>: probes with growing hop limits, the error queue, the path MTU and the command line.
  The kernel is a state of any type with one function per system call. Writes behind the packet
  buffer and reads through a null pointer are errors; messages on standard error are left out.
\<close>

subsection \<open>State and system\<close>

abbreviation MAX_PROBES :: nat where "MAX_PROBES \<equiv> 10"
abbreviation MAX_HOPS_LIMIT :: int where "MAX_HOPS_LIMIT \<equiv> 255"
abbreviation HOST_COLUMN_SIZE :: nat where "HOST_COLUMN_SIZE \<equiv> 52"
abbreviation HIS_ARRAY_SIZE :: nat where "HIS_ARRAY_SIZE \<equiv> 64"
abbreviation DEFAULT_OVERHEAD_IPV4 :: int where "DEFAULT_OVERHEAD_IPV4 \<equiv> 28"
abbreviation DEFAULT_OVERHEAD_IPV6 :: int where "DEFAULT_OVERHEAD_IPV6 \<equiv> 48"
abbreviation DEFAULT_MTU_IPV4 :: int where "DEFAULT_MTU_IPV4 \<equiv> 65535"
abbreviation DEFAULT_MTU_IPV6 :: int where "DEFAULT_MTU_IPV6 \<equiv> 128000"
abbreviation DEFAULT_BASEPORT :: int where "DEFAULT_BASEPORT \<equiv> 44444"
abbreviation PROBEHDR_SIZE :: int where "PROBEHDR_SIZE \<equiv> 24"
abbreviation ETIMEDOUT :: int where "ETIMEDOUT \<equiv> 110"
abbreviation ECONNREFUSED :: int where "ECONNREFUSED \<equiv> 111"
abbreviation EPROTO :: int where "EPROTO \<equiv> 71"

datatype tp_stop = Tp_Exit int | Tp_Undefined

text \<open>
  A message of the error queue: its length, the header it quotes when it has the length of one, the
  port of the probe, and the control messages. The errors have the type used for \<open>ping\<close>.
\<close>

datatype tp_cmsg = Tp_Recverr ext_err | Tp_Hops int | Tp_Cmsg6 int | Tp_Cmsg4 int

record tp_msg =
  tm_size :: int
  tm_ttl :: int
  tm_ts :: timespec
  tm_port :: int
  tm_cmsgs :: "tp_cmsg list"

datatype tp_sockopt =
  Tp_Mtu_Discover6 bool | Tp_Recverr6 | Tp_Hoplimit6 | Tp_Hoplimit6_2292 | Tp_Unicast_Hops int
| Tp_Mtu_Discover4 | Tp_Recverr4 | Tp_Recvttl4 | Tp_Ttl4 int

record tp_ai =
  tai_family :: af
  tai_v4mapped :: bool

record 'k tp_sys =
  tk_clock :: "'k \<Rightarrow> timespec \<times> 'k"
  tk_errqueue :: "'k \<Rightarrow> (int + tp_msg) \<times> 'k"
  tk_sendto :: "int \<Rightarrow> int \<Rightarrow> timespec \<Rightarrow> int \<Rightarrow> 'k \<Rightarrow> int \<times> 'k"
  tk_select :: "'k \<Rightarrow> 'k"
  tk_recv :: "'k \<Rightarrow> int \<times> 'k"
  tk_setsockopt :: "tp_sockopt \<Rightarrow> 'k \<Rightarrow> bool \<times> 'k"
  tk_getnameinfo :: "bool \<Rightarrow> bytes \<Rightarrow> 'k \<Rightarrow> string option \<times> 'k"
  tk_getaddrinfo :: "string \<Rightarrow> int \<Rightarrow> af \<Rightarrow> 'k \<Rightarrow> (int + tp_ai list) \<times> 'k"
  tk_socket :: "tp_ai \<Rightarrow> 'k \<Rightarrow> bool \<times> 'k"

text \<open>
  The state of a run. \<open>t_pktsize\<close> is the size \<open>pktbuf\<close> was allocated with; \<open>t_progress\<close> and \<open>t_i\<close> are
  local variables of loops.
\<close>

record 'k tp_state =
  t_his :: "(int \<times> timespec) list"
  t_hisptr :: nat
  t_base_port :: int
  t_ttl :: int
  t_max_hops :: int
  t_overhead :: int
  t_mtu :: int
  t_pktsize :: int
  t_hops_to :: int
  t_hops_from :: int
  t_no_resolve :: bool
  t_show_both :: bool
  t_mapped :: bool
  t_family :: af
  t_progress :: int
  t_i :: nat
  t_tries :: nat
  t_out :: string
  t_kern :: 'k

type_synonym ('k, 'a) tpm = "('k tp_state, tp_stop, 'a) serr"
type_synonym ('k, 'a) otpm = "('k tp_state, tp_stop, 'a) oserr"

definition tp_call :: "('k \<Rightarrow> 'a \<times> 'k) \<Rightarrow> ('k, 'a) tpm" where
  "tp_call f s = (case f (t_kern s) of (a, k) \<Rightarrow> (Inr a, s\<lparr>t_kern := k\<rparr>))"

definition tp_put :: "string \<Rightarrow> ('k, unit) tpm" where
  "tp_put t = smod (\<lambda>s. s\<lparr>t_out := t_out s @ t\<rparr>)"

definition tp_die :: "int \<Rightarrow> ('k, 'a) tpm" where
  "tp_die n = sthrow (Tp_Exit n)"

subsection \<open>The error queue\<close>

definition print_host :: "string \<Rightarrow> string \<Rightarrow> ('k, unit) tpm" where
  "print_host a b =
     sbind (sget t_show_both) (\<lambda>both.
     let t = a @ (if both then '' ('' @ b @ '')'' else []);
         plen = (if length t \<ge> HOST_COLUMN_SIZE then HOST_COLUMN_SIZE - 1 else length t)
     in tp_put (t @ replicate (HOST_COLUMN_SIZE - plen) (CHR '' '')))"

text \<open>Accesses to the history, an array of 64 entries: one outside of it is undefined.\<close>

definition his_at :: "int \<Rightarrow> ('k, int \<times> timespec) tpm" where
  "his_at slot =
     sbind (sguard (0 \<le> slot \<and> slot < int HIS_ARRAY_SIZE) Tp_Undefined) (\<lambda>_. sget (\<lambda>s. t_his s ! nat slot))"

definition put_his :: "int \<Rightarrow> int \<times> timespec \<Rightarrow> ('k, unit) tpm" where
  "put_his slot e =
     sbind (sguard (0 \<le> slot \<and> slot < int HIS_ARRAY_SIZE) Tp_Undefined) (\<lambda>_. smod (\<lambda>s. s\<lparr>t_his := (t_his s)[nat slot := e]\<rparr>))"

text \<open>The slot of the history a message belongs to; the last slot is never looked at.\<close>

definition take_slot :: "int \<Rightarrow> ('k, (int \<times> timespec) option) tpm" where
  "take_slot port =
     sbind (sget (\<lambda>s. port - t_base_port s)) (\<lambda>slot.
     if slot \<ge> 0 \<and> slot < int HIS_ARRAY_SIZE - 1
     then sbind (his_at slot) (\<lambda>h.
          if fst h \<noteq> 0 then sbind (put_his slot (0, snd h)) (\<lambda>_. sret (Some h)) else sret None)
     else sret None)"

text \<open>The hops and the time of sending, and whether the payload came back damaged.\<close>

definition quoted_probe :: "tp_msg \<Rightarrow> (int \<times> timespec) option \<Rightarrow> (int \<times> timespec) option \<times> bool" where
  "quoted_probe m slot =
     (if tm_size m = PROBEHDR_SIZE
      then if tm_ttl m = 0 \<or> tv_sec (tm_ts m) = 0 \<and> tv_nsec (tm_ts m) = 0 then (slot, True)
           else (Some (to_int32 (tm_ttl m), tm_ts m), False)
      else (slot, False))"

text \<open>The control messages: the last error and the last hop limit; others are printed.\<close>

fun scan_cmsgs :: "tp_cmsg list \<Rightarrow> ext_err option \<Rightarrow> int \<Rightarrow> string \<Rightarrow> ext_err option \<times> int \<times> string" where
  "scan_cmsgs [] e rethops out = (e, rethops, out)"
| "scan_cmsgs (Tp_Recverr x # cs) e rethops out = scan_cmsgs cs (Some x) rethops out"
| "scan_cmsgs (Tp_Hops h # cs) e rethops out = scan_cmsgs cs e h out"
| "scan_cmsgs (Tp_Cmsg6 t # cs) e rethops out = scan_cmsgs cs e rethops (out @ ''cmsg6:'' @ int_dec t @ [CHR 0x0A] @ '' '')"
| "scan_cmsgs (Tp_Cmsg4 t # cs) e rethops out = scan_cmsgs cs e rethops (out @ ''cmsg4:'' @ int_dec t @ [CHR 0x0A] @ '' '')"

definition name_of :: "'k tp_sys \<Rightarrow> bool \<Rightarrow> bytes \<Rightarrow> ('k, string) tpm" where
  "name_of sy numeric sa =
     sbind (tp_call (tk_getnameinfo sy numeric sa)) (\<lambda>r. sret (case r of Some t \<Rightarrow> t | None \<Rightarrow> ''???''))"

definition print_offender :: "'k tp_sys \<Rightarrow> int \<Rightarrow> bytes \<Rightarrow> ('k, unit) tpm" where
  "print_offender sy sndhops sa =
     sbind (sget id) (\<lambda>s.
     sbind (tp_put (if sndhops > 0 then pad_left 2 (int_dec sndhops) @ '':  '' else pad_left 2 (int_dec (t_ttl s)) @ ''?: '')) (\<lambda>_.
     sbind (if t_no_resolve s \<or> t_show_both s then name_of sy True sa else sret []) (\<lambda>abuf.
     sbind (if \<not> t_no_resolve s \<or> t_show_both s then name_of sy False sa else sret []) (\<lambda>hnamebuf.
     if t_no_resolve s then print_host abuf hnamebuf else print_host hnamebuf abuf))))"

definition rtt_text :: "timespec \<Rightarrow> string" where
  "rtt_text res =
     pad_left 3 (int_dec (tv_sec res * 1000 + cdiv (tv_nsec res) 1000000)) @ ''.''
       @ pad_zero 3 (int_dec (cdiv (cmod (tv_nsec res) 1000000) 1000)) @ ''ms ''"

definition back_hops :: "int \<Rightarrow> int" where
  "back_hops rethops = (if rethops \<le> 64 then 65 - rethops else if rethops \<le> 128 then 129 - rethops else 256 - rethops)"

definition ttl_exceeded :: "ext_err \<Rightarrow> bool" where
  "ttl_exceeded e \<longleftrightarrow> ee_origin e = SO_EE_ORIGIN_ICMP \<and> ee_type e = 11 \<and> ee_code e = 0
     \<or> ee_origin e = SO_EE_ORIGIN_ICMP6 \<and> ee_type e = 3 \<and> ee_code e = 0"

text \<open>The last part of a round of \<open>recverr\<close>: a value to return, or none to read the next message.\<close>

definition judge :: "ext_err \<Rightarrow> int \<Rightarrow> int \<Rightarrow> ('k, int option) tpm" where
  "judge e sndhops rethops =
     (let stop = (\<lambda>t. sbind (tp_put (t @ [CHR 0x0A])) (\<lambda>_. sret (Some 0)))
      in if ee_errno e = ETIMEDOUT then sbind (tp_put [CHR 0x0A]) (\<lambda>_. sret None)
         else if ee_errno e = EMSGSIZE then
           sbind (tp_put (''pmtu '' @ int_dec (to_int32 (ee_info e)) @ [CHR 0x0A])) (\<lambda>_.
           sbind (smod (\<lambda>s. s\<lparr>t_mtu := to_int32 (ee_info e), t_progress := to_int32 (ee_info e)\<rparr>)) (\<lambda>_. sret None))
         else if ee_errno e = ECONNREFUSED then
           sbind (tp_put (''reached'' @ [CHR 0x0A])) (\<lambda>_.
           sbind (smod (\<lambda>s. s\<lparr>t_hops_to := (if sndhops < 0 then t_ttl s else sndhops), t_hops_from := rethops\<rparr>)) (\<lambda>_.
           sret (Some 0)))
         else if ee_errno e = EPROTO then stop ''!P''
         else if ee_errno e = EHOSTUNREACH then
           (if ttl_exceeded e
            then sbind (sget t_ttl) (\<lambda>ttl.
                 sbind (tp_put ((if rethops \<ge> 0 \<and> (sndhops \<ge> 0 \<and> rethops \<noteq> sndhops \<or> sndhops < 0 \<and> rethops \<noteq> ttl)
                                 then ''asymm '' @ pad_left 2 (int_dec rethops) @ '' '' else []) @ [CHR 0x0A])) (\<lambda>_.
                 sret None))
            else stop ''!H'')
         else if ee_errno e = ENETUNREACH then stop ''!N''
         else if ee_errno e = EACCES then stop ''!A''
         else stop [])"

definition recverr_msg :: "'k tp_sys \<Rightarrow> timespec \<Rightarrow> tp_msg \<Rightarrow> ('k, int option) tpm" where
  "recverr_msg sy ts m =
     sbind (smod (\<lambda>s. s\<lparr>t_progress := t_mtu s\<rparr>)) (\<lambda>_.
     sbind (take_slot (tm_port m)) (\<lambda>slot.
     case quoted_probe m slot of (sent, broken_router) \<Rightarrow>
     case scan_cmsgs (tm_cmsgs m) None (- 1) [] of (e, rethops, other) \<Rightarrow>
     sbind (tp_put other) (\<lambda>_.
     case e of
       None \<Rightarrow> sbind (tp_put (''no info'' @ [CHR 0x0A])) (\<lambda>_. sret (Some 0))
     | Some e \<Rightarrow>
         let sndhops = (case sent of Some (h, _) \<Rightarrow> h | None \<Rightarrow> - 1)
         in sbind (sget t_ttl) (\<lambda>ttl.
            sbind (if ee_origin e = SO_EE_ORIGIN_LOCAL
                   then tp_put (pad_left 2 (int_dec ttl) @ ''?: [LOCALHOST]'' @ replicate 21 (CHR '' '') @ '' '')
                   else if ee_origin e = SO_EE_ORIGIN_ICMP6 \<or> ee_origin e = SO_EE_ORIGIN_ICMP
                   then print_offender sy sndhops (ee_offender e) else sret ()) (\<lambda>_.
            sbind (case sent of
                     Some (_, retts) \<Rightarrow> tp_put (rtt_text (timespecsub ts retts)
                       @ (if broken_router then ''(This broken router returned corrupted payload) '' else []))
                   | None \<Rightarrow> sret ()) (\<lambda>_.
            judge e sndhops (back_hops rethops)))))))"

definition recverr_round :: "'k tp_sys \<Rightarrow> ('k, int option) tpm" where
  "recverr_round sy =
     sbind (tp_call (tk_clock sy)) (\<lambda>ts.
     sbind (tp_call (tk_errqueue sy)) (\<lambda>r.
     case r of
       Inl en \<Rightarrow> if en = EAGAIN then sget (\<lambda>s. Some (t_progress s)) else sret None
     | Inr m \<Rightarrow> recverr_msg sy ts m))"

definition recverr :: "'k tp_sys \<Rightarrow> ('k, int) otpm" where
  "recverr sy = obind (orun (smod (\<lambda>s. s\<lparr>t_progress := - 1\<rparr>))) (\<lambda>_. ountil (orun (recverr_round sy)))"

subsection \<open>Probing\<close>

datatype sent = Sent | Send_Failed | Send_Done

definition set_his :: "int \<Rightarrow> timespec \<Rightarrow> ('k, unit) tpm" where
  "set_his hops ts = sbind (sget (\<lambda>s. int (t_hisptr s))) (\<lambda>p. put_his p (hops, ts))"

definition clear_his :: "('k, unit) tpm" where
  "clear_his = sbind (sget (\<lambda>s. int (t_hisptr s))) (\<lambda>p. sbind (his_at p) (\<lambda>h. put_his p (0, snd h)))"

text \<open>Sending the packet: \<open>sendto\<close> reads the length given from the buffer.\<close>

definition send_packet :: "'k tp_sys \<Rightarrow> ('k, bool) tpm" where
  "send_packet sy =
     sbind (tp_call (tk_clock sy)) (\<lambda>ts.
     sbind (sget id) (\<lambda>s.
     sbind (set_his (t_ttl s) ts) (\<lambda>_.
     sbind (sguard (t_mtu s - t_overhead s \<le> t_pktsize s \<and> PROBEHDR_SIZE \<le> t_pktsize s) Tp_Undefined) (\<lambda>_.
     sbind (tp_call (tk_sendto sy ((t_base_port s + int (t_hisptr s)) mod 65536) (t_ttl s) ts
              ((t_mtu s - t_overhead s) mod 2 ^ 64))) (\<lambda>n. sret (n > 0))))))"

definition send_round :: "'k tp_sys \<Rightarrow> ('k, sent option) otpm" where
  "send_round sy =
     obind (orun (sget t_i)) (\<lambda>i.
     if i \<ge> MAX_PROBES then orun (sret (Some Send_Failed))
     else
       obind (orun (send_packet sy)) (\<lambda>ok.
       if ok then orun (sret (Some Sent))
       else
         obind (recverr sy) (\<lambda>res.
         obind (orun clear_his) (\<lambda>_.
         if res = 0 then orun (sret (Some Send_Done))
         else orun (sbind (smod (\<lambda>s. s\<lparr>t_i := (if res > 0 then 0 else i + 1)\<rparr>)) (\<lambda>_. sret None))))))"

definition await_reply :: "'k tp_sys \<Rightarrow> ('k, int) otpm" where
  "await_reply sy =
     obind (orun (smod (\<lambda>s. s\<lparr>t_kern := tk_select sy (t_kern s)\<rparr>))) (\<lambda>_.
     obind (orun (sget id)) (\<lambda>s.
     obind (orun (sguard (0 \<le> t_mtu s \<and> t_mtu s \<le> t_pktsize s) Tp_Undefined)) (\<lambda>_.
     obind (orun (tp_call (tk_recv sy))) (\<lambda>n.
     if n > 0 then orun (sbind (tp_put (pad_left 2 (int_dec (t_ttl s)) @ ''?: reply received 8)'' @ [CHR 0x0A])) (\<lambda>_. sret 0))
     else recverr sy))))"

definition probe_ttl :: "'k tp_sys \<Rightarrow> ('k, int) otpm" where
  "probe_ttl sy =
     obind (orun (sget id)) (\<lambda>s.
     obind (orun (sguard (0 \<le> t_mtu s \<and> t_mtu s \<le> t_pktsize s) Tp_Undefined)) (\<lambda>_.
     obind (orun (smod (\<lambda>s. s\<lparr>t_i := 0\<rparr>))) (\<lambda>_.
     obind (ountil (send_round sy)) (\<lambda>r.
     if r = Send_Done then orun (sret 0)
     else
       obind (orun (smod (\<lambda>s. s\<lparr>t_hisptr := (t_hisptr s + 1) mod HIS_ARRAY_SIZE\<rparr>))) (\<lambda>_.
       if r = Sent then await_reply sy
       else orun (sbind (tp_put (pad_left 2 (int_dec (t_ttl s)) @ '':  send failed'' @ [CHR 0x0A])) (\<lambda>_. sret 0)))))))"

subsection \<open>The loop over the hop limits\<close>

text \<open>Up to three probes with one hop limit, more when the path MTU changes.\<close>

definition try_round :: "'k tp_sys \<Rightarrow> ('k, int option) otpm" where
  "try_round sy =
     obind (orun (sget t_mtu)) (\<lambda>old_mtu.
     obind (probe_ttl sy) (\<lambda>res.
     orun (sbind (sget id) (\<lambda>s.
       if t_mtu s \<noteq> old_mtu then sbind (smod (\<lambda>s. s\<lparr>t_tries := 0\<rparr>)) (\<lambda>_. sret None)
       else if res \<ge> 0 then sret (Some res)
       else sbind (smod (\<lambda>s. s\<lparr>t_tries := t_tries s + 1\<rparr>)) (\<lambda>_.
            sret (if t_tries s + 1 \<ge> 3 then Some res else None))))))"

definition tp_must :: "'k tp_sys \<Rightarrow> tp_sockopt \<Rightarrow> ('k, unit) tpm" where
  "tp_must sy opt = sbind (tp_call (tk_setsockopt sy opt)) (\<lambda>failed. swhen failed (tp_die 1))"

definition set_ttl :: "'k tp_sys \<Rightarrow> ('k, unit) tpm" where
  "set_ttl sy =
     sbind (sget id) (\<lambda>s.
     sbind (swhen (t_family s = AF_INET6) (tp_must sy (Tp_Unicast_Hops (t_ttl s)))) (\<lambda>_.
     swhen (t_family s = AF_INET \<or> t_family s = AF_INET6 \<and> t_mapped s) (tp_must sy (Tp_Ttl4 (t_ttl s)))))"

text \<open>
  One hop limit, an octet: \<open>Some True\<close> goes to the label \<open>done\<close>, \<open>Some False\<close> is the end of the loop.
\<close>

definition hop_round :: "'k tp_sys \<Rightarrow> ('k, bool option) otpm" where
  "hop_round sy =
     obind (orun (sget id)) (\<lambda>s.
     if t_ttl s > t_max_hops s then orun (sret (Some False))
     else
       obind (orun (set_ttl sy)) (\<lambda>_.
       obind (orun (smod (\<lambda>s. s\<lparr>t_tries := 0\<rparr>))) (\<lambda>_.
       obind (ountil (try_round sy)) (\<lambda>res.
       if res = 0 then orun (sret (Some True))
       else orun (
         sbind (swhen (res < 0) (tp_put (pad_left 2 (int_dec (t_ttl s)) @ '':  no reply'' @ [CHR 0x0A]))) (\<lambda>_.
         sbind (smod (\<lambda>s. s\<lparr>t_ttl := (t_ttl s + 1) mod 256\<rparr>)) (\<lambda>_.
         sret None)))))))"

definition resume_text :: "'k tp_state \<Rightarrow> string" where
  "resume_text s =
     ''     Resume: pmtu '' @ int_dec (t_mtu s) @ '' ''
       @ (if t_hops_to s \<ge> 0 then ''hops '' @ int_dec (t_hops_to s) @ '' '' else [])
       @ (if t_hops_from s \<ge> 0 then ''back '' @ int_dec (t_hops_from s) @ '' '' else []) @ [CHR 0x0A]"

definition trace_hops :: "'k tp_sys \<Rightarrow> ('k, unit) otpm" where
  "trace_hops sy =
     obind (orun (smod (\<lambda>s. s\<lparr>t_ttl := 1\<rparr>))) (\<lambda>_.
     obind (ountil (hop_round sy)) (\<lambda>reached.
     orun (sbind (sget id) (\<lambda>s.
       sbind (swhen (\<not> reached) (tp_put (''     Too many hops: pmtu '' @ int_dec (t_mtu s) @ [CHR 0x0A]))) (\<lambda>_.
       tp_put (resume_text s))))))"

subsection \<open>main\<close>

definition tp_spec :: getopt_spec where
  "tp_spec = \<lparr>gs_short = map (\<lambda>c. (c, False)) ''46nbh?V'' @ map (\<lambda>c. (c, True)) ''lmp'', gs_long = []\<rparr>"

definition tp_number :: "num_error + int \<Rightarrow> ('k, int) tpm" where
  "tp_number r = (case r of Inl _ \<Rightarrow> tp_die 1 | Inr v \<Rightarrow> sret v)"

definition tp_opt_arg :: "char \<Rightarrow> string \<Rightarrow> ('k, unit) tpm" where
  "tp_opt_arg c arg =
     (if c = CHR ''l'' then sbind (tp_number (strtol_or_err (Some arg) 0 INT_MAX)) (\<lambda>v. smod (\<lambda>s. s\<lparr>t_mtu := v\<rparr>))
      else if c = CHR ''m'' then sbind (tp_number (strtol_or_err (Some arg) 0 MAX_HOPS_LIMIT)) (\<lambda>v. smod (\<lambda>s. s\<lparr>t_max_hops := v\<rparr>))
      else if c = CHR ''p'' then sbind (tp_number (strtol_or_err (Some arg) 0 65535)) (\<lambda>v. smod (\<lambda>s. s\<lparr>t_base_port := v\<rparr>))
      else tp_die 255)"

text \<open>The address family of the options so far is passed along.\<close>

definition tp_opt :: "opt_item \<Rightarrow> af \<Rightarrow> ('k, af) tpm" where
  "tp_opt item fam =
     (case item of (code, arg) \<Rightarrow>
      let c = char_of (nat code)
      in case arg of
           Some a \<Rightarrow> sbind (tp_opt_arg c a) (\<lambda>_. sret fam)
         | None \<Rightarrow>
             if c = CHR ''4'' then if fam = AF_INET6 then tp_die 2 else sret AF_INET
             else if c = CHR ''6'' then if fam = AF_INET then tp_die 2 else sret AF_INET6
             else if c = CHR ''n'' then sbind (smod (\<lambda>s. s\<lparr>t_no_resolve := True\<rparr>)) (\<lambda>_. sret fam)
             else if c = CHR ''b'' then sbind (smod (\<lambda>s. s\<lparr>t_show_both := True\<rparr>)) (\<lambda>_. sret fam)
             else if c = CHR ''V'' then tp_die 0
             else tp_die 255)"

fun tp_opts :: "opt_item list \<Rightarrow> af \<Rightarrow> ('k, af) tpm" where
  "tp_opts [] fam = sret fam"
| "tp_opts (it # its) fam = sbind (tp_opt it fam) (tp_opts its)"

definition tp_base_port :: "string \<Rightarrow> ('k, string) tpm" where
  "tp_base_port arg =
     sbind (sget t_base_port) (\<lambda>p.
     if p \<noteq> 0 then sret arg
     else case strchr arg (CHR ''/'') of
            Some p \<Rightarrow> sbind (tp_number (strtol_or_err (Some (tl p)) 0 65535)) (\<lambda>v.
                      sbind (smod (\<lambda>s. s\<lparr>t_base_port := v\<rparr>)) (\<lambda>_. sret (takeWhile (\<lambda>c. c \<noteq> CHR ''/'') arg)))
          | None \<Rightarrow> sbind (smod (\<lambda>s. s\<lparr>t_base_port := DEFAULT_BASEPORT\<rparr>)) (\<lambda>_. sret arg))"

text \<open>
  The first address a socket can be made for; when none of the addresses is of a known family, the
  descriptor still has its initial value zero and the code goes on with a null pointer.
\<close>

fun tp_choose :: "'k tp_sys \<Rightarrow> tp_ai list \<Rightarrow> bool \<Rightarrow> ('k, tp_ai) tpm" where
  "tp_choose sy [] failed = (if failed then tp_die 1 else sthrow Tp_Undefined)"
| "tp_choose sy (ai # ais) failed =
     (if tai_family ai = AF_UNSPEC then tp_choose sy ais failed
      else sbind (tp_call (tk_socket sy ai)) (\<lambda>ok. if ok then sret ai else tp_choose sy ais True))"

definition tp_packet_length :: "int \<Rightarrow> int \<Rightarrow> ('k, unit) tpm" where
  "tp_packet_length overhead default_mtu =
     sbind (smod (\<lambda>s. s\<lparr>t_overhead := overhead, t_mtu := (if t_mtu s = 0 then default_mtu else t_mtu s)\<rparr>)) (\<lambda>_.
     sbind (sget id) (\<lambda>s. swhen (t_mtu s \<le> t_overhead s) (tp_die 1)))"

definition tp_setup6 :: "'k tp_sys \<Rightarrow> ('k, unit) tpm" where
  "tp_setup6 sy =
     sbind (tp_packet_length DEFAULT_OVERHEAD_IPV6 DEFAULT_MTU_IPV6) (\<lambda>_.
     sbind (tp_call (tk_setsockopt sy (Tp_Mtu_Discover6 True))) (\<lambda>failed.
     sbind (swhen failed (tp_must sy (Tp_Mtu_Discover6 False))) (\<lambda>_.
     sbind (tp_must sy Tp_Recverr6) (\<lambda>_.
     sbind (tp_call (tk_setsockopt sy Tp_Hoplimit6)) (\<lambda>failed.
     swhen failed (tp_must sy Tp_Hoplimit6_2292))))))"

definition tp_setup4 :: "'k tp_sys \<Rightarrow> ('k, unit) tpm" where
  "tp_setup4 sy =
     sbind (tp_packet_length DEFAULT_OVERHEAD_IPV4 DEFAULT_MTU_IPV4) (\<lambda>_.
     sbind (tp_must sy Tp_Mtu_Discover4) (\<lambda>_.
     sbind (tp_must sy Tp_Recverr4) (\<lambda>_.
     tp_must sy Tp_Recvttl4)))"

definition tp_setup :: "'k tp_sys \<Rightarrow> tp_ai \<Rightarrow> ('k, unit) tpm" where
  "tp_setup sy ai =
     sbind (smod (\<lambda>s. s\<lparr>t_family := tai_family ai\<rparr>)) (\<lambda>_.
     sbind (swhen (tai_family ai = AF_INET6)
              (sbind (tp_setup6 sy) (\<lambda>_. swhen (tai_v4mapped ai) (smod (\<lambda>s. s\<lparr>t_mapped := True\<rparr>))))) (\<lambda>_.
     sbind (sget t_mapped) (\<lambda>mapped.
     sbind (swhen (tai_family ai = AF_INET \<or> mapped) (tp_setup4 sy)) (\<lambda>_.
     smod (\<lambda>s. s\<lparr>t_pktsize := t_mtu s\<rparr>)))))"

definition tp_prepare :: "'k tp_sys \<Rightarrow> string list \<Rightarrow> ('k, unit) tpm" where
  "tp_prepare sy argv =
     (let argv0 = hd argv;
          fam = (if argv0 \<noteq> [] \<and> last argv0 = CHR ''4'' then AF_INET
                 else if argv0 \<noteq> [] \<and> last argv0 = CHR ''6'' then AF_INET6 else AF_UNSPEC)
      in case getopt_all tp_spec (tl argv) of (items, args) \<Rightarrow>
         sbind (tp_opts items fam) (\<lambda>fam.
         case args of
           [arg] \<Rightarrow>
             sbind (tp_base_port arg) (\<lambda>host.
             sbind (sget t_base_port) (\<lambda>port.
             sbind (tp_call (tk_getaddrinfo sy host port fam)) (\<lambda>r.
             case r of
               Inr (ai # ais) \<Rightarrow> sbind (tp_choose sy (ai # ais) False) (tp_setup sy)
             | _ \<Rightarrow> tp_die 1)))
         | _ \<Rightarrow> tp_die 255))"

definition tracepath_main :: "'k tp_sys \<Rightarrow> string list \<Rightarrow> ('k, unit) otpm" where
  "tracepath_main sy argv =
     obind (orun (tp_prepare sy argv)) (\<lambda>_. obind (trace_hops sy) (\<lambda>_. orun (tp_die 0)))"

definition tp_start :: "'k \<Rightarrow> 'k tp_state" where
  "tp_start k =
     \<lparr>t_his = replicate HIS_ARRAY_SIZE (0, \<lparr>tv_sec = 0, tv_nsec = 0\<rparr>), t_hisptr = 0, t_base_port = 0, t_ttl = 0, t_max_hops = 30,
      t_overhead = 0, t_mtu = 0, t_pktsize = 0, t_hops_to = - 1, t_hops_from = - 1, t_no_resolve = False, t_show_both = False,
      t_mapped = False, t_family = AF_UNSPEC, t_progress = - 1, t_i = 0, t_tries = 0, t_out = [], t_kern = k\<rparr>"

subsection \<open>Memory\<close>

text \<open>The buffers and the index that stay valid; \<open>B\<close> is the size the packet buffer was allocated with.\<close>

definition tp_ok :: "int \<Rightarrow> 'k tp_state \<Rightarrow> bool" where
  "tp_ok B s \<longleftrightarrow> length (t_his s) = HIS_ARRAY_SIZE \<and> t_hisptr s < HIS_ARRAY_SIZE \<and> 0 \<le> t_mtu s \<and> t_mtu s \<le> B
     \<and> t_pktsize s = B \<and> PROBEHDR_SIZE \<le> B \<and> B \<le> INT_MAX \<and> 0 \<le> t_overhead s"

abbreviation defined_stop :: "tp_stop \<Rightarrow> bool" where
  "defined_stop e \<equiv> e \<noteq> Tp_Undefined"

abbreviation tp_safe :: "int \<Rightarrow> ('k, 'a) tpm \<Rightarrow> bool" where
  "tp_safe B \<equiv> sinv defined_stop (tp_ok B)"

lemma tp_call_inv: "(\<And>s k. I s \<Longrightarrow> I (s\<lparr>t_kern := k\<rparr>)) \<Longrightarrow> sinv E I (tp_call f)"
  by (auto simp: sinv_def swp_def tp_call_def split: prod.split)

lemma tp_call_bind:
  assumes "\<And>s k. I s \<Longrightarrow> I (s\<lparr>t_kern := k\<rparr>)" "\<And>a k k'. f k = (a, k') \<Longrightarrow> sinv E I (g a)"
  shows "sinv E I (sbind (tp_call f) g)"
proof (rule sinvI)
  fix s assume "I s"
  obtain a k' where f: "f (t_kern s) = (a, k')" by fastforce
  with assms \<open>I s\<close> have "sinv E I (g a)" "I (s\<lparr>t_kern := k'\<rparr>)" by blast+
  then show "swp (sbind (tp_call f) g) (\<lambda>r s'. case r of Inl e \<Rightarrow> E e | Inr _ \<Rightarrow> I s') s"
    unfolding swp_bind by (simp add: swp_def [of "tp_call f"] tp_call_def f sinv_def)
qed

lemma safe_call [simp]: "tp_safe B (tp_call f)"
  by (rule tp_call_inv) (simp add: tp_ok_def)

lemma safe_put [simp]: "tp_safe B (tp_put t)"
  unfolding tp_put_def by (rule sinv_smod) (simp add: tp_ok_def)

lemma safe_die [simp]: "tp_safe B (tp_die n)"
  by (simp add: tp_die_def)

lemma safe_print_host [simp]: "tp_safe B (print_host a b)"
  unfolding print_host_def by (intro sinv_intros safe_put)

lemma safe_his [simp]:
  "0 \<le> p \<Longrightarrow> p < int HIS_ARRAY_SIZE \<Longrightarrow> tp_safe B (his_at p)"
  "0 \<le> p \<Longrightarrow> p < int HIS_ARRAY_SIZE \<Longrightarrow> tp_safe B (put_his p e)"
  unfolding his_at_def put_his_def by (rule sinvI, simp add: swp_eq tp_ok_def)+

lemma safe_take_slot [simp]: "tp_safe B (take_slot p)"
  unfolding take_slot_def by (rule sinv_bind [OF sinv_sget], rule sinv_if) (auto intro!: sinv_intros)

lemma safe_clear_his [simp]: "tp_safe B clear_his"
proof (rule sinvI, goal_cases)
  case (1 s)
  then show ?case by (simp add: clear_his_def his_at_def put_his_def swp_eq tp_ok_def)
qed

lemma safe_print_offender [simp]: "tp_safe B (print_offender sy h sa)"
  unfolding print_offender_def name_of_def by (intro sinv_intros safe_put safe_call safe_print_host)

lemma to_int32_small: "0 \<le> v \<Longrightarrow> v \<le> INT_MAX \<Longrightarrow> to_int32 v = v"
  by (simp add: to_signed_id)

lemma safe_judge:
  assumes "ee_errno e = EMSGSIZE \<Longrightarrow> 0 \<le> ee_info e \<and> ee_info e \<le> B"
  shows "tp_safe B (judge e sh ret)"
proof -
  have m: "tp_safe B (smod (\<lambda>s. s\<lparr>t_mtu := to_int32 (ee_info e), t_progress := to_int32 (ee_info e)\<rparr>))"
    if "ee_errno e = EMSGSIZE"
    using assms [OF that] by (intro sinv_smod) (auto simp: tp_ok_def to_int32_small)
  have h: "tp_safe B (smod (\<lambda>s. s\<lparr>t_hops_to := (if sh < 0 then t_ttl s else sh), t_hops_from := ret\<rparr>))"
    by (rule sinv_smod) (simp add: tp_ok_def)
  show ?thesis
    unfolding judge_def Let_def by (intro sinv_intros safe_put m h)
qed

lemma scan_cmsgs_error:
  assumes "scan_cmsgs cs e0 h out = (Some e, h', out')"
  shows "e0 = Some e \<or> Tp_Recverr e \<in> set cs"
  using assms by (induction cs e0 h out rule: scan_cmsgs.induct) auto

text \<open>What the kernel says about packets that are too long.\<close>

definition mtu_at_most :: "'k tp_sys \<Rightarrow> int \<Rightarrow> bool" where
  "mtu_at_most sy B \<longleftrightarrow> (\<forall>k m k' e. tk_errqueue sy k = (Inr m, k') \<longrightarrow> Tp_Recverr e \<in> set (tm_cmsgs m)
     \<longrightarrow> ee_errno e = EMSGSIZE \<longrightarrow> 0 \<le> ee_info e \<and> ee_info e \<le> B)"

lemma safe_recverr_msg:
  assumes "\<And>e. Tp_Recverr e \<in> set (tm_cmsgs m) \<Longrightarrow> ee_errno e = EMSGSIZE \<Longrightarrow> 0 \<le> ee_info e \<and> ee_info e \<le> B"
  shows "tp_safe B (recverr_msg sy ts m)"
proof -
  have p: "tp_safe B (smod (\<lambda>s. s\<lparr>t_progress := t_mtu s\<rparr>))" by (rule sinv_smod) (simp add: tp_ok_def)
  have j: "tp_safe B (judge e sh ret)" if "scan_cmsgs (tm_cmsgs m) None (- 1) [] = (e1, rest)" "e1 = Some e" for e sh ret e1 rest
    using that assms scan_cmsgs_error [of "tm_cmsgs m" None "- 1" "[]" e] by (intro safe_judge) (cases rest, auto)
  show ?thesis
    unfolding recverr_msg_def
    by (intro sinv_intros p j safe_take_slot safe_put safe_print_offender) auto
qed

lemma safe_recverr_round:
  assumes "mtu_at_most sy B"
  shows "tp_safe B (recverr_round sy)"
  unfolding recverr_round_def
proof (rule sinv_bind [OF safe_call], rule tp_call_bind)
  fix ts r k k' assume r: "tk_errqueue sy k = (r, k')"
  show "tp_safe B (case r of Inl en \<Rightarrow> if en = EAGAIN then sget (\<lambda>s. Some (t_progress s)) else sret None | Inr m \<Rightarrow> recverr_msg sy ts m)"
    using assms r by (cases r) (auto intro: safe_recverr_msg simp: mtu_at_most_def)
qed (simp add: tp_ok_def)

lemma safe_recverr:
  assumes "mtu_at_most sy B"
  shows "oinv defined_stop (tp_ok B) (recverr sy)"
  unfolding recverr_def
  by (intro oinv_intros oinv_until safe_recverr_round assms sinv_smod) (simp add: tp_ok_def)

lemma safe_send_packet: "tp_safe B (send_packet sy)"
proof (rule sinvI, goal_cases)
  case (1 s)
  then show ?case
    unfolding send_packet_def set_his_def put_his_def
    by (simp add: swp_eq swp_def [of "tp_call f" for f] tp_call_def tp_ok_def split: prod.split)
qed

lemma safe_send_round:
  assumes "mtu_at_most sy B"
  shows "oinv defined_stop (tp_ok B) (send_round sy)"
  unfolding send_round_def
  by (intro oinv_intros sinv_intros safe_send_packet safe_clear_his safe_recverr assms sinv_smod) (simp_all add: tp_ok_def)

lemma safe_await_reply:
  assumes "mtu_at_most sy B"
  shows "oinv defined_stop (tp_ok B) (await_reply sy)"
  unfolding await_reply_def
  by (intro oinv_guard oinv_intros sinv_intros sinv_smod safe_call safe_put safe_recverr assms)
     (simp_all add: tp_ok_def)

lemma safe_probe_ttl:
  assumes "mtu_at_most sy B"
  shows "oinv defined_stop (tp_ok B) (probe_ttl sy)"
  unfolding probe_ttl_def
  by (intro oinv_guard oinv_intros oinv_until sinv_intros sinv_smod safe_put safe_send_round safe_await_reply assms)
     (simp_all add: tp_ok_def)

lemma safe_try_round:
  assumes "mtu_at_most sy B"
  shows "oinv defined_stop (tp_ok B) (try_round sy)"
  unfolding try_round_def
  by (intro oinv_intros sinv_intros sinv_smod safe_probe_ttl assms) (simp_all add: tp_ok_def)

lemma tp_must_inv: "(\<And>s k. I s \<Longrightarrow> I (s\<lparr>t_kern := k\<rparr>)) \<Longrightarrow> (\<And>n. E (Tp_Exit n)) \<Longrightarrow> sinv E I (tp_must sy opt)"
  unfolding tp_must_def tp_die_def by (intro sinv_intros tp_call_inv) auto

lemma safe_must [simp]: "tp_safe B (tp_must sy opt)"
  by (rule tp_must_inv) (simp_all add: tp_ok_def)

lemma safe_hop_round:
  assumes "mtu_at_most sy B"
  shows "oinv defined_stop (tp_ok B) (hop_round sy)"
  unfolding hop_round_def set_ttl_def
  by (intro oinv_intros sinv_intros oinv_until sinv_smod safe_must safe_put safe_try_round assms) (simp_all add: tp_ok_def)

lemma safe_trace_hops:
  assumes "mtu_at_most sy B"
  shows "oinv defined_stop (tp_ok B) (trace_hops sy)"
  unfolding trace_hops_def
  by (intro oinv_intros sinv_intros oinv_until sinv_smod safe_put safe_hop_round assms) (simp_all add: tp_ok_def)

text \<open>The set-up allocates a buffer with room for the header.\<close>

definition tp_fresh :: "'k tp_state \<Rightarrow> bool" where
  "tp_fresh s \<longleftrightarrow> length (t_his s) = HIS_ARRAY_SIZE \<and> t_hisptr s < HIS_ARRAY_SIZE \<and> 0 \<le> t_mtu s \<and> t_mtu s \<le> INT_MAX"

definition tp_sized :: "'k tp_state \<Rightarrow> bool" where
  "tp_sized s \<longleftrightarrow> tp_fresh s \<and> DEFAULT_OVERHEAD_IPV4 \<le> t_overhead s \<and> t_overhead s < t_mtu s"

abbreviation tp_keeps :: "('k tp_state \<Rightarrow> bool) \<Rightarrow> ('k, 'a) tpm \<Rightarrow> bool" where
  "tp_keeps \<equiv> sinv (\<lambda>_. True)"

lemma fresh_number: "sends P (tp_number (strtol_or_err t mn mx)) (\<lambda>v s. P s \<and> mn \<le> v \<and> v \<le> mx)"
  by (auto simp: tp_number_def tp_die_def sends_def serr_defs strtol_or_err_def split: option.splits prod.splits if_splits)

lemma fresh_opt_arg: "sends tp_fresh (tp_opt_arg c a) (\<lambda>_. tp_fresh)"
  unfolding tp_opt_arg_def tp_die_def
  by (auto intro!: sends_bind [OF fresh_number] sends_smod simp: tp_fresh_def)

lemma fresh_opt: "sends tp_fresh (tp_opt it fam) (\<lambda>_. tp_fresh)"
  unfolding tp_opt_def tp_die_def
  by (auto intro!: sends_bind [OF fresh_opt_arg] sends_bind [OF sends_smod [where Q = tp_fresh]] sends_sret simp: tp_fresh_def Let_def split: prod.split option.split)

lemma fresh_opts: "sends tp_fresh (tp_opts its fam) (\<lambda>_. tp_fresh)"
  by (induction its arbitrary: fam) (auto intro!: sends_sret sends_bind [OF fresh_opt])

lemma fresh_base_port: "sends tp_fresh (tp_base_port a) (\<lambda>_. tp_fresh)"
  unfolding tp_base_port_def
  by (rule sends_bind [OF sends_sget [where Q = "\<lambda>_. tp_fresh"]])
     (auto intro!: sends_sret sends_bind [OF fresh_number] sends_bind [OF sends_smod [where Q = tp_fresh]] simp: tp_fresh_def split: option.split)

lemma keeps_tp_call: "tp_keeps tp_fresh (tp_call f)" "tp_keeps tp_sized (tp_call f)"
  by (rule tp_call_inv, simp add: tp_fresh_def tp_sized_def)+

lemma keeps_tp_must: "tp_keeps tp_sized (tp_must sy opt)"
  by (rule tp_must_inv) (simp_all add: tp_fresh_def tp_sized_def)

lemma choose_family: "sends tp_fresh (tp_choose sy ais b) (\<lambda>ai s. tai_family ai \<noteq> AF_UNSPEC \<and> tp_fresh s)"
  by (induction ais arbitrary: b)
     (auto intro!: sends_bind [OF sends_inv [OF keeps_tp_call(1)]] sends_sret simp: tp_die_def)

lemma packet_length_sized:
  assumes "28 \<le> ov" "ov < mtu" "mtu \<le> INT_MAX"
  shows "sends tp_fresh (tp_packet_length ov mtu) (\<lambda>_. tp_sized)"
  using assms unfolding sends_def tp_packet_length_def
  by (auto simp: sbind_Inr_iff serr_defs swhen_def tp_die_def tp_fresh_def tp_sized_def split: if_splits)

lemma setup6_sized: "sends tp_fresh (tp_setup6 sy) (\<lambda>_. tp_sized)"
  unfolding tp_setup6_def
  by (rule sends_bind [OF packet_length_sized], simp_all, rule sends_inv)
     (intro sinv_intros keeps_tp_call keeps_tp_must)

lemma setup4_sized: "sends tp_fresh (tp_setup4 sy) (\<lambda>_. tp_sized)"
  unfolding tp_setup4_def
  by (rule sends_bind [OF packet_length_sized], simp_all, rule sends_inv)
     (intro sinv_intros keeps_tp_call keeps_tp_must)

lemma setup_ok:
  assumes "tai_family ai \<noteq> AF_UNSPEC"
  shows "sends tp_fresh (tp_setup sy ai) (\<lambda>_ s. tp_ok (t_pktsize s) s)"
proof -
  let ?fam = "\<lambda>s. if tai_family ai = AF_INET6 then tp_sized s else tp_fresh s"
  have six: "sends tp_fresh (swhen (tai_family ai = AF_INET6)
      (sbind (tp_setup6 sy) (\<lambda>_. swhen (tai_v4mapped ai) (smod (\<lambda>s. s\<lparr>t_mapped := True\<rparr>))))) (\<lambda>_. ?fam)"
    by (intro sends_swhen sends_bind [OF setup6_sized] sends_smod) (simp_all add: tp_sized_def tp_fresh_def)
  have four: "sends ?fam (swhen (tai_family ai = AF_INET \<or> mapped) (tp_setup4 sy)) (\<lambda>_. tp_sized)" for mapped
    by (rule sends_swhen [OF sends_mono [OF setup4_sized]])
       (use assms in \<open>cases "tai_family ai"; simp add: tp_sized_def\<close>)+
  have start: "sends tp_fresh (smod (\<lambda>s. s\<lparr>t_family := tai_family ai\<rparr>)) (\<lambda>_. tp_fresh)"
    by (rule sends_smod) (simp add: tp_fresh_def)
  show ?thesis
    unfolding tp_setup_def
    by (rule sends_bind [OF start], rule sends_bind [OF six], rule sends_bind [OF sends_sget [where Q = "\<lambda>_. ?fam"]], simp,
        rule sends_bind [OF four], rule sends_smod) (simp add: tp_sized_def tp_fresh_def tp_ok_def)
qed

lemma prepare_ok: "sends tp_fresh (tp_prepare sy argv) (\<lambda>_ s. tp_ok (t_pktsize s) s)"
proof -
  have "sends tp_fresh (case r of Inl x \<Rightarrow> tp_die 1 | Inr [] \<Rightarrow> tp_die 1
      | Inr (ai # ais) \<Rightarrow> sbind (tp_choose sy (ai # ais) False) (tp_setup sy)) (\<lambda>_ s. tp_ok (t_pktsize s) s)" for r
    by (auto split: sum.split list.split simp: tp_die_def
        intro!: sends_bind [OF choose_family] simp del: tp_choose.simps) (auto simp: sends_def dest: sendsD [OF setup_ok])
  moreover have die: "sends P (tp_die n) Q" for P n Q by (simp add: tp_die_def)
  ultimately show ?thesis
    unfolding tp_prepare_def Let_def split_beta
    by (auto intro!: sends_bind [OF fresh_opts] sends_bind [OF fresh_base_port] sends_bind [OF sends_sget [where Q = "\<lambda>_. tp_fresh"]]
        sends_bind [OF sends_inv [OF keeps_tp_call(1)]] die simp del: tp_choose.simps split: list.split)
qed


text \<open>Operations that never fail and leave the size of the buffer alone.\<close>

abbreviation sized_at :: "int \<Rightarrow> ('k, 'a) tpm \<Rightarrow> bool" where
  "sized_at P \<equiv> sinv (\<lambda>_. False) (\<lambda>s. t_pktsize s = P)"

lemma sized_call [simp]: "sized_at P (tp_call f)"
  by (rule tp_call_inv) simp

lemma sized_put [simp]: "sized_at P (tp_put t)"
  unfolding tp_put_def by (rule sinv_smod) simp

lemma sized_slot [simp]: "sized_at P (take_slot p)"
proof (rule sinvI, goal_cases)
  case (1 s)
  then show ?case by (simp add: take_slot_def his_at_def put_his_def swp_eq)
qed

lemma sized_offender [simp]: "sized_at P (print_offender sy h sa)"
  unfolding print_offender_def name_of_def print_host_def by (intro sinv_intros sized_put sized_call)

text \<open>
C31: The hypothesis on the path MTU is needed: a single message that a packet was too long, with an MTU
above the length the run began with, makes \<open>tracepath\<close> take over that length although the buffer has
the old one, and the next probe clears memory behind the buffer.
\<close>
theorem tracepath_mtu_overrun:
  assumes "tm_cmsgs m = [Tp_Recverr e]" "ee_errno e = EMSGSIZE" "t_pktsize s < ee_info e" "ee_info e \<le> INT_MAX" "0 \<le> t_pktsize s"
  shows "\<exists>s'. recverr_msg sy ts m s = (Inr None, s') \<and> t_mtu s' = ee_info e
    \<and> (\<forall>s2. t_mtu s2 = t_mtu s' \<longrightarrow> t_pktsize s2 = t_pktsize s \<longrightarrow> probe_ttl sy s2 = Some (Inl Tp_Undefined, s2))"
proof -
  have smod: "sized_at (t_pktsize s) (smod (\<lambda>s. s\<lparr>t_progress := t_mtu s\<rparr>))" by (rule sinv_smod) simp
  have i: "to_int32 (ee_info e) = ee_info e" using assms(3-5) by (simp add: to_int32_small)
  have "swp (judge e sh ret) (\<lambda>r s'. r = Inr None \<and> t_mtu s' = ee_info e) s1" for s1 :: "'a tp_state" and sh ret
    using assms(2) i by (simp add: judge_def tp_put_def swp_eq)
  then have "swp (recverr_msg sy ts m) (\<lambda>r s'. r = Inr None \<and> t_mtu s' = ee_info e) s"
    unfolding recverr_msg_def
    by (auto simp: assms(1) Let_def split: prod.split intro!: swp_total_bind [where I = "\<lambda>s1. t_pktsize s1 = t_pktsize s"] smod
        sinv_intros)
  then obtain s' where "recverr_msg sy ts m s = (Inr None, s')" "t_mtu s' = ee_info e"
    by (auto simp: swp_def split: prod.splits)
  moreover have "probe_ttl sy s2 = Some (Inl Tp_Undefined, s2)" if "t_mtu s2 = ee_info e" "t_pktsize s2 = t_pktsize s" for s2
    using that assms(3) by (simp add: probe_ttl_def obind_def orun_def serr_defs)
  ultimately show ?thesis by simp
qed

subsection \<open>A network that does not answer\<close>

text \<open>
  Every probe is sent and nothing comes back. The kernel takes every socket option but one: the hop limit
  zero of IPv4, which \<open>ip(7)\<close> excludes and Linux refuses with \<open>EINVAL\<close>.
\<close>

definition silent :: "'k tp_sys \<Rightarrow> bool" where
  "silent sy \<longleftrightarrow> (\<forall>k. fst (tk_errqueue sy k) = Inl EAGAIN \<and> (\<forall>p t ts l. 0 < fst (tk_sendto sy p t ts l k))
     \<and> fst (tk_recv sy k) \<le> 0 \<and> (\<forall>opt. fst (tk_setsockopt sy opt k) \<longleftrightarrow> opt = Tp_Ttl4 0))"

lemma call_returns: "tp_call f s = (Inr (fst (f (t_kern s))), s\<lparr>t_kern := snd (f (t_kern s))\<rparr>)"
  by (simp add: tp_call_def split: prod.split)

definition uses_ip_ttl :: "'k tp_state \<Rightarrow> bool" where
  "uses_ip_ttl s \<longleftrightarrow> t_family s = AF_INET \<or> t_family s = AF_INET6 \<and> t_mapped s"

definition seen :: "'k tp_state \<Rightarrow> int \<times> int \<times> int \<times> string \<times> int \<times> int \<times> int \<times> bool" where
  "seen s = (t_mtu s, t_ttl s, t_max_hops s, t_out s, t_hops_to s, t_hops_from s, t_pktsize s, uses_ip_ttl s)"

lemma silent_recverr:
  assumes "silent sy"
  shows "\<exists>k. recverr sy s = Some (Inr (- 1), s\<lparr>t_progress := - 1, t_kern := k\<rparr>)"
proof -
  have "fst (tk_errqueue sy k) = Inl EAGAIN" for k using assms by (simp add: silent_def)
  then show ?thesis
    by (auto simp: recverr_def recverr_round_def obind_def orun_def ountil.simps sbind_def serr_defs call_returns)
qed

lemma silent_probe:
  assumes "silent sy" "tp_ok B s"
  shows "\<exists>s'. probe_ttl sy s = Some (Inr (- 1), s') \<and> seen s' = seen s \<and> t_tries s' = t_tries s \<and> tp_ok B s'"
proof -
  have send: "0 < fst (tk_sendto sy p t ts l k)" "\<not> 0 < fst (tk_recv sy k)" for p t ts l k
    using assms(1) by (simp_all add: silent_def not_less)
  have "\<exists>s1. ountil (send_round sy) (s\<lparr>t_i := 0\<rparr>) = Some (Inr Sent, s1) \<and> seen s1 = seen s \<and> t_tries s1 = t_tries s \<and> tp_ok B s1"
    using assms(2) send
    by (simp add: ountil.simps send_round_def send_packet_def set_his_def put_his_def obind_def orun_def sbind_def serr_defs call_returns
        tp_ok_def seen_def uses_ip_ttl_def)
  then obtain s1 where s1: "ountil (send_round sy) (s\<lparr>t_i := 0\<rparr>) = Some (Inr Sent, s1)"
    "seen s1 = seen s" "t_tries s1 = t_tries s" "tp_ok B s1" by blast
  define s2 where "s2 = s1\<lparr>t_hisptr := Suc (t_hisptr s1) mod HIS_ARRAY_SIZE\<rparr>"
  define s3 where "s3 = s2\<lparr>t_kern := snd (tk_recv sy (tk_select sy (t_kern s2)))\<rparr>"
  obtain k where k: "recverr sy s3 = Some (Inr (- 1), s3\<lparr>t_progress := - 1, t_kern := k\<rparr>)"
    using silent_recverr [OF assms(1)] by blast
  have aw: "await_reply sy s2 = recverr sy s3"
    using s1(4) send(2) by (simp add: await_reply_def obind_def orun_def serr_defs call_returns s2_def s3_def tp_ok_def)
  have "probe_ttl sy s = Some (Inr (- 1), s3\<lparr>t_progress := - 1, t_kern := k\<rparr>)"
    using assms(2) s1(1) aw k by (simp add: probe_ttl_def obind_def orun_def serr_defs s2_def [symmetric] tp_ok_def)
  moreover have "seen (s3\<lparr>t_progress := - 1, t_kern := k\<rparr>) = seen s \<and> t_tries (s3\<lparr>t_progress := - 1, t_kern := k\<rparr>) = t_tries s
      \<and> tp_ok B (s3\<lparr>t_progress := - 1, t_kern := k\<rparr>)"
    using s1(2-4) by (simp add: s3_def s2_def seen_def uses_ip_ttl_def tp_ok_def)
  ultimately show ?thesis by blast
qed

lemma silent_tries:
  assumes "silent sy" "tp_ok B s" "t_tries s < 3"
  shows "\<exists>s'. ountil (try_round sy) s = Some (Inr (- 1), s') \<and> seen s' = seen s \<and> tp_ok B s'"
  using assms(2,3)
proof (induction "3 - t_tries s" arbitrary: s)
  case (Suc n)
  obtain s1 where s1: "probe_ttl sy s = Some (Inr (- 1), s1)" "seen s1 = seen s" "t_tries s1 = t_tries s" "tp_ok B s1"
    using silent_probe [OF assms(1) Suc.prems(1)] by blast
  let ?s = "s1\<lparr>t_tries := t_tries s1 + 1\<rparr>"
  have m: "t_mtu s1 = t_mtu s" using s1(2) by (simp add: seen_def)
  have step: "try_round sy s = Some (Inr (if t_tries s + 1 \<ge> 3 then Some (- 1) else None), ?s)"
    using s1 m by (simp add: try_round_def obind_def orun_def sbind_def serr_defs)
  have ok: "seen ?s = seen s" "tp_ok B ?s" using s1 by (simp_all add: seen_def uses_ip_ttl_def tp_ok_def)
  show ?case
  proof (cases "t_tries s + 1 \<ge> 3")
    case True
    then show ?thesis using step ok by (simp add: ountil.simps [of "try_round sy" s])
  next
    case False
    then have "\<exists>s'. ountil (try_round sy) ?s = Some (Inr (- 1), s') \<and> seen s' = seen ?s \<and> tp_ok B s'"
      using Suc.hyps(2) s1(3) ok(2) by (intro Suc.hyps(1)) simp_all
    then show ?thesis using False step ok by (simp add: ountil.simps [of "try_round sy" s])
  qed
qed simp

lemma silent_must:
  assumes "silent sy"
  shows "tp_must sy opt s = (if opt = Tp_Ttl4 0 then Inl (Tp_Exit 1) else Inr (),
    s\<lparr>t_kern := snd (tk_setsockopt sy opt (t_kern s))\<rparr>)"
proof -
  have "fst (tk_setsockopt sy opt k) \<longleftrightarrow> opt = Tp_Ttl4 0" for k using assms by (simp add: silent_def)
  then show ?thesis by (simp add: tp_must_def sbind_def serr_defs swhen_def call_returns tp_die_def)
qed

lemma silent_set_ttl:
  assumes "silent sy"
  shows "\<exists>k. set_ttl sy s = (if uses_ip_ttl s \<and> t_ttl s = 0 then Inl (Tp_Exit 1) else Inr (), s\<lparr>t_kern := k\<rparr>)"
proof -
  have w: "\<exists>k. swhen b (tp_must sy opt) x = (if b \<and> opt = Tp_Ttl4 0 then Inl (Tp_Exit 1) else Inr (), x\<lparr>t_kern := k\<rparr>)"
    for b opt and x :: "'a tp_state"
  proof (cases b)
    case False
    then show ?thesis by (intro exI [of _ "t_kern x"]) (simp add: swhen_def serr_defs)
  qed (simp add: swhen_def silent_must [OF assms], blast)
  obtain k1 where k1: "swhen (t_family s = AF_INET6) (tp_must sy (Tp_Unicast_Hops (t_ttl s))) s = (Inr (), s\<lparr>t_kern := k1\<rparr>)"
    using w [of "t_family s = AF_INET6" "Tp_Unicast_Hops (t_ttl s)" s] by auto
  obtain k2 where "swhen (uses_ip_ttl s) (tp_must sy (Tp_Ttl4 (t_ttl s))) (s\<lparr>t_kern := k1\<rparr>)
      = (if uses_ip_ttl s \<and> t_ttl s = 0 then Inl (Tp_Exit 1) else Inr (), (s\<lparr>t_kern := k1\<rparr>)\<lparr>t_kern := k2\<rparr>)"
    using w [of "uses_ip_ttl s" "Tp_Ttl4 (t_ttl s)" "s\<lparr>t_kern := k1\<rparr>"] by auto
  with k1 have "set_ttl sy s = (if uses_ip_ttl s \<and> t_ttl s = 0 then Inl (Tp_Exit 1) else Inr (), s\<lparr>t_kern := k2\<rparr>)"
    by (simp add: set_ttl_def uses_ip_ttl_def [symmetric] sbind_def serr_defs)
  then show ?thesis ..
qed

definition no_reply :: "int \<Rightarrow> string" where
  "no_reply t = pad_left 2 (int_dec t) @ '':  no reply'' @ [CHR 0x0A]"

lemma silent_hop:
  assumes "silent sy" "tp_ok B s" "t_ttl s \<le> t_max_hops s" "\<not> (uses_ip_ttl s \<and> t_ttl s = 0)"
  shows "\<exists>s'. hop_round sy s = Some (Inr None, s') \<and> tp_ok B s'
    \<and> seen s' = (t_mtu s, (t_ttl s + 1) mod 256, t_max_hops s, t_out s @ no_reply (t_ttl s), t_hops_to s, t_hops_from s, t_pktsize s,
        uses_ip_ttl s)"
proof -
  obtain k where k: "set_ttl sy s = (Inr (), s\<lparr>t_kern := k\<rparr>)" using silent_set_ttl [OF assms(1), of s] assms(4) by auto
  let ?s = "s\<lparr>t_kern := k, t_tries := 0\<rparr>"
  obtain s1 where s1: "ountil (try_round sy) ?s = Some (Inr (- 1), s1)" "seen s1 = seen ?s" "tp_ok B s1"
    using silent_tries [OF assms(1), of B ?s] assms(2) by (auto simp: tp_ok_def)
  then show ?thesis
    using assms(3) k
    by (simp add: hop_round_def obind_def orun_def serr_defs sbind_def swhen_def tp_put_def no_reply_def seen_def uses_ip_ttl_def
        tp_ok_def)
qed

text \<open>The hop limits up to the last one, and where the loop goes on from there.\<close>

lemma silent_hops:
  assumes "silent sy" "tp_ok B s" "1 \<le> t_ttl s" "t_ttl s \<le> t_max_hops s" "t_max_hops s \<le> 255"
  shows "\<exists>s'. ountil (hop_round sy) s = ountil (hop_round sy) s' \<and> tp_ok B s'
    \<and> seen s' = (t_mtu s, (t_max_hops s + 1) mod 256, t_max_hops s, t_out s @ concat (map no_reply [t_ttl s..t_max_hops s]),
        t_hops_to s, t_hops_from s, t_pktsize s, uses_ip_ttl s)"
  using assms(2-5)
proof (induction "nat (t_max_hops s - t_ttl s)" arbitrary: s)
  case 0
  then have le: "t_max_hops s = t_ttl s" by simp
  with silent_hop [OF assms(1) 0(2)] 0 obtain s1 where s1: "hop_round sy s = Some (Inr None, s1)" "tp_ok B s1"
    "seen s1 = (t_mtu s, (t_ttl s + 1) mod 256, t_max_hops s, t_out s @ no_reply (t_ttl s), t_hops_to s, t_hops_from s, t_pktsize s,
      uses_ip_ttl s)" by auto
  have "ountil (hop_round sy) s = ountil (hop_round sy) s1" by (simp add: ountil.simps [of "hop_round sy" s] s1(1))
  with s1(2,3) le show ?case by (auto intro!: exI [of _ s1])
next
  case (Suc n)
  then have le: "t_ttl s \<le> t_max_hops s" "t_ttl s < 255" by simp_all
  obtain s1 where s1: "hop_round sy s = Some (Inr None, s1)" "tp_ok B s1"
    "seen s1 = (t_mtu s, (t_ttl s + 1) mod 256, t_max_hops s, t_out s @ no_reply (t_ttl s), t_hops_to s, t_hops_from s, t_pktsize s,
      uses_ip_ttl s)"
    using silent_hop [OF assms(1) Suc.prems(1) le(1)] Suc.prems(2) by auto
  have f: "t_mtu s1 = t_mtu s" "t_ttl s1 = t_ttl s + 1" "t_max_hops s1 = t_max_hops s" "t_out s1 = t_out s @ no_reply (t_ttl s)"
    "t_hops_to s1 = t_hops_to s" "t_hops_from s1 = t_hops_from s" "t_pktsize s1 = t_pktsize s" "uses_ip_ttl s1 = uses_ip_ttl s"
    using s1(3) le Suc.prems by (simp_all add: seen_def)
  have "[t_ttl s..t_max_hops s] = t_ttl s # [t_ttl s + 1..t_max_hops s]" using le by (simp add: upto_rec1)
  with Suc.hyps(1) [of s1] Suc.hyps(2) Suc.prems s1(1,2) f le show ?case
    by (simp add: ountil.simps [of "hop_round sy" s])
qed

lemma silent_wraps:
  assumes "silent sy" "tp_ok B s" "t_max_hops s = 255" "t_ttl s = 0"
  shows "if uses_ip_ttl s then \<exists>k. ountil (hop_round sy) s = Some (Inl (Tp_Exit 1), s\<lparr>t_kern := k\<rparr>)
    else ountil (hop_round sy) s = None"
proof (cases "uses_ip_ttl s")
  case True
  with silent_set_ttl [OF assms(1), of s] assms(3,4) obtain k
    where "hop_round sy s = Some (Inl (Tp_Exit 1), s\<lparr>t_kern := k\<rparr>)" by (auto simp: hop_round_def obind_def orun_def serr_defs)
  with True show ?thesis by (auto simp: ountil.simps [of "hop_round sy" s])
next
  case False
  have "ountil (hop_round sy) s = None"
  proof (rule ountil_diverges [where I = "\<lambda>x. tp_ok B x \<and> t_max_hops x = 255 \<and> t_ttl x \<le> 255 \<and> \<not> uses_ip_ttl x"], goal_cases)
    case (1 x)
    with silent_hop [OF assms(1), of B x]
    obtain s' where "hop_round sy x = Some (Inr None, s')" "tp_ok B s'" "\<not> uses_ip_ttl s'" "t_max_hops s' = 255"
      "t_ttl s' = (t_ttl x + 1) mod 256"
      by (auto simp: seen_def)
    moreover have "(t_ttl x + 1) mod 256 \<le> 255" using pos_mod_bound [of 256 "t_ttl x + 1"] by linarith
    ultimately show ?case by auto
  qed (use assms False in simp)
  with False show ?thesis by simp
qed

lemma silent_trace:
  assumes "tp_ok (t_pktsize s) s" "silent sy" "0 \<le> t_max_hops s" "t_max_hops s \<le> 255"
  shows "if t_max_hops s < 255
    then \<exists>s'. trace_hops sy s = Some (Inr (), s')
      \<and> t_out s' = t_out s @ concat (map no_reply [1..t_max_hops s])
          @ ''     Too many hops: pmtu '' @ int_dec (t_mtu s) @ [CHR 0x0A] @ resume_text s
    else if uses_ip_ttl s
    then \<exists>s'. trace_hops sy s = Some (Inl (Tp_Exit 1), s') \<and> t_out s' = t_out s @ concat (map no_reply [1..255])
    else trace_hops sy s = None"
proof -
  let ?s = "s\<lparr>t_ttl := 1\<rparr>"
  have "tp_ok (t_pktsize s) ?s" "uses_ip_ttl ?s = uses_ip_ttl s" using assms(1) by (simp_all add: tp_ok_def uses_ip_ttl_def)
  then obtain s1 where s1: "ountil (hop_round sy) ?s = ountil (hop_round sy) s1" "tp_ok (t_pktsize s) s1"
    "seen s1 = (t_mtu s, (t_max_hops s + 1) mod 256, t_max_hops s, t_out s @ concat (map no_reply [1..t_max_hops s]),
        t_hops_to s, t_hops_from s, t_pktsize s, uses_ip_ttl s)"
    using silent_hops [OF assms(2), of "t_pktsize s" ?s] assms(3,4)
    by (cases "t_max_hops s = 0") (auto simp: seen_def)
  have f: "t_mtu s1 = t_mtu s" "t_ttl s1 = (t_max_hops s + 1) mod 256" "t_max_hops s1 = t_max_hops s"
    "t_out s1 = t_out s @ concat (map no_reply [1..t_max_hops s])"
    "t_hops_to s1 = t_hops_to s" "t_hops_from s1 = t_hops_from s" "uses_ip_ttl s1 = uses_ip_ttl s"
    using s1(3) by (simp_all add: seen_def)
  show ?thesis
  proof (cases "t_max_hops s < 255")
    case True
    then have "hop_round sy s1 = Some (Inr (Some False), s1)"
      using f assms(3) by (simp add: hop_round_def obind_def orun_def serr_defs)
    then show ?thesis
      using True f s1(1) by (simp add: ountil.simps [of "hop_round sy" s1] trace_hops_def obind_def orun_def serr_defs sbind_def
        swhen_def tp_put_def resume_text_def)
  next
    case False
    then have "t_max_hops s = 255" using assms(4) by simp
    with silent_wraps [OF assms(2) s1(2)] f s1(1) False show ?thesis
      by (auto simp: trace_hops_def obind_def orun_def serr_defs split: if_splits)
  qed
qed

text \<open>
C32: When every probe is sent and nothing answers, \<open>tracepath\<close> with a limit of up to 254 hops ends after the
hop limits in order, three probes each, with one line for every hop and the message that there are too
many hops. With the limit 255, which the command line accepts, it never says so: the hop limit is an octet
and wraps to zero. Where hop limits are set with \<open>IP_TTL\<close>, which the kernel refuses for zero, the run ends
with status 1 after the line of hop 255, without the result; over plain IPv6, where the kernel takes
every hop limit, it never ends.
\<close>
theorem tracepath_silent:
  assumes "tp_prepare sy argv (tp_start k) = (Inr (), s)" "silent sy" "0 \<le> t_max_hops s" "t_max_hops s \<le> 255"
  shows "if t_max_hops s < 255
    then \<exists>s'. trace_hops sy s = Some (Inr (), s')
      \<and> t_out s' = t_out s @ concat (map no_reply [1..t_max_hops s])
          @ ''     Too many hops: pmtu '' @ int_dec (t_mtu s) @ [CHR 0x0A] @ resume_text s
    else if t_family s = AF_INET \<or> t_family s = AF_INET6 \<and> t_mapped s
    then \<exists>s'. trace_hops sy s = Some (Inl (Tp_Exit 1), s') \<and> t_out s' = t_out s @ concat (map no_reply [1..255])
    else trace_hops sy s = None"
proof -
  have "tp_fresh (tp_start k)" by (simp add: tp_fresh_def tp_start_def)
  from sendsD [OF prepare_ok this assms(1)] have ok: "tp_ok (t_pktsize s) s" .
  from silent_trace [OF this assms(2-4)] show ?thesis by (simp only: uses_ip_ttl_def)
qed

subsection \<open>Runs\<close>

text \<open>A system that answers nothing.\<close>

definition tp_demo :: "unit tp_sys" where
  "tp_demo = \<lparr>tk_clock = Pair \<lparr>tv_sec = 7, tv_nsec = 0\<rparr>, tk_errqueue = Pair (Inl EAGAIN), tk_sendto = (\<lambda>_ _ _ _. Pair 1),
     tk_select = id, tk_recv = Pair 0, tk_setsockopt = (\<lambda>opt. Pair (opt = Tp_Ttl4 0)), tk_getnameinfo = (\<lambda>_ _. Pair (Some ''h'')),
     tk_getaddrinfo = (\<lambda>_ _ _. Pair (Inr [\<lparr>tai_family = AF_INET, tai_v4mapped = False\<rparr>])), tk_socket = (\<lambda>_. Pair True)\<rparr>"

definition tp_demo_state :: "string \<Rightarrow> unit tp_state" where
  "tp_demo_state hops = snd (tp_prepare tp_demo [''tracepath'', ''-m'', hops, ''host''] (tp_start ()))"

lemma tp_demo_silent: "silent tp_demo"
  by (simp add: silent_def tp_demo_def)

lemma tp_demo_prepare:
  "tp_prepare tp_demo [''tracepath'', ''-m'', ''7'', ''host''] (tp_start ()) = (Inr (), tp_demo_state ''7'')"
  "tp_prepare tp_demo [''tracepath'', ''-m'', ''255'', ''host''] (tp_start ()) = (Inr (), tp_demo_state ''255'')"
  "t_max_hops (tp_demo_state ''7'') = 7" "t_max_hops (tp_demo_state ''255'') = 255" "t_pktsize (tp_demo_state ''7'') = 65535"
  "t_family (tp_demo_state ''255'') = AF_INET"
  by code_simp+

theorem tracepath_silent_witness:
  "\<exists>s'. trace_hops tp_demo (tp_demo_state ''255'') = Some (Inl (Tp_Exit 1), s') \<and> t_out s' = t_out (tp_demo_state ''255'') @ concat (map no_reply [1..255])"
  using tracepath_silent [OF tp_demo_prepare(2) tp_demo_silent] tp_demo_prepare(4,6) by simp


definition tp_too_long :: "int \<Rightarrow> tp_msg" where
  "tp_too_long n = \<lparr>tm_size = 0, tm_ttl = 0, tm_ts = \<lparr>tv_sec = 0, tv_nsec = 0\<rparr>, tm_port = 44444,
     tm_cmsgs = [Tp_Recverr \<lparr>ee_origin = SO_EE_ORIGIN_ICMP, ee_errno = EMSGSIZE, ee_type = 3, ee_code = 4, ee_info = n, ee_offender = []\<rparr>]\<rparr>"

theorem tracepath_mtu_overrun_witness:
  "\<exists>s'. recverr_msg tp_demo \<lparr>tv_sec = 7, tv_nsec = 0\<rparr> (tp_too_long 66000) (tp_demo_state ''7'') = (Inr None, s') \<and> t_mtu s' = 66000"
  using tracepath_mtu_overrun [of "tp_too_long 66000" _ "tp_demo_state ''7''" tp_demo "\<lparr>tv_sec = 7, tv_nsec = 0\<rparr>"] tp_demo_prepare(5)
  by (auto simp: tp_too_long_def)

end
