(* ===== verification/Arping.thy ===== *)
theory Arping
  imports Ping_Main C_Safety
begin

text \<open>
  \<open>arping.c\<close>: ARP requests and replies, the choice of the device, the event loop and the command line.
  The kernel is a state of any type with one function per system call; messages of the routing socket
  are lists of attributes. Messages on standard error are left out, their exit status is kept.
\<close>

subsection \<open>State and system\<close>

abbreviation ARPHRD_ETHER :: int where "ARPHRD_ETHER \<equiv> 1"
abbreviation ARPHRD_AX25 :: int where "ARPHRD_AX25 \<equiv> 3"
abbreviation ARPHRD_NETROM :: int where "ARPHRD_NETROM \<equiv> 0"
abbreviation ARPHRD_FDDI :: int where "ARPHRD_FDDI \<equiv> 774"
abbreviation AX25_P_IP :: int where "AX25_P_IP \<equiv> 0xcc"
abbreviation ETH_P_IP :: int where "ETH_P_IP \<equiv> 0x800"
abbreviation ARPOP_REQUEST :: int where "ARPOP_REQUEST \<equiv> 1"
abbreviation ARPOP_REPLY :: int where "ARPOP_REPLY \<equiv> 2"
abbreviation FINAL_PACKS :: int where "FINAL_PACKS \<equiv> 2"
abbreviation ENETDOWN :: int where "ENETDOWN \<equiv> 100"
abbreviation ARP_BUF :: nat where "ARP_BUF \<equiv> 256"

datatype arp_stop = Arp_Exit int | Arp_Undefined

datatype pkttype = PACKET_HOST | PACKET_BROADCAST | PACKET_MULTICAST | PACKET_OTHER

text \<open>A link-layer address; \<open>ll_addr\<close> are its \<open>sll_halen\<close> octets.\<close>

record sockaddr_ll =
  sll_hatype :: int
  ll_addr :: bytes

record arp_from =
  fr_pkttype :: pkttype
  fr_hatype :: int

record ifaddr =
  ifa_name :: string
  ifa_packet :: bool
  ifa_up :: bool
  ifa_noarp :: bool
  ifa_halen :: nat
  ifa_broadaddr :: "bytes option"

text \<open>A routing message: its sequence number is the one asked for or not; an attribute names the interface.\<close>

datatype nl_msg = Nl_Error | Nl_Done | Nl_Other_Seq | Nl_Newroute "int list" | Nl_Other

record arp_events =
  ev_signal :: bool
  ev_timer :: bool
  ev_timeout :: bool
  ev_socket :: bool

record 'k arp_sys =
  ak_clock :: "'k \<Rightarrow> timespec \<times> 'k"
  ak_sendto :: "bytes \<Rightarrow> sockaddr_ll \<Rightarrow> 'k \<Rightarrow> int \<times> 'k"
  ak_poll :: "'k \<Rightarrow> (int + arp_events) \<times> 'k"
  ak_read_signal :: "'k \<Rightarrow> bool option \<times> 'k"
  ak_read_timer :: "'k \<Rightarrow> int option \<times> 'k"
  ak_recvfrom :: "'k \<Rightarrow> (int + bytes \<times> nat \<times> arp_from) \<times> 'k"
  ak_timers :: "int \<Rightarrow> int \<Rightarrow> 'k \<Rightarrow> bool \<times> 'k"
  ak_socket :: "'k \<Rightarrow> bool \<times> 'k"
  ak_aton :: "string \<Rightarrow> 32 word option"
  ak_getaddrinfo :: "string \<Rightarrow> 'k \<Rightarrow> (32 word \<times> af) option \<times> 'k"
  ak_route :: "32 word \<Rightarrow> 'k \<Rightarrow> nl_msg list option \<times> 'k"
  ak_indextoname :: "int \<Rightarrow> 'k \<Rightarrow> string option \<times> 'k"
  ak_nametoindex :: "string \<Rightarrow> 'k \<Rightarrow> int \<times> 'k"
  ak_getifaddrs :: "'k \<Rightarrow> ifaddr list option \<times> 'k"
  ak_probe_socket :: "'k \<Rightarrow> bool \<times> 'k"
  ak_probe_bind :: "32 word \<Rightarrow> 'k \<Rightarrow> bool \<times> 'k"
  ak_probe_connect :: "32 word \<Rightarrow> 'k \<Rightarrow> bool \<times> 'k"
  ak_probe_getsockname :: "'k \<Rightarrow> 32 word option \<times> 'k"
  ak_bind :: "int \<Rightarrow> 'k \<Rightarrow> bool \<times> 'k"
  ak_getsockname :: "'k \<Rightarrow> sockaddr_ll option \<times> 'k"

record 'k arp_state =
  a_name :: "string option"
  a_ifindex :: int
  a_ifa :: "ifaddr option"
  a_source :: "string option"
  a_gsrc :: "32 word"
  a_gdst :: "32 word"
  a_gdst_family :: af
  a_count :: int
  a_timeout :: int
  a_interval :: int
  a_me :: sockaddr_ll
  a_he :: sockaddr_ll
  a_last :: timespec
  a_sent :: int
  a_brd_sent :: int
  a_received :: int
  a_brd_recv :: int
  a_req_recv :: int
  a_advert :: bool
  a_broadcast_only :: bool
  a_dad :: bool
  a_quiet :: bool
  a_quit_on_reply :: bool
  a_unicasting :: bool
  a_unsolicited :: bool
  a_total_expires :: int
  a_exit_loop :: bool
  a_out :: string
  a_kern :: 'k

type_synonym ('k, 'a) arm = "('k arp_state, arp_stop, 'a) serr"
type_synonym ('k, 'a) oarm = "('k arp_state, arp_stop, 'a) oserr"

definition arp_call :: "('k \<Rightarrow> 'a \<times> 'k) \<Rightarrow> ('k, 'a) arm" where
  "arp_call f s = (case f (a_kern s) of (a, k) \<Rightarrow> (Inr a, s\<lparr>a_kern := k\<rparr>))"

definition arp_put :: "string \<Rightarrow> ('k, unit) arm" where
  "arp_put t = smod (\<lambda>s. s\<lparr>a_out := a_out s @ t\<rparr>)"

definition arp_die :: "int \<Rightarrow> ('k, 'a) arm" where
  "arp_die n = sthrow (Arp_Exit n)"

subsection \<open>Packets\<close>

text \<open>A packet of ARP: the fixed header and the four addresses.\<close>

definition net_short :: "int \<Rightarrow> bytes" where
  "net_short v = be16 (word_of_int v)"

definition arp_proto :: "int \<Rightarrow> int" where
  "arp_proto hrd = (if hrd = ARPHRD_AX25 \<or> hrd = ARPHRD_NETROM then AX25_P_IP else ETH_P_IP)"

definition arp_octets :: "int \<Rightarrow> int \<Rightarrow> bytes \<Rightarrow> 32 word \<Rightarrow> bytes \<Rightarrow> 32 word \<Rightarrow> bytes" where
  "arp_octets hrd op1 src_hw src_ip dst_hw dst_ip =
     net_short hrd @ net_short (arp_proto hrd) @ [of_nat (length src_hw), 4] @ net_short op1
       @ src_hw @ be32 src_ip @ dst_hw @ be32 dst_ip"

definition arp_hrd :: "int \<Rightarrow> int" where
  "arp_hrd hatype = (if hatype mod 65536 = ARPHRD_FDDI then ARPHRD_ETHER else hatype)"

definition arp_packet :: "'k arp_state \<Rightarrow> bytes" where
  "arp_packet s =
     arp_octets (arp_hrd (sll_hatype (a_me s))) (if a_advert s then ARPOP_REPLY else ARPOP_REQUEST) (ll_addr (a_me s)) (a_gsrc s)
       (if a_advert s then ll_addr (a_me s) else take (length (ll_addr (a_me s))) (ll_addr (a_he s))) (a_gdst s)"

definition send_pack :: "'k arp_sys \<Rightarrow> ('k, unit) arm" where
  "send_pack sy =
     sbind (sget arp_packet) (\<lambda>p.
     sbind (sguard (length p \<le> ARP_BUF) Arp_Undefined) (\<lambda>_.
     sbind (arp_call (ak_clock sy)) (\<lambda>now.
     sbind (sget a_he) (\<lambda>he.
     sbind (arp_call (ak_sendto sy p he)) (\<lambda>err.
     smod (\<lambda>s. if err = int (length p)
                then s\<lparr>a_last := now, a_sent := a_sent s + 1, a_brd_sent := a_brd_sent s + (if a_unicasting s then 0 else 1)\<rparr>
                else s))))))"

definition upper_hex :: "nat \<Rightarrow> char" where
  "upper_hex d = (if d < 10 then digit_char d else char_of (55 + d))"

definition print_hex :: "bytes \<Rightarrow> string" where
  "print_hex bs = concat (map (\<lambda>(i, b). [upper_hex (unat b div 16), upper_hex (unat b mod 16)]
     @ (if i \<noteq> length bs - 1 then '':'' else [])) (enumerate 0 bs))"

text \<open>The checks of \<open>recv_pack\<close> on the header, and the fields behind it.\<close>

definition hdr_short :: "bytes \<Rightarrow> nat \<Rightarrow> int" where
  "hdr_short buf i = uint (be16_at buf i)"

definition src_hw :: "bytes \<Rightarrow> nat \<Rightarrow> bytes" where "src_hw buf hln = take hln (drop 8 buf)"
definition src_ip :: "bytes \<Rightarrow> nat \<Rightarrow> 32 word" where "src_ip buf hln = be32_at buf (8 + hln)"
definition dst_hw :: "bytes \<Rightarrow> nat \<Rightarrow> bytes" where "dst_hw buf hln = take hln (drop (8 + hln + 4) buf)"
definition dst_ip :: "bytes \<Rightarrow> nat \<Rightarrow> 32 word" where "dst_ip buf hln = be32_at buf (8 + hln + 4 + hln)"

definition header_ok :: "sockaddr_ll \<Rightarrow> bytes \<Rightarrow> nat \<Rightarrow> arp_from \<Rightarrow> bool" where
  "header_ok me buf len from \<longleftrightarrow>
     fr_pkttype from \<noteq> PACKET_OTHER
     \<and> (hdr_short buf 6 = ARPOP_REQUEST \<or> hdr_short buf 6 = ARPOP_REPLY)
     \<and> (hdr_short buf 0 = fr_hatype from mod 65536
        \<or> fr_hatype from = ARPHRD_FDDI \<and> hdr_short buf 0 = ARPHRD_ETHER)
     \<and> hdr_short buf 2 = arp_proto (hdr_short buf 0)
     \<and> buf ! 5 = 4 \<and> unat (buf ! 4) = length (ll_addr me)
     \<and> 8 + 2 * (4 + length (ll_addr me)) \<le> len"

definition for_us :: "'k arp_state \<Rightarrow> bytes \<Rightarrow> bool" where
  "for_us s buf \<longleftrightarrow>
     (let hln = length (ll_addr (a_me s))
      in src_ip buf hln = a_gdst s
         \<and> (if a_dad s then src_hw buf hln \<noteq> ll_addr (a_me s) \<and> (a_gsrc s \<noteq> 0 \<longrightarrow> a_gsrc s = dst_ip buf hln)
            else a_gsrc s = dst_ip buf hln \<and> dst_hw buf hln = ll_addr (a_me s)))"

text \<open>The time since the last request as the code prints it, in milliseconds and microseconds.\<close>

definition shown_time :: "timespec \<Rightarrow> timespec \<Rightarrow> int \<times> int" where
  "shown_time ts last1 =
     (let usecs = (tv_sec ts - tv_sec last1) * 1000000 + cdiv (tv_nsec ts - tv_nsec last1 + 500) 1000;
          msecs = cdiv (usecs + 500) 1000
      in (msecs, usecs - (msecs * 1000 - 500)))"

definition report_reply :: "timespec \<Rightarrow> bytes \<Rightarrow> arp_from \<Rightarrow> 'k arp_state \<Rightarrow> string" where
  "report_reply ts buf from s =
     (let hln = length (ll_addr (a_me s)); other = (dst_ip buf hln \<noteq> a_gsrc s)
      in (if fr_pkttype from = PACKET_HOST then ''Unicast '' else ''Broadcast '')
         @ (if hdr_short buf 6 = ARPOP_REPLY then ''reply'' else ''request'') @ '' from ''
         @ inet_ntoa (src_ip buf hln) @ '' ['' @ print_hex (src_hw buf hln) @ ''] ''
         @ (if other then ''for '' @ inet_ntoa (dst_ip buf hln) @ '' '' else [])
         @ (if dst_hw buf hln \<noteq> ll_addr (a_me s)
            then (if other then [] else ''for '') @ ''['' @ print_hex (dst_hw buf hln) @ '']'' else [])
         @ (if tv_sec (a_last s) \<noteq> 0
            then case shown_time ts (a_last s) of
                   (msecs, usecs) \<Rightarrow> '' '' @ int_dec msecs @ ''.'' @ pad_zero 3 (int_dec usecs) @ ''ms'' @ nl
            else '' UNSOLICITED?'' @ nl))"

text \<open>After a packet was accepted.\<close>

definition count_arp :: "bytes \<Rightarrow> arp_from \<Rightarrow> ('k, int) arm" where
  "count_arp buf from =
     sbind (smod (\<lambda>s. s\<lparr>a_received := a_received s + 1\<rparr>)) (\<lambda>_.
     sbind (sget id) (\<lambda>s.
     if a_timeout s \<noteq> 0 \<and> a_received s = a_count s then sret FINAL_PACKS
     else
       sbind (smod (\<lambda>s. s\<lparr>a_brd_recv := a_brd_recv s + (if fr_pkttype from \<noteq> PACKET_HOST then 1 else 0),
                a_req_recv := a_req_recv s + (if hdr_short buf 6 = ARPOP_REQUEST then 1 else 0)\<rparr>)) (\<lambda>_.
       if a_quit_on_reply s \<or> a_count s = 0 \<and> a_received s = a_sent s then sret FINAL_PACKS
       else
         sbind (smod (\<lambda>s. if a_broadcast_only s then s
                          else s\<lparr>a_he := (a_he s)\<lparr>ll_addr := src_hw buf (length (ll_addr (a_me s)))
                                    @ drop (length (ll_addr (a_me s))) (ll_addr (a_he s))\<rparr>, a_unicasting := True\<rparr>)) (\<lambda>_.
         sret 1))))"

definition recv_pack :: "'k arp_sys \<Rightarrow> bytes \<Rightarrow> nat \<Rightarrow> arp_from \<Rightarrow> ('k, int) arm" where
  "recv_pack sy buf len from =
     sbind (arp_call (ak_clock sy)) (\<lambda>ts.
     sbind (sget id) (\<lambda>s.
     if \<not> header_ok (a_me s) buf len from then sret 0
     else if \<not> for_us s buf then sret 0
     else
       sbind (swhen (\<not> a_quiet s) (arp_put (report_reply ts buf from s))) (\<lambda>_.
       count_arp buf from)))"

definition arp_finish_text :: "'k arp_state \<Rightarrow> string" where
  "arp_finish_text s =
     ''Sent '' @ int_dec (a_sent s) @ '' probes ('' @ int_dec (a_brd_sent s) @ '' broadcast(s))'' @ nl
       @ ''Received '' @ int_dec (a_received s) @ '' response(s)''
       @ (if a_brd_recv s \<noteq> 0 \<or> a_req_recv s \<noteq> 0
          then '' ('' @ (if a_req_recv s \<noteq> 0 then int_dec (a_req_recv s) @ '' request(s)'' else [])
               @ (if a_brd_recv s \<noteq> 0 then (if a_req_recv s \<noteq> 0 then '', '' else []) @ int_dec (a_brd_recv s) @ '' broadcast(s)'' else [])
               @ '')''
          else []) @ nl"

definition arp_exit_code :: "'k arp_state \<Rightarrow> int" where
  "arp_exit_code s =
     (if a_dad s then if a_received s \<noteq> 0 then 1 else 0
      else if a_unsolicited s then 0
      else if a_timeout s \<noteq> 0 \<and> a_count s > 0 \<and> \<not> a_quit_on_reply s then if a_count s \<le> a_received s then 0 else 1
      else if a_received s \<noteq> 0 then 0 else 1)"

definition arp_finish :: "('k, int) arm" where
  "arp_finish =
     sbind (sget id) (\<lambda>s.
     sbind (swhen (\<not> a_quiet s) (arp_put (arp_finish_text s))) (\<lambda>_.
     sret (arp_exit_code s)))"

subsection \<open>The event loop\<close>

definition on_signal :: "'k arp_sys \<Rightarrow> ('k, unit) arm" where
  "on_signal sy =
     sbind (arp_call (ak_read_signal sy)) (\<lambda>r.
     smod (\<lambda>s. if r = Some True then s\<lparr>a_exit_loop := True\<rparr> else s))"

text \<open>The expirations of the timer are counted in 64 bits.\<close>

definition on_timer :: "'k arp_sys \<Rightarrow> ('k, unit) arm" where
  "on_timer sy =
     sbind (arp_call (ak_read_timer sy)) (\<lambda>r.
     case r of
       None \<Rightarrow> sret ()
     | Some exp1 \<Rightarrow>
         sbind (smod (\<lambda>s. s\<lparr>a_total_expires := (a_total_expires s + exp1) mod 2 ^ 64\<rparr>)) (\<lambda>_.
         sbind (sget id) (\<lambda>s.
         if 0 < a_count s \<and> a_count s < a_total_expires s then smod (\<lambda>s. s\<lparr>a_exit_loop := True\<rparr>)
         else send_pack sy)))"

text \<open>\<open>Some n\<close> leaves the event loop with status \<open>n\<close>.\<close>

definition on_socket :: "'k arp_sys \<Rightarrow> ('k, int option) arm" where
  "on_socket sy =
     sbind (arp_call (ak_recvfrom sy)) (\<lambda>r.
     case r of
       Inl en \<Rightarrow> sret (if en = ENETDOWN then Some 2 else None)
     | Inr (packet, n, from) \<Rightarrow>
         sbind (recv_pack sy packet n from) (\<lambda>v.
         sbind (smod (\<lambda>s. if v = FINAL_PACKS then s\<lparr>a_exit_loop := True\<rparr> else s)) (\<lambda>_. sret None)))"

definition handle_events :: "'k arp_sys \<Rightarrow> arp_events \<Rightarrow> ('k, int option) arm" where
  "handle_events sy ev =
     sbind (swhen (ev_signal ev) (on_signal sy)) (\<lambda>_.
     sbind (swhen (ev_timer ev) (on_timer sy)) (\<lambda>_.
     sbind (swhen (ev_timeout ev) (smod (\<lambda>s. s\<lparr>a_exit_loop := True\<rparr>))) (\<lambda>_.
     if ev_socket ev then on_socket sy else sret None)))"

definition event_round :: "'k arp_sys \<Rightarrow> ('k, int option) arm" where
  "event_round sy =
     sbind (sget id) (\<lambda>s.
     if a_exit_loop s then sbind arp_finish (\<lambda>v. sret (Some v))
     else if a_sent s = a_count s \<and> a_unsolicited s then sbind (smod (\<lambda>s. s\<lparr>a_exit_loop := True\<rparr>)) (\<lambda>_. sret None)
     else
       sbind (arp_call (ak_poll sy)) (\<lambda>r.
       case r of
         Inl en \<Rightarrow> sbind (smod (\<lambda>s. if en = EAGAIN then s else s\<lparr>a_exit_loop := True\<rparr>)) (\<lambda>_. sret None)
       | Inr ev \<Rightarrow> handle_events sy ev))"

definition event_loop :: "'k arp_sys \<Rightarrow> ('k, int) oarm" where
  "event_loop sy =
     obind (orun (sget id)) (\<lambda>s.
     obind (orun (arp_call (ak_timers sy (a_interval s) (a_timeout s)))) (\<lambda>ok.
     if \<not> ok then orun (sret 1)
     else
       obind (orun (smod (\<lambda>s. s\<lparr>a_total_expires := 1, a_exit_loop := False\<rparr>))) (\<lambda>_.
       obind (orun (send_pack sy)) (\<lambda>_.
       ountil (orun (event_round sy))))))"

subsection \<open>The device\<close>

fun route_attrs :: "'k arp_sys \<Rightarrow> int list \<Rightarrow> ('k, bool) arm" where
  "route_attrs sy [] = sret False"
| "route_attrs sy (oif # r) =
     sbind (smod (\<lambda>s. s\<lparr>a_ifindex := oif\<rparr>)) (\<lambda>_.
     sbind (arp_call (ak_indextoname sy oif)) (\<lambda>n.
     case n of
       None \<Rightarrow> sret True
     | Some t \<Rightarrow> sbind (smod (\<lambda>s. s\<lparr>a_name := Some t\<rparr>)) (\<lambda>_. route_attrs sy r)))"

text \<open>Whether the query failed, after the messages of the answer.\<close>

fun route_msgs :: "'k arp_sys \<Rightarrow> nl_msg list \<Rightarrow> bool \<Rightarrow> ('k, bool) arm" where
  "route_msgs sy [] ret = sret ret"
| "route_msgs sy (m # ms) ret =
     (case m of
        Nl_Other_Seq \<Rightarrow> route_msgs sy ms ret
      | Nl_Error \<Rightarrow> sret ret
      | Nl_Done \<Rightarrow> route_msgs sy ms False
      | Nl_Other \<Rightarrow> route_msgs sy ms True
      | Nl_Newroute as \<Rightarrow> sbind (route_attrs sy as) (\<lambda>ret. route_msgs sy ms ret))"

definition guess_device :: "'k arp_sys \<Rightarrow> ('k, unit) arm" where
  "guess_device sy =
     sbind (sget id) (\<lambda>s.
     if a_gdst_family s = AF_UNSPEC then arp_die 1
     else
       sbind (arp_call (ak_route sy (a_gdst s))) (\<lambda>r.
       sbind (case r of None \<Rightarrow> sret True | Some ms \<Rightarrow> route_msgs sy ms True) (\<lambda>failed.
       swhen failed (arp_die 1))))"

text \<open>Whether a device may be used; for a named device the program ends when it may not.\<close>

definition check_ifflags :: "ifaddr \<Rightarrow> ('k, bool) arm" where
  "check_ifflags ifa =
     sbind (sget id) (\<lambda>s.
     case a_name s of
       Some n \<Rightarrow>
         if \<not> ifa_up ifa
         then sbind (swhen (\<not> a_quiet s) (arp_put (''Interface '' @ [CHR 0x22] @ n @ [CHR 0x22] @ '' is down'' @ nl))) (\<lambda>_. arp_die 2)
         else if ifa_noarp ifa
         then sbind (swhen (\<not> a_quiet s) (arp_put (''Interface '' @ [CHR 0x22] @ n @ [CHR 0x22] @ '' is not ARPable'' @ nl))) (\<lambda>_.
              arp_die (if a_dad s then 0 else 2))
         else sret True
     | None \<Rightarrow> sret (ifa_up ifa \<and> \<not> ifa_noarp ifa))"

text \<open>The suitable devices, up to the second one.\<close>

fun scan_devices :: "ifaddr list \<Rightarrow> nat \<Rightarrow> ('k, nat) arm" where
  "scan_devices [] n = sret n"
| "scan_devices (ifa # r) n =
     sbind (sget a_name) (\<lambda>name.
     if \<not> ifa_packet ifa \<or> (case name of Some t \<Rightarrow> ifa_name ifa \<noteq> t | None \<Rightarrow> False) then scan_devices r n
     else
       sbind (check_ifflags ifa) (\<lambda>ok.
       if \<not> ok \<or> ifa_halen ifa = 0 \<or> ifa_broadaddr ifa = None then scan_devices r n
       else sbind (smod (\<lambda>s. s\<lparr>a_ifa := Some ifa\<rparr>)) (\<lambda>_.
            if n > 0 then sret (n + 1) else scan_devices r (n + 1))))"

definition check_device :: "'k arp_sys \<Rightarrow> ('k, unit) arm" where
  "check_device sy =
     sbind (arp_call (ak_getifaddrs sy)) (\<lambda>r.
     case r of
       None \<Rightarrow> arp_die 2
     | Some ifas \<Rightarrow>
         sbind (scan_devices ifas 0) (\<lambda>n.
         sbind (sget a_ifa) (\<lambda>ifa.
         case ifa of
           Some i \<Rightarrow>
             if n = 1
             then sbind (arp_call (ak_nametoindex sy (ifa_name i))) (\<lambda>x.
                  if x = 0 then arp_die 2
                  else smod (\<lambda>s. s\<lparr>a_ifindex := x, a_name := Some (ifa_name i)\<rparr>))
             else sret ()
         | None \<Rightarrow> sret ())))"

definition find_broadcast_address :: "'k arp_state \<Rightarrow> 'k arp_state" where
  "find_broadcast_address s =
     (let n = length (ll_addr (a_he s));
          default = s\<lparr>a_he := (a_he s)\<lparr>ll_addr := replicate n 0xff\<rparr>\<rparr>
      in case a_ifa s of
           Some i \<Rightarrow> (case ifa_broadaddr i of
                         Some b \<Rightarrow> if length b = n then s\<lparr>a_he := (a_he s)\<lparr>ll_addr := b\<rparr>\<rparr> else default
                       | None \<Rightarrow> default)
         | None \<Rightarrow> default)"

subsection \<open>main\<close>

definition arp_spec :: getopt_spec where
  "arp_spec = \<lparr>gs_short = map (\<lambda>c. (c, False)) ''h?bfDUAqV'' @ map (\<lambda>c. (c, True)) ''cwisI'', gs_long = []\<rparr>"

definition arp_num :: "num_error + int \<Rightarrow> (int \<Rightarrow> 'k arp_state \<Rightarrow> 'k arp_state) \<Rightarrow> ('k, unit) arm" where
  "arp_num r f = (case r of Inl _ \<Rightarrow> arp_die 1 | Inr v \<Rightarrow> smod (f v))"

definition arp_opt :: "opt_item \<Rightarrow> ('k, unit) arm" where
  "arp_opt item =
     (case item of (code, arg) \<Rightarrow>
      let c = char_of (nat code)
      in case arg of
           Some a \<Rightarrow>
             if c = CHR ''c'' then arp_num (strtol_or_err (Some a) 1 INT_MAX) (\<lambda>v s. s\<lparr>a_count := v\<rparr>)
             else if c = CHR ''w'' then arp_num (strtol_or_err (Some a) 0 INT_MAX) (\<lambda>v s. s\<lparr>a_timeout := v\<rparr>)
             else if c = CHR ''i'' then arp_num (strtol_or_err (Some a) 0 INT_MAX) (\<lambda>v s. s\<lparr>a_interval := v\<rparr>)
             else if c = CHR ''I'' then smod (\<lambda>s. s\<lparr>a_name := Some a\<rparr>)
             else if c = CHR ''s'' then smod (\<lambda>s. s\<lparr>a_source := Some a\<rparr>)
             else arp_die 2
         | None \<Rightarrow>
             if c = CHR ''b'' then smod (\<lambda>s. s\<lparr>a_broadcast_only := True\<rparr>)
             else if c = CHR ''D'' then smod (\<lambda>s. s\<lparr>a_dad := True, a_quit_on_reply := True\<rparr>)
             else if c = CHR ''U'' then smod (\<lambda>s. s\<lparr>a_unsolicited := True\<rparr>)
             else if c = CHR ''A'' then smod (\<lambda>s. s\<lparr>a_advert := True, a_unsolicited := True\<rparr>)
             else if c = CHR ''q'' then smod (\<lambda>s. s\<lparr>a_quiet := True\<rparr>)
             else if c = CHR ''f'' then smod (\<lambda>s. s\<lparr>a_quit_on_reply := True\<rparr>)
             else if c = CHR ''V'' then arp_die 0
             else arp_die 2)"

fun arp_opts :: "opt_item list \<Rightarrow> ('k, unit) arm" where
  "arp_opts [] = sret ()"
| "arp_opts (it # its) = sbind (arp_opt it) (\<lambda>_. arp_opts its)"

text \<open>A system call that gives whether it succeeded.\<close>

definition arp_must :: "('k \<Rightarrow> bool \<times> 'k) \<Rightarrow> ('k, unit) arm" where
  "arp_must f = sbind (arp_call f) (\<lambda>ok. swhen (\<not> ok) (arp_die 2))"

definition arp_target :: "'k arp_sys \<Rightarrow> string \<Rightarrow> ('k, unit) arm" where
  "arp_target sy target =
     (case ak_aton sy target of
        Some a \<Rightarrow> smod (\<lambda>s. s\<lparr>a_gdst := a, a_gdst_family := AF_INET\<rparr>)
      | None \<Rightarrow>
          sbind (arp_call (ak_getaddrinfo sy target)) (\<lambda>r.
          case r of
            None \<Rightarrow> arp_die 2
          | Some (a, fam) \<Rightarrow> smod (\<lambda>s. s\<lparr>a_gdst := a, a_gdst_family := fam\<rparr>)))"

definition arp_source :: "'k arp_sys \<Rightarrow> ('k, unit) arm" where
  "arp_source sy =
     sbind (sget a_source) (\<lambda>src.
     sbind (case src of
              Some t \<Rightarrow> (case ak_aton sy t of None \<Rightarrow> arp_die 2 | Some a \<Rightarrow> smod (\<lambda>s. s\<lparr>a_gsrc := a\<rparr>))
            | None \<Rightarrow> sret ()) (\<lambda>_.
     sbind (smod (\<lambda>s. if \<not> a_dad s \<and> a_unsolicited s \<and> src = None then s\<lparr>a_gsrc := a_gdst s\<rparr> else s)) (\<lambda>_.
     sbind (sget id) (\<lambda>s.
     swhen (\<not> a_dad s \<or> src \<noteq> None)
       (sbind (arp_must (ak_probe_socket sy)) (\<lambda>_.
        if src \<noteq> None \<or> a_gsrc s \<noteq> 0 then arp_must (ak_probe_bind sy (a_gsrc s))
        else if \<not> a_dad s
        then if a_unsolicited s then smod (\<lambda>s. s\<lparr>a_gsrc := a_gdst s\<rparr>)
             else
               sbind (arp_must (ak_probe_connect sy (a_gdst s))) (\<lambda>_.
               sbind (arp_call (ak_probe_getsockname sy)) (\<lambda>r.
               case r of None \<Rightarrow> arp_die 2 | Some a \<Rightarrow> smod (\<lambda>s. s\<lparr>a_gsrc := a\<rparr>)))
        else sret ()))))))"

definition arp_link :: "'k arp_sys \<Rightarrow> ('k, unit) arm" where
  "arp_link sy =
     sbind (sget a_ifindex) (\<lambda>i.
     sbind (arp_must (ak_bind sy i)) (\<lambda>_.
     sbind (arp_call (ak_getsockname sy)) (\<lambda>r.
     case r of
       None \<Rightarrow> arp_die 2
     | Some me \<Rightarrow>
         sbind (smod (\<lambda>s. s\<lparr>a_me := me\<rparr>)) (\<lambda>_.
         sbind (sget id) (\<lambda>s.
         sbind (swhen (ll_addr me = [])
                  (sbind (swhen (\<not> a_quiet s)
                     (arp_put (''Interface '' @ [CHR 0x22] @ (case a_name s of Some n \<Rightarrow> n | None \<Rightarrow> ''(null)'') @ [CHR 0x22]
                        @ '' is not ARPable (no ll address)'' @ nl))) (\<lambda>_. arp_die (if a_dad s then 0 else 2)))) (\<lambda>_.
         smod (\<lambda>s. find_broadcast_address (s\<lparr>a_he := me\<rparr>))))))))"

definition arp_prepare :: "'k arp_sys \<Rightarrow> string list \<Rightarrow> ('k, unit) arm" where
  "arp_prepare sy argv =
     (case getopt_all arp_spec (tl argv) of (items, args) \<Rightarrow>
      sbind (arp_opts items) (\<lambda>_.
      case args of
        [target] \<Rightarrow>
          sbind (arp_must (ak_socket sy)) (\<lambda>_.
          sbind (smod (\<lambda>s. if a_name s = Some [] then s\<lparr>a_name := None\<rparr> else s)) (\<lambda>_.
          sbind (arp_target sy target) (\<lambda>_.
          sbind (sget a_name) (\<lambda>name.
          sbind (swhen (name = None) (guess_device sy)) (\<lambda>_.
          sbind (check_device sy) (\<lambda>_.
          sbind (sget id) (\<lambda>s.
          sbind (swhen (a_ifindex s = 0 \<and> a_name s \<noteq> None) (arp_die 2)) (\<lambda>_.
          sbind (arp_source sy) (\<lambda>_.
          sbind (arp_link sy) (\<lambda>_.
          sbind (sget id) (\<lambda>s.
          sbind (swhen (\<not> a_quiet s) (arp_put (''ARPING '' @ inet_ntoa (a_gdst s) @ '' from '' @ inet_ntoa (a_gsrc s) @ '' ''
                   @ (case a_name s of Some n \<Rightarrow> n | None \<Rightarrow> []) @ nl))) (\<lambda>_.
          swhen (a_source s = None \<and> a_gsrc s = 0 \<and> \<not> a_dad s) (arp_die 2)))))))))))))
      | _ \<Rightarrow> arp_die 2))"

definition arping_main :: "'k arp_sys \<Rightarrow> string list \<Rightarrow> ('k, int) oarm" where
  "arping_main sy argv = obind (orun (arp_prepare sy argv)) (\<lambda>_. event_loop sy)"

definition arp_start :: "'k \<Rightarrow> 'k arp_state" where
  "arp_start k =
     \<lparr>a_name = None, a_ifindex = 0, a_ifa = None, a_source = None, a_gsrc = 0, a_gdst = 0, a_gdst_family = AF_UNSPEC,
      a_count = - 1, a_timeout = 0, a_interval = 1, a_me = \<lparr>sll_hatype = 0, ll_addr = []\<rparr>, a_he = \<lparr>sll_hatype = 0, ll_addr = []\<rparr>,
      a_last = \<lparr>tv_sec = 0, tv_nsec = 0\<rparr>, a_sent = 0, a_brd_sent = 0, a_received = 0, a_brd_recv = 0, a_req_recv = 0,
      a_advert = False, a_broadcast_only = False, a_dad = False, a_quiet = False, a_quit_on_reply = False, a_unicasting = False,
      a_unsolicited = False, a_total_expires = 1, a_exit_loop = False, a_out = [], a_kern = k\<rparr>"

subsection \<open>Which packets count\<close>

lemma length_octets: "length shw = n \<Longrightarrow> length dhw = n \<Longrightarrow> length (arp_octets hrd op1 shw sip dhw dip) = 8 + 2 * (4 + n)"
  by (simp add: arp_octets_def net_short_def be16_def be32_def)

lemma uint_net: "uint (word_of_int v :: 16 word) = v mod 65536"
  by (simp add: uint_word_of_int)

lemma octets_header:
  assumes "length shw = n" "n < 256" "0 \<le> hrd" "hrd < 65536" "op1 = ARPOP_REQUEST \<or> op1 = ARPOP_REPLY"
    and buf: "buf = arp_octets hrd op1 shw sip dhw dip @ junk"
  shows "hdr_short buf 0 = hrd" "hdr_short buf 2 = arp_proto hrd" "hdr_short buf 6 = op1" "unat (buf ! 4) = n" "buf ! 5 = 4"
proof -
  let ?tl = "shw @ be32 sip @ dhw @ be32 dip @ junk"
  have b: "buf = net_short hrd @ net_short (arp_proto hrd) @ [of_nat n, 4] @ net_short op1 @ ?tl"
    using assms(1) by (simp add: buf arp_octets_def)
  have h: "hdr_short (xs @ net_short v @ ys) (length xs) = v" if "0 \<le> v" "v < 65536" for xs ys v
    using that by (simp add: hdr_short_def net_short_def be16_at_be16 uint_net)
  have l: "length (net_short v) = 2" for v by (simp add: net_short_def be16_def)
  have pr: "0 \<le> arp_proto hrd" "arp_proto hrd < 65536" by (simp_all add: arp_proto_def)
  show "hdr_short buf 0 = hrd" using h [of hrd "[]"] assms(3,4) by (simp add: b)
  show "hdr_short buf 2 = arp_proto hrd" using h [OF pr, of "net_short hrd"] by (simp add: b l)
  show "hdr_short buf 6 = op1"
    using h [of op1 "net_short hrd @ net_short (arp_proto hrd) @ [of_nat n, 4]"] assms(5) by (auto simp: b l)
  have "unat (of_nat n :: byte) = n" using assms(2) by (simp add: unat_of_nat)
  then show "unat (buf ! 4) = n" by (simp add: b nth_append l)
  show "buf ! 5 = 4" by (simp add: b nth_append l)
qed

lemma octets_addresses:
  assumes "length shw = n" "length dhw = n"
    and buf: "buf = arp_octets hrd op1 shw sip dhw dip @ junk"
  shows "src_hw buf n = shw" "src_ip buf n = sip" "dst_hw buf n = dhw" "dst_ip buf n = dip"
proof -
  define hd8 where "hd8 = net_short hrd @ net_short (arp_proto hrd) @ [of_nat n, 4] @ net_short op1"
  have l: "length hd8 = 8" "length (be32 w) = 4" for w :: "32 word" by (simp_all add: hd8_def net_short_def be16_def be32_def)
  have b: "buf = hd8 @ shw @ be32 sip @ dhw @ be32 dip @ junk"
    using assms(1) by (simp add: buf arp_octets_def hd8_def)
  show "src_hw buf n = shw" using assms l by (simp add: src_hw_def b)
  show "src_ip buf n = sip" using be32_at_be32 [of "hd8 @ shw" sip "dhw @ be32 dip @ junk"] assms l by (simp add: src_ip_def b)
  show "dst_hw buf n = dhw" using assms l by (simp add: dst_hw_def b)
  show "dst_ip buf n = dip" using be32_at_be32 [of "hd8 @ shw @ be32 sip @ dhw" dip junk] assms l
    by (simp add: dst_ip_def b ac_simps)
qed

text \<open>
C33: A well-formed ARP packet counts exactly when it comes from the address asked for and is meant for
us: in normal mode it names our address and our station as the target, in duplicate address detection
it comes from another station, and from a request for our source address if one was given. After a
packet that counts and does not end the run, the next request goes to the station it came from.
\<close>
theorem arping_accepts:
  assumes "length shw = length (ll_addr (a_me s))" "length dhw = length (ll_addr (a_me s))" "length (ll_addr (a_me s)) < 256"
    and "op1 = ARPOP_REQUEST \<or> op1 = ARPOP_REPLY" "fr_pkttype from1 \<noteq> PACKET_OTHER"
    and "0 \<le> fr_hatype from1" "fr_hatype from1 < 65536" "hrd = arp_hrd (fr_hatype from1)"
    and "buf = arp_octets hrd op1 shw sip dhw dip @ junk" "8 + 2 * (4 + length shw) \<le> len"
    and "length (ll_addr (a_he s)) = length shw"
  defines "counts \<equiv> sip = a_gdst s \<and> (if a_dad s then shw \<noteq> ll_addr (a_me s) \<and> (a_gsrc s \<noteq> 0 \<longrightarrow> dip = a_gsrc s)
                      else dip = a_gsrc s \<and> dhw = ll_addr (a_me s))"
  shows "\<exists>v s'. recv_pack sy buf len from1 s = (Inr v, s') \<and> (v \<noteq> 0 \<longleftrightarrow> counts)
    \<and> a_received s' = a_received s + (if counts then 1 else 0)
    \<and> (v = 1 \<and> \<not> a_broadcast_only s \<longrightarrow> a_unicasting s' \<and> ll_addr (a_he s') = shw)"
proof -
  have hrd: "0 \<le> hrd" "hrd < 65536" using assms(6-8) by (simp_all add: arp_hrd_def)
  note h = octets_header [OF assms(1,3) hrd assms(4,9)]
  note a = octets_addresses [OF assms(1,2,9)]
  have ok: "header_ok (a_me s) buf len from1"
    using h assms(1,4-8,10) by (auto simp: header_ok_def arp_hrd_def)
  have fu: "for_us s buf \<longleftrightarrow> counts" by (auto simp: for_us_def Let_def a counts_def)
  obtain t k where t: "ak_clock sy (a_kern s) = (t, k)" by fastforce
  have fk: "for_us (s\<lparr>a_kern := k\<rparr>) buf \<longleftrightarrow> counts" by (auto simp: for_us_def Let_def a counts_def)
  show ?thesis
  proof (cases counts)
    case False
    then show ?thesis
      using ok fk by (simp add: recv_pack_def sbind_def arp_call_def t serr_defs)
  next
    case True
    then show ?thesis
      using ok fk a(1) assms(1,11)
      by (auto simp: recv_pack_def count_arp_def sbind_def arp_call_def t serr_defs swhen_def arp_put_def)
  qed
qed

lemma div_bounds: "(x :: int) div 1000 * 1000 \<le> x" "x < x div 1000 * 1000 + 1000"
  using div_mult_mod_eq [of x 1000] pos_mod_sign [of 1000 x] pos_mod_bound [of 1000 x] by linarith+

text \<open>
C35: The time \<open>arping\<close> prints with a reply is half a millisecond more than the time that passed since the
request, up to the rounding to microseconds.
\<close>
theorem arping_time_shown:
  assumes "shown_time ts last1 = (msecs, usecs)" "ts_ns last1 \<le> ts_ns ts"
  shows "0 \<le> usecs \<and> usecs < 1000 \<and> 0 \<le> msecs
    \<and> ts_ns ts - ts_ns last1 - 500 < (msecs * 1000 + usecs - 500) * 1000
    \<and> (msecs * 1000 + usecs - 500) * 1000 < ts_ns ts - ts_ns last1 + 1500"
proof -
  define d where "d = tv_nsec ts - tv_nsec last1"
  define u where "u = (tv_sec ts - tv_sec last1) * 1000000 + cdiv (d + 500) 1000"
  have dt: "ts_ns ts - ts_ns last1 = (tv_sec ts - tv_sec last1) * 1000000000 + d" by (simp add: ts_ns_def d_def algebra_simps)
  have "d - 500 < cdiv (d + 500) 1000 * 1000 \<and> cdiv (d + 500) 1000 * 1000 < d + 1500"
  proof (cases "0 \<le> d + 500")
    case True
    then have "cdiv (d + 500) 1000 = (d + 500) div 1000" by (simp add: cdiv_nonneg)
    moreover have "(d + 500) div 1000 * 1000 \<le> d + 500" "d + 500 < (d + 500) div 1000 * 1000 + 1000" by (rule div_bounds)+
    ultimately show ?thesis by simp
  next
    case False
    then have "cdiv (d + 500) 1000 = - (- (d + 500) div 1000)" by (simp add: cdiv_def)
    moreover have "- (d + 500) div 1000 * 1000 \<le> - (d + 500)" "- (d + 500) < - (d + 500) div 1000 * 1000 + 1000" by (rule div_bounds)+
    ultimately show ?thesis by simp
  qed
  then have u: "ts_ns ts - ts_ns last1 - 500 < u * 1000" "u * 1000 < ts_ns ts - ts_ns last1 + 1500"
    using dt by (simp_all add: u_def)
  then have u0: "0 \<le> u" using assms(2) by linarith
  have "msecs = (u + 500) div 1000" "usecs = u - (msecs * 1000 - 500)"
    using assms(1) u0 by (auto simp: shown_time_def Let_def u_def d_def cdiv_nonneg)
  moreover have "(u + 500) div 1000 * 1000 \<le> u + 500" "u + 500 < (u + 500) div 1000 * 1000 + 1000" by (rule div_bounds)+
  moreover have "0 \<le> (u + 500) div 1000" using u0 by (simp add: div_int_pos_iff)
  ultimately show ?thesis using u by simp
qed

subsection \<open>The number of requests\<close>

lemma arp_call_inv: "(\<And>s k. I s \<Longrightarrow> I (s\<lparr>a_kern := k\<rparr>)) \<Longrightarrow> sinv E I (arp_call f)"
  by (auto simp: sinv_def swp_def arp_call_def split: prod.split)

lemma sends_call:
  assumes "\<And>s k. I s \<Longrightarrow> I (s\<lparr>a_kern := k\<rparr>)"
  shows "sends I (arp_call f) (\<lambda>a s. I s \<and> (\<exists>k k'. f k = (a, k')))"
  using assms by (auto simp: sends_def arp_call_def split: prod.splits)

text \<open>Before the timer is looked at, and at the end of a round; \<open>C\<close> is the number of requests asked for.\<close>

definition on_time :: "int \<Rightarrow> 'k arp_state \<Rightarrow> bool" where
  "on_time C s \<longleftrightarrow> a_count s = C \<and> 1 \<le> a_total_expires s \<and> a_total_expires s \<le> C \<and> a_sent s \<le> a_total_expires s"

definition in_quota :: "int \<Rightarrow> 'k arp_state \<Rightarrow> bool" where
  "in_quota C s \<longleftrightarrow> a_count s = C \<and> a_sent s \<le> C \<and> (a_exit_loop s \<or> on_time C s)"

abbreviation arp_keeps :: "('k arp_state \<Rightarrow> bool) \<Rightarrow> ('k, 'a) arm \<Rightarrow> bool" where
  "arp_keeps \<equiv> sinv (\<lambda>_. True)"

lemma keeps_arp_put: "arp_keeps (in_quota C) (arp_put t)"
  unfolding arp_put_def by (rule sinv_smod) (auto simp: in_quota_def on_time_def)

lemma keeps_recv_pack: "arp_keeps (in_quota C) (recv_pack sy buf len from1)"
  unfolding recv_pack_def count_arp_def
  by (intro sinv_intros sinv_smod arp_call_inv keeps_arp_put) (auto simp: in_quota_def on_time_def)

lemma keeps_on_socket: "arp_keeps (in_quota C) (on_socket sy)"
  unfolding on_socket_def
  by (intro sinv_intros sinv_smod arp_call_inv keeps_recv_pack) (auto simp: in_quota_def on_time_def)

lemma keeps_finish: "arp_keeps (in_quota C) arp_finish"
  unfolding arp_finish_def by (intro sinv_intros keeps_arp_put)

lemma keeps_on_signal: "arp_keeps (on_time C) (on_signal sy)"
  unfolding on_signal_def by (intro sinv_intros sinv_smod arp_call_inv) (auto simp: on_time_def)

text \<open>Sending counts one request at most.\<close>

lemma sends_send_pack:
  assumes "\<And>s k. P s \<Longrightarrow> P (s\<lparr>a_kern := k\<rparr>)" "\<And>s. P s \<Longrightarrow> Q s"
    and "\<And>s now b. P s \<Longrightarrow> Q (s\<lparr>a_last := now, a_sent := a_sent s + 1, a_brd_sent := b\<rparr>)"
  shows "sends P (send_pack sy) (\<lambda>_. Q)"
proof -
  have c: "sends P (arp_call f) (\<lambda>_. P)" for f :: "'a \<Rightarrow> 'c \<times> 'a" by (rule sends_inv [OF arp_call_inv]) (rule assms(1))
  show ?thesis
    unfolding send_pack_def
    by (intro sends_bind [OF sends_sget [where Q = "\<lambda>_. P"]] sends_bind [OF sends_inv [OF sinv_sends]] sends_bind [OF c] sends_smod)
       (auto simp: assms sends_def sguard_Inr_iff)
qed

definition timer_ok :: "'k arp_sys \<Rightarrow> bool" where
  "timer_ok sy \<longleftrightarrow> (\<forall>k e k'. ak_read_timer sy k = (Some e, k') \<longrightarrow> 1 \<le> e \<and> e \<le> 2 ^ 63)"

lemma on_timer_quota:
  assumes "timer_ok sy" "C \<le> INT_MAX"
  shows "sends (on_time C) (on_timer sy) (\<lambda>_. in_quota C)"
proof -
  have "sends (\<lambda>s. on_time C s \<and> (\<exists>k k'. ak_read_timer sy k = (r, k')))
     (case r of None \<Rightarrow> sret () | Some exp1 \<Rightarrow>
         sbind (smod (\<lambda>s. s\<lparr>a_total_expires := (a_total_expires s + exp1) mod 2 ^ 64\<rparr>)) (\<lambda>_.
         sbind (sget id) (\<lambda>s.
         if 0 < a_count s \<and> a_count s < a_total_expires s then smod (\<lambda>s. s\<lparr>a_exit_loop := True\<rparr>)
         else send_pack sy))) (\<lambda>_. in_quota C)" for r
  proof (cases r)
    case None
    then show ?thesis by (auto intro!: sends_sret simp: in_quota_def on_time_def)
  next
    case (Some e)
    show ?thesis
    proof (cases "1 \<le> e \<and> e \<le> 2 ^ 63")
      case False
      then show ?thesis using Some assms(1) by (auto simp: sends_def timer_ok_def)
    next
      case True
      let ?P = "\<lambda>s. a_count s = C \<and> 1 \<le> C \<and> 1 \<le> a_total_expires s \<and> a_sent s + 1 \<le> a_total_expires s \<and> a_sent s \<le> C"
      have 1: "sends (\<lambda>s. on_time C s \<and> (\<exists>k k'. ak_read_timer sy k = (r, k')))
          (smod (\<lambda>s. s\<lparr>a_total_expires := (a_total_expires s + e) mod 2 ^ 64\<rparr>)) (\<lambda>_. ?P)"
      proof (rule sends_smod, goal_cases)
        case (1 s)
        then have "(a_total_expires s + e) mod 2 ^ 64 = a_total_expires s + e"
          using True assms(2) by (intro mod_pos_pos_trivial) (auto simp: on_time_def)
        with 1 True show ?case by (auto simp: on_time_def)
      qed
      have 2: "sends (\<lambda>s. ?P s \<and> s0 = s) (if 0 < a_count s0 \<and> a_count s0 < a_total_expires s0
          then smod (\<lambda>s. s\<lparr>a_exit_loop := True\<rparr>) else send_pack sy) (\<lambda>_. in_quota C)" for s0
      proof (rule sends_if, goal_cases)
        case 1
        show ?case by (rule sends_smod) (auto simp: in_quota_def)
      next
        case 2
        have "sends (\<lambda>s. ?P s \<and> a_total_expires s \<le> C) (send_pack sy) (\<lambda>_. in_quota C)"
          by (rule sends_send_pack) (auto simp: in_quota_def on_time_def)
        then show ?case by (rule sends_mono) (use 2 in auto)
      qed
      show ?thesis
        unfolding Some option.case
        by (rule sends_bind [OF 1 [unfolded Some]], rule sends_bind [OF sends_sget [where Q = "\<lambda>s0 s. ?P s \<and> s0 = s"] 2]) simp
    qed
  qed
  then show ?thesis
    unfolding on_timer_def by (intro sends_bind [OF sends_call]) (auto simp: on_time_def)
qed

lemma handle_events_quota:
  assumes "timer_ok sy" "C \<le> INT_MAX"
  shows "sends (on_time C) (handle_events sy ev) (\<lambda>_. in_quota C)"
proof -
  have t: "sends (on_time C) (swhen (ev_timer ev) (on_timer sy)) (\<lambda>_. in_quota C)"
    by (rule sends_swhen [OF on_timer_quota [OF assms]]) (auto simp: in_quota_def on_time_def)
  have x: "arp_keeps (in_quota C) (smod (\<lambda>s. s\<lparr>a_exit_loop := True\<rparr>))"
    by (rule sinv_smod) (auto simp: in_quota_def)
  show ?thesis
    unfolding handle_events_def
    by (intro sends_bind [OF sends_inv [OF sinv_swhen [OF keeps_on_signal]]] sends_bind [OF t] sends_inv sinv_intros keeps_on_socket x)
qed

lemma event_round_quota:
  assumes "timer_ok sy" "C \<le> INT_MAX"
  shows "arp_keeps (in_quota C) (event_round sy)"
proof (rule sinv_sends)
  have p: "sends (on_time C) (sbind (arp_call (ak_poll sy)) (\<lambda>r. case r of
         Inl en \<Rightarrow> sbind (smod (\<lambda>s. if en = EAGAIN then s else s\<lparr>a_exit_loop := True\<rparr>)) (\<lambda>_. sret None)
       | Inr ev \<Rightarrow> handle_events sy ev)) (\<lambda>_. in_quota C)"
  proof (rule sends_bind [OF sends_inv [OF arp_call_inv]], goal_cases)
    case (2 r)
    show ?case
    proof (cases r)
      case (Inl en)
      then show ?thesis
        by (auto intro!: sends_bind [OF sends_smod [where Q = "in_quota C"]] sends_sret simp: in_quota_def on_time_def)
    qed (simp add: handle_events_quota [OF assms])
  qed (simp add: on_time_def)
  have e: "sends (in_quota C) (sbind (smod (\<lambda>s. s\<lparr>a_exit_loop := True\<rparr>)) (\<lambda>_. sret None)) (\<lambda>_. in_quota C)"
    by (auto intro!: sends_bind [OF sends_smod [where Q = "in_quota C"]] sends_sret simp: in_quota_def)
  have f: "sends (in_quota C) (sbind arp_finish (\<lambda>v. sret (Some v))) (\<lambda>_. in_quota C)"
    by (intro sends_inv sinv_intros keeps_finish)
  show "sends (in_quota C) (event_round sy) (\<lambda>_. in_quota C)"
    unfolding event_round_def
    by (rule sends_bind [OF sends_sget [where Q = "\<lambda>s0 s. in_quota C s \<and> s0 = s"]], simp, intro sends_if)
       (auto intro: sends_mono [OF f] sends_mono [OF e] sends_mono [OF p] simp: in_quota_def)
qed

text \<open>
C34: With \<open>-c\<close>, with and without the deadline \<open>-w\<close>, the event loop sends at most the number of requests asked
for, whatever happens on the network and however late the timer is read. (The manual page says that with
\<open>-w\<close> the number is one of replies to wait for until the deadline; the code counts requests in both
cases, and gives up at the expiry after the last of them.)
\<close>
theorem arping_count:
  assumes "event_loop sy s = Some (Inr v, s')" "0 < a_count s" "a_count s \<le> INT_MAX" "a_sent s = 0"
    and "\<And>k e k'. ak_read_timer sy k = (Some e, k') \<Longrightarrow> 1 \<le> e \<and> e \<le> 2 ^ 63"
  shows "a_count s' = a_count s \<and> a_sent s' \<le> a_count s"
proof -
  let ?C = "a_count s"
  have t: "timer_ok sy" using assms(5) by (simp add: timer_ok_def)
  have loop: "oinv (\<lambda>_. True) (in_quota ?C) (ountil (orun (event_round sy)))"
    by (intro oinv_until oinv_run event_round_quota t assms)
  obtain ok k where k: "ak_timers sy (a_interval s) (a_timeout s) (a_kern s) = (ok, k)" by fastforce
  show ?thesis
  proof (cases ok)
    case False
    then show ?thesis
      using assms(1,2,4) k by (auto simp: event_loop_def obind_def orun_def arp_call_def serr_defs)
  next
    case True
    let ?s = "s\<lparr>a_kern := k, a_total_expires := 1, a_exit_loop := False\<rparr>"
    have run: "obind (orun (send_pack sy)) (\<lambda>_. ountil (orun (event_round sy))) ?s = Some (Inr v, s')"
      using assms(1) k True by (simp add: event_loop_def obind_def orun_def arp_call_def serr_defs)
    then obtain s1 where s1: "send_pack sy ?s = (Inr (), s1)" "ountil (orun (event_round sy)) s1 = Some (Inr v, s')"
      by (auto simp: obind_def orun_def split: prod.splits sum.splits)
    have "sends (\<lambda>s. a_count s = ?C \<and> a_sent s = 0 \<and> a_total_expires s = 1) (send_pack sy) (\<lambda>_. in_quota ?C)"
      by (rule sends_send_pack) (use assms(2) in \<open>auto simp: in_quota_def on_time_def\<close>)
    from sendsD [OF this _ s1(1)] have "in_quota ?C s1" using assms(4) by simp
    from oinvD [OF loop this s1(2)] show ?thesis by (simp add: in_quota_def)
  qed
qed

subsection \<open>Runs\<close>

text \<open>A station that does not answer, asked with a deadline of a minute, and a timer that is read late.\<close>

definition arp_demo :: "unit arp_sys" where
  "arp_demo = \<lparr>ak_clock = Pair \<lparr>tv_sec = 7, tv_nsec = 0\<rparr>, ak_sendto = (\<lambda>p _. Pair (int (length p))),
     ak_poll = Pair (Inr \<lparr>ev_signal = False, ev_timer = True, ev_timeout = False, ev_socket = False\<rparr>),
     ak_read_signal = Pair None, ak_read_timer = Pair (Some 2), ak_recvfrom = Pair (Inl EAGAIN), ak_timers = (\<lambda>_ _. Pair True),
     ak_socket = Pair True, ak_aton = (\<lambda>_. Some 0x0a000001), ak_getaddrinfo = (\<lambda>_. Pair None), ak_route = (\<lambda>_. Pair None),
     ak_indextoname = (\<lambda>_. Pair None), ak_nametoindex = (\<lambda>_. Pair 1), ak_getifaddrs = Pair (Some []), ak_probe_socket = Pair True,
     ak_probe_bind = (\<lambda>_. Pair True), ak_probe_connect = (\<lambda>_. Pair True), ak_probe_getsockname = Pair (Some 0x0a000002),
     ak_bind = (\<lambda>_. Pair True), ak_getsockname = Pair (Some \<lparr>sll_hatype = 1, ll_addr = [2, 0, 0, 0, 0, 1]\<rparr>)\<rparr>"

definition arp_demo_state :: "unit arp_state" where
  "arp_demo_state = (arp_start ())\<lparr>a_count := 3, a_timeout := 60, a_gdst := 0x0a000001, a_gsrc := 0x0a000002, a_quiet := True,
     a_me := \<lparr>sll_hatype = 1, ll_addr = [2, 0, 0, 0, 0, 1]\<rparr>, a_he := \<lparr>sll_hatype = 1, ll_addr = replicate 6 0xff\<rparr>\<rparr>"

lemma arp_demo_run: "\<exists>s'. event_loop arp_demo arp_demo_state = Some (Inr 1, s') \<and> a_sent s' = 2"
  by (simp add: event_loop_def event_round_def handle_events_def on_timer_def send_pack_def arp_finish_def arp_exit_code_def
      obind_def orun_def sbind_def serr_defs swhen_def arp_call_def arp_demo_def ountil.simps
      arp_packet_def arp_octets_def net_short_def be16_def be32_def arp_demo_state_def arp_start_def)

theorem arping_count_witness:
  "\<exists>s'. event_loop arp_demo arp_demo_state = Some (Inr 1, s') \<and> a_sent s' \<le> 3"
proof -
  obtain s' where r: "event_loop arp_demo arp_demo_state = Some (Inr 1, s')" using arp_demo_run by blast
  have "a_sent s' \<le> a_count arp_demo_state"
    using arping_count [OF r] by (simp add: arp_demo_state_def arp_start_def arp_demo_def)
  with r show ?thesis by (simp add: arp_demo_state_def)
qed

theorem arping_accepts_witness:
  "\<exists>v s'. recv_pack arp_demo (arp_octets 1 ARPOP_REPLY [2, 0, 0, 0, 0, 9] 0x0a000001 [2, 0, 0, 0, 0, 1] 0x0a000002 @ replicate 20 0) 28
      \<lparr>fr_pkttype = PACKET_HOST, fr_hatype = 1\<rparr> arp_demo_state = (Inr v, s') \<and> v \<noteq> 0 \<and> a_received s' = 1"
  using arping_accepts [where shw = "[2, 0, 0, 0, 0, 9]" and s = arp_demo_state and dhw = "[2, 0, 0, 0, 0, 1]" and ?op1.0 = ARPOP_REPLY
      and ?from1.0 = "\<lparr>fr_pkttype = PACKET_HOST, fr_hatype = 1\<rparr>" and sip = "0x0a000001" and dip = "0x0a000002"
      and hrd = 1 and junk = "replicate 20 0" and len = 28 and sy = arp_demo
      and buf = "arp_octets 1 ARPOP_REPLY [2, 0, 0, 0, 0, 9] 0x0a000001 [2, 0, 0, 0, 0, 1] 0x0a000002 @ replicate 20 0"]
  by (auto simp: arp_demo_state_def arp_start_def arp_hrd_def)

theorem arping_time_shown_witness:
  "shown_time \<lparr>tv_sec = 7, tv_nsec = 1234000\<rparr> \<lparr>tv_sec = 7, tv_nsec = 0\<rparr> = (1, 734)
    \<and> (1 * 1000 + 734 - 500) * 1000 < ts_ns \<lparr>tv_sec = 7, tv_nsec = 1234000\<rparr> - ts_ns \<lparr>tv_sec = 7, tv_nsec = 0\<rparr> + 1500"
proof -
  have "shown_time \<lparr>tv_sec = 7, tv_nsec = 1234000\<rparr> \<lparr>tv_sec = 7, tv_nsec = 0\<rparr> = (1, 734)" by code_simp
  with arping_time_shown [OF this] show ?thesis by (simp add: ts_ns_def)
qed

end
