(* ===== verification/Spec2Isabelle.thy ===== *)
theory Spec2Isabelle
  imports Md5 Bl_Handshake Bmtr Bping Btraceroute Baudit Bclockdiff Ping_Limits Tracepath Arping
begin

text \<open>
  A verification of \<open>bsh-iputils\<close>, network diagnostics in C: tools that measure distances with the speed
  of light (\<open>bping\<close>, \<open>btraceroute\<close>, \<open>bmtr\<close>, \<open>baudit\<close>), the clock difference tools, a client library for
  the BrightLink position service, and the \<open>ping\<close> and other sources of iputils they come with.

  \<^bold>\<open>How the code is read.\<close> A function of the source is a HOL function of the same name where the name is
  free. Integers have their width where it matters: words, or integers with the wrap-around written
  out (theory \<open>C_Prelude\<close>); values of type \<open>double\<close> are real numbers, with infinities and undefined
  values where the code can meet them. Functions with errors or effects are in a state and error monad
  (\<open>sbind\<close> and its relatives in \<open>C_Prelude\<close>); loops whose end depends on the environment are in the
  monad with \<open>None\<close> for not returning (theory \<open>C_Loop\<close>, \<open>ountil\<close>). Undefined behaviour, such as a read or
  write outside of an array, is an error value of its own, so that its absence is a theorem. The
  kernel, name resolution, OpenSSL, libsecp256k1 and the programs the tools start are parameters:
  functions on a state of any type. What a theorem needs of them is a hypothesis of it.

  \<^bold>\<open>Parts and theories.\<close>
  \<^item> \<open>Iputils_Color\<close>: \<open>iputils_color.c\<close>, colour settings from the arguments and the environment.
  \<^item> \<open>Iputils_Common\<close>: \<open>iputils_common.c\<close>, checked numbers, stream closing, time differences.
  \<^item> \<open>Md5\<close>: \<open>md5.c\<close>. \<open>Inet_Cksum\<close>: the checksum routines of \<open>clockdiff.c\<close> and \<open>ping.c\<close>, and octet codecs.
  \<^item> \<open>Bl_Codec\<close>, \<open>Bl_Json\<close>, \<open>Base64\<close>, \<open>Bl_Crypto\<close>, \<open>Bl_Pin_Store\<close>, \<open>Bl_Client\<close>, \<open>Bl_Handshake\<close>: \<open>libbrightlink\<close>,
    from the transcript and the framing to registration and position requests. The pin store is an
    interface with a memory and a file implementation; the client is proved against the interface.
    \<open>Bl_Handshake\<close> runs the client against an honest bridge. The theorem of this theory joins client and
    file store: trust on first use across processes.
  \<^item> \<open>Brightspace\<close>, \<open>Bl_Glue\<close>, \<open>Btools\<close>: \<open>brightspace.h\<close> and \<open>brightlink_glue.h\<close>, shared by the tools;
    \<open>Bping\<close>, \<open>Btraceroute\<close>, \<open>Bmtr\<close>, \<open>Baudit\<close>: the tools of these names, with their command lines and output.
  \<^item> \<open>Clockdiff\<close>, \<open>Getopt\<close>, \<open>Bclockdiff\<close>: \<open>clockdiff.c\<close>, \<open>clockdiff_compat.h\<close> and \<open>bclockdiff.c\<close>.
  \<^item> \<open>Ping_State\<close>, \<open>Ping_Json\<close>, \<open>Ping_Stats\<close>, \<open>Ping_Loop\<close>, \<open>Ping4\<close>, \<open>Ping_Main\<close>, \<open>Ping_Limits\<close>: \<open>ping\<close>, from the run
    state and its tables to the main loop, the IPv4 side and \<open>main\<close>.

  \<^bold>\<open>What is shown.\<close> Of the library: that a registration is authenticated, agrees with an honest bridge,
  fails safely and never gives up a pin; round trips of transcript, JSON, Base64 and envelopes; exact
  framing; atomic saving. Of the tools: that verdicts and warnings agree with the speed of light, that
  distances form a metric, that statistics are those of the samples, that loops end. Of the clock
  tools: accuracy against a host that answers and the end against one that does not, and agreement
  of the two programs. Of \<open>ping\<close>: the window of outstanding requests and the table of received numbers
  refine sets over unbounded numbers, requests are well-formed and their echoes are recognised with
  the right time, parsing stays in bounds, the rate is limited, and the command line establishes what
  the main loop relies on. Some theorems show what the code does wrong; they are listed as findings.

  \<^bold>\<open>Bounds and loops.\<close> Option parsing in \<open>pr_options\<close> is bounded by the octets left, because every step
  consumes at least one. The framing and the sending loops recurse on the script of system calls.
  The measurement loop of \<open>clockdiff\<close> recurses on the requests left. The loops of \<open>ping\<close> and of the
  other programs with \<open>ountil\<close> return exactly when the C loop does.

  \<^bold>\<open>Not modelled.\<close> Usage and version texts, translated messages, capabilities, locales and messages on
  standard error; rounding of \<open>double\<close>; the tests.
\<close>

subsection \<open>Trust on first use across processes\<close>

definition file_store :: "save_faults \<Rightarrow> string \<Rightarrow> fs bl_pin_store" where
  "file_store flt path = \<lparr>ps_load = file_load path, ps_save = file_save flt path,
     ps_free = Some id, own_ctx = True\<rparr>"

text \<open>
C1: Trust on first use holds across processes: once a first process has registered with no pin on
file and its pin was saved, the file holds the key under which the signature over that session's transcript
was verified. Whatever later processes on the same file meet, other bridges included, none of them changes the
file, and each one that registers has verified a signature under that very key of the first process, over the
transcript of its own session: drawn from its own nonce and share, for the session it then has. A bridge that
shows another key never gets a session.
\<close>
theorem tofu_across_processes:
  assumes "file_load path fs = None"
    and "client_run dbl (file_store flt path) r fs = (Inr (), t)"
    and "fst (file_save flt path (pin_pub65 (cl t)) fs)"
  shows "file_load path (pin_ctx t) = Some (pin_pub65 (cl t))
    \<and> session_verified (fst r) dbl (pin_pub65 (cl t)) t
    \<and> list_all2 (\<lambda>(env, _) (res, t'). pin_ctx t' = pin_ctx t
         \<and> (case res of Inl _ \<Rightarrow> True
            | Inr _ \<Rightarrow> pin_pub65 (cl t') = pin_pub65 (cl t) \<and> session_verified env dbl (pin_pub65 (cl t)) t'))
       rs (client_runs dbl (file_store flt path) rs (pin_ctx t))"
proof -
  obtain env u where r: "r = (env, u)" by (cases r)
  define s where "s = (upd_cl (\<lambda>c. c\<lparr>session_active := False, pin_loaded := False,
          the_pin_store := file_store flt path\<rparr>) u)\<lparr>pin_ctx := fs\<rparr>"
  have "bl_register env dbl s = (Inr (), t)" "\<not> session_active (cl s)" "known_pin s = None"
    and s: "the_pin_store (cl s) = file_store flt path" "pin_ctx s = fs"
    using assms(1,2) by (simp_all add: client_run_def r s_def known_pin_def file_store_def)
  from bl_register_Inr [OF this(2,1)] this(3) have
    "pin65 (pin_pub65 (cl t))" "pin_ctx t = snd (file_save flt path (pin_pub65 (cl t)) fs)"
    and "session_verified env dbl (pin_pub65 (cl t)) t"
    by (auto simp: s file_store_def session_verified_def)
  then have load: "file_load path (pin_ctx t) = Some (pin_pub65 (cl t))"
    using filest.load_save assms(3) by simp
  then have "ps_load (file_store flt path) (pin_ctx t) = Some (pin_pub65 (cl t))"
    by (simp add: file_store_def)
  from client_runs_stored [OF this] load \<open>session_verified env dbl (pin_pub65 (cl t)) t\<close> show ?thesis
    by (simp add: r)
qed

theorem tofu_across_processes_witness:
  "\<exists>t :: (fs, int) bl_st. file_load ''p'' (pin_ctx t) = Some (pin_pub65 (cl t))
    \<and> session_verified xor_env int_dbl (pin_pub65 (cl t)) t
    \<and> list_all2 (\<lambda>(env, _) (res, t'). pin_ctx t' = pin_ctx t
         \<and> (case res of Inl _ \<Rightarrow> True
            | Inr _ \<Rightarrow> pin_pub65 (cl t') = pin_pub65 (cl t) \<and> session_verified env int_dbl (pin_pub65 (cl t)) t'))
       [(xor_env, demo_start (file_store no_faults ''p'') Map.empty),
        (xor_env, (demo_start (file_store no_faults ''p'') Map.empty)\<lparr>conn_evs := []\<rparr>)]
       (client_runs int_dbl (file_store no_faults ''p'')
          [(xor_env, demo_start (file_store no_faults ''p'') Map.empty),
           (xor_env, (demo_start (file_store no_faults ''p'') Map.empty)\<lparr>conn_evs := []\<rparr>)] (pin_ctx t))"
proof -
  let ?st = "file_store no_faults ''p''"
  have none: "file_load ''p'' Map.empty = None" by (simp add: file_load_def read_file_def)
  obtain t where t: "bl_register xor_env int_dbl (demo_start ?st Map.empty) = (Inr (), t)"
      "pin_pub65 (cl t) = br_sep demo_bridge"
    using demo_run [of ?st Map.empty] none by (auto simp: file_store_def)
  have "client_run int_dbl ?st (xor_env, demo_start ?st Map.empty) Map.empty = (Inr (), t)"
    using t(1) by (simp add: client_run_def demo_start_def demo_st_def demo_client_def)
  moreover have "fst (file_save no_faults ''p'' (pin_pub65 (cl t)) Map.empty)"
    unfolding t(2) by code_simp
  ultimately show ?thesis using tofu_across_processes [OF none] by fastforce
qed

end
